(* ===== verification/Decimals.thy ===== *)
theory Decimals
  imports Complex_Main Prelude
begin

section \<open>The decimal arithmetic the code calls\<close>

text \<open>
  Every amount is a \<open>rust_decimal::Decimal\<close>, a crate outside the repository. Its operations are
  the fields of a record that the definitions of the model take as an argument; a record field
  \<open>d_checked_add\<close> is the method \<open>checked_add\<close>, and so on. The operators \<open>+ - * /\<close> of the crate
  panic exactly where the checked method returns \<open>None\<close>, so the model writes them with the checked
  field and a panic branch.

  \<open>dec_laws D v\<close> states what the crate documents, over the rational \<open>v d\<close> a decimal \<open>d\<close> denotes:
  a decimal is a 96-bit integer scaled by a power of ten between 0 and 28, comparison is numeric,
  an operation whose exact result is such a number returns it, \<open>round_dp\<close> rounds half to even,
  \<open>d_trunc_dp\<close> (\<open>round_dp_with_strategy\<close> with \<open>ToZero\<close>) truncates.
  Nothing is assumed of an operation whose exact result does not fit. \<open>ref_dec\<close> is an instance
  (an integer and a scale) on which the hypotheses of the properties are shown to hold.
\<close>

record 'd dec_lib =
  d_zero :: 'd
  d_from_str :: "string \<Rightarrow> 'd option"
  d_from_str_exact :: "string \<Rightarrow> 'd option"
  d_of_nat :: "nat \<Rightarrow> 'd"
  d_le :: "'d \<Rightarrow> 'd \<Rightarrow> bool"
  d_checked_add :: "'d \<Rightarrow> 'd \<Rightarrow> 'd option"
  d_checked_sub :: "'d \<Rightarrow> 'd \<Rightarrow> 'd option"
  d_checked_mul :: "'d \<Rightarrow> 'd \<Rightarrow> 'd option"
  d_checked_div :: "'d \<Rightarrow> 'd \<Rightarrow> 'd option"
  d_round_dp :: "'d \<Rightarrow> nat \<Rightarrow> 'd"
  d_trunc_dp :: "'d \<Rightarrow> nat \<Rightarrow> 'd"
  d_scale :: "'d \<Rightarrow> nat"
  d_normalize :: "'d \<Rightarrow> 'd"
  d_is_sign_negative :: "'d \<Rightarrow> bool"
  d_show :: "'d \<Rightarrow> string"

definition d_lt :: "'d dec_lib \<Rightarrow> 'd \<Rightarrow> 'd \<Rightarrow> bool" where
  "d_lt D a b \<longleftrightarrow> \<not> d_le D b a"

definition d_eq :: "'d dec_lib \<Rightarrow> 'd \<Rightarrow> 'd \<Rightarrow> bool" where
  "d_eq D a b \<longleftrightarrow> d_le D a b \<and> d_le D b a"

definition d_is_zero :: "'d dec_lib \<Rightarrow> 'd \<Rightarrow> bool" where
  "d_is_zero D a \<longleftrightarrow> d_eq D a (d_zero D)"

definition d_max :: "'d dec_lib \<Rightarrow> 'd \<Rightarrow> 'd \<Rightarrow> 'd" where
  "d_max D a b = (if d_lt D b a then a else b)"

text \<open>The operators: the checked method, with a panic where it returns \<open>None\<close>.\<close>

datatype panic = Panic string

definition dec_add :: "'d dec_lib \<Rightarrow> 'd \<Rightarrow> 'd \<Rightarrow> panic + 'd" where
  "dec_add D a b = ok_or (d_checked_add D a b) (Panic ''Addition overflowed'')"

definition dec_sub :: "'d dec_lib \<Rightarrow> 'd \<Rightarrow> 'd \<Rightarrow> panic + 'd" where
  "dec_sub D a b = ok_or (d_checked_sub D a b) (Panic ''Subtraction overflowed'')"

definition dec_mul :: "'d dec_lib \<Rightarrow> 'd \<Rightarrow> 'd \<Rightarrow> panic + 'd" where
  "dec_mul D a b = ok_or (d_checked_mul D a b) (Panic ''Multiplication overflowed'')"

definition dec_div :: "'d dec_lib \<Rightarrow> 'd \<Rightarrow> 'd \<Rightarrow> panic + 'd" where
  "dec_div D a b = ok_or (d_checked_div D a b) (Panic ''Division failed'')"

lemmas dec_op_defs = dec_add_def dec_sub_def dec_mul_def dec_div_def

subsection \<open>What the crate documents\<close>

definition dec_repr :: "rat \<Rightarrow> bool" where
  "dec_repr q \<longleftrightarrow> (\<exists>(m::int) (s::nat). s \<le> 28 \<and> \<bar>m\<bar> < 2 ^ 96 \<and> q = of_int m / 10 ^ s)"

definition half_even :: "rat \<Rightarrow> int" where
  "half_even x = (let q = \<lfloor>x\<rfloor>; r = x - of_int q in
     if r < 1 / 2 then q else if 1 / 2 < r then q + 1 else if even q then q else q + 1)"

definition dec_laws :: "'d dec_lib \<Rightarrow> ('d \<Rightarrow> rat) \<Rightarrow> bool" where
  "dec_laws D v \<longleftrightarrow>
     v (d_zero D) = 0 \<and>
     (\<forall>a b. d_le D a b \<longleftrightarrow> v a \<le> v b) \<and>
     (\<forall>n<2 ^ 64. v (d_of_nat D n) = of_nat n) \<and>
     (\<forall>a b. dec_repr (v a + v b) \<longrightarrow> (\<exists>c. d_checked_add D a b = Some c \<and> v c = v a + v b)) \<and>
     (\<forall>a b. dec_repr (v a - v b) \<longrightarrow> (\<exists>c. d_checked_sub D a b = Some c \<and> v c = v a - v b)) \<and>
     (\<forall>a b. dec_repr (v a * v b) \<longrightarrow> (\<exists>c. d_checked_mul D a b = Some c \<and> v c = v a * v b)) \<and>
     (\<forall>a b. v b \<noteq> 0 \<longrightarrow> dec_repr (v a / v b) \<longrightarrow>
        (\<exists>c. d_checked_div D a b = Some c \<and> v c = v a / v b)) \<and>
     (\<forall>a b. v b = 0 \<longrightarrow> d_checked_div D a b = None) \<and>
     (\<forall>a n. v (d_round_dp D a n) = of_int (half_even (v a * 10 ^ n)) / 10 ^ n) \<and>
     (\<forall>a n. d_scale D (d_round_dp D a n) \<le> n) \<and>
     (\<forall>a n. 0 \<le> v a \<longrightarrow> v (d_trunc_dp D a n) = of_int \<lfloor>v a * 10 ^ n\<rfloor> / 10 ^ n) \<and>
     (\<forall>a. \<exists>m. v a = of_int m / 10 ^ d_scale D a) \<and>
     (\<forall>a. v (d_normalize D a) = v a) \<and>
     (\<forall>a k m. v a = of_int m / 10 ^ k \<longrightarrow> d_scale D (d_normalize D a) \<le> k) \<and>
     (\<forall>a. v a < 0 \<longrightarrow> d_is_sign_negative D a) \<and>
     (\<forall>a. d_is_sign_negative D a \<longrightarrow> v a \<le> 0)"

lemma dec_laws_zero: "dec_laws D v \<Longrightarrow> v (d_zero D) = 0"
  by (simp add: dec_laws_def)

lemma dec_laws_le: "dec_laws D v \<Longrightarrow> d_le D a b \<longleftrightarrow> v a \<le> v b"
  by (simp add: dec_laws_def)

lemma dec_laws_lt: "dec_laws D v \<Longrightarrow> d_lt D a b \<longleftrightarrow> v a < v b"
  by (auto simp: dec_laws_le d_lt_def)

lemma dec_laws_eq: "dec_laws D v \<Longrightarrow> d_eq D a b \<longleftrightarrow> v a = v b"
  by (auto simp: dec_laws_le d_eq_def)

lemma dec_laws_is_zero: "dec_laws D v \<Longrightarrow> d_is_zero D a \<longleftrightarrow> v a = 0"
  by (simp add: d_is_zero_def dec_laws_eq dec_laws_zero)

lemma dec_laws_max: "dec_laws D v \<Longrightarrow> v (d_max D a b) = max (v a) (v b)"
  by (auto simp: d_max_def dec_laws_lt)

lemma dec_laws_of_nat: "dec_laws D v \<Longrightarrow> n < 2 ^ 64 \<Longrightarrow> v (d_of_nat D n) = of_nat n"
  by (simp add: dec_laws_def)

lemma dec_laws_add:
  "dec_laws D v \<Longrightarrow> dec_repr (v a + v b) \<Longrightarrow>
     \<exists>c. d_checked_add D a b = Some c \<and> v c = v a + v b"
  by (simp add: dec_laws_def)

lemma dec_laws_sub:
  "dec_laws D v \<Longrightarrow> dec_repr (v a - v b) \<Longrightarrow>
     \<exists>c. d_checked_sub D a b = Some c \<and> v c = v a - v b"
  by (simp add: dec_laws_def)

lemma dec_laws_mul:
  "dec_laws D v \<Longrightarrow> dec_repr (v a * v b) \<Longrightarrow>
     \<exists>c. d_checked_mul D a b = Some c \<and> v c = v a * v b"
  by (simp add: dec_laws_def)

lemma dec_laws_div:
  "dec_laws D v \<Longrightarrow> v b \<noteq> 0 \<Longrightarrow> dec_repr (v a / v b) \<Longrightarrow>
     \<exists>c. d_checked_div D a b = Some c \<and> v c = v a / v b"
  by (simp add: dec_laws_def)

lemma dec_laws_div_zero: "dec_laws D v \<Longrightarrow> v b = 0 \<Longrightarrow> d_checked_div D a b = None"
  by (simp add: dec_laws_def)

lemma dec_laws_round:
  "dec_laws D v \<Longrightarrow> v (d_round_dp D a n) = of_int (half_even (v a * 10 ^ n)) / 10 ^ n"
  by (simp add: dec_laws_def)

lemma dec_laws_round_scale: "dec_laws D v \<Longrightarrow> d_scale D (d_round_dp D a n) \<le> n"
  by (simp add: dec_laws_def)

lemma dec_laws_trunc:
  "dec_laws D v \<Longrightarrow> 0 \<le> v a \<Longrightarrow> v (d_trunc_dp D a n) = of_int \<lfloor>v a * 10 ^ n\<rfloor> / 10 ^ n"
  by (simp add: dec_laws_def)

lemma dec_laws_scale: "dec_laws D v \<Longrightarrow> \<exists>m. v a = of_int m / 10 ^ d_scale D a"
  by (simp add: dec_laws_def)

lemma dec_laws_normalize: "dec_laws D v \<Longrightarrow> v (d_normalize D a) = v a"
  by (simp add: dec_laws_def)

lemma dec_laws_normalize_scale:
  "dec_laws D v \<Longrightarrow> v a = of_int m / 10 ^ k \<Longrightarrow> d_scale D (d_normalize D a) \<le> k"
  unfolding dec_laws_def by blast

lemma dec_laws_negative: "dec_laws D v \<Longrightarrow> v a < 0 \<Longrightarrow> d_is_sign_negative D a"
  by (simp add: dec_laws_def)

lemma dec_laws_not_negative: "dec_laws D v \<Longrightarrow> \<not> d_is_sign_negative D a \<Longrightarrow> 0 \<le> v a"
  using dec_laws_negative [of D v a] by linarith

lemma dec_laws_sign: "dec_laws D v \<Longrightarrow> d_is_sign_negative D a \<Longrightarrow> v a \<le> 0"
  by (simp add: dec_laws_def)

lemmas dec_order = dec_laws_zero dec_laws_le dec_laws_lt dec_laws_eq dec_laws_is_zero

text \<open>A decimal that was parsed (or zero) prints to a text that parses to the same value.\<close>

definition text_laws :: "'d dec_lib \<Rightarrow> ('d \<Rightarrow> rat) \<Rightarrow> bool" where
  "text_laws D v \<longleftrightarrow>
     (\<exists>d'. d_from_str D (d_show D (d_zero D)) = Some d' \<and> v d' = v (d_zero D)) \<and>
     (\<forall>s d. d_from_str D s = Some d \<longrightarrow> (\<exists>d'. d_from_str D (d_show D d) = Some d' \<and> v d' = v d))"

subsection \<open>Rounding and representable numbers\<close>

lemma half_even_int [simp]: "half_even (of_int m) = m"
  by (simp add: half_even_def)

lemma half_even_bounds: "x - 1 / 2 \<le> of_int (half_even x)" "of_int (half_even x) \<le> x + 1 / 2"
proof -
  define q where "q = \<lfloor>x\<rfloor>"
  have "of_int q \<le> x" "x < of_int q + 1" unfolding q_def by linarith+
  then show "x - 1 / 2 \<le> of_int (half_even x)" "of_int (half_even x) \<le> x + 1 / 2"
    by (simp_all add: half_even_def Let_def flip: q_def)
qed

lemma half_even_mono: "x \<le> y \<Longrightarrow> half_even x \<le> half_even y"
proof (cases "\<lfloor>x\<rfloor> = \<lfloor>y\<rfloor>")
  case True
  assume "x \<le> y"
  with True show ?thesis by (auto simp: half_even_def Let_def)
next
  case False
  assume "x \<le> y"
  with False have "\<lfloor>x\<rfloor> + 1 \<le> \<lfloor>y\<rfloor>" using floor_mono [of x y] by linarith
  moreover have "half_even x \<le> \<lfloor>x\<rfloor> + 1" "\<lfloor>y\<rfloor> \<le> half_even y"
    by (auto simp: half_even_def Let_def)
  ultimately show ?thesis by linarith
qed

lemma half_even_nonneg: "0 \<le> x \<Longrightarrow> 0 \<le> half_even x"
  using half_even_mono [of 0 x] half_even_int [of 0] by simp

lemma half_even_le_int: "x \<le> of_int m \<Longrightarrow> half_even x \<le> m"
  using half_even_mono [of x "of_int m"] by simp

definition at_scale :: "nat \<Rightarrow> rat \<Rightarrow> bool" where
  "at_scale n q \<longleftrightarrow> (\<exists>m::int. q = of_int m / 10 ^ n)"

lemma at_scale_0 [simp]: "at_scale n 0"
  unfolding at_scale_def by (rule exI [of _ 0]) simp

lemma at_scale_add: "at_scale n a \<Longrightarrow> at_scale n b \<Longrightarrow> at_scale n (a + b)"
  unfolding at_scale_def by (metis add_divide_distrib of_int_add)

lemma at_scale_diff: "at_scale n a \<Longrightarrow> at_scale n b \<Longrightarrow> at_scale n (a - b)"
  unfolding at_scale_def by (metis diff_divide_distrib of_int_diff)

lemma at_scale_sum_list: "(\<forall>x\<in>set xs. at_scale n (f x)) \<Longrightarrow> at_scale n (sum_list (map f xs))"
  by (induction xs) (auto intro: at_scale_add)

lemma at_scale_weaken: "at_scale k q \<Longrightarrow> k \<le> n \<Longrightarrow> at_scale n q"
proof -
  assume "at_scale k q" "k \<le> n"
  then obtain m d where "q = of_int m / 10 ^ k" and "n = k + d"
    by (auto simp: at_scale_def le_iff_add)
  then have "q = of_int (m * 10 ^ d) / 10 ^ n"
    by (simp add: power_add)
  then show ?thesis unfolding at_scale_def by blast
qed

lemma at_scale_of_nat [simp]: "at_scale n (of_nat k)"
  using at_scale_weaken [of 0 "of_nat k" n] unfolding at_scale_def
  by (metis div_by_1 le0 of_int_of_nat_eq power_0)

lemma at_scale_mult: "at_scale m a \<Longrightarrow> at_scale n b \<Longrightarrow> at_scale (m + n) (a * b)"
  unfolding at_scale_def by (metis of_int_mult power_add times_divide_times_eq)

lemma at_scale_round: "dec_laws D v \<Longrightarrow> at_scale n (v (d_round_dp D a n))"
  by (auto simp: at_scale_def dec_laws_round)

lemma dec_repr_at_scale:
  assumes "at_scale n q" and "n \<le> 28" and "\<bar>q\<bar> < 2 ^ 96 / 10 ^ n"
  shows "dec_repr q"
proof -
  obtain m where m: "q = of_int m / 10 ^ n" using assms(1) by (auto simp: at_scale_def)
  have "\<bar>of_int m :: rat\<bar> < 2 ^ 96"
    using assms(3) m by (simp add: abs_divide divide_less_cancel)
  then have "of_int \<bar>m\<bar> < (of_int (2 ^ 96) :: rat)" by simp
  then have "\<bar>m\<bar> < 2 ^ 96" by (simp only: of_int_less_iff)
  with assms(2) m show ?thesis unfolding dec_repr_def by blast
qed

lemma round_at_scale_id:
  assumes "dec_laws D v" and "at_scale n (v a)"
  shows "v (d_round_dp D a n) = v a"
proof -
  obtain m where "v a = of_int m / 10 ^ n" using assms(2) by (auto simp: at_scale_def)
  then show ?thesis using assms(1) by (simp add: dec_laws_round)
qed

end
