(* ===== verification/RefDecimal.thy ===== *)
theory RefDecimal
  imports Decimals
begin

section \<open>A reference instance of the decimal library\<close>

text \<open>
  An integer and a scale, with exact sums and products and quotients cut at 28 digits. The
  witnesses of the properties run the model on it; \<open>ref_dec_laws\<close> shows that the documented laws
  can hold.
\<close>

type_synonym rdec = "int \<times> nat"

definition ref_val :: "rdec \<Rightarrow> rat" where
  "ref_val d = of_int (fst d) / 10 ^ snd d"

fun digits_val :: "nat \<Rightarrow> string \<Rightarrow> nat option" where
  "digits_val n [] = Some n"
| "digits_val n (c # cs) =
     (let k = (of_char c :: nat) in
      if 48 \<le> k \<and> k \<le> 57 then digits_val (10 * n + (k - 48)) cs else None)"

definition ref_from_str :: "string \<Rightarrow> rdec option" where
  "ref_from_str s =
     (let neg = (s \<noteq> [] \<and> hd s = CHR ''-'');
          body = (if neg then tl s else s);
          ip = takeWhile (\<lambda>c. c \<noteq> CHR ''.'') body;
          fp = tl (dropWhile (\<lambda>c. c \<noteq> CHR ''.'') body)
      in if ip @ fp = [] \<or> 28 < length fp then None
         else map_option (\<lambda>n. (if neg then - int n else int n, length fp)) (digits_val 0 (ip @ fp)))"

definition ref_fit :: "rdec \<Rightarrow> rdec option" where
  "ref_fit d = (if \<bar>fst d\<bar> < 2 ^ 96 * 10 ^ snd d then Some d else None)"

definition half_even_div :: "int \<Rightarrow> int \<Rightarrow> int" where
  "half_even_div a b = (let q = a div b; r = a mod b in
     if 2 * r < b then q else if b < 2 * r then q + 1 else if even q then q else q + 1)"

fun strip10 :: "int \<Rightarrow> nat \<Rightarrow> rdec" where
  "strip10 m 0 = (m, 0)"
| "strip10 m (Suc s) = (if m mod 10 = 0 then strip10 (m div 10) s else (m, Suc s))"

definition ref_show :: "rdec \<Rightarrow> string" where
  "ref_show d =
     (let a = nat \<bar>fst d\<bar>; ip = show_nat (a div 10 ^ snd d); fp = show_nat (a mod 10 ^ snd d)
      in (if fst d < 0 then ''-'' else []) @ ip @
         (if snd d = 0 then [] else ''.'' @ replicate (snd d - length fp) CHR ''0'' @ fp))"

definition ref_dec :: "rdec dec_lib" where
  "ref_dec = \<lparr>
     d_zero = (0, 0),
     d_from_str = ref_from_str,
     d_from_str_exact = ref_from_str,
     d_of_nat = (\<lambda>n. (int n, 0)),
     d_le = (\<lambda>(a, s) (b, t). a * 10 ^ t \<le> b * 10 ^ s),
     d_checked_add = (\<lambda>(a, s) (b, t). let k = max s t in ref_fit (a * 10 ^ (k - s) + b * 10 ^ (k - t), k)),
     d_checked_sub = (\<lambda>(a, s) (b, t). let k = max s t in ref_fit (a * 10 ^ (k - s) - b * 10 ^ (k - t), k)),
     d_checked_mul = (\<lambda>(a, s) (b, t). ref_fit (a * b, s + t)),
     d_checked_div = (\<lambda>(a, s) (b, t).
        if b = 0 then None else ref_fit ((a * 10 ^ (28 + t)) div (b * 10 ^ s), 28)),
     d_round_dp = (\<lambda>(a, s) n. if s \<le> n then (a, s) else (half_even_div a (10 ^ (s - n)), n)),
     d_trunc_dp = (\<lambda>(a, s) n. if s \<le> n then (a, s) else (sgn a * (\<bar>a\<bar> div 10 ^ (s - n)), n)),
     d_scale = snd,
     d_normalize = (\<lambda>(a, s). strip10 a s),
     d_is_sign_negative = (\<lambda>d. fst d < 0),
     d_show = ref_show \<rparr>"

subsection \<open>The laws hold\<close>

lemma ref_fit_repr:
  assumes "dec_repr (ref_val d)"
  shows "ref_fit d = Some d"
proof -
  obtain m s where m: "\<bar>m\<bar> < (2::int) ^ 96" and eq: "ref_val d = of_int m / 10 ^ s"
    using assms by (auto simp: dec_repr_def)
  have "\<bar>ref_val d\<bar> \<le> \<bar>of_int m\<bar>"
    by (simp add: eq abs_divide divide_le_eq mult_le_cancel_left1)
  also have "\<bar>of_int m :: rat\<bar> < of_int (2 ^ 96)"
    using m by (simp only: of_int_less_iff flip: of_int_abs)
  finally have "\<bar>of_int (fst d) :: rat\<bar> < of_int (2 ^ 96 * 10 ^ snd d)"
    by (simp add: ref_val_def abs_divide divide_less_eq)
  then have "\<bar>fst d\<bar> < 2 ^ 96 * 10 ^ snd d"
    by (simp only: of_int_less_iff flip: of_int_abs)
  then show ?thesis by (simp add: ref_fit_def)
qed

lemma ref_align: "s \<le> k \<Longrightarrow> of_int (a * 10 ^ (k - s)) / (10::rat) ^ k = of_int a / 10 ^ s"
  by (auto simp: le_iff_add power_add)

lemma ref_val_le: "a * 10 ^ t \<le> b * (10::int) ^ s \<longleftrightarrow> ref_val (a, s) \<le> ref_val (b, t)"
proof -
  have "ref_val (a, s) \<le> ref_val (b, t) \<longleftrightarrow> (of_int (a * 10 ^ t) :: rat) \<le> of_int (b * 10 ^ s)"
    by (simp add: ref_val_def divide_le_eq le_divide_eq mult.commute)
  then show ?thesis by (simp only: of_int_le_iff)
qed

lemma half_even_div: "half_even (of_int a / 10 ^ k) = half_even_div a (10 ^ k)"
proof -
  let ?b = "10 ^ k :: int"
  define q where "q = a div ?b"
  define r where "r = a mod ?b"
  have a: "a = q * ?b + r" unfolding q_def r_def by (rule div_mult_mod_eq [symmetric])
  have fl: "\<lfloor>of_int a / (10::rat) ^ k\<rfloor> = q"
    using floor_divide_of_int_eq [of a ?b, where 'a = rat] by (simp add: q_def)
  have x: "of_int a / (10::rat) ^ k - of_int q = of_int r / 10 ^ k"
    by (simp add: a field_simps)
  have "(of_int r / (10::rat) ^ k < 1 / 2) = ((of_int (2 * r) :: rat) < of_int ?b)"
    by (simp add: field_simps)
  then have lo: "(of_int r / (10::rat) ^ k < 1 / 2) = (2 * r < ?b)" by (simp only: of_int_less_iff)
  have "(1 / 2 < of_int r / (10::rat) ^ k) = ((of_int ?b :: rat) < of_int (2 * r))"
    by (simp add: field_simps)
  then have hi: "(1 / 2 < of_int r / (10::rat) ^ k) = (?b < 2 * r)" by (simp only: of_int_less_iff)
  show ?thesis
    by (simp only: half_even_def half_even_div_def Let_def fl x lo hi flip: q_def r_def)
qed

lemma strip10_val: "ref_val (strip10 m s) = ref_val (m, s)"
proof (induction m s rule: strip10.induct)
  case (2 m s)
  show ?case
  proof (cases "m mod 10 = 0")
    case True
    then have "m = 10 * (m div 10)" by presburger
    then have "ref_val (m div 10, s) = ref_val (m, Suc s)"
      by (metis (no_types, lifting) fst_conv mult_divide_mult_cancel_left of_int_mult of_int_numeral
          power_Suc ref_val_def snd_conv zero_neq_numeral)
    with True 2 show ?thesis by simp
  qed simp
qed simp

lemma strip10_minimal: "ref_val (m, s) = of_int j / 10 ^ k \<Longrightarrow> snd (strip10 m s) \<le> k"
proof (induction m s rule: strip10.induct)
  case (2 m s)
  show ?case
  proof (cases "m mod 10 = 0")
    case True
    have "ref_val (m div 10, s) = of_int j / 10 ^ k"
      using "2.prems" strip10_val [of m "Suc s"] strip10_val [of "m div 10" s] True by simp
    with True "2.IH" show ?thesis by simp
  next
    case False
    have "Suc s \<le> k"
    proof (rule ccontr)
      assume "\<not> Suc s \<le> k"
      then obtain d where d: "Suc s = k + Suc d" by (metis add_Suc_right less_iff_Suc_add not_le)
      have "(of_int m :: rat) = of_int (j * 10 ^ Suc d)"
        using "2.prems" unfolding d by (simp add: ref_val_def power_add field_simps)
      then have "m = j * 10 ^ Suc d" by (simp only: of_int_eq_iff)
      with False show False by simp
    qed
    with False show ?thesis by simp
  qed
qed simp

lemma ref_sum_val:
  "ref_val (a * 10 ^ (max s t - s) + b * 10 ^ (max s t - t), max s t) = ref_val (a, s) + ref_val (b, t)"
  "ref_val (a * 10 ^ (max s t - s) - b * 10 ^ (max s t - t), max s t) = ref_val (a, s) - ref_val (b, t)"
proof -
  have "of_int (a * 10 ^ (max s t - s)) / (10::rat) ^ max s t = of_int a / 10 ^ s"
    "of_int (b * 10 ^ (max s t - t)) / (10::rat) ^ max s t = of_int b / 10 ^ t"
    by (rule ref_align, simp)+
  then show "ref_val (a * 10 ^ (max s t - s) + b * 10 ^ (max s t - t), max s t) = ref_val (a, s) + ref_val (b, t)"
    "ref_val (a * 10 ^ (max s t - s) - b * 10 ^ (max s t - t), max s t) = ref_val (a, s) - ref_val (b, t)"
    unfolding ref_val_def fst_conv snd_conv of_int_add of_int_diff add_divide_distrib diff_divide_distrib
    by simp_all
qed

lemma ref_div_val:
  assumes "b \<noteq> 0" and "dec_repr (ref_val (a, s) / ref_val (b, t))"
  shows "ref_val ((a * 10 ^ (28 + t)) div (b * 10 ^ s), 28) = ref_val (a, s) / ref_val (b, t)"
proof -
  let ?q = "ref_val (a, s) / ref_val (b, t)"
  obtain m k where k: "k \<le> (28::nat)" and q: "?q = of_int m / 10 ^ k"
    using assms(2) by (auto simp: dec_repr_def)
  obtain d where d: "28 = k + d" using k by (auto simp: le_iff_add)
  have p: "(10::rat) ^ (28 + t) = 10 ^ k * 10 ^ d * 10 ^ t"
    unfolding d power_add by simp
  have "of_int a * 10 ^ t * 10 ^ k = (of_int m * (of_int b * 10 ^ s) :: rat)"
    using q assms(1) by (simp add: ref_val_def field_simps)
  then have "(of_int a * 10 ^ t * 10 ^ k) * 10 ^ d = (of_int m * (of_int b * 10 ^ s)) * (10::rat) ^ d"
    by simp
  then have "of_int a * (10::rat) ^ (28 + t) = of_int m * 10 ^ d * (of_int b * 10 ^ s)"
    unfolding p by (simp only: ac_simps)
  then have "(of_int (a * 10 ^ (28 + t)) :: rat) = of_int (m * 10 ^ d * (b * 10 ^ s))"
    unfolding of_int_mult of_int_power of_int_numeral .
  then have "a * 10 ^ (28 + t) = m * 10 ^ d * (b * 10 ^ s)" by (simp only: of_int_eq_iff)
  then have "(a * 10 ^ (28 + t)) div (b * 10 ^ s) = m * 10 ^ d"
    using assms(1) by simp
  moreover have "of_int (m * 10 ^ d) / (10::rat) ^ 28 = of_int m / 10 ^ k"
    unfolding d power_add by simp
  ultimately show ?thesis unfolding ref_val_def [of "(_, 28)"] by (simp add: q)
qed

lemma ref_round_val:
  "ref_val (if s \<le> n then (a, s) else (half_even_div a (10 ^ (s - n)), n))
     = of_int (half_even (ref_val (a, s) * 10 ^ n)) / 10 ^ n"
proof (cases "s \<le> n")
  case True
  then obtain d where d: "n = s + d" by (auto simp: le_iff_add)
  have "ref_val (a, s) * 10 ^ n = of_int (a * 10 ^ d)"
    by (simp add: ref_val_def d power_add)
  then have "half_even (ref_val (a, s) * 10 ^ n) = a * 10 ^ d" by (metis half_even_int)
  with True show ?thesis by (simp add: ref_val_def d power_add)
next
  case False
  then obtain d where d: "s = n + d" by (metis le_iff_add nat_le_linear)
  have "ref_val (a, s) * 10 ^ n = of_int a / 10 ^ d"
    by (simp add: ref_val_def d power_add)
  with False show ?thesis by (simp add: ref_val_def half_even_div d)
qed

lemma ref_trunc_val:
  assumes "0 \<le> ref_val (a, s)"
  shows "ref_val (if s \<le> n then (a, s) else (sgn a * (\<bar>a\<bar> div 10 ^ (s - n)), n))
     = of_int \<lfloor>ref_val (a, s) * 10 ^ n\<rfloor> / 10 ^ n"
proof (cases "s \<le> n")
  case True
  then obtain d where d: "n = s + d" by (auto simp: le_iff_add)
  have "ref_val (a, s) * 10 ^ n = of_int (a * 10 ^ d)" by (simp add: ref_val_def d power_add)
  then have "\<lfloor>ref_val (a, s) * 10 ^ n\<rfloor> = a * 10 ^ d" by (metis floor_of_int)
  with True show ?thesis by (simp add: ref_val_def d power_add)
next
  case False
  then obtain d where d: "s = n + d" by (metis le_iff_add nat_le_linear)
  have "\<not> (10::rat) ^ s \<le> 0" by (simp add: not_le)
  then have a: "0 \<le> a" using assms by (auto simp: ref_val_def zero_le_divide_iff)
  have "ref_val (a, s) * 10 ^ n = of_int a / of_int (10 ^ d)" by (simp add: ref_val_def d power_add)
  then have "\<lfloor>ref_val (a, s) * 10 ^ n\<rfloor> = a div 10 ^ d" by (simp only: floor_divide_of_int_eq)
  moreover have "sgn a * (\<bar>a\<bar> div 10 ^ d) = a div 10 ^ d"
    using a by (cases "a = 0") (simp_all add: sgn_if)
  ultimately show ?thesis using False by (simp add: ref_val_def d)
qed

theorem ref_dec_laws: "dec_laws ref_dec ref_val"
proof -
  have add: "\<exists>c. d_checked_add ref_dec x y = Some c \<and> ref_val c = ref_val x + ref_val y"
    if "dec_repr (ref_val x + ref_val y)" for x y
    using that by (cases x; cases y) (simp add: ref_dec_def Let_def ref_fit_repr ref_sum_val)
  have sub: "\<exists>c. d_checked_sub ref_dec x y = Some c \<and> ref_val c = ref_val x - ref_val y"
    if "dec_repr (ref_val x - ref_val y)" for x y
    using that by (cases x; cases y) (simp add: ref_dec_def Let_def ref_fit_repr ref_sum_val)
  have mul_val: "ref_val (a * b, s + t) = ref_val (a, s) * ref_val (b, t)" for a b s t
    by (simp add: ref_val_def power_add)
  have mul: "\<exists>c. d_checked_mul ref_dec x y = Some c \<and> ref_val c = ref_val x * ref_val y"
    if "dec_repr (ref_val x * ref_val y)" for x y
    using that by (cases x; cases y) (simp add: ref_dec_def ref_fit_repr mul_val)
  have nz: "ref_val (b, t) \<noteq> 0 \<longleftrightarrow> b \<noteq> 0" for b t by (simp add: ref_val_def)
  have div: "\<exists>c. d_checked_div ref_dec x y = Some c \<and> ref_val c = ref_val x / ref_val y"
    if "ref_val y \<noteq> 0" "dec_repr (ref_val x / ref_val y)" for x y
    using that
    by (cases x; cases y) (simp add: ref_dec_def ref_fit_repr nz ref_div_val del: power_add)
  have le: "d_le ref_dec x y \<longleftrightarrow> ref_val x \<le> ref_val y" for x y
    by (cases x; cases y) (simp add: ref_dec_def ref_val_le)
  have round: "ref_val (d_round_dp ref_dec x n) = of_int (half_even (ref_val x * 10 ^ n)) / 10 ^ n" for x n
    by (cases x) (simp add: ref_dec_def flip: ref_round_val)
  have trunc: "ref_val (d_trunc_dp ref_dec x n) = of_int \<lfloor>ref_val x * 10 ^ n\<rfloor> / 10 ^ n" if "0 \<le> ref_val x" for x n
    using that by (cases x) (simp add: ref_dec_def flip: ref_trunc_val)
  have rscale: "d_scale ref_dec (d_round_dp ref_dec x n) \<le> n" for x n
    by (simp add: ref_dec_def split_beta)
  have sc: "\<exists>m. ref_val x = of_int m / 10 ^ d_scale ref_dec x" for x
    unfolding ref_val_def by (rule exI [of _ "fst x"]) (simp add: ref_dec_def)
  have norm: "ref_val (d_normalize ref_dec x) = ref_val x" for x
    by (simp add: ref_dec_def split_beta strip10_val)
  have sign: "d_is_sign_negative ref_dec x \<longleftrightarrow> ref_val x < 0" for x
    by (simp add: ref_dec_def ref_val_def divide_less_0_iff)
  have neg: "d_is_sign_negative ref_dec x" if "ref_val x < 0" for x
    using that by (simp add: sign)
  have neg': "ref_val x \<le> 0" if "d_is_sign_negative ref_dec x" for x
    using that by (simp add: sign)
  have scale: "d_scale ref_dec (d_normalize ref_dec x) = snd (strip10 (fst x) (snd x))" for x
    by (simp add: ref_dec_def split_beta)
  have min: "d_scale ref_dec (d_normalize ref_dec x) \<le> k" if "ref_val x = of_int m / 10 ^ k" for x k m
    unfolding scale by (rule strip10_minimal) (unfold prod.collapse, rule that)
  have zero: "d_checked_div ref_dec x y = None" if "ref_val y = 0" for x y
    using that nz [of "fst y" "snd y"] by (cases x; cases y) (simp add: ref_dec_def)
  have z: "ref_val (d_zero ref_dec) = 0" "ref_val (d_of_nat ref_dec n) = of_nat n" for n
    by (simp_all add: ref_dec_def ref_val_def)
  show ?thesis
    unfolding dec_laws_def
    by (intro conjI allI impI)
      (assumption | rule z le add sub mul div zero round trunc rscale sc norm min neg neg')+
qed

subsection \<open>Printing and parsing\<close>

lemma digits_val_append:
  "digits_val n (xs @ ys) = (case digits_val n xs of None \<Rightarrow> None | Some m \<Rightarrow> digits_val m ys)"
  by (induction n xs rule: digits_val.induct) (auto simp: Let_def)

lemma digits_val_zeros: "digits_val n (replicate j CHR ''0'') = Some (n * 10 ^ j)"
  by (induction j arbitrary: n) (simp_all add: Let_def ac_simps)

lemma digits_val_show: "digits_val n (show_nat k) = Some (n * 10 ^ length (show_nat k) + k)"
proof (induction k arbitrary: n rule: show_nat.induct)
  case (1 k)
  have d: "digits_val m [char_of (48 + k mod 10)] = Some (10 * m + k mod 10)" for m
    by (simp add: Let_def)
  show ?case
  proof (cases "k < 10")
    case True
    with d [of n] show ?thesis by (simp add: show_nat.simps [of k] Let_def)
  next
    case False
    have "digits_val n (show_nat (k div 10) @ [char_of (48 + k mod 10)])
        = Some (10 * (n * 10 ^ length (show_nat (k div 10)) + k div 10) + k mod 10)"
      unfolding digits_val_append using 1 [OF False, of n] d by simp
    then show ?thesis using False by (simp add: show_nat.simps [of k] algebra_simps)
  qed
qed

lemma show_nat_digit: "c \<in> set (show_nat k) \<Longrightarrow> c \<noteq> CHR ''.'' \<and> c \<noteq> CHR ''-''"
proof (induction k rule: show_nat.induct)
  case (1 k)
  have "char_of (48 + m) \<noteq> CHR ''.'' \<and> char_of (48 + m) \<noteq> CHR ''-''" if "m < 10" for m :: nat
  proof -
    have "of_char (char_of (48 + m) :: char) = 48 + m" using that by simp
    moreover have "of_char (CHR ''.'') = (46::nat)" "of_char (CHR ''-'') = (45::nat)" by simp_all
    ultimately have "of_char (char_of (48 + m) :: char) \<noteq> (of_char (CHR ''.'') :: nat)"
      "of_char (char_of (48 + m) :: char) \<noteq> (of_char (CHR ''-'') :: nat)"
      by (simp_all only:)
    then show ?thesis by fastforce
  qed
  with 1 show ?case by (cases "k < 10") (auto simp: show_nat.simps [of k])
qed

lemma length_show_nat: "0 < s \<Longrightarrow> k < 10 ^ s \<Longrightarrow> length (show_nat k) \<le> s"
proof (induction k arbitrary: s rule: show_nat.induct)
  case (1 k)
  show ?case
  proof (cases "k < 10")
    case True
    with 1 show ?thesis by (simp add: show_nat.simps [of k])
  next
    case False
    have s: "1 < s"
    proof (rule ccontr)
      assume "\<not> 1 < s"
      then have "s = 1" using "1.prems"(1) by simp
      then show False using False "1.prems"(2) by simp
    qed
    then obtain s' where s': "s = Suc s'" "0 < s'" by (cases s) auto
    have "k div 10 < 10 ^ s'" using "1.prems"(2) s' by (simp add: div_less_iff_less_mult)
    from "1.IH" [OF False s'(2) this] s' False show ?thesis by (simp add: show_nat.simps [of k])
  qed
qed

lemma ref_show_parses: "s \<le> 28 \<Longrightarrow> ref_from_str (ref_show (m, s)) = Some (m, s)"
proof -
  assume s: "s \<le> 28"
  define a where "a = nat \<bar>m\<bar>"
  define ip fp where "ip = show_nat (a div 10 ^ s)" and "fp = show_nat (a mod 10 ^ s)"
  define frac where "frac = (if s = 0 then [] else replicate (s - length fp) CHR ''0'' @ fp)"
  let ?body = "ip @ (if s = 0 then [] else ''.'' @ frac)"
  have show_eq: "ref_show (m, s) = (if m < 0 then ''-'' else []) @ ?body"
    by (simp add: ref_show_def Let_def ip_def fp_def a_def frac_def)
  have ip: "\<forall>c\<in>set ip. c \<noteq> CHR ''.'' \<and> c \<noteq> CHR ''-''" "ip \<noteq> []"
    using show_nat_digit [of _ "a div 10 ^ s"] by (simp_all add: ip_def) (simp add: show_nat.simps [of "a div 10 ^ s"])
  have len: "0 < s \<Longrightarrow> length fp \<le> s" unfolding fp_def by (rule length_show_nat) simp_all
  have frac: "length frac = s" using len by (auto simp: frac_def)
  have parts: "takeWhile (\<lambda>c. c \<noteq> CHR ''.'') ?body = ip" "tl (dropWhile (\<lambda>c. c \<noteq> CHR ''.'') ?body) = frac"
    using ip frac by (auto simp: takeWhile_append2 dropWhile_append2 frac_def)
  have "digits_val 0 (ip @ frac) = Some a"
  proof (cases "s = 0")
    case True
    then show ?thesis by (simp add: frac_def ip_def digits_val_show)
  next
    case False
    have "digits_val 0 (ip @ frac) = Some ((a div 10 ^ s) * 10 ^ (s - length fp) * 10 ^ length fp + a mod 10 ^ s)"
      using False by (simp add: frac_def digits_val_append digits_val_zeros ip_def fp_def digits_val_show)
    also have "(a div 10 ^ s) * 10 ^ (s - length fp) * 10 ^ length fp = (a div 10 ^ s) * 10 ^ s"
      using len False by (simp add: mult.assoc flip: power_add)
    finally show ?thesis by (simp add: div_mult_mod_eq)
  qed
  moreover have "ip @ frac \<noteq> []" using ip(2) by simp
  moreover have "m < 0 \<Longrightarrow> - int a = m" "\<not> m < 0 \<Longrightarrow> int a = m" by (simp_all add: a_def)
  moreover have "hd ?body \<noteq> CHR ''-''" using ip by (cases ip) auto
  ultimately show "ref_from_str (ref_show (m, s)) = Some (m, s)"
    using s frac ip(2) parts unfolding ref_from_str_def show_eq Let_def by (cases "m < 0") simp_all
qed

lemma ref_from_str_scale: "ref_from_str s = Some d \<Longrightarrow> snd d \<le> 28"
  by (auto simp: ref_from_str_def Let_def split: if_splits)

theorem ref_text_laws: "text_laws ref_dec ref_val"
proof -
  have "ref_from_str (ref_show d) = Some d" if "snd d \<le> 28" for d
    using ref_show_parses [of "snd d" "fst d"] that by simp
  then show ?thesis
    using ref_from_str_scale by (auto simp: text_laws_def ref_dec_def)
qed

end
