(* ===== verification/Amount.thy ===== *)
theory Amount
  imports Decimals RefDecimal
begin

section \<open>Monetary amounts (\<open>pms-token/src/amount.rs\<close>)\<close>

text \<open>
  The newtype \<open>Amount(Decimal)\<close>: every arithmetic operation rounds its result to \<open>DECIMALS = 8\<close>
  places, half to even. An \<open>Amount\<close> is the decimal it wraps. The lemmas say when the rounding is
  invisible (sums and differences of amounts at eight decimals that fit in 96 bits) and how far a
  product is from the exact one.
\<close>

datatype amount_error = AmtParse | AmtNegative | TooManyDecimals nat

definition amount_decimals :: nat where
  "amount_decimals = 8"

definition from_decimal :: "'d dec_lib \<Rightarrow> 'd \<Rightarrow> 'd" where
  "from_decimal D d = d_round_dp D d amount_decimals"

definition amount_zero :: "'d dec_lib \<Rightarrow> 'd" where
  "amount_zero D = d_zero D"

definition amount_parse :: "'d dec_lib \<Rightarrow> string \<Rightarrow> nat \<Rightarrow> amount_error + 'd" where
  "amount_parse D s max_decimals =
     rbind (ok_or (d_from_str D s) AmtParse) (\<lambda>d.
     if d_is_sign_negative D d then Inl AmtNegative
     else if max_decimals < d_scale D d then Inl (TooManyDecimals max_decimals)
     else Inr d)"

definition parse_pms :: "'d dec_lib \<Rightarrow> string \<Rightarrow> amount_error + 'd" where
  "parse_pms D s = amount_parse D s amount_decimals"

definition amount_checked_sub :: "'d dec_lib \<Rightarrow> 'd \<Rightarrow> 'd \<Rightarrow> panic + 'd option" where
  "amount_checked_sub D a b =
     rbind (dec_sub D a b) (\<lambda>r.
     Inr (if d_is_sign_negative D r then None else Some (from_decimal D r)))"

definition amount_add :: "'d dec_lib \<Rightarrow> 'd \<Rightarrow> 'd \<Rightarrow> panic + 'd" where
  "amount_add D a b = rbind (dec_add D a b) (\<lambda>r. Inr (from_decimal D r))"

definition amount_sub :: "'d dec_lib \<Rightarrow> 'd \<Rightarrow> 'd \<Rightarrow> panic + 'd" where
  "amount_sub D a b = rbind (dec_sub D a b) (\<lambda>r. Inr (from_decimal D r))"

definition amount_mul :: "'d dec_lib \<Rightarrow> 'd \<Rightarrow> 'd \<Rightarrow> panic + 'd" where
  "amount_mul D a b = rbind (dec_mul D a b) (\<lambda>r. Inr (from_decimal D r))"

definition amount_div :: "'d dec_lib \<Rightarrow> 'd \<Rightarrow> 'd \<Rightarrow> panic + 'd" where
  "amount_div D a b = rbind (dec_div D a b) (\<lambda>r. Inr (from_decimal D r))"

subsection \<open>The value of an operation\<close>

definition round8 :: "rat \<Rightarrow> rat" where
  "round8 q = of_int (half_even (q * 10 ^ 8)) / 10 ^ 8"

lemma from_decimal_val: "dec_laws D v \<Longrightarrow> v (from_decimal D d) = round8 (v d)"
  by (simp add: from_decimal_def amount_decimals_def round8_def dec_laws_round)

lemma at_scale_round8 [simp]: "at_scale 8 (round8 q)"
  unfolding at_scale_def round8_def by blast

lemma round8_id: "at_scale 8 q \<Longrightarrow> round8 q = q"
  by (auto simp: at_scale_def round8_def)

lemma round8_0 [simp]: "round8 0 = 0"
  by (simp add: round8_id)

lemma round8_mono: "p \<le> q \<Longrightarrow> round8 p \<le> round8 q"
  by (simp add: round8_def divide_right_mono half_even_mono)

lemma round8_nonneg: "0 \<le> q \<Longrightarrow> 0 \<le> round8 q"
  using round8_mono [of 0 q] by simp

lemma round8_error: "\<bar>round8 q - q\<bar> \<le> 1 / (2 * 10 ^ 8)"
  using half_even_bounds [of "q * 10 ^ 8"] unfolding round8_def abs_le_iff
  by (simp add: field_simps)

lemma repr8: "at_scale 8 q \<Longrightarrow> \<bar>q\<bar> < 2 ^ 96 / 10 ^ 8 \<Longrightarrow> dec_repr q"
  by (rule dec_repr_at_scale [of 8]) simp_all

lemma repr16: "at_scale 8 p \<Longrightarrow> at_scale 8 q \<Longrightarrow> \<bar>p * q\<bar> < 2 ^ 96 / 10 ^ 16 \<Longrightarrow> dec_repr (p * q)"
  by (rule dec_repr_at_scale [of 16]) (use at_scale_mult [of 8 p 8 q] in simp_all)

lemma parse_pms_val:
  assumes "dec_laws D v" and "parse_pms D s = Inr d"
  shows "0 \<le> v d" and "at_scale 8 (v d)"
proof -
  have d: "\<not> d_is_sign_negative D d" "d_scale D d \<le> 8"
    using assms(2) by (auto simp: parse_pms_def amount_parse_def amount_decimals_def split: if_splits)
  show "0 \<le> v d" using dec_laws_not_negative [OF assms(1) d(1)] .
  from dec_laws_scale [OF assms(1), of d] have "at_scale (d_scale D d) (v d)"
    by (simp add: at_scale_def)
  then show "at_scale 8 (v d)" using d(2) by (rule at_scale_weaken)
qed

lemma amount_add_exact:
  assumes L: "dec_laws D v" and "at_scale 8 (v a)" "at_scale 8 (v b)"
    and "\<bar>v a + v b\<bar> < 2 ^ 96 / 10 ^ 8"
  obtains c where "amount_add D a b = Inr c" and "v c = v a + v b"
proof -
  have r: "at_scale 8 (v a + v b)" using assms(2,3) by (rule at_scale_add)
  obtain c where "d_checked_add D a b = Some c" "v c = v a + v b"
    using dec_laws_add [OF L repr8 [OF r assms(4)]] by blast
  then have "amount_add D a b = Inr (from_decimal D c)" "v (from_decimal D c) = v a + v b"
    using r by (simp_all add: amount_add_def dec_add_def from_decimal_val [OF L] round8_id)
  then show thesis by (rule that)
qed

lemma dec_sub_exact:
  assumes L: "dec_laws D v" and "at_scale 8 (v a)" "at_scale 8 (v b)"
    and "\<bar>v a - v b\<bar> < 2 ^ 96 / 10 ^ 8"
  obtains c where "dec_sub D a b = Inr c" and "v c = v a - v b"
  using dec_laws_sub [OF L repr8 [OF at_scale_diff [OF assms(2,3)] assms(4)]]
  by (auto simp: dec_sub_def)

lemma amount_mul_val:
  assumes L: "dec_laws D v" and "at_scale 8 (v a)" "at_scale 8 (v b)"
    and "\<bar>v a * v b\<bar> < 2 ^ 96 / 10 ^ 16"
  obtains c where "amount_mul D a b = Inr c" and "v c = round8 (v a * v b)"
proof -
  obtain c where "d_checked_mul D a b = Some c" "v c = v a * v b"
    using dec_laws_mul [OF L repr16 [OF assms(2-4)]] by blast
  then have "amount_mul D a b = Inr (from_decimal D c)" "v (from_decimal D c) = round8 (v a * v b)"
    by (simp_all add: amount_mul_def dec_mul_def from_decimal_val [OF L])
  then show thesis by (rule that)
qed

text \<open>
  A debit through \<open>Amount::checked_sub\<close> never overdraws: between two amounts at eight
  decimals whose difference fits, the operation does not panic; it returns \<open>None\<close> when the debit
  exceeds the balance, the exact difference when it is smaller, and whatever it returns denotes the
  exact non-negative difference.
\<close>

lemma checked_sub_no_overdraft:
  assumes L: "dec_laws D v" and "at_scale 8 (v a)" and "at_scale 8 (v b)"
    and "\<bar>v a - v b\<bar> < 2 ^ 96 / 10 ^ 8"
  shows "\<exists>r. amount_checked_sub D a b = Inr r \<and>
    (v a < v b \<longrightarrow> r = None) \<and>
    (v b < v a \<longrightarrow> (\<exists>c. r = Some c)) \<and>
    (\<forall>c. r = Some c \<longrightarrow> v c = v a - v b \<and> 0 \<le> v c)"
proof -
  obtain c where c: "dec_sub D a b = Inr c" "v c = v a - v b"
    using dec_sub_exact [OF assms] .
  have f: "v (from_decimal D c) = v a - v b"
    by (simp add: from_decimal_val [OF L] c(2) round8_id at_scale_diff assms(2,3))
  have "v a < v b \<Longrightarrow> d_is_sign_negative D c"
    by (rule dec_laws_negative [OF L]) (simp add: c(2))
  moreover have "v b < v a \<Longrightarrow> \<not> d_is_sign_negative D c"
    using dec_laws_sign [OF L, of c] c(2) by auto
  moreover have "\<not> d_is_sign_negative D c \<Longrightarrow> 0 \<le> v a - v b"
    using dec_laws_not_negative [OF L, of c] c(2) by simp
  ultimately show ?thesis
    by (cases "d_is_sign_negative D c") (auto simp: amount_checked_sub_def c(1) f)
qed

end
