(* ===== verification/TxTypes.thy ===== *)
theory TxTypes
  imports Prelude
begin

section \<open>Transactions, outputs, unlocks and validation errors\<close>

text \<open>
  The data of \<open>pms-types-transaction\<close> and the error enumeration of \<open>pms-errors\<close>. Amounts and fees
  stay the strings the wire carries; each rule parses them where the code does. \<open>RustPanic\<close> is not
  a variant of the enumeration: it is the outcome of an operation of the code that panics
  (an index out of range, an arithmetic operator that overflows).
\<close>

subsection \<open>Transactions\<close>

record output_id =
  op_txid :: string
  op_index :: u32

record tx_input =
  ti_out :: output_id

datatype spend_condition =
    PubKey
  | MultiSig u8 "string list"
  | HashLock string

record tx_output =
  o_address :: string
  o_amount :: string
  o_asset_id :: "string option"
  o_locked_until :: "u64 option"
  o_spend_condition :: "spend_condition option"
  o_created_at :: "u64 option"

record cosigner =
  co_pubkey_hex :: string
  co_signature_b64 :: string

record unlock =
  u_pubkey_hex :: string
  u_signature_b64 :: string
  u_cosigners :: "cosigner list"
  u_preimage_hex :: "string option"

record transaction =
  tx_inputs :: "tx_input list"
  tx_outputs :: "tx_output list"
  tx_fee :: string
  tx_unlocks :: "unlock list"

definition txoutput_new :: "string \<Rightarrow> string \<Rightarrow> string option \<Rightarrow> tx_output" where
  "txoutput_new address amount asset_id =
     \<lparr>o_address = address, o_amount = amount, o_asset_id = asset_id,
      o_locked_until = None, o_spend_condition = None, o_created_at = None\<rparr>"

definition txoutput_new_locked :: "string \<Rightarrow> string \<Rightarrow> string option \<Rightarrow> u64 \<Rightarrow> tx_output" where
  "txoutput_new_locked address amount asset_id locked_until =
     (txoutput_new address amount asset_id)\<lparr>o_locked_until := Some locked_until\<rparr>"

definition unlock_new :: "string \<Rightarrow> string \<Rightarrow> unlock" where
  "unlock_new pubkey_hex signature_b64 =
     \<lparr>u_pubkey_hex = pubkey_hex, u_signature_b64 = signature_b64,
      u_cosigners = [], u_preimage_hex = None\<rparr>"

lemmas tx_constructors = txoutput_new_def txoutput_new_locked_def unlock_new_def

text \<open>The key of a spent outpoint, as the double-spend sets hold it.\<close>

definition out_key :: "output_id \<Rightarrow> string \<times> u32" where
  "out_key op = (op_txid op, op_index op)"

lemma out_key_inj [simp]: "out_key a = out_key b \<longleftrightarrow> a = b"
  by (cases a; cases b) (auto simp: out_key_def)

subsection \<open>Validation errors\<close>

datatype validation_error =
    ParentMissing string
  | DuplicateParents
  | SelfParent
  | TooManyParents string
  | MissingInput
  | MissingOutput
  | NotEnoughParents
  | PayloadTooLarge
  | TooManyInputs
  | TooManyOutputs
  | TxTooLarge
  | BadGenesis
  | CycleDetected
  | InvalidGenesis string
  | InvalidSignature string
  | DoubleSpend
  | InsufficientFunds
  | InvalidAmount string
  | InvalidDifficulty string u8
  | UnauthorizedMint string string
  | MintAmountTooHigh string string
  | FeeTooHigh string string
  | InvalidFeeRecipient string
  | Other string
  | InvalidPlatformSignature string
  | MissingPlatformSignature
  | ProdKeyInDevMode string
  | ConfigError string
  | AssetBalanceMismatch "string option" string string
  | TokenNotRegistered string
  | UnauthorizedTokenMint string
  | MaxSupplyExceeded string
  | InsufficientCollateral string
  | TokenAlreadyExists string
  | OwnershipMismatch nat
  | OutputTimeLocked nat u64 u64
  | InvalidSpendCondition string
  | SpendConditionNotMet nat
  | AddressFrozen string
  | OutputAlreadySpent string u32
  | RustPanic string

type_synonym 'a vresult = "validation_error + 'a"

end
