(* ===== verification/PayloadTypes.thy ===== *)
theory PayloadTypes
  imports TxTypes
begin

section \<open>Payloads, blocks and registry records\<close>

text \<open>
  The data of \<open>pms-types-payload\<close>, \<open>pms-types-contract\<close>, \<open>pms-types-nft\<close>, \<open>pms-types-block\<close>,
  \<open>pms-wire\<close> and the configuration updates a payload carries (\<open>pms-config\<close>), with the pure
  accessors the validators use. Field order follows the source; constructor arguments are
  positional.
\<close>

subsection \<open>Configuration updates and governance\<close>

record fee_tier =
  ft_up_to :: "string option"
  ft_ratio :: string

record fee_beneficiary =
  fb_role :: string
  fb_percent_bps :: "16 word"
  fb_address :: "string option"

datatype config_update =
    SetFeeRate u32
  | SetBaseFee string
  | SetCoordinatorFee u32
  | SetTreasuryFee u32
  | SetMinPow u8
  | SetMaxMint u64
  | SetMintEnabled bool
  | SetFeeTiers "fee_tier list"
  | ClearFeeTiers
  | SetFeeDistribution "fee_beneficiary list"
  | SetMintFee "string option" "string option"
  | SetTokenCreationFee "string option"
  | SetNftMintFee "string option"
  | SetNftFeeExemptTypes "string list"
  | SetBurnRate u32
  | SetContractDeploymentFee "string option"
  | SetStorageFeePerKb "string option"
  | SetDynamicFee bool "u32 option" "string option"
  | SetEmissionCorridor u32 u32 u32 u64
  | BatchUpdate "config_update list"

datatype governance_tier = Operator | Policy | Constitution

subsection \<open>Contracts\<close>

datatype contract_scope = Global | LedgerScope "string list"

fun scope_matches :: "contract_scope \<Rightarrow> string \<Rightarrow> bool" where
  "scope_matches Global ledger_id = True"
| "scope_matches (LedgerScope ids) ledger_id = (\<exists>i\<in>set ids. i = ledger_id)"

datatype contract_trigger =
    OnNftBurn "string option"
  | OnTokenBurn string
  | OnTransfer "string option"

datatype mint_formula =
    FixedRate u64 u64
  | AttributeFormula "string list" u64
  | MintFixedAmount string

datatype transfer_fee_formula = PercentageBps u32 | FeeFixedAmount string

record transfer_fee_split =
  sp_address :: string
  sp_share_bps :: u32

datatype contract_action =
    AccumulateRefund "string option" mint_formula
  | EmitEvent string
  | TransferFee transfer_fee_formula "transfer_fee_split list"
  | MintNative u64 u64

record contract =
  ct_contract_id :: string
  ct_name :: string
  ct_scope :: contract_scope
  ct_trigger :: contract_trigger
  ct_actions :: "contract_action list"
  ct_enabled :: bool
  ct_version :: u32

subsection \<open>NFT actions, encrypted payloads, token registry records\<close>

record nft_metadata =
  nm_name :: "string option"
  nm_description :: "string option"
  nm_uri :: "string option"
  nm_nft_type :: "string option"
  nm_extra :: "string option"

record nft =
  nft_token_id :: string
  nft_owner :: string
  nft_creator :: string
  nft_meta :: nft_metadata

datatype nft_action =
    NftMint string string nft_metadata
  | NftTransfer string string string "string option" "string option"
  | NftUse string string string "string option"
  | NftBurn string string
  | NftBatchBurn "string list" string

fun nft_action_token_id :: "nft_action \<Rightarrow> string" where
  "nft_action_token_id (NftMint t _ _) = t"
| "nft_action_token_id (NftTransfer t _ _ _ _) = t"
| "nft_action_token_id (NftUse t _ _ _) = t"
| "nft_action_token_id (NftBurn t _) = t"
| "nft_action_token_id (NftBatchBurn ts _) = (case ts of [] \<Rightarrow> [] | t # _ \<Rightarrow> t)"

record key_wrap =
  kw_kid :: string
  kw_ephem_pub :: string
  kw_wrapped_key_b64 :: string
  kw_nonce_b64 :: string

record aad =
  aad_len_hint :: u32
  aad_binding :: "string option"

record encrypted_payload =
  ep_scheme :: string
  ep_key_version :: u32
  ep_aad :: aad
  ep_commitment :: string
  ep_ciphertext_b64 :: string
  ep_recipients :: "key_wrap list"
  ep_nonce_b64 :: string

record token_metadata =
  tm_asset_id :: string
  tm_symbol :: string
  tm_name :: string
  tm_decimals :: u8
  tm_max_supply :: "string option"
  tm_creator :: string
  tm_mint_authority :: string
  tm_demurrage_bps_per_day :: "u32 option"
  tm_collateral_address :: "string option"
  tm_collateral_asset_id :: "string option"
  tm_collateral_ratio_bps :: "u32 option"
  tm_royalty_bps :: "u32 option"
  tm_royalty_beneficiary :: "string option"
  tm_royalty_version :: u64

record sft_class =
  sc_asset_id :: string
  sc_collection_id :: string
  sc_class_id :: string
  sc_name :: string
  sc_uri :: "string option"
  sc_attributes :: "string option"
  sc_decimals :: u8
  sc_max_supply :: "string option"
  sc_demurrage_bps_per_day :: "u32 option"
  sc_creator :: string
  sc_mint_authority :: string
  sc_royalty_bps :: "u32 option"
  sc_royalty_beneficiary :: "string option"
  sc_royalty_version :: u64

definition to_token_metadata :: "sft_class \<Rightarrow> token_metadata" where
  "to_token_metadata c =
     \<lparr>tm_asset_id = sc_asset_id c, tm_symbol = sc_class_id c, tm_name = sc_name c,
      tm_decimals = sc_decimals c, tm_max_supply = sc_max_supply c, tm_creator = sc_creator c,
      tm_mint_authority = sc_mint_authority c,
      tm_demurrage_bps_per_day = sc_demurrage_bps_per_day c,
      tm_collateral_address = None, tm_collateral_asset_id = None, tm_collateral_ratio_bps = None,
      tm_royalty_bps = sc_royalty_bps c, tm_royalty_beneficiary = sc_royalty_beneficiary c,
      tm_royalty_version = sc_royalty_version c\<rparr>"

subsection \<open>Payloads\<close>

datatype plain_payload =
    Genesis
  | Mint "tx_output list"
  | TxUtxo transaction
  | TokenBurn transaction "string option" string string
  | MarketSettle transaction string string "string option" string string string
  | Milestone "string list" bool
  | NftPayload nft_action
  | ConfigUpdatePayload config_update
  | GovernanceProposal string config_update governance_tier string u64 u64
  | GovernanceEnact string string
  | GovernanceCancel string string
  | Reward "tx_output list" "tx_output list" string string
  | EncryptedReward "encrypted_payload list" string string
  | TokenCreate token_metadata
  | SftClassCreate sft_class
  | RoyaltyUpdate string "u32 option" "string option" string string
  | CustodialMint string "tx_output list" string string string
  | BridgeLock "tx_input list" string "string option" string string
  | BridgeMint "tx_output list" string string
  | Freeze string string
  | Unfreeze string string string
  | Seize string "tx_input list" "tx_output list" string
  | Reverse string "tx_input list" "tx_output list" string
  | ContractRegister contract
  | ContractUpdate string bool string
  | LedgerOwnershipTransfer string encrypted_payload
  | CoordinatorKeyRotate string string u64
  | ReserveSnapshot string "(string option \<times> string) list" u64 u64

datatype payload_envelope = Plain plain_payload | Encrypted encrypted_payload

fun is_encrypted :: "payload_envelope \<Rightarrow> bool" where
  "is_encrypted (Encrypted _) = True"
| "is_encrypted (Plain (EncryptedReward _ _ _)) = True"
| "is_encrypted (Plain _) = False"

fun payload_outputs :: "plain_payload \<Rightarrow> tx_output list option" where
  "payload_outputs (TxUtxo t) = Some (tx_outputs t)"
| "payload_outputs (Mint outputs) = Some outputs"
| "payload_outputs (CustodialMint _ outputs _ _ _) = Some outputs"
| "payload_outputs (Reward fee_outputs reward_outputs _ _) = Some (fee_outputs @ reward_outputs)"
| "payload_outputs (BridgeMint outputs _ _) = Some outputs"
| "payload_outputs (Seize _ _ outputs _) = Some outputs"
| "payload_outputs (Reverse _ _ outputs _) = Some outputs"
| "payload_outputs (TokenBurn tx _ _ _) = Some (tx_outputs tx)"
| "payload_outputs (MarketSettle tx _ _ _ _ _ _) = Some (tx_outputs tx)"
| "payload_outputs _ = None"

fun payload_tx :: "plain_payload \<Rightarrow> transaction option" where
  "payload_tx (TxUtxo tx) = Some tx"
| "payload_tx (TokenBurn tx _ _ _) = Some tx"
| "payload_tx (MarketSettle tx _ _ _ _ _ _) = Some tx"
| "payload_tx _ = None"

lemma payload_tx_outputs: "payload_tx p = Some t \<Longrightarrow> payload_outputs p = Some (tx_outputs t)"
  by (cases p) auto

subsection \<open>Blocks and wire blocks\<close>

text \<open>\<open>bm_extra\<close> is the text of a JSON value (\<open>serde_json::Value\<close>), which no rule reads.\<close>

record block_metadata =
  bm_description :: "string option"
  bm_tags :: "string list"
  bm_extra :: "string option"
  bm_signer_x25519_hex :: "string option"

record block =
  b_id :: string
  b_parents :: "string list"
  b_payload :: "payload_envelope option"
  b_nonce :: u64
  b_signer_pk :: "string option"
  b_signature :: "string option"
  b_metadata :: "block_metadata option"

record wire_block =
  w_id :: string
  w_parents :: "string list"
  w_payload_json :: "string option"
  w_nonce :: u64
  w_network_id :: string
  w_protocol_version :: "16 word"
  w_signer_pk_hex :: string
  w_signature_hex :: string
  w_metadata :: "block_metadata option"

end
