(* ===== verification/FeePolicy.thy ===== *)
theory FeePolicy
  imports Amount PayloadTypes
begin

section \<open>Transaction fees: linear and marginal tiers (\<open>pms-token/src/fee.rs\<close>)\<close>

text \<open>
  \<open>compute_fee\<close> is linear (\<open>base + amount * ratio\<close>) when the policy has no tier and marginal
  otherwise: each tier taxes only the part of the amount that falls in it. The specification
  \<open>marginal_fee\<close> is the sum over the tiers of the taxed portion times the ratio, rounded to eight
  decimals; the loop of the code refines it.
\<close>

datatype fee_error = FeeAmountError string amount_error | FeePanic panic

record fee_policy =
  fp_base_fee :: string
  fp_ratio :: string
  fp_tiers :: "fee_tier list"

definition fee_policy_fixed :: "string \<Rightarrow> fee_policy" where
  "fee_policy_fixed base_fee = \<lparr>fp_base_fee = base_fee, fp_ratio = ''0'', fp_tiers = []\<rparr>"

definition fee_policy_new :: "string \<Rightarrow> string \<Rightarrow> fee_policy" where
  "fee_policy_new base_fee ratio = \<lparr>fp_base_fee = base_fee, fp_ratio = ratio, fp_tiers = []\<rparr>"

definition fee_policy_tiered :: "string \<Rightarrow> fee_tier list \<Rightarrow> fee_policy" where
  "fee_policy_tiered base_fee tiers = \<lparr>fp_base_fee = base_fee, fp_ratio = ''0'', fp_tiers = tiers\<rparr>"

definition is_tiered :: "fee_policy \<Rightarrow> bool" where
  "is_tiered p \<longleftrightarrow> fp_tiers p \<noteq> []"

definition parse_for :: "'d dec_lib \<Rightarrow> string \<Rightarrow> string \<Rightarrow> fee_error + 'd" where
  "parse_for D label s = (case parse_pms D s of Inl e \<Rightarrow> Inl (FeeAmountError label e) | Inr d \<Rightarrow> Inr d)"

definition fee_op :: "panic + 'a \<Rightarrow> fee_error + 'a" where
  "fee_op m = (case m of Inl p \<Rightarrow> Inl (FeePanic p) | Inr x \<Rightarrow> Inr x)"

text \<open>The width of a tier that is taxed, and the boundary the next tier starts from.\<close>

definition taxable_in_tier :: "'d dec_lib \<Rightarrow> fee_tier \<Rightarrow> 'd \<Rightarrow> 'd \<Rightarrow> fee_error + ('d \<times> 'd)" where
  "taxable_in_tier D tier remaining prev_boundary =
     (case ft_up_to tier of
        Some upper_str \<Rightarrow>
          rbind (parse_for D ''tier up_to'' upper_str) (\<lambda>upper.
          rbind (fee_op (dec_sub D upper prev_boundary)) (\<lambda>tier_width.
          Inr (if d_lt D remaining tier_width then remaining else tier_width, upper)))
      | None \<Rightarrow> Inr (remaining, prev_boundary))"

fun tiered_loop :: "'d dec_lib \<Rightarrow> fee_tier list \<Rightarrow> 'd \<Rightarrow> 'd \<Rightarrow> 'd \<Rightarrow> fee_error + 'd" where
  "tiered_loop D [] fee remaining prev_boundary = Inr fee"
| "tiered_loop D (tier # tiers) fee remaining prev_boundary =
     (if d_le D remaining (d_zero D) then Inr fee
      else
        rbind (parse_for D ''tier ratio'' (ft_ratio tier)) (\<lambda>tier_ratio.
        rbind (taxable_in_tier D tier remaining prev_boundary) (\<lambda>(taxable, boundary).
        rbind (fee_op (amount_mul D (from_decimal D taxable) tier_ratio)) (\<lambda>part.
        rbind (fee_op (amount_add D fee part)) (\<lambda>fee'.
        rbind (fee_op (dec_sub D remaining taxable)) (\<lambda>remaining'.
        tiered_loop D tiers fee' remaining' boundary))))))"

definition compute_tiered_fee :: "'d dec_lib \<Rightarrow> fee_policy \<Rightarrow> string \<Rightarrow> 'd \<Rightarrow> fee_error + 'd" where
  "compute_tiered_fee D p amount base =
     rbind (parse_for D ''amount'' amount) (\<lambda>total_amount.
     tiered_loop D (fp_tiers p) base total_amount (d_zero D))"

definition compute_fee :: "'d dec_lib \<Rightarrow> fee_policy \<Rightarrow> string \<Rightarrow> fee_error + 'd" where
  "compute_fee D p amount =
     rbind (parse_for D ''base_fee'' (fp_base_fee p)) (\<lambda>base.
     if fp_tiers p = [] then
       rbind (parse_for D ''amount'' amount) (\<lambda>a.
       rbind (parse_for D ''ratio'' (fp_ratio p)) (\<lambda>r.
       rbind (fee_op (amount_mul D a r)) (\<lambda>ar.
       fee_op (amount_add D base ar))))
     else compute_tiered_fee D p amount base)"

definition fee_total :: "'d dec_lib \<Rightarrow> fee_policy \<Rightarrow> string \<Rightarrow> fee_error + 'd" where
  "fee_total D p amount =
     rbind (parse_for D ''amount'' amount) (\<lambda>a.
     rbind (compute_fee D p amount) (\<lambda>fee.
     fee_op (amount_add D a fee)))"

subsection \<open>Specification: marginal tiers over the rationals\<close>

text \<open>
  \<open>wf_tiers\<close>: the strings parse, ratios are at most 1, the bounds increase from \<open>lo\<close> and only the
  last tier is open. \<open>marginal_fee a lo\<close> sums the rounded tax of each portion of \<open>a\<close> above \<open>lo\<close>.
\<close>

definition parsed_val :: "'d dec_lib \<Rightarrow> ('d \<Rightarrow> rat) \<Rightarrow> string \<Rightarrow> rat option" where
  "parsed_val D v s = (case parse_pms D s of Inl _ \<Rightarrow> None | Inr d \<Rightarrow> Some (v d))"

fun wf_tiers :: "'d dec_lib \<Rightarrow> ('d \<Rightarrow> rat) \<Rightarrow> rat \<Rightarrow> fee_tier list \<Rightarrow> bool" where
  "wf_tiers D v lo [] \<longleftrightarrow> True"
| "wf_tiers D v lo (t # ts) \<longleftrightarrow>
     (case parsed_val D v (ft_ratio t) of None \<Rightarrow> False | Some r \<Rightarrow> r \<le> 1) \<and>
     (case ft_up_to t of
        None \<Rightarrow> ts = []
      | Some s \<Rightarrow> (case parsed_val D v s of None \<Rightarrow> False | Some u \<Rightarrow> lo \<le> u \<and> u \<le> 10 ^ 12 \<and> wf_tiers D v u ts))"

fun marginal_fee :: "'d dec_lib \<Rightarrow> ('d \<Rightarrow> rat) \<Rightarrow> rat \<Rightarrow> rat \<Rightarrow> fee_tier list \<Rightarrow> rat" where
  "marginal_fee D v a lo [] = 0"
| "marginal_fee D v a lo (t # ts) =
     (let r = the (parsed_val D v (ft_ratio t)) in
      case ft_up_to t of
        None \<Rightarrow> round8 (max 0 (a - lo) * r)
      | Some s \<Rightarrow> (let u = the (parsed_val D v s)
                 in round8 (max 0 (min a u - lo) * r) + marginal_fee D v a u ts))"

lemma parse_for_Inr [simp]: "parse_for D l s = Inr d \<longleftrightarrow> parse_pms D s = Inr d"
  by (auto simp: parse_for_def split: sum.splits)

lemma fee_op_Inr [simp]: "fee_op m = Inr x \<longleftrightarrow> m = Inr x"
  by (auto simp: fee_op_def split: sum.splits)

lemma parsed_val_Some: "parsed_val D v s = Some q \<longleftrightarrow> (\<exists>d. parse_pms D s = Inr d \<and> v d = q)"
  by (auto simp: parsed_val_def split: sum.splits)

lemma parsed_val_facts:
  "dec_laws D v \<Longrightarrow> parsed_val D v s = Some q \<Longrightarrow> 0 \<le> q \<and> at_scale 8 q"
  using parse_pms_val by (auto simp: parsed_val_Some)

lemma round8_portion_le: "0 \<le> r \<Longrightarrow> r \<le> 1 \<Longrightarrow> at_scale 8 p \<Longrightarrow> 0 \<le> p \<Longrightarrow> round8 (p * r) \<le> p"
  using round8_mono [of "p * r" p] by (simp add: mult_left_le round8_id)

lemma marginal_fee_zero:
  "wf_tiers D v lo ts \<Longrightarrow> a \<le> lo \<Longrightarrow> marginal_fee D v a lo ts = 0"
proof (induction D v lo ts rule: wf_tiers.induct)
  case (2 D v lo t ts)
  then show ?case by (auto simp: Let_def split: option.splits)
qed simp

lemma tier_step:
  assumes L: "dec_laws D v"
    and r: "parse_pms D (ft_ratio t) = Inr r" "v r \<le> 1"
    and fee: "at_scale 8 (v fee)" "0 \<le> v fee" and tax: "at_scale 8 (v tax)" "0 \<le> v tax" "v tax \<le> v rem"
    and rem: "at_scale 8 (v rem)" and bound: "v fee + v rem \<le> 2 * 10 ^ 12"
  obtains part fee' rem' where
    "amount_mul D (from_decimal D tax) r = Inr part" "amount_add D fee part = Inr fee'"
    "dec_sub D rem tax = Inr rem'" "v fee' = v fee + round8 (v tax * v r)" "v rem' = v rem - v tax"
    "round8 (v tax * v r) \<le> v tax"
proof -
  have rv: "0 \<le> v r" "at_scale 8 (v r)" using parse_pms_val [OF L r(1)] by simp_all
  have tv: "v (from_decimal D tax) = v tax"
    by (simp add: from_decimal_val [OF L] round8_id tax(1))
  have prod: "0 \<le> v tax * v r" "v tax * v r \<le> v tax"
    using rv(1) r(2) tax(2) by (simp_all add: mult_left_le)
  have big: "(2::rat) * 10 ^ 12 < 2 ^ 96 / 10 ^ 16" "(2::rat) * 10 ^ 12 < 2 ^ 96 / 10 ^ 8" by simp_all
  have "\<bar>v (from_decimal D tax) * v r\<bar> < 2 ^ 96 / 10 ^ 16"
    using prod tax fee bound big(1) by (simp add: tv)
  then obtain part where part: "amount_mul D (from_decimal D tax) r = Inr part"
    "v part = round8 (v tax * v r)"
    using amount_mul_val [OF L, of "from_decimal D tax" r] rv(2) tax(1) by (auto simp: tv)
  have le: "round8 (v tax * v r) \<le> v tax"
    using rv(1) r(2) tax by (simp add: round8_portion_le)
  have ge: "0 \<le> round8 (v tax * v r)" using prod(1) by (rule round8_nonneg)
  have "\<bar>v fee + v part\<bar> < 2 ^ 96 / 10 ^ 8"
    unfolding part(2) using le ge tax fee bound big(2) by (simp add: abs_of_nonneg)
  then obtain fee' where fee': "amount_add D fee part = Inr fee'" "v fee' = v fee + v part"
    using amount_add_exact [OF L fee(1)] part(2) by (metis at_scale_round8)
  have "\<bar>v rem - v tax\<bar> < 2 ^ 96 / 10 ^ 8"
    using tax fee bound big(2) by (simp add: abs_of_nonneg)
  then obtain rem' where "dec_sub D rem tax = Inr rem'" "v rem' = v rem - v tax"
    using dec_sub_exact [OF L rem tax(1)] by blast
  with part fee' le show thesis by (auto intro!: that)
qed

lemma tiered_loop_refines:
  assumes L: "dec_laws D v" and "wf_tiers D v (v prev) ts"
    and "at_scale 8 (v fee)" "0 \<le> v fee" "at_scale 8 (v rem)" "at_scale 8 (v prev)" "0 \<le> v prev"
    and "v prev \<le> 10 ^ 12" "0 \<le> a" "a \<le> 10 ^ 12"
    and "v rem = max 0 (a - v prev)" "v fee + v rem \<le> 2 * 10 ^ 12"
  shows "\<exists>f. tiered_loop D ts fee rem prev = Inr f \<and>
    v f = v fee + marginal_fee D v a (v prev) ts"
  using assms(2-)
proof (induction ts arbitrary: fee rem prev)
  case Nil
  then show ?case by simp
next
  case (Cons t ts)
  show ?case
  proof (cases "v rem \<le> 0")
    case True
    then have "a \<le> v prev" using Cons.prems(10) by simp
    then have "marginal_fee D v a (v prev) (t # ts) = 0"
      by (rule marginal_fee_zero [OF Cons.prems(1)])
    with True show ?thesis by (simp add: dec_order [OF L])
  next
    case False
    then have rem: "v rem = a - v prev" using Cons.prems(10) by simp
    obtain r where r: "parse_pms D (ft_ratio t) = Inr r" "v r \<le> 1"
      and rv: "parsed_val D v (ft_ratio t) = Some (v r)"
      using Cons.prems(1) by (auto simp: parsed_val_Some split: option.splits)
    show ?thesis
    proof (cases "ft_up_to t")
      case None
      then have ts: "ts = []" using Cons.prems(1) by simp
      have nonneg: "0 \<le> v rem" using False by simp
      obtain part fee' rem' where "amount_mul D (from_decimal D rem) r = Inr part"
        "amount_add D fee part = Inr fee'" "dec_sub D rem rem = Inr rem'"
        "v fee' = v fee + round8 (v rem * v r)" "v rem' = v rem - v rem"
        "round8 (v rem * v r) \<le> v rem"
        using tier_step [OF L r Cons.prems(2,3) Cons.prems(4) nonneg order_refl Cons.prems(4) Cons.prems(11)] .
      with r None ts False rem rv show ?thesis
        by (simp add: dec_order [OF L] taxable_in_tier_def)
    next
      case (Some s)
      obtain u where u: "parse_pms D s = Inr u" "v prev \<le> v u" "v u \<le> 10 ^ 12" "wf_tiers D v (v u) ts"
        and uv: "parsed_val D v s = Some (v u)"
        using Cons.prems(1) Some by (auto simp: parsed_val_Some split: option.splits)
      have us: "0 \<le> v u" "at_scale 8 (v u)" using parse_pms_val [OF L u(1)] by simp_all
      have big: "(10::rat) ^ 12 < 2 ^ 96 / 10 ^ 8" by simp
      have "\<bar>v u - v prev\<bar> < 2 ^ 96 / 10 ^ 8"
        using u(2,3) Cons.prems(6) big by (simp add: abs_of_nonneg)
      then obtain w where w: "dec_sub D u prev = Inr w" "v w = v u - v prev"
        using dec_sub_exact [OF L us(2) Cons.prems(5)] by blast
      define tax where "tax = (if d_lt D rem w then rem else w)"
      have taxv: "v tax = min a (v u) - v prev" "v tax = min (v rem) (v w)"
        using rem w(2) by (auto simp: tax_def dec_order [OF L])
      have tax: "at_scale 8 (v tax)" "0 \<le> v tax" "v tax \<le> v rem"
        using Cons.prems(4,5) us(2) w(2) u(2) False
        by (auto simp: tax_def dec_order [OF L] intro: at_scale_diff)
      obtain part fee' rem' where st: "amount_mul D (from_decimal D tax) r = Inr part"
        "amount_add D fee part = Inr fee'" "dec_sub D rem tax = Inr rem'"
        "v fee' = v fee + round8 (v tax * v r)" "v rem' = v rem - v tax" "round8 (v tax * v r) \<le> v tax"
        using tier_step [OF L r Cons.prems(2,3) tax Cons.prems(4) Cons.prems(11)] .
      have "0 \<le> v tax * v r" using tax(2) parse_pms_val(1) [OF L r(1)] by simp
      then have ge: "0 \<le> round8 (v tax * v r)" by (rule round8_nonneg)
      have rest: "\<exists>f. tiered_loop D ts fee' rem' u = Inr f \<and> v f = v fee' + marginal_fee D v a (v u) ts"
      proof (rule Cons.IH)
        show "v rem' = max 0 (a - v u)" using st(5) taxv(1) rem by simp
        show "v fee' + v rem' \<le> 2 * 10 ^ 12" using st(4-6) Cons.prems(11) by simp
      qed (use u us Cons.prems st(4,5) ge tax in \<open>auto intro: at_scale_add at_scale_diff\<close>)
      have step: "tiered_loop D (t # ts) fee rem prev = tiered_loop D ts fee' rem' u"
        using False r u(1) Some w(1) st(1-3)
        by (simp add: dec_order [OF L] taxable_in_tier_def parse_for_def fee_op_def tax_def)
      have "max 0 (min a (v u) - v prev) = v tax" using tax(2) taxv(1) by simp
      then have "v fee + marginal_fee D v a (v prev) (t # ts) = v fee' + marginal_fee D v a (v u) ts"
        using Some rv uv st(4) by (simp add: Let_def)
      with rest show ?thesis unfolding step by simp
    qed
  qed
qed

text \<open>
  With well-formed tiers, an amount and a base fee of at most 10^12, the tiered fee is
  computed without an error or a panic and is exactly the base fee plus, for each tier, the portion
  of the amount that falls in it times the tier's ratio, rounded to eight decimals: no part of the
  amount is taxed twice and none escapes.
\<close>

lemma tiered_fee_marginal:
  assumes L: "dec_laws D v" and "fp_tiers p \<noteq> []"
    and "parsed_val D v (fp_base_fee p) = Some b" and "parsed_val D v amount = Some a"
    and "wf_tiers D v 0 (fp_tiers p)" and "a \<le> 10 ^ 12" and "b \<le> 10 ^ 12"
  shows "\<exists>f. compute_fee D p amount = Inr f \<and> v f = b + marginal_fee D v a 0 (fp_tiers p)"
proof -
  obtain base am where p: "parse_pms D (fp_base_fee p) = Inr base" "v base = b"
    "parse_pms D amount = Inr am" "v am = a"
    using assms(3,4) by (auto simp: parsed_val_Some)
  have "\<exists>f. tiered_loop D (fp_tiers p) base am (d_zero D) = Inr f \<and>
      v f = v base + marginal_fee D v a (v (d_zero D)) (fp_tiers p)"
    by (rule tiered_loop_refines [OF L])
      (use assms p parse_pms_val [OF L p(1)] parse_pms_val [OF L p(3)] in \<open>auto simp: dec_laws_zero\<close>)
  with assms(2) p show ?thesis
    by (auto simp: compute_fee_def compute_tiered_fee_def dec_laws_zero [OF L])
qed

definition sample_policy :: fee_policy where
  "sample_policy = fee_policy_tiered ''0.001''
     [\<lparr>ft_up_to = Some ''100'', ft_ratio = ''0.03''\<rparr>, \<lparr>ft_up_to = None, ft_ratio = ''0.005''\<rparr>]"

lemma sample_policy_vals:
  "parsed_val ref_dec ref_val ''0.001'' = Some (1 / 1000)"
  "parsed_val ref_dec ref_val ''100'' = Some 100" "parsed_val ref_dec ref_val ''200'' = Some 200"
  "parsed_val ref_dec ref_val ''0.03'' = Some (3 / 100)"
  "parsed_val ref_dec ref_val ''0.005'' = Some (1 / 200)"
proof -
  have "parse_pms ref_dec ''0.001'' = Inr (1, 3)" "parse_pms ref_dec ''100'' = Inr (100, 0)"
    "parse_pms ref_dec ''200'' = Inr (200, 0)" "parse_pms ref_dec ''0.03'' = Inr (3, 2)"
    "parse_pms ref_dec ''0.005'' = Inr (5, 3)"
    by code_simp+
  then show "parsed_val ref_dec ref_val ''0.001'' = Some (1 / 1000)"
    "parsed_val ref_dec ref_val ''100'' = Some 100" "parsed_val ref_dec ref_val ''200'' = Some 200"
    "parsed_val ref_dec ref_val ''0.03'' = Some (3 / 100)"
    "parsed_val ref_dec ref_val ''0.005'' = Some (1 / 200)"
    by (simp_all add: parsed_val_def ref_val_def)
qed

end
