(* ===== verification/Economics.thy ===== *)
theory Economics
  imports Amount
begin

section \<open>Fee burn, storage fee and gas pools (\<open>pms-economics\<close>, \<open>pms-types-economics\<close>)\<close>

text \<open>
  Three pure rules over decimals. The fee burn splits a fee into a destroyed and a distributable
  part; the storage fee charges started kilobytes; a gas pool is the deposit a ledger pays its
  transactions from. \<open>gas_run\<close> drives a pool through a list of operations the way its callers do (a
  refused operation leaves the pool as it was) and keeps the list of those that went through.
  \<open>TpsTracker\<close> (\<open>dynamic_fee.rs\<close>) is not modelled: its result is a 64-bit float.
\<close>

subsection \<open>Fee burn\<close>

record 'd fee_burn_result =
  fbr_burned :: 'd
  fbr_distributable :: 'd

definition calculate_fee_burn :: "'d dec_lib \<Rightarrow> 'd \<Rightarrow> u32 \<Rightarrow> panic + 'd fee_burn_result" where
  "calculate_fee_burn D total_fees burn_rate_bps =
     (if burn_rate_bps = 0 \<or> d_is_zero D total_fees
      then Inr \<lparr>fbr_burned = d_zero D, fbr_distributable = total_fees\<rparr>
      else
        rbind (dec_div D (d_of_nat D (min (unat burn_rate_bps) 10000)) (d_of_nat D 10000)) (\<lambda>rate.
        rbind (dec_mul D total_fees rate) (\<lambda>product.
        let burned = d_round_dp D product 8 in
        rbind (dec_sub D total_fees burned) (\<lambda>distributable.
        Inr \<lparr>fbr_burned = burned, fbr_distributable = distributable\<rparr>))))"

lemma bps_rate:
  assumes L: "dec_laws D v" and "b \<le> 10000"
  obtains r where "dec_div D (d_of_nat D b) (d_of_nat D 10000) = Inr r" "v r = of_nat b / 10000"
    "at_scale 4 (v r)"
proof -
  have vals: "v (d_of_nat D b) = of_nat b" "v (d_of_nat D 10000) = 10000"
    using dec_laws_of_nat [OF L, of b] dec_laws_of_nat [OF L, of 10000] assms(2) by simp_all
  have s: "at_scale 4 (of_nat b / 10000)"
    unfolding at_scale_def by (rule exI [of _ "int b"]) simp
  have "\<bar>of_nat b / 10000 :: rat\<bar> \<le> 1" using assms(2) by simp
  then have "dec_repr (of_nat b / 10000)"
    by (intro dec_repr_at_scale [OF s]) (simp_all add: less_le_trans [OF _ order_refl] le_less_trans)
  then obtain r where r: "d_checked_div D (d_of_nat D b) (d_of_nat D 10000) = Some r"
    "v r = of_nat b / 10000"
    using dec_laws_div [OF L, of "d_of_nat D 10000" "d_of_nat D b"] vals by auto
  show thesis
    by (rule that [of r]) (simp add: dec_div_def r(1), fact r(2), simp only: r(2) s)
qed

text \<open>
  The fee burn never creates or loses a unit: for a fee of at most 10^12 at eight
  decimals it does not panic, the burned part and the distributable part add up to the fee exactly,
  both are non-negative, and the burned part is the fee times the rate (capped at 100 percent)
  rounded to eight decimals.
\<close>

lemma fee_burn_splits:
  assumes L: "dec_laws D v" and s: "at_scale 8 (v fees)" and t: "0 \<le> v fees" "v fees \<le> 10 ^ 12"
  shows "\<exists>r. calculate_fee_burn D fees bps = Inr r \<and>
    v (fbr_burned r) + v (fbr_distributable r) = v fees \<and>
    0 \<le> v (fbr_burned r) \<and> 0 \<le> v (fbr_distributable r) \<and>
    v (fbr_burned r) = round8 (v fees * of_nat (min (unat bps) 10000) / 10000)"
proof (cases "bps = 0 \<or> d_is_zero D fees")
  case True
  with t(1) show ?thesis
    by (auto simp: calculate_fee_burn_def dec_order [OF L])
next
  case False
  let ?b = "min (unat bps) 10000"
  obtain rate where rate: "dec_div D (d_of_nat D ?b) (d_of_nat D 10000) = Inr rate"
    "v rate = of_nat ?b / 10000" "at_scale 4 (v rate)"
    using bps_rate [OF L, of ?b] by auto
  have r01: "0 \<le> v rate" "v rate \<le> 1" by (simp_all add: rate(2))
  have p: "0 \<le> v fees * v rate" "v fees * v rate \<le> v fees"
    using r01 t(1) by (simp_all add: mult_left_le)
  have "(10::rat) ^ 12 < 2 ^ 96 / 10 ^ (8 + 4)" "(10::rat) ^ 12 < 2 ^ 96 / 10 ^ 8" by simp_all
  then have big: "\<bar>v fees * v rate\<bar> < 2 ^ 96 / 10 ^ (8 + 4)" "v fees < 2 ^ 96 / 10 ^ 8"
    using p t(2) by linarith+
  have "dec_repr (v fees * v rate)"
    using dec_repr_at_scale [OF at_scale_mult [OF s rate(3)] _ big(1)] by simp
  then obtain q where q: "d_checked_mul D fees rate = Some q" "v q = v fees * v rate"
    using dec_laws_mul [OF L] by blast
  let ?burned = "d_round_dp D q 8"
  have burned: "v ?burned = round8 (v fees * v rate)"
    by (simp add: dec_laws_round [OF L] q(2) round8_def)
  have b1: "0 \<le> v ?burned" using p(1) burned by (simp add: round8_nonneg)
  have b2: "v ?burned \<le> v fees"
    using round8_mono [OF p(2)] burned s by (simp add: round8_id)
  have "\<bar>v fees - v ?burned\<bar> < 2 ^ 96 / 10 ^ 8" using b1 b2 t(1) big(2) by linarith
  then obtain d where d: "dec_sub D fees ?burned = Inr d" "v d = v fees - v ?burned"
    using dec_sub_exact [OF L s] burned by (metis at_scale_round8)
  have "calculate_fee_burn D fees bps = Inr \<lparr>fbr_burned = ?burned, fbr_distributable = d\<rparr>"
    using False rate(1) q(1) d(1) by (simp add: calculate_fee_burn_def dec_mul_def)
  with b1 b2 d(2) burned rate(2) show ?thesis by simp
qed

subsection \<open>Storage fee\<close>

definition kb_units :: "u64 \<Rightarrow> u64" where
  "kb_units payload_bytes = (payload_bytes + 1023) div 1024"

definition calculate_storage_fee :: "'d dec_lib \<Rightarrow> u64 \<Rightarrow> 'd \<Rightarrow> panic + 'd" where
  "calculate_storage_fee D payload_bytes fee_per_kb =
     (if payload_bytes = 0 \<or> d_is_zero D fee_per_kb then Inr (d_zero D)
      else dec_mul D (d_of_nat D (unat (kb_units payload_bytes))) fee_per_kb)"

lemma kb_units_ceiling:
  assumes "unat n < 2 ^ 64 - 1023" and "n \<noteq> 0"
  shows "1024 * (unat (kb_units n) - 1) < unat n" and "unat n \<le> 1024 * unat (kb_units n)"
    and "0 < unat (kb_units n)"
proof -
  have "unat (n + 1023) = unat n + 1023"
    using assms(1) by (simp add: unat_word_ariths)
  then have k: "unat (kb_units n) = (unat n + 1023) div 1024"
    by (simp add: kb_units_def unat_div)
  have "0 < unat n" using assms(2) by (simp add: unat_gt_0)
  then show "1024 * (unat (kb_units n) - 1) < unat n" and "unat n \<le> 1024 * unat (kb_units n)"
    and "0 < unat (kb_units n)"
    unfolding k by linarith+
qed

text \<open>
  A payload of at most 10^12 bytes and a price of at most one unit per kilobyte are charged
  by started kilobytes: the fee is \<open>k\<close> times the price for the one \<open>k\<close> with
  \<open>1024 * (k - 1) < bytes <= 1024 * k\<close>, without rounding or panic.
\<close>

lemma storage_fee_started_kilobytes:
  assumes L: "dec_laws D v" and "n \<noteq> 0" and "unat n \<le> 10 ^ 12"
    and s: "at_scale 8 (v price)" and "0 < v price" and "v price \<le> 1"
  shows "\<exists>f k. calculate_storage_fee D n price = Inr f \<and> v f = of_nat k * v price \<and>
    0 < k \<and> 1024 * (k - 1) < unat n \<and> unat n \<le> 1024 * k"
proof -
  let ?k = "unat (kb_units n)"
  have small: "unat n < 2 ^ 64 - 1023" using assms(3) by simp
  note k = kb_units_ceiling [OF small assms(2)]
  have k12: "?k \<le> 10 ^ 12" using k(1) assms(3) k(3) by linarith
  have kv: "v (d_of_nat D ?k) = of_nat ?k"
    using unsigned_less [of "kb_units n"] by (intro dec_laws_of_nat [OF L]) simp
  have "of_nat ?k * v price \<le> of_nat ?k" using assms(6) by (rule mult_left_le) (rule of_nat_0_le_iff)
  also have "(of_nat ?k :: rat) \<le> of_nat (10 ^ 12)" using k12 by (simp only: of_nat_le_iff)
  finally have "of_nat ?k * v price \<le> 10 ^ 12" by simp
  moreover have "0 \<le> of_nat ?k * v price"
    by (rule mult_nonneg_nonneg [OF of_nat_0_le_iff]) (use assms(5) in simp)
  moreover have "(10::rat) ^ 12 < 2 ^ 96 / 10 ^ (0 + 8)" by simp
  ultimately have "\<bar>of_nat ?k * v price\<bar> < 2 ^ 96 / 10 ^ (0 + 8)" by linarith
  then have "dec_repr (v (d_of_nat D ?k) * v price)"
    unfolding kv by (intro dec_repr_at_scale [OF at_scale_mult [OF at_scale_of_nat [of 0] s]]) simp_all
  then obtain f where "d_checked_mul D (d_of_nat D ?k) price = Some f" "v f = of_nat ?k * v price"
    using dec_laws_mul [OF L] kv by metis
  then have "calculate_storage_fee D n price = Inr f" "v f = of_nat ?k * v price"
    using assms(2,5) by (simp_all add: calculate_storage_fee_def dec_mul_def dec_order [OF L])
  with k show ?thesis by blast
qed

subsection \<open>Gas pools\<close>

record 'd gas_pool =
  gp_ledger_id :: string
  gp_balance :: 'd
  gp_total_consumed :: 'd
  gp_total_deposited :: 'd
  gp_created_at :: u64

datatype 'd gas_pool_error =
    InsufficientGas 'd 'd 'd
  | InsufficientBalance 'd 'd
  | GasInvalidAmount 'd
  | GasPanic panic

definition gas_pool_new :: "'d dec_lib \<Rightarrow> string \<Rightarrow> u64 \<Rightarrow> 'd gas_pool" where
  "gas_pool_new D ledger_id now_ms =
     \<lparr>gp_ledger_id = ledger_id, gp_balance = d_zero D, gp_total_consumed = d_zero D,
      gp_total_deposited = d_zero D, gp_created_at = now_ms\<rparr>"

definition gas_op :: "panic + 'a \<Rightarrow> 'd gas_pool_error + 'a" where
  "gas_op m = (case m of Inl p \<Rightarrow> Inl (GasPanic p) | Inr x \<Rightarrow> Inr x)"

definition can_consume :: "'d dec_lib \<Rightarrow> 'd gas_pool \<Rightarrow> 'd \<Rightarrow> 'd \<Rightarrow> 'd gas_pool_error + bool" where
  "can_consume D pool gas_per_tx min_balance =
     (if d_le D gas_per_tx (gp_balance pool)
      then rbind (gas_op (dec_sub D (gp_balance pool) gas_per_tx)) (\<lambda>left. Inr (d_le D min_balance left))
      else Inr False)"

definition gas_consume ::
  "'d dec_lib \<Rightarrow> 'd gas_pool \<Rightarrow> 'd \<Rightarrow> 'd \<Rightarrow> 'd gas_pool_error + ('d \<times> 'd gas_pool)" where
  "gas_consume D pool gas_per_tx min_balance =
     (if d_is_zero D gas_per_tx then Inr (gp_balance pool, pool)
      else
        rbind (can_consume D pool gas_per_tx min_balance) (\<lambda>can.
        if \<not> can then Inl (InsufficientGas (gp_balance pool) gas_per_tx min_balance)
        else
          rbind (gas_op (dec_sub D (gp_balance pool) gas_per_tx)) (\<lambda>balance.
          rbind (gas_op (dec_add D (gp_total_consumed pool) gas_per_tx)) (\<lambda>consumed.
          Inr (balance, pool\<lparr>gp_balance := balance, gp_total_consumed := consumed\<rparr>)))))"

definition gas_deposit :: "'d dec_lib \<Rightarrow> 'd gas_pool \<Rightarrow> 'd \<Rightarrow> 'd gas_pool_error + ('d \<times> 'd gas_pool)" where
  "gas_deposit D pool amount =
     (if d_le D amount (d_zero D) then Inl (GasInvalidAmount amount)
      else
        rbind (gas_op (dec_add D (gp_balance pool) amount)) (\<lambda>balance.
        rbind (gas_op (dec_add D (gp_total_deposited pool) amount)) (\<lambda>deposited.
        Inr (balance, pool\<lparr>gp_balance := balance, gp_total_deposited := deposited\<rparr>))))"

definition gas_withdraw :: "'d dec_lib \<Rightarrow> 'd gas_pool \<Rightarrow> 'd \<Rightarrow> 'd gas_pool_error + ('d \<times> 'd gas_pool)" where
  "gas_withdraw D pool amount =
     (if d_le D amount (d_zero D) then Inl (GasInvalidAmount amount)
      else if d_lt D (gp_balance pool) amount then Inl (InsufficientBalance (gp_balance pool) amount)
      else
        rbind (gas_op (dec_sub D (gp_balance pool) amount)) (\<lambda>balance.
        Inr (balance, pool\<lparr>gp_balance := balance\<rparr>)))"

datatype 'd gas_event = GasConsume 'd 'd | GasDeposit 'd | GasWithdraw 'd

fun gas_apply :: "'d dec_lib \<Rightarrow> 'd gas_pool \<Rightarrow> 'd gas_event \<Rightarrow> 'd gas_pool_error + ('d \<times> 'd gas_pool)" where
  "gas_apply D pool (GasConsume g m) = gas_consume D pool g m"
| "gas_apply D pool (GasDeposit a) = gas_deposit D pool a"
| "gas_apply D pool (GasWithdraw a) = gas_withdraw D pool a"

fun gas_run :: "'d dec_lib \<Rightarrow> 'd gas_pool \<Rightarrow> 'd gas_event list \<Rightarrow> 'd gas_pool \<times> 'd gas_event list" where
  "gas_run D pool [] = (pool, [])"
| "gas_run D pool (e # es) =
     (case gas_apply D pool e of
        Inl _ \<Rightarrow> gas_run D pool es
      | Inr (_, pool') \<Rightarrow> (let (p, done_events) = gas_run D pool' es in (p, e # done_events)))"

text \<open>What a list of successful operations adds up to, and the balance they leave.\<close>

fun event_in :: "('d \<Rightarrow> rat) \<Rightarrow> 'd gas_event \<Rightarrow> rat" where
  "event_in v (GasDeposit a) = v a"
| "event_in v _ = 0"

fun event_gas :: "('d \<Rightarrow> rat) \<Rightarrow> 'd gas_event \<Rightarrow> rat" where
  "event_gas v (GasConsume g m) = v g"
| "event_gas v _ = 0"

fun event_out :: "('d \<Rightarrow> rat) \<Rightarrow> 'd gas_event \<Rightarrow> rat" where
  "event_out v (GasWithdraw a) = v a"
| "event_out v _ = 0"

fun event_wf :: "('d \<Rightarrow> rat) \<Rightarrow> 'd gas_event \<Rightarrow> bool" where
  "event_wf v (GasConsume g m) \<longleftrightarrow> at_scale 8 (v g) \<and> 0 \<le> v g"
| "event_wf v (GasDeposit a) \<longleftrightarrow> at_scale 8 (v a) \<and> 0 \<le> v a"
| "event_wf v (GasWithdraw a) \<longleftrightarrow> at_scale 8 (v a)"

definition gas_inv :: "('d \<Rightarrow> rat) \<Rightarrow> rat \<Rightarrow> 'd gas_pool \<Rightarrow> bool" where
  "gas_inv v cap p \<longleftrightarrow>
     at_scale 8 (v (gp_balance p)) \<and> at_scale 8 (v (gp_total_consumed p)) \<and>
     at_scale 8 (v (gp_total_deposited p)) \<and> 0 \<le> v (gp_balance p) \<and> 0 \<le> v (gp_total_consumed p) \<and>
     v (gp_balance p) + v (gp_total_consumed p) \<le> v (gp_total_deposited p) \<and>
     v (gp_total_deposited p) \<le> cap"

lemma gas_op_Inr [simp]: "gas_op m = Inr x \<longleftrightarrow> m = Inr x"
  by (auto simp: gas_op_def split: sum.splits)

lemma dec_add_exact:
  assumes L: "dec_laws D v" and "at_scale 8 (v a)" "at_scale 8 (v b)"
    and "\<bar>v a + v b\<bar> < 2 ^ 96 / 10 ^ 8"
  obtains c where "dec_add D a b = Inr c" and "v c = v a + v b"
  using dec_laws_add [OF L repr8 [OF at_scale_add [OF assms(2,3)] assms(4)]]
  by (auto simp: dec_add_def)

lemma dec_add_val:
  assumes "dec_laws D v" "at_scale 8 (v a)" "at_scale 8 (v b)" "0 \<le> v a" "0 \<le> v b"
    and "v a + v b \<le> 10 ^ 12" and "dec_add D a b = Inr c"
  shows "v c = v a + v b"
proof -
  have "(10::rat) ^ 12 < 2 ^ 96 / 10 ^ 8" by simp
  then have "\<bar>v a + v b\<bar> < 2 ^ 96 / 10 ^ 8" using assms(4-6) by linarith
  then show ?thesis using dec_add_exact [OF assms(1-3)] assms(7) by auto
qed

lemma dec_sub_val:
  assumes "dec_laws D v" "at_scale 8 (v a)" "at_scale 8 (v b)" "0 \<le> v b" "v b \<le> v a"
    and "v a \<le> 10 ^ 12" and "dec_sub D a b = Inr c"
  shows "v c = v a - v b"
proof -
  have "(10::rat) ^ 12 < 2 ^ 96 / 10 ^ 8" by simp
  then have "\<bar>v a - v b\<bar> < 2 ^ 96 / 10 ^ 8" using assms(4-6) by linarith
  then show ?thesis using dec_sub_exact [OF assms(1-3)] assms(7) by auto
qed

text \<open>One successful operation moves exactly its amount.\<close>

lemma gas_apply_step:
  assumes L: "dec_laws D v" and inv: "gas_inv v cap p" and wf: "event_wf v e"
    and cap: "cap + event_in v e \<le> 10 ^ 12" and ok: "gas_apply D p e = Inr (b, q)"
  shows "gas_inv v (cap + event_in v e) q \<and>
    v (gp_balance q) = v (gp_balance p) + event_in v e - event_gas v e - event_out v e \<and>
    v (gp_total_deposited q) = v (gp_total_deposited p) + event_in v e \<and>
    v (gp_total_consumed q) = v (gp_total_consumed p) + event_gas v e \<and> b = gp_balance q"
proof (cases e)
  case (GasConsume g m)
  show ?thesis
  proof (cases "v g = 0")
    case True
    with GasConsume ok inv show ?thesis
      by (auto simp: gas_consume_def dec_order [OF L])
  next
    case False
    with GasConsume ok obtain b' c where st: "v g \<le> v (gp_balance p)"
      "dec_sub D (gp_balance p) g = Inr b'" "dec_add D (gp_total_consumed p) g = Inr c"
      "q = p\<lparr>gp_balance := b', gp_total_consumed := c\<rparr>" "b = b'"
      by (auto simp: gas_consume_def can_consume_def dec_order [OF L] split: if_splits)
    have g: "at_scale 8 (v g)" "0 \<le> v g" using wf GasConsume by simp_all
    have "v b' = v (gp_balance p) - v g"
      by (rule dec_sub_val [OF L _ g st(1) _ st(2)]) (use inv cap GasConsume in \<open>auto simp: gas_inv_def\<close>)
    moreover have "v c = v (gp_total_consumed p) + v g"
      by (rule dec_add_val [OF L _ g(1) _ g(2) _ st(3)])
        (use inv cap GasConsume st(1) in \<open>auto simp: gas_inv_def\<close>)
    ultimately show ?thesis
      using inv g st GasConsume by (auto simp: gas_inv_def intro: at_scale_add at_scale_diff)
  qed
next
  case (GasDeposit a)
  then obtain b' d where st: "0 < v a" "dec_add D (gp_balance p) a = Inr b'"
    "dec_add D (gp_total_deposited p) a = Inr d"
    "q = p\<lparr>gp_balance := b', gp_total_deposited := d\<rparr>" "b = b'"
    using ok by (auto simp: gas_deposit_def dec_order [OF L] split: if_splits)
  have a: "at_scale 8 (v a)" "0 \<le> v a" using wf GasDeposit by simp_all
  have "v b' = v (gp_balance p) + v a"
    by (rule dec_add_val [OF L _ a(1) _ a(2) _ st(2)]) (use inv cap GasDeposit in \<open>auto simp: gas_inv_def\<close>)
  moreover have "v d = v (gp_total_deposited p) + v a"
    by (rule dec_add_val [OF L _ a(1) _ a(2) _ st(3)]) (use inv cap GasDeposit in \<open>auto simp: gas_inv_def\<close>)
  ultimately show ?thesis
    using inv a st GasDeposit by (auto simp: gas_inv_def intro: at_scale_add)
next
  case (GasWithdraw a)
  then obtain b' where st: "0 < v a" "v a \<le> v (gp_balance p)" "dec_sub D (gp_balance p) a = Inr b'"
    "q = p\<lparr>gp_balance := b'\<rparr>" "b = b'"
    using ok by (auto simp: gas_withdraw_def dec_order [OF L] split: if_splits)
  have "v b' = v (gp_balance p) - v a"
    by (rule dec_sub_val [OF L _ _ _ st(2) _ st(3)])
      (use inv cap wf GasWithdraw st(1) in \<open>auto simp: gas_inv_def\<close>)
  then show ?thesis
    using inv wf st GasWithdraw by (auto simp: gas_inv_def intro: at_scale_diff)
qed

lemma gas_run_from:
  assumes L: "dec_laws D v" and "gas_inv v cap p" and "\<forall>e\<in>set es. event_wf v e"
    and "cap + sum_list (map (event_in v) es) \<le> 10 ^ 12" and "gas_run D p es = (q, evs)"
  shows "(\<exists>cap'. gas_inv v cap' q) \<and>
    v (gp_balance q) = v (gp_balance p) + sum_list (map (event_in v) evs)
      - sum_list (map (event_gas v) evs) - sum_list (map (event_out v) evs) \<and>
    v (gp_total_deposited q) = v (gp_total_deposited p) + sum_list (map (event_in v) evs) \<and>
    v (gp_total_consumed q) = v (gp_total_consumed p) + sum_list (map (event_gas v) evs)"
  using assms(2-)
proof (induction es arbitrary: p cap evs)
  case Nil
  then show ?case by auto
next
  case (Cons e es)
  have nn: "0 \<le> event_in v x" if "x \<in> set (e # es)" for x
    using Cons.prems(2) that by (cases x) auto
  have tl: "0 \<le> sum_list (map (event_in v) es)" by (rule sum_list_nonneg) (use nn in auto)
  show ?case
  proof (cases "gas_apply D p e")
    case (Inl err)
    have "cap + sum_list (map (event_in v) es) \<le> 10 ^ 12" using Cons.prems(3) nn [of e] by simp
    with Cons Inl show ?thesis by simp
  next
    case (Inr r)
    obtain b p' where r: "r = (b, p')" by (cases r)
    obtain evs' where evs: "gas_run D p' es = (q, evs')" "evs = e # evs'"
      using Cons.prems(4) Inr r by (auto split: prod.splits)
    have step: "gas_inv v (cap + event_in v e) p' \<and>
      v (gp_balance p') = v (gp_balance p) + event_in v e - event_gas v e - event_out v e \<and>
      v (gp_total_deposited p') = v (gp_total_deposited p) + event_in v e \<and>
      v (gp_total_consumed p') = v (gp_total_consumed p) + event_gas v e \<and> b = gp_balance p'"
      by (rule gas_apply_step [OF L Cons.prems(1)]) (use Cons.prems Inr r tl in auto)
    show ?thesis
      using Cons.IH [OF conjunct1 [OF step] _ _ evs(1)] step Cons.prems(2,3) evs(2) by simp
  qed
qed

text \<open>
  Accounting of a gas pool: from a new pool, after any list of deposits, consumptions and
  withdrawals (refused ones leave the pool unchanged), the balance is exactly what was deposited
  minus what was consumed and withdrawn by the operations that went through, it is never negative,
  and the two lifetime counters are exactly those sums. Amounts are at eight decimals and the
  deposits total at most 10^12.
\<close>

lemma gas_pool_accounting:
  assumes L: "dec_laws D v" and "\<forall>e\<in>set es. event_wf v e"
    and "sum_list (map (event_in v) es) \<le> 10 ^ 12"
    and "gas_run D (gas_pool_new D ledger now) es = (q, evs)"
  shows "v (gp_balance q) = sum_list (map (event_in v) evs)
      - sum_list (map (event_gas v) evs) - sum_list (map (event_out v) evs) \<and>
    0 \<le> v (gp_balance q) \<and>
    v (gp_total_deposited q) = sum_list (map (event_in v) evs) \<and>
    v (gp_total_consumed q) = sum_list (map (event_gas v) evs)"
proof -
  have new: "gas_inv v 0 (gas_pool_new D ledger now)"
    by (simp add: gas_inv_def gas_pool_new_def dec_laws_zero [OF L])
  then show ?thesis
    using gas_run_from [OF L new assms(2) _ assms(4)] assms(3)
    by (auto simp: gas_inv_def gas_pool_new_def dec_laws_zero [OF L])
qed

definition sample_gas_events :: "rdec gas_event list" where
  "sample_gas_events = [GasDeposit (5, 0), GasConsume (2, 0) (1, 0), GasConsume (9, 0) (0, 0), GasWithdraw (1, 0)]"

text \<open>
  A consumption that goes through leaves at least the minimum balance of the ledger, and one
  that would not is refused with \<open>InsufficientGas\<close>: for a pool in range and a positive gas price the
  outcome is decided by \<open>balance - gas >= min_balance\<close> and \<open>balance >= gas\<close> alone.
\<close>

lemma gas_consume_keeps_minimum:
  assumes L: "dec_laws D v" and inv: "gas_inv v (10 ^ 12) p"
    and g: "at_scale 8 (v g)" "0 < v g"
  shows "if v g \<le> v (gp_balance p) \<and> v m \<le> v (gp_balance p) - v g
    then \<exists>b q. gas_consume D p g m = Inr (b, q) \<and> v (gp_balance q) = v (gp_balance p) - v g \<and>
           v m \<le> v (gp_balance q) \<and> gp_total_deposited q = gp_total_deposited p
    else gas_consume D p g m = Inl (InsufficientGas (gp_balance p) g m)"
proof -
  have lim: "(10::rat) ^ 12 < 2 ^ 96 / 10 ^ 8" by simp
  have sub: "\<exists>b. dec_sub D (gp_balance p) g = Inr b \<and> v b = v (gp_balance p) - v g"
    if "v g \<le> v (gp_balance p)"
  proof -
    have "\<bar>v (gp_balance p) - v g\<bar> < 2 ^ 96 / 10 ^ 8"
      using that g(2) inv lim unfolding gas_inv_def by linarith
    then show ?thesis
      using dec_sub_exact [OF L _ g(1), of "gp_balance p"] inv unfolding gas_inv_def by metis
  qed
  have add: "\<exists>c. dec_add D (gp_total_consumed p) g = Inr c" if "v g \<le> v (gp_balance p)"
  proof -
    have "\<bar>v (gp_total_consumed p) + v g\<bar> < 2 ^ 96 / 10 ^ 8"
      using that g(2) inv lim unfolding gas_inv_def by linarith
    then show ?thesis
      using dec_add_exact [OF L _ g(1), of "gp_total_consumed p"] inv unfolding gas_inv_def by metis
  qed
  show ?thesis
  proof (cases "v g \<le> v (gp_balance p)")
    case True
    obtain b where b: "dec_sub D (gp_balance p) g = Inr b" "v b = v (gp_balance p) - v g"
      using sub [OF True] by blast
    obtain c where c: "dec_add D (gp_total_consumed p) g = Inr c" using add [OF True] by blast
    show ?thesis
      using True g(2) by (simp add: gas_consume_def can_consume_def gas_op_def dec_order [OF L] b c)
  next
    case False
    then show ?thesis
      using g(2) by (simp add: gas_consume_def can_consume_def gas_op_def dec_order [OF L])
  qed
qed

end
