(* ===== verification/Conservation.thy ===== *)
theory Conservation
  imports Decimals RefDecimal TxTypes
begin

section \<open>Amount rules, demurrage and conservation per asset\<close>

text \<open>
  \<open>validations/amount.rs\<close> (parsing), \<open>validations/demurrage.rs\<close> (the effective value of an output
  whose asset decays) and the conservation check of \<open>validations/transactions.rs\<close>. The check groups
  inputs and outputs by asset with checked sums and compares the groups. Its specification,
  \<open>conserves\<close>, is over the rationals: native value may only shrink, a decaying asset may only shrink
  from its effective value, any other asset is conserved exactly. The map of demurrage rates is only
  looked up, so it is a partial function.
\<close>

definition amount_parse_pos_dec :: "'d dec_lib \<Rightarrow> string \<Rightarrow> 'd vresult" where
  "amount_parse_pos_dec D s =
     rbind (ok_or (d_from_str D s) (InvalidAmount (''amount not a valid decimal: '' @ quoted s))) (\<lambda>d.
     if d_le D d (d_zero D) then Inl (InvalidAmount (''amount must be positive: '' @ quoted s)) else Inr d)"

definition amount_parse_non_neg_dec :: "'d dec_lib \<Rightarrow> string \<Rightarrow> 'd vresult" where
  "amount_parse_non_neg_dec D s =
     rbind (ok_or (d_from_str D s) (InvalidAmount (''amount not a valid decimal: '' @ quoted s))) (\<lambda>d.
     if d_lt D d (d_zero D) then Inl (InvalidAmount (''amount must be non-negative: '' @ quoted s)) else Inr d)"

definition amounts_positive_outputs :: "'d dec_lib \<Rightarrow> tx_output list \<Rightarrow> unit vresult" where
  "amounts_positive_outputs D outs =
     try_each (\<lambda>out. rbind (amount_parse_pos_dec D (o_amount out)) (\<lambda>_. Inr ())) outs"

fun decimal_chars :: "nat \<Rightarrow> string \<Rightarrow> bool" where
  "decimal_chars dots [] = True"
| "decimal_chars dots (c # s) =
     (if c = CHR ''.'' then (if 1 < dots + 1 then False else decimal_chars (dots + 1) s)
      else if 48 \<le> (of_char c :: nat) \<and> (of_char c :: nat) \<le> 57 then decimal_chars dots s
      else False)"

definition trim_matches :: "char \<Rightarrow> string \<Rightarrow> string" where
  "trim_matches c s = rev (dropWhile (\<lambda>x. x = c) (rev (dropWhile (\<lambda>x. x = c) s)))"

definition amount_is_positive_decimal :: "string \<Rightarrow> bool" where
  "amount_is_positive_decimal s =
     (if starts_with ''-'' s then False
      else if s = [] then False
      else if \<not> decimal_chars 0 s then False
      else 0 < length (trim_matches (CHR ''.'') (trim_matches (CHR ''0'') s)))"

text \<open>A panic of an operator inside a validation.\<close>

definition panics :: "panic + 'a \<Rightarrow> 'a vresult" where
  "panics m = (case m of Inl (Panic s) \<Rightarrow> Inl (RustPanic s) | Inr x \<Rightarrow> Inr x)"

lemma panics_Inr [simp]: "panics m = Inr x \<longleftrightarrow> m = Inr x" "panics (Inr x) = Inr x"
  by (auto simp: panics_def split: sum.splits panic.splits)

subsection \<open>Demurrage\<close>

definition day_ms :: u64 where
  "day_ms = 86400000"

definition elapsed_full_days :: "u64 \<Rightarrow> u64 \<Rightarrow> u64" where
  "elapsed_full_days created_at_ms now_ms = sat_sub now_ms created_at_ms div day_ms"

definition effective_value :: "'d dec_lib \<Rightarrow> 'd \<Rightarrow> u64 option \<Rightarrow> u64 \<Rightarrow> u32 \<Rightarrow> panic + 'd" where
  "effective_value D amount created_at now_ms bps_per_day =
     (case created_at of
        None \<Rightarrow> Inr amount
      | Some created \<Rightarrow>
          if bps_per_day = 0 then Inr amount
          else let days = elapsed_full_days created now_ms in
               if days = 0 then Inr amount
               else
                 rbind (dec_mul D amount (d_of_nat D (unat bps_per_day))) (\<lambda>a.
                 rbind (dec_mul D a (d_of_nat D (unat days))) (\<lambda>b.
                 rbind (dec_div D b (d_of_nat D 10000)) (\<lambda>decay.
                 rbind (dec_sub D amount decay) (\<lambda>r.
                 Inr (d_max D r (d_zero D)))))))"

subsection \<open>Conservation\<close>

definition checked_sum :: "'d dec_lib \<Rightarrow> 'd \<Rightarrow> 'd \<Rightarrow> 'd vresult" where
  "checked_sum D acc x = ok_or (d_checked_add D acc x) (InvalidAmount ''amount sum overflow'')"

type_synonym 'd asset_sums = "(string option \<times> 'd) list"

definition asset_entry :: "'d dec_lib \<Rightarrow> 'd asset_sums \<Rightarrow> string option \<Rightarrow> 'd" where
  "asset_entry D m a = (case map_of m a of None \<Rightarrow> d_zero D | Some e \<Rightarrow> e)"

definition add_to_asset :: "'d dec_lib \<Rightarrow> 'd asset_sums \<Rightarrow> string option \<Rightarrow> 'd \<Rightarrow> 'd asset_sums vresult" where
  "add_to_asset D m a x = rbind (checked_sum D (asset_entry D m a) x) (\<lambda>s. Inr (AList.update a s m))"

definition demurrage_rate :: "(string \<Rightarrow> u32 option) \<Rightarrow> string option \<Rightarrow> u32" where
  "demurrage_rate rates a =
     (case a of None \<Rightarrow> 0 | Some asset \<Rightarrow> (case rates asset of None \<Rightarrow> 0 | Some r \<Rightarrow> r))"

definition input_value :: "'d dec_lib \<Rightarrow> (string \<Rightarrow> u32 option) \<Rightarrow> u64 \<Rightarrow> tx_output \<Rightarrow> 'd vresult" where
  "input_value D rates now_ms out =
     rbind (amount_parse_pos_dec D (o_amount out)) (\<lambda>nominal.
     let rate = demurrage_rate rates (o_asset_id out) in
     if 0 < rate then panics (effective_value D nominal (o_created_at out) now_ms rate)
     else Inr nominal)"

definition inputs_by_asset ::
  "'d dec_lib \<Rightarrow> (string \<Rightarrow> u32 option) \<Rightarrow> u64 \<Rightarrow> tx_output list \<Rightarrow> 'd asset_sums vresult" where
  "inputs_by_asset D rates now_ms input_outputs =
     try_fold (\<lambda>m out. rbind (input_value D rates now_ms out) (add_to_asset D m (o_asset_id out)))
       [] input_outputs"

definition outputs_by_asset :: "'d dec_lib \<Rightarrow> tx_output list \<Rightarrow> 'd asset_sums vresult" where
  "outputs_by_asset D outs =
     try_fold (\<lambda>m out. rbind (amount_parse_pos_dec D (o_amount out)) (add_to_asset D m (o_asset_id out)))
       [] outs"

definition check_asset_balance ::
  "'d dec_lib \<Rightarrow> (string \<Rightarrow> u32 option) \<Rightarrow> 'd asset_sums \<Rightarrow> string option \<times> 'd \<Rightarrow> unit vresult" where
  "check_asset_balance D rates outs = (\<lambda>(asset_id, in_sum).
     let out_sum = asset_entry D outs asset_id;
         has_demurrage = 0 < demurrage_rate rates asset_id;
         violated = (if has_demurrage \<or> asset_id = None then d_lt D in_sum out_sum
                     else \<not> d_eq D in_sum out_sum)
     in require (\<not> violated) (AssetBalanceMismatch asset_id (d_show D in_sum) (d_show D out_sum)))"

definition check_asset_conservation_with_demurrage ::
  "'d dec_lib \<Rightarrow> transaction \<Rightarrow> tx_output list \<Rightarrow> (string \<Rightarrow> u32 option) \<Rightarrow> u64 \<Rightarrow> unit vresult" where
  "check_asset_conservation_with_demurrage D tx input_outputs rates now_ms =
     rbind (inputs_by_asset D rates now_ms input_outputs) (\<lambda>ins.
     rbind (outputs_by_asset D (tx_outputs tx)) (\<lambda>outs.
     rbind (try_each (check_asset_balance D rates outs) ins) (\<lambda>_.
     try_each (\<lambda>(asset_id, s).
       require (map_of ins asset_id \<noteq> None) (AssetBalanceMismatch asset_id ''0'' (d_show D s))) outs)))"

definition check_asset_conservation :: "'d dec_lib \<Rightarrow> transaction \<Rightarrow> tx_output list \<Rightarrow> unit vresult" where
  "check_asset_conservation D tx input_outputs =
     check_asset_conservation_with_demurrage D tx input_outputs (\<lambda>_. None) 0"

subsection \<open>The effective value of a decaying output\<close>

text \<open>Below, a word read as a rational stays \<open>of_nat (unat w)\<close>.\<close>

declare of_nat_unat [simp del]

definition decay_days :: "u64 \<Rightarrow> u64 \<Rightarrow> nat" where
  "decay_days created now_ms = (unat now_ms - unat created) div 86400000"

definition demurrage_value :: "rat \<Rightarrow> u64 option \<Rightarrow> u64 \<Rightarrow> u32 \<Rightarrow> rat" where
  "demurrage_value n created_at now_ms bps =
     (case created_at of
        None \<Rightarrow> n
      | Some c \<Rightarrow> max 0 (n - n * of_nat (unat bps) * of_nat (decay_days c now_ms) / 10000))"

lemma unat_elapsed_full_days: "unat (elapsed_full_days c now_ms) = decay_days c now_ms"
  by (simp add: elapsed_full_days_def decay_days_def day_ms_def unat_div unat_sat_sub)

lemma demurrage_value_bounds: "0 \<le> n \<Longrightarrow> 0 \<le> demurrage_value n c now_ms bps \<and> demurrage_value n c now_ms bps \<le> n"
  by (auto simp: demurrage_value_def split: option.splits)

lemma decay_days_mono: "now_ms \<le> now' \<Longrightarrow> decay_days c now_ms \<le> decay_days c now'"
  by (simp add: decay_days_def word_le_nat_alt div_le_mono)

lemma demurrage_value_antimono:
  assumes "0 \<le> n" and "now_ms \<le> now'"
  shows "demurrage_value n c now' bps \<le> demurrage_value n c now_ms bps"
proof -
  have "n * of_nat (unat bps) * of_nat (decay_days d now_ms) \<le> n * of_nat (unat bps) * (of_nat (decay_days d now') :: rat)" for d
    by (rule mult_left_mono) (use assms decay_days_mono [of now_ms now' d] in \<open>auto intro!: mult_nonneg_nonneg\<close>)
  from divide_right_mono [OF this, of 10000]
  have m: "n - n * of_nat (unat bps) * of_nat (decay_days d now') / 10000
      \<le> n - n * of_nat (unat bps) * of_nat (decay_days d now_ms) / 10000" for d
    by simp
  show ?thesis
  proof (cases c)
    case (Some d)
    then show ?thesis unfolding demurrage_value_def by (simp only: option.case) (rule max.mono [OF order_refl m])
  qed (simp add: demurrage_value_def)
qed

lemma at_scale_nat_mult: "at_scale n q \<Longrightarrow> at_scale n (q * of_nat k)"
  using at_scale_mult [of n q 0 "of_nat k"] by simp

lemma effective_value_refines:
  assumes L: "dec_laws D v" and a: "at_scale 8 (v d)" "0 \<le> v d" "v d \<le> 10 ^ 12"
    and small: "\<And>c. created = Some c \<Longrightarrow> v d * of_nat (unat bps) * of_nat (decay_days c now_ms) \<le> 10 ^ 16"
  shows "\<exists>e. effective_value D d created now_ms bps = Inr e \<and>
    v e = demurrage_value (v d) created now_ms bps \<and> at_scale 12 (v e)"
proof (cases created)
  case None
  with a show ?thesis by (auto simp: effective_value_def demurrage_value_def intro: at_scale_weaken)
next
  case (Some c)
  define r k where "r = unat bps" and "k = decay_days c now_ms"
  show ?thesis
  proof (cases "bps = 0 \<or> elapsed_full_days c now_ms = 0")
    case True
    then have "r = 0 \<or> k = 0"
      using unat_elapsed_full_days [of c now_ms] by (auto simp: r_def k_def)
    then have "demurrage_value (v d) created now_ms bps = v d"
      using Some a by (auto simp: demurrage_value_def r_def k_def)
    with True Some a show ?thesis by (auto simp: effective_value_def Let_def intro: at_scale_weaken)
  next
    case False
    have k: "unat (elapsed_full_days c now_ms) = k" by (simp add: unat_elapsed_full_days k_def)
    have "0 < r" "0 < k" using False k unat_gt_0 by (auto simp: r_def)
    then have rk: "(1::rat) \<le> of_nat r" "(1::rat) \<le> of_nat k" by simp_all
    have p2: "v d * of_nat r * of_nat k \<le> 10 ^ 16" using small [OF Some] by (simp add: r_def k_def)
    have n1: "0 \<le> v d * of_nat r" using a(2) by simp
    have p1: "v d * of_nat r \<le> 10 ^ 16"
      using mult_left_mono [OF rk(2) n1] p2 by simp
    have lt: "r < 2 ^ 64" "k < 2 ^ 64"
      using unsigned_less [of bps, where 'a=nat] unsigned_less [of "elapsed_full_days c now_ms", where 'a=nat] k by (simp_all add: r_def)
    note of_nat = dec_laws_of_nat [OF L lt(1)] dec_laws_of_nat [OF L lt(2)]
    have s1: "at_scale 8 (v d * of_nat r)" by (rule at_scale_nat_mult [OF a(1)])
    obtain x where x: "d_checked_mul D d (d_of_nat D r) = Some x" "v x = v d * of_nat r"
      using dec_laws_mul [OF L, of d "d_of_nat D r"] dec_repr_at_scale [OF s1] p1 n1 of_nat by auto
    have s2: "at_scale 8 (v x * of_nat k)" unfolding x(2) by (rule at_scale_nat_mult [OF s1])
    have n2: "0 \<le> v x * of_nat k" using n1 x(2) by simp
    obtain y where y: "d_checked_mul D x (d_of_nat D k) = Some y" "v y = v d * of_nat r * of_nat k"
      using dec_laws_mul [OF L, of x "d_of_nat D k"] dec_repr_at_scale [OF s2] p2 n2 of_nat x(2) by auto
    have ten: "v (d_of_nat D 10000) = 10000" using dec_laws_of_nat [OF L, of 10000] by simp
    have "at_scale 4 (1 / 10000)" unfolding at_scale_def by (rule exI [of _ 1]) simp
    from at_scale_mult [OF s2 this] have s3: "at_scale 12 (v y / 10000)" using x(2) y(2) by simp
    have b3: "\<bar>v y / 10000\<bar> \<le> 10 ^ 12" using p2 n2 x(2) y(2) by simp
    have "dec_repr (v y / v (d_of_nat D 10000))"
      unfolding ten by (rule dec_repr_at_scale [OF s3]) (use b3 in simp_all)
    then obtain z where z: "d_checked_div D y (d_of_nat D 10000) = Some z" "v z = v y / 10000"
      using dec_laws_div [OF L, of "d_of_nat D 10000" y] ten by auto
    have s4: "at_scale 12 (v d - v z)"
      unfolding z(2) by (rule at_scale_diff [OF at_scale_weaken [OF a(1)] s3]) simp
    have "0 \<le> v z" "v z \<le> 10 ^ 12" using b3 n2 x(2) y(2) unfolding z(2) by simp_all
    then have "\<bar>v d - v z\<bar> \<le> 10 ^ 12" using a(2,3) unfolding abs_le_iff by linarith
    then have "\<bar>v d - v z\<bar> < 2 ^ 96 / 10 ^ 12" by (rule order_le_less_trans) simp
    then obtain w where w: "d_checked_sub D d z = Some w" "v w = v d - v z"
      using dec_laws_sub [OF L, of d z] dec_repr_at_scale [OF s4] by auto
    have "effective_value D d created now_ms bps = Inr (d_max D w (d_zero D))"
      using False Some x(1) y(1) z(1) w(1) k
      by (simp add: effective_value_def Let_def dec_op_defs r_def)
    moreover have "v (d_max D w (d_zero D)) = demurrage_value (v d) created now_ms bps"
      using w(2) z(2) y(2) Some
      by (simp add: dec_laws_max [OF L] dec_laws_zero [OF L] demurrage_value_def r_def k_def max.commute)
    moreover have "at_scale 12 (v (d_max D w (d_zero D)))"
      using s4 w(2) by (simp add: dec_laws_max [OF L] dec_laws_zero [OF L] max_def)
    ultimately show ?thesis by blast
  qed
qed

subsection \<open>Grouping by asset\<close>

definition nominal_val :: "'d dec_lib \<Rightarrow> ('d \<Rightarrow> rat) \<Rightarrow> tx_output \<Rightarrow> rat" where
  "nominal_val D v out = (case d_from_str D (o_amount out) of None \<Rightarrow> 0 | Some d \<Rightarrow> v d)"

definition effective_val :: "'d dec_lib \<Rightarrow> ('d \<Rightarrow> rat) \<Rightarrow> (string \<Rightarrow> u32 option) \<Rightarrow> u64 \<Rightarrow> tx_output \<Rightarrow> rat" where
  "effective_val D v rates now_ms out =
     demurrage_value (nominal_val D v out) (o_created_at out) now_ms (demurrage_rate rates (o_asset_id out))"

definition pos_amount :: "'d dec_lib \<Rightarrow> ('d \<Rightarrow> rat) \<Rightarrow> tx_output \<Rightarrow> bool" where
  "pos_amount D v out \<longleftrightarrow> (\<exists>d. d_from_str D (o_amount out) = Some d \<and> 0 < v d)"

definition tame_amount :: "'d dec_lib \<Rightarrow> ('d \<Rightarrow> rat) \<Rightarrow> tx_output \<Rightarrow> bool" where
  "tame_amount D v out \<longleftrightarrow> at_scale 8 (nominal_val D v out) \<and> nominal_val D v out \<le> 10 ^ 12"

definition tame_decay :: "'d dec_lib \<Rightarrow> ('d \<Rightarrow> rat) \<Rightarrow> (string \<Rightarrow> u32 option) \<Rightarrow> u64 \<Rightarrow> tx_output \<Rightarrow> bool" where
  "tame_decay D v rates now_ms out \<longleftrightarrow> (\<forall>c. o_created_at out = Some c \<longrightarrow>
     nominal_val D v out * of_nat (unat (demurrage_rate rates (o_asset_id out))) * of_nat (decay_days c now_ms)
       \<le> 10 ^ 16)"

definition asset_total :: "(tx_output \<Rightarrow> rat) \<Rightarrow> string option \<Rightarrow> tx_output list \<Rightarrow> rat" where
  "asset_total f a xs = sum_list (map f (filter (\<lambda>out. o_asset_id out = a) xs))"

lemma asset_total_snoc:
  "asset_total f a (xs @ [x]) = asset_total f a xs + (if o_asset_id x = a then f x else 0)"
  by (simp add: asset_total_def)

lemma asset_total_none: "a \<notin> o_asset_id ` set xs \<Longrightarrow> asset_total f a xs = 0"
  by (induction xs) (auto simp: asset_total_def)

lemma asset_total_nonneg: "(\<And>x. x \<in> set xs \<Longrightarrow> 0 \<le> f x) \<Longrightarrow> 0 \<le> asset_total f a xs"
  unfolding asset_total_def by (rule sum_list_nonneg) auto

lemma asset_total_le: "(\<And>x. x \<in> set xs \<Longrightarrow> 0 \<le> f x) \<Longrightarrow> asset_total f a xs \<le> sum_list (map f xs)"
  by (induction xs) (auto simp: asset_total_def add_increasing)

lemma asset_total_pos:
  "(\<And>x. x \<in> set xs \<Longrightarrow> 0 < f x) \<Longrightarrow> a \<in> o_asset_id ` set xs \<Longrightarrow> 0 < asset_total f a xs"
proof (induction xs)
  case (Cons x xs)
  then have "0 \<le> asset_total f a xs" by (intro asset_total_nonneg) (simp add: less_imp_le)
  with Cons show ?case by (auto simp: asset_total_def add_pos_nonneg)
qed simp

lemma asset_total_cong: "(\<And>x. x \<in> set xs \<Longrightarrow> f x = g x) \<Longrightarrow> asset_total f a xs = asset_total g a xs"
  unfolding asset_total_def by (rule arg_cong [where f = sum_list]) (auto intro: map_cong)

definition grouped :: "('d \<Rightarrow> rat) \<Rightarrow> (tx_output \<Rightarrow> rat) \<Rightarrow> tx_output list \<Rightarrow> 'd asset_sums \<Rightarrow> bool" where
  "grouped v f xs m \<longleftrightarrow> distinct (map fst m) \<and> fst ` set m = o_asset_id ` set xs \<and>
     (\<forall>a e. map_of m a = Some e \<longrightarrow> v e = asset_total f a xs)"

lemma grouped_entry:
  assumes L: "dec_laws D v" and "grouped v f xs m"
  shows "v (asset_entry D m a) = asset_total f a xs"
proof (cases "map_of m a")
  case None
  then have "a \<notin> o_asset_id ` set xs" using assms(2) by (metis grouped_def map_of_eq_None_iff)
  with None show ?thesis by (simp add: asset_entry_def asset_total_none dec_laws_zero [OF L])
qed (use assms(2) in \<open>simp add: asset_entry_def grouped_def\<close>)

lemma grouped_add:
  assumes L: "dec_laws D v" and g: "grouped v f xs m" and s: "v s = asset_total f (o_asset_id x) xs + f x"
  shows "grouped v f (xs @ [x]) (AList.update (o_asset_id x) s m)"
proof -
  have "map_of (AList.update (o_asset_id x) s m) a = Some e \<Longrightarrow> v e = asset_total f a (xs @ [x])" for a e
    using g s by (cases "a = o_asset_id x") (auto simp: grouped_def asset_total_snoc update_conv')
  moreover have "fst ` set (AList.update (o_asset_id x) s m) = o_asset_id ` set (xs @ [x])"
    using g dom_update [of "o_asset_id x" s m] by (auto simp: grouped_def)
  ultimately show ?thesis using g by (simp add: grouped_def distinct_update)
qed

lemma group_fold:
  assumes L: "dec_laws D v"
    and "\<And>x. x \<in> set xs \<Longrightarrow> (\<exists>d. val x = Inr d \<and> v d = f x) \<and> 0 \<le> f x \<and> at_scale 12 (f x)"
    and "sum_list (map f xs) \<le> 10 ^ 16"
  shows "\<exists>m. try_fold (\<lambda>m out. rbind (val out) (add_to_asset D m (o_asset_id out))) [] xs = Inr m \<and> grouped v f xs m"
  using assms(2-)
proof (induction xs rule: rev_induct)
  case Nil
  then show ?case by (simp add: grouped_def)
next
  case (snoc x xs)
  have nn: "0 \<le> f y" if "y \<in> set (xs @ [x])" for y using snoc.prems(1) [OF that] by blast
  have "sum_list (map f xs) \<le> 10 ^ 16" using snoc.prems(2) nn [of x] by simp
  then obtain m where m: "try_fold (\<lambda>m out. rbind (val out) (add_to_asset D m (o_asset_id out))) [] xs = Inr m"
    "grouped v f xs m"
    using snoc.IH snoc.prems(1) by auto
  obtain d where d: "val x = Inr d" "v d = f x" using snoc.prems(1) [of x] by auto
  let ?t = "asset_total f (o_asset_id x) (xs @ [x])"
  have entry: "v (asset_entry D m (o_asset_id x)) + v d = ?t"
    using grouped_entry [OF L m(2)] d(2) by (simp add: asset_total_snoc)
  have "at_scale 12 ?t" unfolding asset_total_def
    by (rule at_scale_sum_list) (use snoc.prems(1) in auto)
  moreover have "0 \<le> ?t" by (rule asset_total_nonneg [OF nn])
  moreover have "?t \<le> 10 ^ 16" using asset_total_le [OF nn] snoc.prems(2) by (rule order_trans)
  ultimately have "dec_repr (v (asset_entry D m (o_asset_id x)) + v d)"
    unfolding entry by (intro dec_repr_at_scale) (auto simp: abs_of_nonneg)
  then obtain s where s: "d_checked_add D (asset_entry D m (o_asset_id x)) d = Some s" "v s = ?t"
    using dec_laws_add [OF L] entry by metis
  have "grouped v f (xs @ [x]) (AList.update (o_asset_id x) s m)"
    by (rule grouped_add [OF L m(2)]) (use s(2) in \<open>simp add: asset_total_snoc\<close>)
  moreover have "add_to_asset D m (o_asset_id x) d = Inr (AList.update (o_asset_id x) s m)"
    using s(1) by (simp add: add_to_asset_def checked_sum_def)
  ultimately show ?case using m(1) d(1) by (auto simp: try_fold_append)
qed

lemma try_fold_each: "try_fold f acc xs = Inr r \<Longrightarrow> x \<in> set xs \<Longrightarrow> \<exists>b c. f b x = Inr c"
  by (induction xs arbitrary: acc) auto

subsection \<open>The conservation check against its specification\<close>

definition conserves ::
  "'d dec_lib \<Rightarrow> ('d \<Rightarrow> rat) \<Rightarrow> (string \<Rightarrow> u32 option) \<Rightarrow> u64 \<Rightarrow> tx_output list \<Rightarrow> tx_output list \<Rightarrow> bool" where
  "conserves D v rates now_ms ins outs \<longleftrightarrow>
     (\<forall>a. if a = None \<or> 0 < demurrage_rate rates a
          then asset_total (nominal_val D v) a outs \<le> asset_total (effective_val D v rates now_ms) a ins
          else asset_total (nominal_val D v) a outs = asset_total (effective_val D v rates now_ms) a ins)"

lemma pos_amount_iff:
  assumes "dec_laws D v"
  shows "pos_amount D v out \<longleftrightarrow> (\<exists>d. amount_parse_pos_dec D (o_amount out) = Inr d \<and> v d = nominal_val D v out \<and> 0 < v d)"
    and "amount_parse_pos_dec D (o_amount out) = Inr d \<Longrightarrow> pos_amount D v out"
  using dec_order [OF assms]
  by (auto simp: pos_amount_def amount_parse_pos_dec_def nominal_val_def not_le split: if_splits)

lemma output_value_ok:
  assumes L: "dec_laws D v" and "pos_amount D v out" "tame_amount D v out"
  shows "(\<exists>d. amount_parse_pos_dec D (o_amount out) = Inr d \<and> v d = nominal_val D v out) \<and>
    0 \<le> nominal_val D v out \<and> at_scale 12 (nominal_val D v out)"
  using assms pos_amount_iff(1) [OF L] by (auto simp: tame_amount_def intro: at_scale_weaken)

lemma input_value_ok:
  assumes L: "dec_laws D v" and p: "pos_amount D v out" "tame_amount D v out" "tame_decay D v rates now_ms out"
  shows "(\<exists>d. input_value D rates now_ms out = Inr d \<and> v d = effective_val D v rates now_ms out) \<and>
    0 \<le> effective_val D v rates now_ms out \<and> at_scale 12 (effective_val D v rates now_ms out)"
proof -
  obtain d where d: "amount_parse_pos_dec D (o_amount out) = Inr d" "v d = nominal_val D v out" "0 < v d"
    using p(1) pos_amount_iff(1) [OF L] by blast
  let ?r = "demurrage_rate rates (o_asset_id out)"
  have "\<exists>e. effective_value D d (o_created_at out) now_ms ?r = Inr e \<and>
      v e = demurrage_value (v d) (o_created_at out) now_ms ?r \<and> at_scale 12 (v e)"
    by (rule effective_value_refines [OF L]) (use p d in \<open>auto simp: tame_amount_def tame_decay_def\<close>)
  moreover have "effective_value D d (o_created_at out) now_ms 0 = Inr d"
    by (simp add: effective_value_def split: option.splits)
  moreover have "0 \<le> effective_val D v rates now_ms out"
    using d demurrage_value_bounds [of "v d"] by (simp add: effective_val_def)
  ultimately show ?thesis
    using d by (cases "?r = 0") (auto simp: input_value_def effective_val_def Let_def word_gt_0)
qed

lemma effective_val_le:
  "0 \<le> nominal_val D v out \<Longrightarrow> effective_val D v rates now_ms out \<le> nominal_val D v out"
  by (simp add: effective_val_def demurrage_value_bounds)

lemma check_balances_ok:
  assumes L: "dec_laws D v" and gi: "grouped v f ins mi" and go: "grouped v g outs mo"
  shows "try_each (check_asset_balance D rates mo) mi = Inr () \<longleftrightarrow>
    (\<forall>a\<in>o_asset_id ` set ins. if a = None \<or> 0 < demurrage_rate rates a
       then asset_total g a outs \<le> asset_total f a ins else asset_total g a outs = asset_total f a ins)"
proof -
  have mem: "(a, e) \<in> set mi \<Longrightarrow> v e = asset_total f a ins" for a e
    using gi by (auto simp: grouped_def)
  have "check_asset_balance D rates mo (a, e) = Inr () \<longleftrightarrow> (if a = None \<or> 0 < demurrage_rate rates a
       then asset_total g a outs \<le> asset_total f a ins else asset_total g a outs = asset_total f a ins)"
    if "(a, e) \<in> set mi" for a e
    using mem [OF that] grouped_entry [OF L go, of a]
    by (auto simp: check_asset_balance_def Let_def dec_order [OF L] not_less)
  then have "try_each (check_asset_balance D rates mo) mi = Inr () \<longleftrightarrow>
    (\<forall>a\<in>fst ` set mi. if a = None \<or> 0 < demurrage_rate rates a
       then asset_total g a outs \<le> asset_total f a ins else asset_total g a outs = asset_total f a ins)"
    unfolding try_each_eq_Inr ball_simps by (intro ball_cong refl) (metis prod.collapse)
  moreover have "o_asset_id ` set ins = fst ` set mi" using gi by (simp add: grouped_def)
  ultimately show ?thesis by simp
qed

lemma conservation_exact:
  assumes L: "dec_laws D v"
    and ti: "\<forall>out\<in>set ins. tame_amount D v out \<and> tame_decay D v rates now_ms out"
    and tm: "\<forall>out\<in>set (tx_outputs tx). tame_amount D v out"
    and total: "sum_list (map (nominal_val D v) ins) \<le> 10 ^ 16"
      "sum_list (map (nominal_val D v) (tx_outputs tx)) \<le> 10 ^ 16"
  shows "check_asset_conservation_with_demurrage D tx ins rates now_ms = Inr () \<longleftrightarrow>
    (\<forall>out\<in>set ins \<union> set (tx_outputs tx). pos_amount D v out) \<and>
    conserves D v rates now_ms ins (tx_outputs tx)"
    (is "?check = Inr () \<longleftrightarrow> ?pos \<and> ?cons")
proof (cases ?pos)
  case False
  have "?pos" if ok: "?check = Inr ()"
  proof -
    obtain mi mo where m: "inputs_by_asset D rates now_ms ins = Inr mi" "outputs_by_asset D (tx_outputs tx) = Inr mo"
      using ok by (auto simp: check_asset_conservation_with_demurrage_def)
    show ?thesis
      using try_fold_each [OF m(1) [unfolded inputs_by_asset_def]] try_fold_each [OF m(2) [unfolded outputs_by_asset_def]]
        pos_amount_iff(2) [OF L] by (fastforce simp: input_value_def)
  qed
  with False show ?thesis by blast
next
  case True
  let ?f = "effective_val D v rates now_ms" and ?g = "nominal_val D v"
  have "sum_list (map ?f ins) \<le> sum_list (map ?g ins)"
    by (rule sum_list_mono) (use True ti output_value_ok [OF L] effective_val_le in blast)
  then obtain mi where mi: "inputs_by_asset D rates now_ms ins = Inr mi" "grouped v ?f ins mi"
    using group_fold [OF L, of ins "input_value D rates now_ms" ?f] input_value_ok [OF L] True ti total(1)
    unfolding inputs_by_asset_def by (meson UnI1 order_trans)
  obtain mo where mo: "outputs_by_asset D (tx_outputs tx) = Inr mo" "grouped v ?g (tx_outputs tx) mo"
    using group_fold [OF L, of "tx_outputs tx" "\<lambda>out. amount_parse_pos_dec D (o_amount out)" ?g]
      output_value_ok [OF L] True tm total(2)
    unfolding outputs_by_asset_def by (meson UnI2)
  have none: "try_each (\<lambda>(asset_id, s). require (map_of mi asset_id \<noteq> None)
        (AssetBalanceMismatch asset_id ''0'' (d_show D s))) mo = Inr () \<longleftrightarrow>
      o_asset_id ` set (tx_outputs tx) \<subseteq> o_asset_id ` set ins"
  proof -
    have "fst ` set mo = o_asset_id ` set (tx_outputs tx)" "fst ` set mi = o_asset_id ` set ins"
      using mi(2) mo(2) by (simp_all add: grouped_def)
    moreover have "try_each (\<lambda>(asset_id, s). require (map_of mi asset_id \<noteq> None)
        (AssetBalanceMismatch asset_id ''0'' (d_show D s))) mo = Inr () \<longleftrightarrow> fst ` set mo \<subseteq> fst ` set mi"
      by (simp only: try_each_eq_Inr case_prod_beta require_eq_Inr map_of_eq_None_iff not_not image_subset_iff)
    ultimately show ?thesis by simp
  qed
  have po: "0 < asset_total ?g a (tx_outputs tx)" if "a \<in> o_asset_id ` set (tx_outputs tx)" for a
    by (rule asset_total_pos [OF _ that]) (use True pos_amount_iff(1) [OF L] in force)
  have zero: "asset_total ?f a ins = 0" if "a \<notin> o_asset_id ` set ins" for a
    using that by (rule asset_total_none)
  have "?check = Inr () \<longleftrightarrow> (\<forall>a\<in>o_asset_id ` set ins. if a = None \<or> 0 < demurrage_rate rates a
       then asset_total ?g a (tx_outputs tx) \<le> asset_total ?f a ins
       else asset_total ?g a (tx_outputs tx) = asset_total ?f a ins) \<and>
      o_asset_id ` set (tx_outputs tx) \<subseteq> o_asset_id ` set ins"
    using mi(1) mo(1) none check_balances_ok [OF L mi(2) mo(2)]
    by (simp add: check_asset_conservation_with_demurrage_def)
  also have "\<dots> \<longleftrightarrow> ?cons"
    (is "?l \<and> ?sub \<longleftrightarrow> _")
  proof (intro iffI conjI)
    assume l: "?l \<and> ?sub"
    have "asset_total ?f a ins = 0 \<and> asset_total ?g a (tx_outputs tx) = 0" if "a \<notin> o_asset_id ` set ins" for a
      using l zero [OF that] asset_total_none [of a "tx_outputs tx" ?g] that by blast
    with l show ?cons unfolding conserves_def by (metis order_refl)
  next
    assume c: ?cons
    then show ?l unfolding conserves_def by blast
    have "a \<in> o_asset_id ` set ins" if "a \<in> o_asset_id ` set (tx_outputs tx)" for a
    proof (rule ccontr)
      assume "a \<notin> o_asset_id ` set ins"
      with c zero [of a] have "asset_total ?g a (tx_outputs tx) \<le> 0"
        unfolding conserves_def by (metis order_refl)
      with po [OF that] show False by simp
    qed
    then show ?sub by blast
  qed
  finally show ?thesis using True by blast
qed

text \<open>
  The conservation check is exact: on amounts at eight decimals in range it accepts a
  transaction exactly when every amount is positive and each asset is conserved over the rationals.
  The native asset and a decaying asset may shrink (the difference is burnt), a decaying asset counts
  at its effective value, any other asset is conserved to the last unit, and no asset is created.
\<close>

lemma conservation_check_exact:
  assumes L: "dec_laws D v"
    and ti: "\<forall>out\<in>set ins. tame_amount D v out \<and> tame_decay D v rates now_ms out"
    and tm: "\<forall>out\<in>set (tx_outputs tx). tame_amount D v out"
    and total: "sum_list (map (nominal_val D v) ins) \<le> 10 ^ 16"
      "sum_list (map (nominal_val D v) (tx_outputs tx)) \<le> 10 ^ 16"
  shows "check_asset_conservation_with_demurrage D tx ins rates now_ms = Inr () \<longleftrightarrow>
    (\<forall>out\<in>set ins \<union> set (tx_outputs tx). pos_amount D v out) \<and>
    conserves D v rates now_ms ins (tx_outputs tx)"
  by (rule conservation_exact [OF assms])

definition sample_inputs :: "tx_output list" where
  "sample_inputs = [txoutput_new ''alice'' ''3'' None, txoutput_new ''alice'' ''5'' (Some ''GOLD'')]"

definition sample_transfer :: transaction where
  "sample_transfer = \<lparr>tx_inputs = [], tx_outputs = [txoutput_new ''bob'' ''2'' None, txoutput_new ''bob'' ''5'' (Some ''GOLD'')],
     tx_fee = ''0'', tx_unlocks = []\<rparr>"

lemma ref_small_amounts:
  "d_from_str ref_dec ''2'' = Some (2, 0)" "d_from_str ref_dec ''3'' = Some (3, 0)"
  "d_from_str ref_dec ''5'' = Some (5, 0)"
  by code_simp+

lemma at_scale_numeral: "at_scale n (numeral k)" "at_scale n 1"
  using at_scale_of_nat [of n "numeral k"] at_scale_of_nat [of n 1] by simp_all

lemma sample_values:
  "nominal_val ref_dec ref_val (txoutput_new a ''2'' t) = 2"
  "nominal_val ref_dec ref_val (txoutput_new a ''3'' t) = 3"
  "nominal_val ref_dec ref_val (txoutput_new a ''5'' t) = 5"
  "pos_amount ref_dec ref_val (txoutput_new a ''2'' t)" "pos_amount ref_dec ref_val (txoutput_new a ''3'' t)"
  "pos_amount ref_dec ref_val (txoutput_new a ''5'' t)"
  "o_created_at (txoutput_new a n t) = None" "o_asset_id (txoutput_new a n t) = t"
  by (simp_all add: nominal_val_def pos_amount_def txoutput_new_def ref_small_amounts ref_val_def)

text \<open>
  Demurrage: the effective value of an output is computed without a panic, is the amount less
  \<open>bps\<close> ten-thousandths per full day since its creation and never below zero, never exceeds the
  amount, and does not grow with time.
\<close>

lemma demurrage_linear_decay:
  assumes L: "dec_laws D v" and a: "at_scale 8 (v d)" "0 \<le> v d" "v d \<le> 10 ^ 12"
    and later: "now_ms \<le> now'" and small: "v d * of_nat (unat bps) * of_nat (decay_days c now') \<le> 10 ^ 16"
  shows "\<exists>e e'. effective_value D d (Some c) now_ms bps = Inr e \<and> effective_value D d (Some c) now' bps = Inr e' \<and>
    v e = max 0 (v d - v d * of_nat (unat bps) * of_nat (decay_days c now_ms) / 10000) \<and>
    0 \<le> v e' \<and> v e' \<le> v e \<and> v e \<le> v d"
proof -
  have "v d * of_nat (unat bps) * of_nat (decay_days c now_ms) \<le> v d * of_nat (unat bps) * of_nat (decay_days c now')"
    by (rule mult_left_mono) (use a(2) decay_days_mono [OF later] in simp_all)
  then have small0: "v d * of_nat (unat bps) * of_nat (decay_days c now_ms) \<le> 10 ^ 16" using small by linarith
  obtain e where e: "effective_value D d (Some c) now_ms bps = Inr e" "v e = demurrage_value (v d) (Some c) now_ms bps"
    using effective_value_refines [OF L a, of "Some c" bps now_ms] small0 by auto
  obtain e' where e': "effective_value D d (Some c) now' bps = Inr e'" "v e' = demurrage_value (v d) (Some c) now' bps"
    using effective_value_refines [OF L a, of "Some c" bps now'] small by auto
  have "v e = max 0 (v d - v d * of_nat (unat bps) * of_nat (decay_days c now_ms) / 10000)"
    by (simp add: e(2) demurrage_value_def)
  moreover have "0 \<le> v e' \<and> v e' \<le> v e \<and> v e \<le> v d"
    using e(2) e'(2) demurrage_value_bounds [OF a(2)] demurrage_value_antimono [OF a(2) later] by simp
  ultimately show ?thesis using e(1) e'(1) by blast
qed

text \<open>
  A surplus of the native asset is destroyed without a word: a transaction that returns less
  native value than it consumes passes the check, though the rule is documented as
  strict equality with nothing ever burnt implicitly. The declared fee plays no part.
\<close>

lemma native_surplus_is_burnt:
  assumes L: "dec_laws D v"
    and i: "pos_amount D v i" "tame_amount D v i" "o_asset_id i = None" "o_created_at i = None"
    and out: "pos_amount D v out" "tame_amount D v out" "o_asset_id out = None"
    and less: "nominal_val D v out < nominal_val D v i"
  shows "check_asset_conservation D \<lparr>tx_inputs = ins, tx_outputs = [out], tx_fee = fee, tx_unlocks = us\<rparr> [i] = Inr ()"
proof -
  let ?tx = "\<lparr>tx_inputs = ins, tx_outputs = [out], tx_fee = fee, tx_unlocks = us\<rparr>"
  have "effective_val D v (\<lambda>_. None) 0 i = nominal_val D v i"
    by (simp add: effective_val_def demurrage_value_def i(4))
  then have "conserves D v (\<lambda>_. None) 0 [i] [out]"
    using i(3) out(3) less by (simp add: conserves_def asset_total_def)
  then show ?thesis
    using conservation_exact [OF L, of "[i]" "\<lambda>_. None" 0 ?tx] i out
    by (simp add: check_asset_conservation_def tame_amount_def tame_decay_def)
qed

end
