(* ===== verification/ExtLib.thy ===== *)
theory ExtLib
  imports PayloadTypes
begin

section \<open>The cryptographic, encoding and serialisation crates the code calls\<close>

text \<open>
  The functions of \<open>hex\<close>, \<open>base64\<close>, \<open>sha2\<close>, \<open>k256\<close>, \<open>bech32\<close> and \<open>serde_json\<close> are the fields of a
  record, an argument \<open>X\<close> of every definition that uses them. Byte vectors and texts are both lists
  of bytes. \<open>x_bech32_decode\<close> returns the human-readable part, the 5-bit data and whether the
  checksum variant is Bech32m. \<open>hex_laws X\<close> states what \<open>hex\<close> documents; nothing is assumed of the
  hash or of the signatures unless a property says so.

  \<open>ref_ext\<close> is an instance on which the hypotheses of the properties are shown to hold: a real hex
  codec, a padding function in place of the hash and the pair of key and message as the signature.
\<close>

record ext_lib =
  x_hex_decode :: "string \<Rightarrow> string option"
  x_hex_encode :: "string \<Rightarrow> string"
  x_sha256 :: "string \<Rightarrow> string"
  x_b64_decode :: "string \<Rightarrow> string option"
  x_sec1_key :: "string \<Rightarrow> string option"
  x_der_sig :: "string \<Rightarrow> string option"
  x_raw_sig :: "string \<Rightarrow> string option"
  x_ecdsa_verify :: "string \<Rightarrow> string \<Rightarrow> string \<Rightarrow> bool"
  x_bech32_decode :: "string \<Rightarrow> (string \<times> u8 list \<times> bool) option"
  x_from_base32 :: "u8 list \<Rightarrow> string option"
  x_json_canon :: "string \<Rightarrow> tx_input list \<Rightarrow> tx_output list \<Rightarrow> string \<Rightarrow> string option"
  x_json_tx :: "transaction \<Rightarrow> string option"
  x_json_payload :: "payload_envelope \<Rightarrow> string option"
  x_json_royalty :: "string \<Rightarrow> string \<Rightarrow> string \<Rightarrow> u32 option \<Rightarrow> string option \<Rightarrow> u64 \<Rightarrow> string"
  x_json_custodial :: "string \<Rightarrow> string \<Rightarrow> string \<Rightarrow> tx_output list \<Rightarrow> string \<Rightarrow> string"

definition is_hex_digit :: "char \<Rightarrow> bool" where
  "is_hex_digit c \<longleftrightarrow> (let n = (of_char c :: nat) in
     48 \<le> n \<and> n \<le> 57 \<or> 65 \<le> n \<and> n \<le> 70 \<or> 97 \<le> n \<and> n \<le> 102)"

definition hex_laws :: "ext_lib \<Rightarrow> bool" where
  "hex_laws X \<longleftrightarrow>
     (\<forall>s. x_hex_decode X (x_hex_encode X s) = Some s) \<and>
     (\<forall>s b. x_hex_decode X s = Some b \<longrightarrow> list_all is_hex_digit s) \<and>
     (\<forall>s. x_hex_decode X (to_lower s) = x_hex_decode X s) \<and>
     (\<forall>s. to_lower (x_hex_encode X s) = x_hex_encode X s)"

lemma hex_laws_inverse: "hex_laws X \<Longrightarrow> x_hex_decode X (x_hex_encode X s) = Some s"
  by (simp add: hex_laws_def)

lemma hex_laws_digits: "hex_laws X \<Longrightarrow> x_hex_decode X s = Some b \<Longrightarrow> list_all is_hex_digit s"
  by (simp add: hex_laws_def)

lemma hex_laws_lower: "hex_laws X \<Longrightarrow> x_hex_decode X (to_lower s) = x_hex_decode X s"
  by (simp add: hex_laws_def)

lemma hex_laws_encode_lower: "hex_laws X \<Longrightarrow> to_lower (x_hex_encode X s) = x_hex_encode X s"
  by (simp add: hex_laws_def)

lemma hex_encode_inj: "hex_laws X \<Longrightarrow> x_hex_encode X a = x_hex_encode X b \<longleftrightarrow> a = b"
  by (metis hex_laws_inverse option.inject)

lemma hex_decode_ignore_case:
  "hex_laws X \<Longrightarrow> eq_ignore_case a b \<Longrightarrow> x_hex_decode X a = x_hex_decode X b"
  by (metis eq_ignore_case_def hex_laws_lower)

subsection \<open>A reference instance\<close>

definition hex_digit :: "nat \<Rightarrow> char" where
  "hex_digit n = (if n < 10 then char_of (48 + n) else char_of (87 + n))"

definition hex_value :: "char \<Rightarrow> nat" where
  "hex_value c = (let n = (of_char c :: nat) in
     if n \<le> 57 then n - 48 else if n \<le> 70 then n - 55 else n - 87)"

definition ref_hex_encode :: "string \<Rightarrow> string" where
  "ref_hex_encode s = concat (map (\<lambda>c. [hex_digit (of_char c div 16), hex_digit (of_char c mod 16)]) s)"

fun ref_hex_decode :: "string \<Rightarrow> string option" where
  "ref_hex_decode [] = Some []"
| "ref_hex_decode [_] = None"
| "ref_hex_decode (a # b # s) =
     (if is_hex_digit a \<and> is_hex_digit b
      then map_option (\<lambda>r. char_of (16 * hex_value a + hex_value b) # r) (ref_hex_decode s)
      else None)"

definition ref_ext :: ext_lib where
  "ref_ext = \<lparr>x_hex_decode = ref_hex_decode, x_hex_encode = ref_hex_encode,
     x_sha256 = (\<lambda>s. take 32 (s @ replicate 32 (CHR ''.''))),
     x_b64_decode = Some, x_sec1_key = (\<lambda>k. if length k \<in> {33, 65} then Some k else None),
     x_der_sig = Some, x_raw_sig = Some, x_ecdsa_verify = (\<lambda>k m s. s = k @ m),
     x_bech32_decode = (\<lambda>_. None), x_from_base32 = (\<lambda>_. None),
     x_json_canon = (\<lambda>net i out fee. Some (net @ fee)), x_json_tx = (\<lambda>tx. Some (tx_fee tx)),
     x_json_payload = (\<lambda>_. Some []),
     x_json_royalty = (\<lambda>domain net asset bps beneficiary version. show_nat (unat version)),
     x_json_custodial = (\<lambda>domain net asset outputs nonce. nonce)\<rparr>"

lemma hex_digit_facts:
  assumes "n < 16"
  shows "is_hex_digit (hex_digit n)" "hex_value (hex_digit n) = n" "lower_char (hex_digit n) = hex_digit n"
proof -
  have "of_char (char_of (48 + n) :: char) = 48 + n" if "n < 10"
    using that by simp
  moreover have "of_char (char_of (87 + n) :: char) = 87 + n"
    using assms by simp
  ultimately show "is_hex_digit (hex_digit n)" "hex_value (hex_digit n) = n"
    "lower_char (hex_digit n) = hex_digit n"
    using assms
    by (cases "n < 10"; simp add: hex_digit_def is_hex_digit_def hex_value_def lower_char_def Let_def)+
qed

lemma of_char_below [simp]: "of_char c < (256::nat)"
  by (cases c) simp

lemma lower_char_cases:
  obtains (upper) n :: nat where "of_char c = n" "65 \<le> n" "n \<le> 90" "of_char (lower_char c) = n + 32"
    | (other) "lower_char c = c" "of_char c < (65::nat) \<or> 90 < (of_char c :: nat)"
proof (cases "65 \<le> (of_char c :: nat) \<and> of_char c \<le> (90::nat)")
  case True
  then show ?thesis using upper [of "of_char c"] by (simp add: lower_char_def Let_def)
next
  case False
  then show ?thesis by (intro other) (auto simp: lower_char_def Let_def)
qed

lemma lower_char_hex:
  "is_hex_digit (lower_char c) = is_hex_digit c" "is_hex_digit c \<Longrightarrow> hex_value (lower_char c) = hex_value c"
  by (cases c rule: lower_char_cases; simp add: is_hex_digit_def Let_def)
    (cases c rule: lower_char_cases; simp add: is_hex_digit_def hex_value_def Let_def)

lemma ref_hex_decode_lower: "ref_hex_decode (to_lower s) = ref_hex_decode s"
  by (induction s rule: ref_hex_decode.induct) (auto simp: to_lower_def lower_char_hex)

lemma ref_hex_decode_digits: "ref_hex_decode s = Some b \<Longrightarrow> list_all is_hex_digit s"
  by (induction s arbitrary: b rule: ref_hex_decode.induct) (auto split: if_splits)

lemma ref_hex_inverse: "ref_hex_decode (ref_hex_encode s) = Some s"
proof (induction s)
  case (Cons c s)
  have "of_char c div 16 < (16::nat)" using of_char_below [of c] by linarith
  with Cons show ?case by (simp add: ref_hex_encode_def hex_digit_facts)
qed (simp add: ref_hex_encode_def)

lemma ref_hex_encode_lower: "to_lower (ref_hex_encode s) = ref_hex_encode s"
proof (induction s)
  case (Cons c s)
  have "of_char c div 16 < (16::nat)" using of_char_below [of c] by linarith
  with Cons show ?case by (simp add: ref_hex_encode_def to_lower_def hex_digit_facts)
qed (simp add: ref_hex_encode_def to_lower_def)

lemma ref_hex_laws: "hex_laws ref_ext"
  unfolding hex_laws_def ref_ext_def
  using ref_hex_inverse ref_hex_decode_lower ref_hex_encode_lower ref_hex_decode_digits by simp

end
