(* ===== verification/Ownership.thy ===== *)
theory Ownership
  imports ExtLib
begin

section \<open>Who may spend an output: \<open>validations/ownership.rs\<close>\<close>

text \<open>
  Two relations between keys and addresses. \<open>unlock_matches_address\<close> decides whether a public key
  may spend an output at an address; \<open>address_identity\<close> is the party an output is credited to when
  settlements and burns are accounted for. The lemmas relate the two: on the address forms the
  wallets produce they agree, on an address with an upper-case \<open>0X\<close> prefix they do not.
  \<open>decode_address\<close> and \<open>pubkey_hash20\<close> are those of \<open>pms-wallet/src/wallet.rs\<close>.
\<close>

definition decode_address :: "ext_lib \<Rightarrow> string \<Rightarrow> (string \<times> string) option" where
  "decode_address X addr =
     (case x_bech32_decode X addr of
        None \<Rightarrow> None
      | Some (hrp, data, bech32m) \<Rightarrow>
          if \<not> bech32m then None
          else (case x_from_base32 X data of
                  None \<Rightarrow> None
                | Some bytes \<Rightarrow>
                    if length bytes \<noteq> 52 then None
                    else Some (x_hex_encode X (take 20 bytes), x_hex_encode X (drop 20 bytes))))"

definition pubkey_hash20 :: "ext_lib \<Rightarrow> string \<Rightarrow> string" where
  "pubkey_hash20 X pubkey_bytes = take 20 (x_sha256 X pubkey_bytes)"

definition unlock_matches_address :: "ext_lib \<Rightarrow> string \<Rightarrow> string \<Rightarrow> bool" where
  "unlock_matches_address X pubkey_hex address =
     (let pk_norm = trim_start_0x (trim pubkey_hex); addr = trim address in
      if eq_ignore_case (trim_start_0x addr) pk_norm then True
      else (case decode_address X addr of
              None \<Rightarrow> False
            | Some (h20_hex, _) \<Rightarrow>
                (case x_hex_decode X pk_norm of
                   None \<Rightarrow> False
                 | Some pk_bytes \<Rightarrow>
                     eq_ignore_case (x_hex_encode X (pubkey_hash20 X pk_bytes)) h20_hex)))"

definition strip_0x :: "string \<Rightarrow> string" where
  "strip_0x a = (if starts_with ''0x'' a \<or> starts_with ''0X'' a then drop 2 a else a)"

definition address_identity :: "ext_lib \<Rightarrow> string \<Rightarrow> string" where
  "address_identity X address =
     (let a = trim address;
          fallback = (case decode_address X a of Some (h20_hex, _) \<Rightarrow> h20_hex | None \<Rightarrow> ''nonkey:'' @ to_lower a)
      in case x_hex_decode X (strip_0x a) of
           Some pk \<Rightarrow> if length pk = 33 \<or> length pk = 65
                      then x_hex_encode X (pubkey_hash20 X pk) else fallback
         | None \<Rightarrow> fallback)"

subsection \<open>Texts without a prefix or white space\<close>

lemma hex_digit_not_ws: "is_hex_digit c \<Longrightarrow> \<not> is_ascii_ws c"
  by (auto simp: is_hex_digit_def is_ascii_ws_def Let_def)

lemma dropWhile_clean: "list_all (\<lambda>c. \<not> P c) s \<Longrightarrow> dropWhile P s = s"
  by (cases s) auto

lemma trim_clean: "list_all (\<lambda>c. \<not> is_ascii_ws c) s \<Longrightarrow> trim s = s"
  by (simp add: trim_def dropWhile_clean list_all_rev)

lemma hex_no_ws: "list_all is_hex_digit s \<Longrightarrow> list_all (\<lambda>c. \<not> is_ascii_ws c) s"
  by (auto simp: list_all_iff hex_digit_not_ws)

lemma not_hex_x: "\<not> is_hex_digit (CHR ''x'')" "\<not> is_hex_digit (CHR ''X'')"
  by (simp_all add: is_hex_digit_def)

lemma trim_start_0x_hex: "list_all is_hex_digit s \<Longrightarrow> trim_start_0x s = s"
  by (cases s rule: trim_start_0x.cases) (auto simp: not_hex_x)

lemma strip_0x_hex: "list_all is_hex_digit s \<Longrightarrow> strip_0x s = s"
  by (cases s rule: trim_start_0x.cases) (auto simp: strip_0x_def starts_with_def not_hex_x)

text \<open>A key that decodes is the text of its hexadecimal digits, without prefix or white space.\<close>

lemma key_text:
  assumes "hex_laws X" and "x_hex_decode X pk = Some bytes"
  shows "trim pk = pk" "trim_start_0x pk = pk" "strip_0x pk = pk"
  using hex_laws_digits [OF assms] trim_clean [OF hex_no_ws] trim_start_0x_hex strip_0x_hex by blast+

subsection \<open>Properties\<close>

text \<open>
  The two relations agree on the address forms the wallets produce: for a key that decodes
  to 33 or 65 bytes, the raw hexadecimal form in any letter case, with or without \<open>0x\<close>, and a
  Bech32m address that embeds the key's hash have the same accounting identity, and the key is
  authorised to spend from each of them.
\<close>

lemma identity_agrees_with_authorisation:
  assumes H: "hex_laws X" and pk: "x_hex_decode X pk = Some bytes" "length bytes = 33 \<or> length bytes = 65"
    and form: "eq_ignore_case addr pk \<or> addr = ''0x'' @ pk \<or>
      (trim addr = addr \<and> x_hex_decode X (strip_0x addr) = None \<and>
       decode_address X addr = Some (x_hex_encode X (pubkey_hash20 X bytes), y))"
  shows "address_identity X addr = x_hex_encode X (pubkey_hash20 X bytes) \<and>
    unlock_matches_address X pk addr"
  using form
proof (elim disjE)
  assume e: "eq_ignore_case addr pk"
  have d: "x_hex_decode X addr = Some bytes" using hex_decode_ignore_case [OF H e] pk(1) by simp
  show ?thesis
    using e pk(2) d key_text [OF H d] key_text [OF H pk(1)]
    by (simp add: address_identity_def unlock_matches_address_def Let_def)
next
  assume a: "addr = ''0x'' @ pk"
  have digits: "list_all is_hex_digit pk" by (rule hex_laws_digits [OF H pk(1)])
  have "list_all (\<lambda>c. \<not> is_ascii_ws c) addr"
    using hex_no_ws [OF digits] by (simp add: a is_ascii_ws_def)
  then have t: "trim addr = addr" by (rule trim_clean)
  show ?thesis
    using pk t key_text [OF H pk(1)]
    by (simp add: address_identity_def unlock_matches_address_def Let_def a strip_0x_def starts_with_def)
next
  assume b: "trim addr = addr \<and> x_hex_decode X (strip_0x addr) = None \<and>
    decode_address X addr = Some (x_hex_encode X (pubkey_hash20 X bytes), y)"
  then show ?thesis
    using pk key_text [OF H pk(1)] by (simp add: address_identity_def unlock_matches_address_def Let_def)
qed

definition sample_key :: string where
  "sample_key = ''02'' @ replicate 64 (CHR ''a'')"

definition sample_key_bytes :: string where
  "sample_key_bytes = CHR 0x02 # replicate 32 (CHR 0xAA)"

lemma sample_key_decodes: "x_hex_decode ref_ext sample_key = Some sample_key_bytes"
  by code_simp

lemma sample_key_length: "length sample_key_bytes = 33"
  by (simp add: sample_key_bytes_def)

text \<open>
  An output addressed to \<open>0X\<close> followed by a key is credited to that key's party by the
  accounting identity (settlements, burns), yet no unlock key that decodes as hexadecimal, which
  every verified signature requires, may spend it: the value is locked for good. The address is
  assumed not to be a Bech32m string.
\<close>

lemma upper_0X_address_is_a_black_hole:
  assumes H: "hex_laws X" and pk: "x_hex_decode X pk = Some bytes" "length bytes = 33 \<or> length bytes = 65"
    and nb: "decode_address X (''0X'' @ pk) = None"
  shows "address_identity X (''0X'' @ pk) = address_identity X pk \<and>
    \<not> (\<exists>k b. x_hex_decode X k = Some b \<and> unlock_matches_address X k (''0X'' @ pk))"
proof -
  have digits: "list_all is_hex_digit pk" by (rule hex_laws_digits [OF H pk(1)])
  have "list_all (\<lambda>c. \<not> is_ascii_ws c) (''0X'' @ pk)"
    using hex_no_ws [OF digits] by (simp add: is_ascii_ws_def)
  then have t: "trim (''0X'' @ pk) = ''0X'' @ pk" by (rule trim_clean)
  have "\<not> unlock_matches_address X k (''0X'' @ pk)" if k: "x_hex_decode X k = Some b" for k b
  proof -
    have "list_all is_hex_digit (to_lower k)"
      using hex_laws_digits [OF H, of "to_lower k" b] hex_laws_lower [OF H] k by simp
    then have "to_lower k \<noteq> to_lower (''0X'' @ pk)"
      by (auto simp: to_lower_def lower_char_hex not_hex_x)
    then show ?thesis
      using t nb key_text [OF H k] by (simp add: unlock_matches_address_def eq_ignore_case_def)
  qed
  then show ?thesis
    using pk t key_text [OF H pk(1)]
    by (auto simp: address_identity_def Let_def strip_0x_def starts_with_def)
qed

end
