(* ===== verification/Conditions.thy ===== *)
theory Conditions
  imports Ownership "HOL-Library.List_Lexorder" "HOL-Library.Char_ord" "HOL-Library.Multiset"
begin

section \<open>Signatures and spend conditions: \<open>signature.rs\<close>, \<open>conditions.rs\<close>\<close>

text \<open>
  The signatures of a transaction are checked once per distinct pair of key and signature, with a
  fast path for a single unlock; \<open>sig_valid\<close> is the reference: the key and the signature decode and
  the signature is of the message. A spend condition travels with the output: \<open>PubKey\<close> binds the
  key to the address, \<open>MultiSig\<close> counts the distinct keys of the set that signed, \<open>HashLock\<close> asks
  for a preimage. An index out of range (\<open>unlocks[i]\<close>) is \<open>RustPanic\<close>. When four signatures or more
  are checked the code runs them in parallel and may report another of the failures.
\<close>

subsection \<open>Signatures\<close>

definition signing_message :: "ext_lib \<Rightarrow> transaction \<Rightarrow> string \<Rightarrow> string option" where
  "signing_message X tx network_id =
     map_option (\<lambda>bytes. x_hex_encode X (x_sha256 X bytes))
       (x_json_canon X network_id (tx_inputs tx) (tx_outputs tx) (tx_fee tx))"

definition verify_single_signature :: "ext_lib \<Rightarrow> string \<Rightarrow> string \<Rightarrow> string \<Rightarrow> nat \<Rightarrow> unit vresult" where
  "verify_single_signature X msg_bytes pubkey_hex signature_b64 index =
     rbind (ok_or (x_hex_decode X pubkey_hex) (InvalidSignature ''invalid pubkey hex'')) (\<lambda>vk_bytes.
     rbind (ok_or (x_sec1_key X vk_bytes) (InvalidSignature ''invalid sec1 pubkey'')) (\<lambda>vk.
     rbind (ok_or (x_b64_decode X signature_b64) (InvalidSignature ''invalid b64 signature'')) (\<lambda>sig_bytes.
     rbind (ok_or (x_der_sig X sig_bytes) (InvalidSignature ''invalid der signature'')) (\<lambda>signature.
     require (x_ecdsa_verify X vk msg_bytes signature)
       (InvalidSignature (''signature mismatch input '' @ show_nat index))))))"

definition verify_detached_signature :: "ext_lib \<Rightarrow> string \<Rightarrow> string \<Rightarrow> string \<Rightarrow> unit vresult" where
  "verify_detached_signature X msg_bytes pubkey_hex signature_b64 =
     verify_single_signature X msg_bytes pubkey_hex signature_b64 0"

text \<open>The signatures in the order the loop meets them: of each unlock, then of its cosigners.\<close>

definition sig_entries :: "transaction \<Rightarrow> (nat \<times> string \<times> string) list" where
  "sig_entries tx = concat (map (\<lambda>(i, u).
     (i, u_pubkey_hex u, u_signature_b64 u) #
     map (\<lambda>co. (i, co_pubkey_hex co, co_signature_b64 co)) (u_cosigners u))
     (List.enumerate 0 (tx_unlocks tx)))"

fun dedup_sigs :: "(string \<times> string) list \<Rightarrow> (nat \<times> string \<times> string) list \<Rightarrow> (nat \<times> string \<times> string) list" where
  "dedup_sigs seen [] = []"
| "dedup_sigs seen ((i, pk, sig) # rest) =
     (if (pk, sig) \<in> set seen then dedup_sigs seen rest
      else (i, pk, sig) # dedup_sigs ((pk, sig) # seen) rest)"

definition verify_tx_signatures :: "ext_lib \<Rightarrow> transaction \<Rightarrow> string \<Rightarrow> unit vresult" where
  "verify_tx_signatures X tx network_id =
     (if length (tx_inputs tx) \<noteq> length (tx_unlocks tx) then Inl (InvalidSignature ''inputs/unlocks mismatch'')
      else
        rbind (ok_or (signing_message X tx network_id) (Other ''Serialization in signing_message failed''))
          (\<lambda>msg.
        if length (tx_unlocks tx) = 1 \<and> u_cosigners (hd (tx_unlocks tx)) = [] then
          verify_single_signature X msg (u_pubkey_hex (hd (tx_unlocks tx)))
            (u_signature_b64 (hd (tx_unlocks tx))) 0
        else
          try_each (\<lambda>(i, pk, sig). verify_single_signature X msg pk sig i)
            (dedup_sigs [] (sig_entries tx))))"

subsection \<open>Multi-signature addresses and the structure of conditions\<close>

definition max_multisig_keys :: nat where
  "max_multisig_keys = 16"

definition normalize_pk :: "string \<Rightarrow> string" where
  "normalize_pk pk = to_lower (trim_start_0x (trim pk))"

definition multisig_address :: "ext_lib \<Rightarrow> u8 \<Rightarrow> string list \<Rightarrow> string" where
  "multisig_address X m pubkeys =
     (let keys = sort (map normalize_pk pubkeys);
          digest = x_sha256 X (''pms-multisig-v1'' @ [char_of (unat m), char_of (length keys)] @ concat keys)
      in ''msig1'' @ x_hex_encode X (take 20 digest))"

fun check_multisig_keys :: "ext_lib \<Rightarrow> nat \<Rightarrow> string list \<Rightarrow> string list \<Rightarrow> unit vresult" where
  "check_multisig_keys X i seen [] = Inr ()"
| "check_multisig_keys X i seen (pk # pks) =
     (let norm = normalize_pk pk in
      if x_hex_decode X norm = None \<or> norm = [] then
        Inl (InvalidSpendCondition (''output '' @ show_nat i @ '': MultiSig pubkey is not valid hex''))
      else if norm \<in> set seen then
        Inl (InvalidSpendCondition (''output '' @ show_nat i @ '': duplicate pubkey in MultiSig set''))
      else check_multisig_keys X i (norm # seen) pks)"

definition validate_output_condition :: "ext_lib \<Rightarrow> nat \<Rightarrow> tx_output \<Rightarrow> unit vresult" where
  "validate_output_condition X i out =
     (case o_spend_condition out of
        None \<Rightarrow> Inr ()
      | Some PubKey \<Rightarrow> Inr ()
      | Some (MultiSig m pubkeys) \<Rightarrow>
          if m = 0 then Inl (InvalidSpendCondition (''output '' @ show_nat i @ '': MultiSig m must be >= 1''))
          else if pubkeys = [] \<or> max_multisig_keys < length pubkeys then
            Inl (InvalidSpendCondition (''output '' @ show_nat i @
              '': MultiSig requires 1..=16 pubkeys, got '' @ show_nat (length pubkeys)))
          else if length pubkeys < unat m then
            Inl (InvalidSpendCondition (''output '' @ show_nat i @ '': MultiSig m='' @ show_nat (unat m) @
              '' exceeds pubkey count '' @ show_nat (length pubkeys)))
          else
            rbind (check_multisig_keys X i [] pubkeys) (\<lambda>_.
            require (o_address out = multisig_address X m pubkeys)
              (InvalidSpendCondition (''output '' @ show_nat i @
                '': address does not commit to the MultiSig policy (expected canonical multisig address)'')))
      | Some (HashLock hash_hex) \<Rightarrow>
          let h = trim hash_hex in
          require (length h = 64 \<and> x_hex_decode X h \<noteq> None)
            (InvalidSpendCondition (''output '' @ show_nat i @
              '': HashLock hash_hex must be 64 hex chars (SHA-256)'')))"

definition validate_output_conditions :: "ext_lib \<Rightarrow> tx_output list \<Rightarrow> unit vresult" where
  "validate_output_conditions X outputs =
     try_each (\<lambda>(i, out). validate_output_condition X i out) (List.enumerate 0 outputs)"

subsection \<open>Spending\<close>

definition multisig_signers :: "string list \<Rightarrow> unlock \<Rightarrow> string list" where
  "multisig_signers pubkeys u =
     remdups (filter (\<lambda>k. k \<in> set (map normalize_pk pubkeys))
       (normalize_pk (u_pubkey_hex u) # map (\<lambda>co. normalize_pk (co_pubkey_hex co)) (u_cosigners u)))"

definition check_input_spend_condition :: "ext_lib \<Rightarrow> nat \<Rightarrow> tx_output \<Rightarrow> unlock \<Rightarrow> unit vresult" where
  "check_input_spend_condition X input_index utxo u =
     (let by_key = require (unlock_matches_address X (u_pubkey_hex u) (o_address utxo))
                     (OwnershipMismatch input_index)
      in case o_spend_condition utxo of
           None \<Rightarrow> by_key
         | Some PubKey \<Rightarrow> by_key
         | Some (MultiSig m pubkeys) \<Rightarrow>
             if m = 0 \<or> pubkeys = [] then Inl (SpendConditionNotMet input_index)
             else require (unat m \<le> length (multisig_signers pubkeys u)) (SpendConditionNotMet input_index)
         | Some (HashLock hash_hex) \<Rightarrow>
             rbind (ok_or (u_preimage_hex u) (SpendConditionNotMet input_index)) (\<lambda>preimage_hex.
             rbind (ok_or (x_hex_decode X (trim preimage_hex)) (SpendConditionNotMet input_index)) (\<lambda>preimage.
             require (eq_ignore_case (x_hex_encode X (x_sha256 X preimage)) (trim hash_hex))
               (SpendConditionNotMet input_index))))"

definition check_spend_authorization :: "ext_lib \<Rightarrow> unlock list \<Rightarrow> tx_output list \<Rightarrow> unit vresult" where
  "check_spend_authorization X unlocks input_outputs =
     try_each (\<lambda>(i, out).
       if i < length unlocks then check_input_spend_condition X i out (unlocks ! i)
       else Inl (RustPanic ''index out of bounds''))
     (List.enumerate 0 input_outputs)"

subsection \<open>What an accepted signature and an accepted spend mean\<close>

definition sig_valid :: "ext_lib \<Rightarrow> string \<Rightarrow> string \<Rightarrow> string \<Rightarrow> bool" where
  "sig_valid X msg pubkey_hex signature_b64 \<longleftrightarrow>
     (\<exists>kb k sb s. x_hex_decode X pubkey_hex = Some kb \<and> x_sec1_key X kb = Some k \<and>
        x_b64_decode X signature_b64 = Some sb \<and> x_der_sig X sb = Some s \<and> x_ecdsa_verify X k msg s)"

lemma verify_single_ok: "verify_single_signature X msg pk sig i = Inr u \<longleftrightarrow> sig_valid X msg pk sig"
  by (auto simp: verify_single_signature_def sig_valid_def)

lemma enumerate_snd: "snd ` set (List.enumerate n xs) = set xs"
  by (metis list.set_map map_snd_enumerate)

lemma set_enumerate: "(i, x) \<in> set (List.enumerate 0 xs) \<longleftrightarrow> i < length xs \<and> xs ! i = x"
  by (auto simp: in_set_enumerate_eq)

lemma try_each_enumerate:
  "try_each (\<lambda>(i, x). f i x) (List.enumerate 0 xs) = Inr u \<longleftrightarrow> (\<forall>i<length xs. f i (xs ! i) = Inr ())"
  by (auto simp: try_each_eq_Inr set_enumerate Ball_def)

lemma dedup_sigs_pairs: "snd ` set (dedup_sigs seen es) = snd ` set es - set seen"
  by (induction seen es rule: dedup_sigs.induct) auto

lemma dedup_sigs_subset: "set (dedup_sigs seen es) \<subseteq> set es"
  by (induction seen es rule: dedup_sigs.induct) auto

lemma sig_entries_pairs:
  "snd ` set (sig_entries tx) =
     (\<Union>u\<in>set (tx_unlocks tx). insert (u_pubkey_hex u, u_signature_b64 u)
        ((\<lambda>co. (co_pubkey_hex co, co_signature_b64 co)) ` set (u_cosigners u)))"
proof -
  have "snd ` set (sig_entries tx) =
    (\<Union>u\<in>snd ` set (List.enumerate 0 (tx_unlocks tx)). insert (u_pubkey_hex u, u_signature_b64 u)
        ((\<lambda>co. (co_pubkey_hex co, co_signature_b64 co)) ` set (u_cosigners u)))"
    by (simp add: sig_entries_def case_prod_beta image_UN image_image)
  then show ?thesis by (simp only: enumerate_snd)
qed

lemma verify_all_ok:
  "try_each (\<lambda>(i, pk, sig). verify_single_signature X msg pk sig i) es = Inr u \<longleftrightarrow>
     (\<forall>p\<in>snd ` set es. sig_valid X msg (fst p) (snd p))"
  by (force simp: try_each_eq_Inr verify_single_ok)

lemma verify_tx_signatures_ok:
  "verify_tx_signatures X tx nid = Inr () \<longleftrightarrow>
     length (tx_inputs tx) = length (tx_unlocks tx) \<and>
     (\<exists>msg. signing_message X tx nid = Some msg \<and>
        (\<forall>u\<in>set (tx_unlocks tx). sig_valid X msg (u_pubkey_hex u) (u_signature_b64 u) \<and>
           (\<forall>co\<in>set (u_cosigners u). sig_valid X msg (co_pubkey_hex co) (co_signature_b64 co))))"
proof (cases "signing_message X tx nid")
  case None
  then show ?thesis by (simp add: verify_tx_signatures_def)
next
  case (Some msg)
  show ?thesis
  proof (cases "length (tx_unlocks tx) = 1 \<and> u_cosigners (hd (tx_unlocks tx)) = []")
    case True
    then obtain u where "tx_unlocks tx = [u]" "u_cosigners u = []" by (auto simp: length_Suc_conv)
    with Some show ?thesis by (simp add: verify_tx_signatures_def verify_single_ok)
  next
    case False
    then have "verify_tx_signatures X tx nid = Inr () \<longleftrightarrow>
      length (tx_inputs tx) = length (tx_unlocks tx) \<and>
      (\<forall>p\<in>snd ` set (sig_entries tx). sig_valid X msg (fst p) (snd p))"
      using Some by (auto simp: verify_tx_signatures_def verify_all_ok dedup_sigs_pairs)
    then show ?thesis using Some by (auto simp: sig_entries_pairs)
  qed
qed

text \<open>
  The deduplicated, fast-pathed check of a transaction's signatures accepts exactly when
  there is one unlock per input and every signature the transaction carries, of each unlock and of
  each cosigner, is a valid signature of the one message that binds the network, the inputs, the
  outputs and the fee.
\<close>

lemma signatures_all_checked:
  "verify_tx_signatures X tx nid = Inr () \<longleftrightarrow>
     length (tx_inputs tx) = length (tx_unlocks tx) \<and>
     (\<exists>msg. signing_message X tx nid = Some msg \<and>
        (\<forall>u\<in>set (tx_unlocks tx). sig_valid X msg (u_pubkey_hex u) (u_signature_b64 u) \<and>
           (\<forall>co\<in>set (u_cosigners u). sig_valid X msg (co_pubkey_hex co) (co_signature_b64 co))))"
  by (rule verify_tx_signatures_ok)

definition sample_unlock :: unlock where
  "sample_unlock = unlock_new sample_key (sample_key_bytes @ ref_hex_encode (take 32 (''net0'' @ replicate 32 (CHR ''.''))))"

definition sample_tx :: transaction where
  "sample_tx = \<lparr>tx_inputs = [\<lparr>ti_out = \<lparr>op_txid = ''genesis'', op_index = 0\<rparr>\<rparr>],
     tx_outputs = [txoutput_new sample_key ''3'' None, txoutput_new ''fees'' ''1'' None],
     tx_fee = ''0'', tx_unlocks = [sample_unlock]\<rparr>"

lemma sample_tx_fields:
  "tx_inputs sample_tx = [\<lparr>ti_out = \<lparr>op_txid = ''genesis'', op_index = 0\<rparr>\<rparr>]"
  "tx_unlocks sample_tx = [sample_unlock]"
  "u_cosigners sample_unlock = []"
  by (simp_all add: sample_tx_def sample_unlock_def unlock_new_def)

lemma sample_message:
  "signing_message ref_ext sample_tx ''net'' = Some (ref_hex_encode (take 32 (''net0'' @ replicate 32 (CHR ''.''))))"
  by (simp add: signing_message_def ref_ext_def sample_tx_def)

lemma sample_sig_valid:
  "sig_valid ref_ext (ref_hex_encode (take 32 (''net0'' @ replicate 32 (CHR ''.''))))
     (u_pubkey_hex sample_unlock) (u_signature_b64 sample_unlock)"
  using sample_key_decodes sample_key_length
  by (simp add: sig_valid_def sample_unlock_def unlock_new_def ref_ext_def)

lemma check_spend_authorization_ok:
  "check_spend_authorization X unlocks outs = Inr u \<longleftrightarrow>
     length outs \<le> length unlocks \<and>
     (\<forall>i<length outs. check_input_spend_condition X i (outs ! i) (unlocks ! i) = Inr ())"
  (is "?l \<longleftrightarrow> ?r")
proof -
  have "?l \<longleftrightarrow> (\<forall>i<length outs. i < length unlocks \<and>
      check_input_spend_condition X i (outs ! i) (unlocks ! i) = Inr ())"
    by (auto simp: check_spend_authorization_def try_each_enumerate)
  also have "\<dots> \<longleftrightarrow> ?r"
    by (metis linorder_not_less less_trans nle_le not_less_iff_gr_or_eq order_le_less_trans)
  finally show ?thesis .
qed

lemma multisig_signers_signed:
  "k \<in> set (multisig_signers pks u) \<Longrightarrow> k \<in> set (map normalize_pk pks) \<and>
     (\<exists>pk sig. normalize_pk pk = k \<and> ((pk, sig) = (u_pubkey_hex u, u_signature_b64 u) \<or>
        (\<exists>co\<in>set (u_cosigners u). (pk, sig) = (co_pubkey_hex co, co_signature_b64 co))))"
  by (auto simp: multisig_signers_def split: if_splits)

lemma multisig_quorum:
  assumes ok: "check_input_spend_condition X i out u = Inr ()" "o_spend_condition out = Some (MultiSig m pks)"
    and v: "sig_valid X msg (u_pubkey_hex u) (u_signature_b64 u)"
      "\<forall>co\<in>set (u_cosigners u). sig_valid X msg (co_pubkey_hex co) (co_signature_b64 co)"
  shows "0 < m \<and> (\<exists>S. S \<subseteq> set (map normalize_pk pks) \<and> unat m \<le> card S \<and>
    (\<forall>k\<in>S. \<exists>pk sig. normalize_pk pk = k \<and> sig_valid X msg pk sig))"
proof -
  let ?S = "set (multisig_signers pks u)"
  have m: "m \<noteq> 0" and q: "unat m \<le> length (multisig_signers pks u)"
    using ok by (auto simp: check_input_spend_condition_def Let_def split: if_splits)
  have "card ?S = length (multisig_signers pks u)"
    by (rule distinct_card) (simp add: multisig_signers_def)
  with q have card: "unat m \<le> card ?S" by simp
  have "\<exists>pk sig. normalize_pk pk = k \<and> sig_valid X msg pk sig" if "k \<in> ?S" for k
    using multisig_signers_signed [OF that] v by blast
  moreover have "?S \<subseteq> set (map normalize_pk pks)" using multisig_signers_signed by blast
  ultimately show ?thesis using m card by (auto simp: word_gt_0)
qed

text \<open>
  Claim C10. An accepted spend of an output under an M-of-N condition carries valid signatures of the
  transaction's message by at least M distinct keys of the output's own set; M is never zero.
  Repeating a cosignature or signing with a foreign key does not help.
\<close>

theorem multisig_quorum_signed:
  assumes sigs: "verify_tx_signatures X tx nid = Inr ()"
    and auth: "check_spend_authorization X (tx_unlocks tx) outs = Inr ()"
    and i: "i < length outs" "o_spend_condition (outs ! i) = Some (MultiSig m pks)"
  shows "0 < m \<and> (\<exists>S msg. signing_message X tx nid = Some msg \<and> S \<subseteq> set (map normalize_pk pks) \<and>
    unat m \<le> card S \<and> (\<forall>k\<in>S. \<exists>pk sig. normalize_pk pk = k \<and> sig_valid X msg pk sig))"
proof -
  have u: "tx_unlocks tx ! i \<in> set (tx_unlocks tx)"
    and ok: "check_input_spend_condition X i (outs ! i) (tx_unlocks tx ! i) = Inr ()"
    using auth i(1) by (auto simp: check_spend_authorization_ok)
  obtain msg where msg: "signing_message X tx nid = Some msg"
    and v: "sig_valid X msg (u_pubkey_hex (tx_unlocks tx ! i)) (u_signature_b64 (tx_unlocks tx ! i))"
      "\<forall>co\<in>set (u_cosigners (tx_unlocks tx ! i)). sig_valid X msg (co_pubkey_hex co) (co_signature_b64 co)"
    using sigs u unfolding verify_tx_signatures_ok by blast
  from multisig_quorum [OF ok i(2) v] msg show ?thesis by (elim conjE exE) (intro conjI exI; assumption)
qed

definition sample_key2 :: string where
  "sample_key2 = ''03'' @ replicate 64 (CHR ''b'')"

definition sample_key2_bytes :: string where
  "sample_key2_bytes = CHR 0x03 # replicate 32 (CHR 0xBB)"

definition sample_multisig_tx :: transaction where
  "sample_multisig_tx = sample_tx\<lparr>tx_unlocks := [sample_unlock\<lparr>u_cosigners :=
     [\<lparr>co_pubkey_hex = sample_key2, co_signature_b64 =
        sample_key2_bytes @ ref_hex_encode (take 32 (''net0'' @ replicate 32 (CHR ''.'')))\<rparr>]\<rparr>]\<rparr>"

lemma sample_key2_decodes: "x_hex_decode ref_ext sample_key2 = Some sample_key2_bytes"
  by code_simp

lemma sample_multisig_signed: "verify_tx_signatures ref_ext sample_multisig_tx ''net'' = Inr ()"
proof -
  have "signing_message ref_ext sample_multisig_tx ''net'' = signing_message ref_ext sample_tx ''net''"
    by (simp add: signing_message_def sample_multisig_tx_def)
  moreover have "sig_valid ref_ext m sample_key2 (sample_key2_bytes @ m)" for m
    using sample_key2_decodes by (simp add: sig_valid_def ref_ext_def sample_key2_bytes_def)
  ultimately show ?thesis
    unfolding verify_tx_signatures_ok using sample_message sample_sig_valid
    by (simp add: sample_multisig_tx_def sample_tx_fields)
qed

definition sample_multisig_out :: tx_output where
  "sample_multisig_out = (txoutput_new ''msig1'' ''4'' None)
     \<lparr>o_spend_condition := Some (MultiSig 2 [sample_key2, sample_key])\<rparr>"

lemma sample_multisig_authorised:
  "check_spend_authorization ref_ext (tx_unlocks sample_multisig_tx) [sample_multisig_out] = Inr ()"
proof -
  have n: "normalize_pk sample_key = sample_key" "normalize_pk sample_key2 = sample_key2"
    using key_text [OF ref_hex_laws sample_key_decodes] key_text [OF ref_hex_laws sample_key2_decodes]
    by (simp_all add: normalize_pk_def sample_key_def sample_key2_def to_lower_def lower_char_def)
  have d: "sample_key \<noteq> sample_key2" by (simp add: sample_key_def sample_key2_def)
  have "u_pubkey_hex sample_unlock = sample_key" by (simp add: sample_unlock_def unlock_new_def)
  with n d show ?thesis
    by (simp add: check_spend_authorization_ok check_input_spend_condition_def multisig_signers_def
        sample_multisig_tx_def sample_multisig_out_def)
qed

theorem multisig_quorum_signed_witness:
  "\<exists>S msg. signing_message ref_ext sample_multisig_tx ''net'' = Some msg \<and>
     S \<subseteq> set (map normalize_pk [sample_key2, sample_key]) \<and> 2 \<le> card S \<and>
     (\<forall>k\<in>S. \<exists>pk sig. normalize_pk pk = k \<and> sig_valid ref_ext msg pk sig)"
  using multisig_quorum_signed [OF sample_multisig_signed sample_multisig_authorised, of 0 2 "[sample_key2, sample_key]"]
  by (simp add: sample_multisig_out_def)

text \<open>
  The canonical address of an M-of-N policy does not depend on the order in which the keys
  are declared, nor on their letter case, white space or \<open>0x\<close> prefix.
\<close>

lemma multisig_address_order_free:
  assumes "mset (map normalize_pk ks) = mset (map normalize_pk ks')"
  shows "multisig_address X m ks = multisig_address X m ks'"
proof -
  have "sort (map normalize_pk ks) = sort (map normalize_pk ks')"
    by (rule properties_for_sort) (use assms in simp_all)
  then show ?thesis by (simp add: multisig_address_def)
qed

text \<open>
  The address does not commit to the key set: the sorted keys are hashed without their
  lengths, so two policies with no key in common can share one address, whatever the hash, and both
  pass the structural check of an output at that address.
\<close>

lemma multisig_address_not_a_commitment:
  assumes dec: "x_hex_decode X ''02aa'' = Some b1" "x_hex_decode X ''bbcc'' = Some b2"
    "x_hex_decode X ''02aabb'' = Some b3" "x_hex_decode X ''cc'' = Some b4"
    and out: "o_address out = multisig_address X 2 [''02aa'', ''bbcc'']"
  shows "multisig_address X 2 [''02aa'', ''bbcc''] = multisig_address X 2 [''02aabb'', ''cc''] \<and>
    validate_output_conditions X [out\<lparr>o_spend_condition := Some (MultiSig 2 [''02aa'', ''bbcc''])\<rparr>] = Inr () \<and>
    validate_output_conditions X [out\<lparr>o_spend_condition := Some (MultiSig 2 [''02aabb'', ''cc''])\<rparr>] = Inr ()"
proof -
  have n: "normalize_pk ''02aa'' = ''02aa''" "normalize_pk ''bbcc'' = ''bbcc''"
    "normalize_pk ''02aabb'' = ''02aabb''" "normalize_pk ''cc'' = ''cc''"
    by code_simp+
  have s: "sort [''02aa'', ''bbcc''] = [''02aa'', ''bbcc'']" "sort [''02aabb'', ''cc''] = [''02aabb'', ''cc'']"
    by code_simp+
  have a: "multisig_address X 2 [''02aa'', ''bbcc''] = multisig_address X 2 [''02aabb'', ''cc'']"
    by (simp add: multisig_address_def n s del: sort_key_simps)
  with dec out n show ?thesis
    by (simp add: validate_output_conditions_def validate_output_condition_def max_multisig_keys_def)
qed

end
