(* ===== verification/Policy.thy ===== *)
theory Policy
  imports Decimals ExtLib RefDecimal
begin

section \<open>The validation policy: \<open>ValidatePolicy\<close> of \<open>validations/check.rs\<close>\<close>

text \<open>
  The policy every rule reads, its default, and how it is built from the settings: the platform
  address has to be signed by the hard-wired key of the network outside dev mode, a custom
  coordinator key overrides the hard-wired one but may not be a production key in dev mode. The
  loaded settings are an argument (\<open>load_config\<close> reads files); \<open>usize\<close> values are naturals.
  \<open>net_settings\<close> holds the settings these functions read, \<open>runtime_fees\<close> the two fields of
  \<open>RuntimeConfig\<close> the hot swap reads.
\<close>

datatype network_mode = Dev | Testnet | Mainnet

definition coordinator_public_key_mainnet :: string where
  "coordinator_public_key_mainnet = ''036ed4d5ad1c927fe972ef9728ac1888d237af57a488b6cbe50228fac442b5ae6b''"

definition coordinator_public_key_testnet :: string where
  "coordinator_public_key_testnet = ''02115e0941c01a05f6d6dfc6aa9204e20d0d1af9d3231c25728034d9278bf7187f''"

fun mode_public_key :: "network_mode \<Rightarrow> string option" where
  "mode_public_key Mainnet = Some coordinator_public_key_mainnet"
| "mode_public_key Testnet = Some coordinator_public_key_testnet"
| "mode_public_key Dev = None"

record validation_settings =
  vs_min_pow_leading_zero_bits :: u8
  vs_max_payload_bytes :: nat
  vs_min_parents_after_boot :: nat
  vs_max_parents :: nat
  vs_require_unique_parents :: bool
  vs_forbid_self_parent :: bool
  vs_max_inputs :: nat
  vs_max_outputs :: nat
  vs_max_tx_bytes :: nat
  vs_max_fee_per_tx :: nat
  vs_enforce_parent_existence :: bool
  vs_enforce_fee_recipient :: bool
  vs_allowed_fee_addresses :: "string list"
  vs_coordinator_public_key :: "string option"
  vs_enforce_single_writer :: bool

record net_settings =
  ns_validation :: validation_settings
  ns_network_id :: string
  ns_mode :: network_mode
  ns_platform_address :: "string option"
  ns_platform_address_signature :: "string option"
  ns_platform_fee_ratio :: string
  ns_signer_pubkeys :: "string list"

record 'd policy =
  p_max_payload_bytes :: nat
  p_min_parents_after_boot :: nat
  p_max_parents :: nat
  p_require_unique_parents :: bool
  p_forbid_self_parent :: bool
  p_max_inputs :: nat
  p_max_outputs :: nat
  p_max_tx_bytes :: nat
  p_min_pow_leading_zero_bits :: u8
  p_max_fee_per_tx :: 'd
  p_enforce_parent_existence :: bool
  p_enforce_fee_recipient :: bool
  p_allowed_fee_addresses :: "string list"
  p_skip_utxo_checks :: bool
  p_platform_address :: "string option"
  p_platform_fee_ratio :: 'd
  p_coordinator_public_key :: "string option"
  p_enforce_single_writer :: bool
  p_network_id :: string

definition policy_default :: "'d dec_lib \<Rightarrow> 'd policy" where
  "policy_default D =
     \<lparr>p_max_payload_bytes = 64 * 1024, p_min_parents_after_boot = 2, p_max_parents = 8,
      p_require_unique_parents = True, p_forbid_self_parent = True, p_max_inputs = 64,
      p_max_outputs = 64, p_max_tx_bytes = 64 * 1024, p_min_pow_leading_zero_bits = 0,
      p_max_fee_per_tx = d_of_nat D 1000, p_enforce_parent_existence = True,
      p_enforce_fee_recipient = False, p_allowed_fee_addresses = [], p_skip_utxo_checks = False,
      p_platform_address = None, p_platform_fee_ratio = d_zero D, p_coordinator_public_key = None,
      p_enforce_single_writer = True, p_network_id = ''''\<rparr>"

definition policy_from_settings :: "'d dec_lib \<Rightarrow> validation_settings \<Rightarrow> string \<Rightarrow> 'd policy" where
  "policy_from_settings D s network_id =
     \<lparr>p_max_payload_bytes = vs_max_payload_bytes s,
      p_min_parents_after_boot = vs_min_parents_after_boot s, p_max_parents = vs_max_parents s,
      p_require_unique_parents = vs_require_unique_parents s,
      p_forbid_self_parent = vs_forbid_self_parent s, p_max_inputs = vs_max_inputs s,
      p_max_outputs = vs_max_outputs s, p_max_tx_bytes = vs_max_tx_bytes s,
      p_min_pow_leading_zero_bits = vs_min_pow_leading_zero_bits s,
      p_max_fee_per_tx = d_of_nat D (vs_max_fee_per_tx s),
      p_enforce_parent_existence = vs_enforce_parent_existence s,
      p_enforce_fee_recipient = vs_enforce_fee_recipient s,
      p_allowed_fee_addresses = vs_allowed_fee_addresses s, p_skip_utxo_checks = False,
      p_platform_address = None, p_platform_fee_ratio = d_zero D,
      p_coordinator_public_key = vs_coordinator_public_key s,
      p_enforce_single_writer = vs_enforce_single_writer s, p_network_id = network_id\<rparr>"

definition verify_config_signature :: "ext_lib \<Rightarrow> string \<Rightarrow> string \<Rightarrow> string \<Rightarrow> bool" where
  "verify_config_signature X address sig_hex pk_hex =
     (case x_hex_decode X pk_hex of None \<Rightarrow> False
      | Some pk_bytes \<Rightarrow>
          (case x_sec1_key X pk_bytes of None \<Rightarrow> False
           | Some verify_key \<Rightarrow>
               (case x_hex_decode X sig_hex of None \<Rightarrow> False
                | Some sig_bytes \<Rightarrow>
                    (case (case x_der_sig X sig_bytes of Some s \<Rightarrow> Some s | None \<Rightarrow> x_raw_sig X sig_bytes) of
                       None \<Rightarrow> False
                     | Some sig \<Rightarrow> x_ecdsa_verify X verify_key address sig))))"

definition platform_address_rule :: "ext_lib \<Rightarrow> net_settings \<Rightarrow> string option vresult" where
  "platform_address_rule X s =
     (case mode_public_key (ns_mode s) of
        Some master_pk_hex \<Rightarrow>
          (case ns_platform_address s of
             Some addr \<Rightarrow>
               rbind (ok_or (ns_platform_address_signature s) MissingPlatformSignature) (\<lambda>sig_hex.
               if verify_config_signature X addr sig_hex master_pk_hex then Inr (Some addr)
               else Inl (InvalidPlatformSignature addr))
           | None \<Rightarrow> Inr None)
      | None \<Rightarrow> Inr (ns_platform_address s))"

definition coordinator_key_rule :: "net_settings \<Rightarrow> string option vresult" where
  "coordinator_key_rule s =
     (case vs_coordinator_public_key (ns_validation s) of
        Some custom_key \<Rightarrow>
          let is_mainnet_key = (custom_key = coordinator_public_key_mainnet);
              is_testnet_key = (custom_key = coordinator_public_key_testnet)
          in if ns_mode s = Dev \<and> (is_mainnet_key \<or> is_testnet_key)
             then Inl (ProdKeyInDevMode (if is_mainnet_key then ''MAINNET'' else ''TESTNET''))
             else Inr (Some custom_key)
      | None \<Rightarrow> Inr (mode_public_key (ns_mode s)))"

definition try_from_global_config ::
  "'d dec_lib \<Rightarrow> ext_lib \<Rightarrow> (string + net_settings) \<Rightarrow> 'd policy vresult" where
  "try_from_global_config D X loaded =
     (case loaded of
        Inl e \<Rightarrow> Inl (ConfigError (''failed to load config: '' @ e))
      | Inr s \<Rightarrow>
          rbind (platform_address_rule X s) (\<lambda>platform_address.
          rbind (coordinator_key_rule s) (\<lambda>coordinator_key.
          Inr ((policy_from_settings D (ns_validation s) (ns_network_id s))
            \<lparr>p_platform_address := platform_address, p_coordinator_public_key := coordinator_key,
             p_platform_fee_ratio := (case d_from_str D (ns_platform_fee_ratio s) of
                                        Some r \<Rightarrow> r | None \<Rightarrow> d_zero D)\<rparr>))))"

record runtime_fees =
  rf_coordinator_fee_bps :: u32
  rf_min_pow_bits :: u8

definition update_from_runtime_config :: "'d dec_lib \<Rightarrow> 'd policy \<Rightarrow> runtime_fees \<Rightarrow> panic + 'd policy" where
  "update_from_runtime_config D p config =
     rbind (dec_div D (d_of_nat D (unat (rf_coordinator_fee_bps config))) (d_of_nat D 10000)) (\<lambda>ratio.
     Inr (p\<lparr>p_platform_fee_ratio := ratio, p_min_pow_leading_zero_bits := rf_min_pow_bits config\<rparr>))"

text \<open>
  Outside dev mode the policy is never without a coordinator key, whatever the settings
  say, and its platform address, when there is one, is signed by the hard-wired key of the network;
  in dev mode the policy never enforces a production key.
\<close>

lemma policy_hardened:
  assumes "try_from_global_config D X (Inr s) = Inr p"
  shows "(ns_mode s \<noteq> Dev \<longrightarrow> p_coordinator_public_key p \<noteq> None \<and>
      (\<forall>addr. p_platform_address p = Some addr \<longrightarrow>
         (\<exists>sig key. mode_public_key (ns_mode s) = Some key \<and> verify_config_signature X addr sig key))) \<and>
    (ns_mode s = Dev \<longrightarrow> p_coordinator_public_key p \<notin> {mode_public_key Mainnet, mode_public_key Testnet})"
proof -
  obtain pa ck where pa: "platform_address_rule X s = Inr pa" and ck: "coordinator_key_rule s = Inr ck"
    and p: "p_platform_address p = pa" "p_coordinator_public_key p = ck"
    using assms by (auto simp: try_from_global_config_def)
  have prod: "\<exists>sig key. mode_public_key (ns_mode s) = Some key \<and> verify_config_signature X addr sig key"
    if "ns_mode s \<noteq> Dev" and "pa = Some addr" for addr
    using that pa ck
    by (cases "ns_mode s") (auto simp: platform_address_rule_def split: option.splits if_splits)
  have key: "ck \<noteq> None" if "ns_mode s \<noteq> Dev"
    using that ck
    by (cases "ns_mode s"; cases "vs_coordinator_public_key (ns_validation s)")
      (auto simp: coordinator_key_rule_def)
  have dev: "ck \<notin> {mode_public_key Mainnet, mode_public_key Testnet}" if "ns_mode s = Dev"
    using that ck by (auto simp: coordinator_key_rule_def Let_def split: option.splits if_splits)
  show ?thesis using prod key dev p by auto
qed

definition sample_settings :: net_settings where
  "sample_settings =
     \<lparr>ns_validation = \<lparr>vs_min_pow_leading_zero_bits = 0, vs_max_payload_bytes = 1000,
        vs_min_parents_after_boot = 1, vs_max_parents = 8, vs_require_unique_parents = True,
        vs_forbid_self_parent = True, vs_max_inputs = 64, vs_max_outputs = 64, vs_max_tx_bytes = 1000,
        vs_max_fee_per_tx = 10, vs_enforce_parent_existence = True, vs_enforce_fee_recipient = False,
        vs_allowed_fee_addresses = [], vs_coordinator_public_key = None, vs_enforce_single_writer = True\<rparr>,
      ns_network_id = ''pms-mainnet-v1'', ns_mode = Mainnet, ns_platform_address = None,
      ns_platform_address_signature = None, ns_platform_fee_ratio = ''x'', ns_signer_pubkeys = []\<rparr>"

end
