(* ===== verification/TxValidation.thy ===== *)
theory TxValidation
  imports Conservation Conditions Policy
begin

section \<open>Validation of transactions: \<open>transactions.rs\<close>, \<open>amount.rs\<close>, \<open>fees.rs\<close>\<close>

text \<open>
  The rules a transaction, a token burn and a bridge lock pass on the production path. The store of
  unspent outputs is read through \<open>get\<close>, an argument: \<open>Inr None\<close> for an outpoint that is not there,
  \<open>Inl\<close> if the look-up panics; theory \<open>Utxo\<close> provides it. The result of an accepted transaction is
  the list of the outputs it spends, in the order of its inputs. The specification \<open>spend_allowed\<close>
  collects what an input has to show: a valid signature of the transaction's message by a party the
  stored condition of the output designates.
\<close>

type_synonym utxo_lookup = "output_id \<Rightarrow> panic + tx_output option"

definition show_option_string :: "string option \<Rightarrow> string" where
  "show_option_string a =
     (case a of None \<Rightarrow> ''None'' | Some s \<Rightarrow> ''Some('' @ CHR 0x22 # s @ [CHR 0x22] @ '')'')"

definition count_mismatch :: "transaction \<Rightarrow> validation_error" where
  "count_mismatch tx = InvalidSignature (''inputs/unlocks count mismatch: '' @ show_nat (length (tx_inputs tx)) @
     '' inputs, '' @ show_nat (length (tx_unlocks tx)) @ '' unlocks'')"

definition tx_amounts_valid :: "'d dec_lib \<Rightarrow> ext_lib \<Rightarrow> transaction \<Rightarrow> 'd policy \<Rightarrow> unit vresult" where
  "tx_amounts_valid D X tx p =
     (if p_max_inputs p < length (tx_inputs tx) then Inl TooManyInputs
      else if p_max_outputs p < length (tx_outputs tx) then Inl TooManyOutputs
      else
        rbind (ok_or (x_json_tx X tx) (Other ''serde tx'')) (\<lambda>raw.
        if p_max_tx_bytes p < length raw then Inl TxTooLarge
        else
          rbind (amounts_positive_outputs D (tx_outputs tx)) (\<lambda>_.
          rbind (amount_parse_non_neg_dec D (tx_fee tx)) (\<lambda>fee.
          if d_lt D fee (d_zero D) then Inl (InvalidAmount ''tx.fee is negative'')
          else if d_lt D (p_max_fee_per_tx p) fee then
            Inl (FeeTooHigh (d_show D fee) (d_show D (p_max_fee_per_tx p)))
          else Inr ()))))"

subsection \<open>Fee recipients\<close>

fun platform_sent :: "'d dec_lib \<Rightarrow> string \<Rightarrow> 'd \<Rightarrow> tx_output list \<Rightarrow> panic + 'd" where
  "platform_sent D platform_addr sent [] = Inr sent"
| "platform_sent D platform_addr sent (out # outs) =
     (if o_address out = platform_addr then
        (case d_from_str D (o_amount out) of
           Some amt \<Rightarrow> rbind (dec_add D sent amt) (\<lambda>sent'. platform_sent D platform_addr sent' outs)
         | None \<Rightarrow> platform_sent D platform_addr sent outs)
      else platform_sent D platform_addr sent outs)"

definition platform_fee_rule :: "'d dec_lib \<Rightarrow> transaction \<Rightarrow> 'd policy \<Rightarrow> unit vresult" where
  "platform_fee_rule D tx p =
     (case p_platform_address p of
        None \<Rightarrow> Inr ()
      | Some platform_addr \<Rightarrow>
          if d_lt D (d_zero D) (p_platform_fee_ratio p) then
            rbind (panics (platform_sent D platform_addr (d_zero D) (tx_outputs tx))) (\<lambda>sent.
            let miner_fee = (case d_from_str D (tx_fee tx) of Some d \<Rightarrow> d | None \<Rightarrow> d_zero D) in
            rbind (panics (dec_add D miner_fee sent)) (\<lambda>total_fee.
            if d_lt D (d_zero D) total_fee then
              rbind (panics (dec_mul D total_fee (p_platform_fee_ratio p))) (\<lambda>expected.
              require (d_le D expected sent)
                (InvalidAmount (''Transaction must include a platform fee output of at least '' @ d_show D expected @
                  '' to '' @ platform_addr @ '' (sent: '' @ d_show D sent @ '', total_fee: '' @
                  d_show D total_fee @ '')'')))
            else Inr ()))
          else Inr ())"

definition validate_fee_recipient_output :: "'d dec_lib \<Rightarrow> transaction \<Rightarrow> 'd policy \<Rightarrow> unit vresult" where
  "validate_fee_recipient_output D tx p =
     rbind (platform_fee_rule D tx p) (\<lambda>_.
     if \<not> p_enforce_fee_recipient p then Inr ()
     else if p_allowed_fee_addresses p = [] then Inr ()
     else if length (tx_outputs tx) < 2 then Inr ()
     else
       let fee_out = last (tx_outputs tx) in
       require (\<exists>a\<in>set (p_allowed_fee_addresses p). eq_ignore_case a (o_address fee_out))
         (InvalidFeeRecipient (o_address fee_out)))"

subsection \<open>Inputs\<close>

fun fetch_inputs :: "utxo_lookup \<Rightarrow> output_id list \<Rightarrow> tx_input list \<Rightarrow> tx_output list vresult" where
  "fetch_inputs get seen [] = Inr []"
| "fetch_inputs get seen (inp # inps) =
     (if ti_out inp \<in> set seen then Inl DoubleSpend
      else
        rbind (panics (get (ti_out inp))) (\<lambda>found.
        rbind (ok_or found MissingInput) (\<lambda>out.
        rbind (fetch_inputs get (ti_out inp # seen) inps) (\<lambda>outs.
        Inr (out # outs)))))"

definition fetch_input_outputs :: "utxo_lookup \<Rightarrow> transaction \<Rightarrow> tx_output list vresult" where
  "fetch_input_outputs get tx = fetch_inputs get [] (tx_inputs tx)"

definition check_input_time_locks :: "tx_output list \<Rightarrow> u64 \<Rightarrow> unit vresult" where
  "check_input_time_locks input_outputs now_ms =
     try_each (\<lambda>(i, out).
       case o_locked_until out of
         None \<Rightarrow> Inr ()
       | Some until \<Rightarrow> require (\<not> now_ms < until) (OutputTimeLocked i until now_ms))
     (List.enumerate 0 input_outputs)"

definition validate_transaction_async :: "'d dec_lib \<Rightarrow> utxo_lookup \<Rightarrow> transaction \<Rightarrow> unit vresult" where
  "validate_transaction_async D get tx =
     rbind (fetch_input_outputs get tx) (check_asset_conservation D tx)"

definition validate_transaction_full ::
  "'d dec_lib \<Rightarrow> ext_lib \<Rightarrow> utxo_lookup \<Rightarrow> transaction \<Rightarrow> 'd policy \<Rightarrow> u64 \<Rightarrow> (string \<Rightarrow> u32 option)
   \<Rightarrow> tx_output list vresult" where
  "validate_transaction_full D X get tx p now_ms rates =
     (if length (tx_inputs tx) \<noteq> length (tx_unlocks tx) then Inl (count_mismatch tx)
      else
        rbind (amount_parse_non_neg_dec D (tx_fee tx)) (\<lambda>fee.
        if d_lt D (p_max_fee_per_tx p) fee then
          Inl (FeeTooHigh (d_show D fee) (d_show D (p_max_fee_per_tx p)))
        else
          rbind (verify_tx_signatures X tx (p_network_id p)) (\<lambda>_.
          rbind (validate_output_conditions X (tx_outputs tx)) (\<lambda>_.
          rbind (fetch_input_outputs get tx) (\<lambda>input_outputs.
          rbind (check_spend_authorization X (tx_unlocks tx) input_outputs) (\<lambda>_.
          rbind (check_input_time_locks input_outputs now_ms) (\<lambda>_.
          rbind (check_asset_conservation_with_demurrage D tx input_outputs rates now_ms) (\<lambda>_.
          Inr input_outputs))))))))"

subsection \<open>Bridge locks\<close>

fun bridge_duplicates :: "output_id list \<Rightarrow> tx_input list \<Rightarrow> unit vresult" where
  "bridge_duplicates seen [] = Inr ()"
| "bridge_duplicates seen (inp # inps) =
     (if ti_out inp \<in> set seen then Inl DoubleSpend else bridge_duplicates (ti_out inp # seen) inps)"

definition bridge_input ::
  "'d dec_lib \<Rightarrow> utxo_lookup \<Rightarrow> string option \<Rightarrow> 'd \<Rightarrow> tx_input \<Rightarrow> 'd vresult" where
  "bridge_input D get asset_id in_sum inp =
     rbind (panics (get (ti_out inp))) (\<lambda>found.
     case found of
       None \<Rightarrow> Inl MissingInput
     | Some out \<Rightarrow>
         if o_asset_id out \<noteq> asset_id then
           Inl (AssetBalanceMismatch asset_id (show_option_string (o_asset_id out)) (show_option_string asset_id))
         else rbind (amount_parse_pos_dec D (o_amount out)) (checked_sum D in_sum))"

definition validate_bridge_lock_async ::
  "'d dec_lib \<Rightarrow> utxo_lookup \<Rightarrow> tx_input list \<Rightarrow> string \<Rightarrow> string option \<Rightarrow> unit vresult" where
  "validate_bridge_lock_async D get inputs amount asset_id =
     rbind (bridge_duplicates [] inputs) (\<lambda>_.
     rbind (try_fold (bridge_input D get asset_id) (d_zero D) inputs) (\<lambda>in_sum.
     rbind (amount_parse_pos_dec D amount) (\<lambda>required.
     if d_lt D in_sum required then Inl InsufficientFunds else Inr ())))"

subsection \<open>Token burns\<close>

definition burn_input_guard :: "ext_lib \<Rightarrow> string option \<Rightarrow> string \<Rightarrow> tx_output \<Rightarrow> unit vresult" where
  "burn_input_guard X asset_id owner out =
     (if o_address out \<noteq> owner \<and> address_identity X (o_address out) \<noteq> address_identity X owner then
        Inl (InvalidSignature (''TokenBurn input not owned by burner: input addr='' @ o_address out @ '', owner='' @ owner))
      else if o_asset_id out \<noteq> asset_id then
        Inl (AssetBalanceMismatch asset_id (show_option_string (o_asset_id out)) (show_option_string asset_id))
      else Inr ())"

definition burn_change_guard :: "ext_lib \<Rightarrow> string option \<Rightarrow> string \<Rightarrow> tx_output \<Rightarrow> unit vresult" where
  "burn_change_guard X asset_id owner out =
     (if o_asset_id out \<noteq> asset_id then
        Inl (AssetBalanceMismatch (o_asset_id out) (show_option_string asset_id) (show_option_string (o_asset_id out)))
      else if address_identity X (o_address out) \<noteq> address_identity X owner then
        Inl (InvalidSignature (''TokenBurn change must return to burner: output addr='' @ o_address out @ '', owner='' @ owner))
      else Inr ())"

definition guarded_sum :: "'d dec_lib \<Rightarrow> (tx_output \<Rightarrow> unit vresult) \<Rightarrow> 'd \<Rightarrow> tx_output list \<Rightarrow> 'd vresult" where
  "guarded_sum D guard acc outs =
     try_fold (\<lambda>s out. rbind (guard out) (\<lambda>_. rbind (amount_parse_pos_dec D (o_amount out)) (checked_sum D s))) acc outs"

definition validate_token_burn_async ::
  "'d dec_lib \<Rightarrow> ext_lib \<Rightarrow> utxo_lookup \<Rightarrow> transaction \<Rightarrow> string option \<Rightarrow> string \<Rightarrow> string \<Rightarrow> 'd policy
   \<Rightarrow> u64 \<Rightarrow> tx_output list vresult" where
  "validate_token_burn_async D X get tx asset_id amount owner p now_ms =
     (if tx_inputs tx = [] then Inl MissingInput
      else if length (tx_inputs tx) \<noteq> length (tx_unlocks tx) then Inl (count_mismatch tx)
      else
        rbind (amount_parse_non_neg_dec D (tx_fee tx)) (\<lambda>fee.
        if \<not> d_eq D fee (d_zero D) then Inl (InvalidAmount ''TokenBurn must carry no fee (fee must be 0)'')
        else
          rbind (verify_tx_signatures X tx (p_network_id p)) (\<lambda>_.
          rbind (validate_output_conditions X (tx_outputs tx)) (\<lambda>_.
          rbind (fetch_input_outputs get tx) (\<lambda>input_outputs.
          rbind (check_spend_authorization X (tx_unlocks tx) input_outputs) (\<lambda>_.
          rbind (check_input_time_locks input_outputs now_ms) (\<lambda>_.
          rbind (guarded_sum D (burn_input_guard X asset_id owner) (d_zero D) input_outputs) (\<lambda>in_sum.
          rbind (guarded_sum D (burn_change_guard X asset_id owner) (d_zero D) (tx_outputs tx)) (\<lambda>change_sum.
          rbind (amount_parse_pos_dec D amount) (\<lambda>declared.
          rbind (ok_or (d_checked_sub D in_sum change_sum) (InvalidAmount ''TokenBurn change exceeds inputs'')) (\<lambda>burned.
          if \<not> d_eq D burned declared then
            Inl (AssetBalanceMismatch asset_id (d_show D in_sum)
              (''change='' @ d_show D change_sum @ '' + declared_burn='' @ d_show D declared))
          else Inr input_outputs)))))))))))"

subsection \<open>What an input has to show\<close>

definition spend_allowed :: "ext_lib \<Rightarrow> string \<Rightarrow> tx_output \<Rightarrow> unlock \<Rightarrow> bool" where
  "spend_allowed X msg out u \<longleftrightarrow> sig_valid X msg (u_pubkey_hex u) (u_signature_b64 u) \<and>
     (case o_spend_condition out of
        None \<Rightarrow> unlock_matches_address X (u_pubkey_hex u) (o_address out)
      | Some PubKey \<Rightarrow> unlock_matches_address X (u_pubkey_hex u) (o_address out)
      | Some (MultiSig m pks) \<Rightarrow> 0 < m \<and> (\<exists>S. S \<subseteq> set (map normalize_pk pks) \<and> unat m \<le> card S \<and>
          (\<forall>k\<in>S. \<exists>pk sig. normalize_pk pk = k \<and> sig_valid X msg pk sig))
      | Some (HashLock h) \<Rightarrow> (\<exists>t preimage. u_preimage_hex u = Some t \<and> x_hex_decode X (trim t) = Some preimage \<and>
          eq_ignore_case (x_hex_encode X (x_sha256 X preimage)) (trim h)))"

lemma spend_allowed_input:
  assumes ok: "check_input_spend_condition X i out u = Inr ()"
    and v: "sig_valid X msg (u_pubkey_hex u) (u_signature_b64 u)"
      "\<forall>co\<in>set (u_cosigners u). sig_valid X msg (co_pubkey_hex co) (co_signature_b64 co)"
  shows "spend_allowed X msg out u"
proof (cases "o_spend_condition out")
  case None
  with assms show ?thesis by (simp add: spend_allowed_def check_input_spend_condition_def)
next
  case (Some c)
  show ?thesis
  proof (cases c)
    case (MultiSig m pks)
    with Some multisig_quorum [OF ok _ v] v(1) show ?thesis by (simp add: spend_allowed_def)
  qed (use Some ok v(1) in \<open>auto simp: spend_allowed_def check_input_spend_condition_def\<close>)
qed

lemma spend_allowed_all:
  assumes "verify_tx_signatures X tx nid = Inr ()" and "check_spend_authorization X (tx_unlocks tx) outs = Inr ()"
  shows "\<exists>msg. signing_message X tx nid = Some msg \<and>
    (\<forall>i<length outs. spend_allowed X msg (outs ! i) (tx_unlocks tx ! i))"
proof -
  obtain msg where msg: "signing_message X tx nid = Some msg"
    and v: "\<forall>u\<in>set (tx_unlocks tx). sig_valid X msg (u_pubkey_hex u) (u_signature_b64 u) \<and>
        (\<forall>co\<in>set (u_cosigners u). sig_valid X msg (co_pubkey_hex co) (co_signature_b64 co))"
    using assms(1) unfolding verify_tx_signatures_ok by blast
  have a: "length outs \<le> length (tx_unlocks tx)"
    "\<forall>i<length outs. check_input_spend_condition X i (outs ! i) (tx_unlocks tx ! i) = Inr ()"
    using assms(2) by (auto simp: check_spend_authorization_ok)
  have "spend_allowed X msg (outs ! i) (tx_unlocks tx ! i)" if "i < length outs" for i
    using that a v by (intro spend_allowed_input [of X i]) (auto simp: nth_mem)
  with msg show ?thesis by blast
qed

lemma fetch_inputs_ok:
  "fetch_inputs get seen inps = Inr outs \<longleftrightarrow>
     distinct (map ti_out inps) \<and> ti_out ` set inps \<inter> set seen = {} \<and>
     list_all2 (\<lambda>inp out. get (ti_out inp) = Inr (Some out)) inps outs"
  by (induction inps arbitrary: seen outs) (auto simp: list_all2_Cons1)

lemma fetch_input_outputs_ok:
  "fetch_input_outputs get tx = Inr outs \<longleftrightarrow> distinct (map ti_out (tx_inputs tx)) \<and>
     list_all2 (\<lambda>inp out. get (ti_out inp) = Inr (Some out)) (tx_inputs tx) outs"
  by (simp add: fetch_input_outputs_def fetch_inputs_ok)

lemma time_locks_ok:
  "check_input_time_locks outs now_ms = Inr () \<longleftrightarrow>
     (\<forall>out\<in>set outs. \<forall>t. o_locked_until out = Some t \<longrightarrow> t \<le> now_ms)"
  by (auto simp: check_input_time_locks_def try_each_enumerate all_set_conv_all_nth not_less split: option.splits)

lemma full_ok:
  "validate_transaction_full D X get tx p now_ms rates = Inr outs \<longleftrightarrow>
     length (tx_inputs tx) = length (tx_unlocks tx) \<and>
     (\<exists>fee. amount_parse_non_neg_dec D (tx_fee tx) = Inr fee \<and> \<not> d_lt D (p_max_fee_per_tx p) fee) \<and>
     verify_tx_signatures X tx (p_network_id p) = Inr () \<and>
     validate_output_conditions X (tx_outputs tx) = Inr () \<and>
     fetch_input_outputs get tx = Inr outs \<and>
     check_spend_authorization X (tx_unlocks tx) outs = Inr () \<and>
     check_input_time_locks outs now_ms = Inr () \<and>
     check_asset_conservation_with_demurrage D tx outs rates now_ms = Inr ()"
  by (auto simp: validate_transaction_full_def)


definition sample_utxos :: utxo_lookup where
  "sample_utxos op = Inr (if op = \<lparr>op_txid = ''genesis'', op_index = 0\<rparr>
     then Some (txoutput_new sample_key ''4'' None) else None)"

definition sample_policy_net :: "rdec policy" where
  "sample_policy_net = (policy_default ref_dec)\<lparr>p_network_id := ''net''\<rparr>"

lemma sample_values':
  "nominal_val ref_dec ref_val (txoutput_new a ''4'' t) = 4" "nominal_val ref_dec ref_val (txoutput_new a ''1'' t) = 1"
  "pos_amount ref_dec ref_val (txoutput_new a ''4'' t)" "pos_amount ref_dec ref_val (txoutput_new a ''1'' t)"
proof -
  have "d_from_str ref_dec ''4'' = Some (4, 0)" "d_from_str ref_dec ''1'' = Some (1, 0)" by code_simp+
  then show "nominal_val ref_dec ref_val (txoutput_new a ''4'' t) = 4"
    "nominal_val ref_dec ref_val (txoutput_new a ''1'' t) = 1"
    "pos_amount ref_dec ref_val (txoutput_new a ''4'' t)" "pos_amount ref_dec ref_val (txoutput_new a ''1'' t)"
    by (simp_all add: nominal_val_def pos_amount_def txoutput_new_def ref_val_def)
qed

lemma sample_tx_outs: "tx_outputs sample_tx = [txoutput_new sample_key ''3'' None, txoutput_new ''fees'' ''1'' None]"
  by (simp add: sample_tx_def)

lemma sample_tx_accepted:
  "validate_transaction_full ref_dec ref_ext sample_utxos sample_tx sample_policy_net 7 (\<lambda>_. None)
     = Inr [txoutput_new sample_key ''4'' None]"
proof -
  let ?o = "txoutput_new sample_key ''4'' None"
  have "amount_parse_non_neg_dec ref_dec (tx_fee sample_tx) = Inr (0, 0) \<and>
      \<not> d_lt ref_dec (p_max_fee_per_tx sample_policy_net) (0, 0)"
    by (simp add: sample_tx_def sample_policy_net_def policy_default_def) code_simp
  moreover have "verify_tx_signatures ref_ext sample_tx (p_network_id sample_policy_net) = Inr ()"
    unfolding verify_tx_signatures_ok using sample_message sample_sig_valid
    by (simp add: sample_tx_fields sample_policy_net_def)
  moreover have "validate_output_conditions ref_ext (tx_outputs sample_tx) = Inr ()"
    by (simp add: validate_output_conditions_def sample_tx_outs validate_output_condition_def txoutput_new_def)
  moreover have "fetch_input_outputs sample_utxos sample_tx = Inr [?o]"
    by (simp add: fetch_input_outputs_ok sample_tx_fields sample_utxos_def)
  moreover have "check_spend_authorization ref_ext (tx_unlocks sample_tx) [?o] = Inr ()"
    by (simp add: check_spend_authorization_ok sample_tx_fields check_input_spend_condition_def
        txoutput_new_def sample_unlock_def unlock_new_def unlock_matches_address_def
        key_text [OF ref_hex_laws sample_key_decodes])
  moreover have "check_input_time_locks [?o] 7 = Inr ()"
    by (simp add: time_locks_ok txoutput_new_def)
  moreover have "check_asset_conservation_with_demurrage ref_dec sample_tx [?o] (\<lambda>_. None) 7 = Inr ()"
    by (subst conservation_exact [OF ref_dec_laws])
      (simp_all add: sample_tx_outs tame_amount_def tame_decay_def sample_values sample_values' at_scale_numeral
        conserves_def asset_total_def effective_val_def demurrage_value_def)
  ultimately show ?thesis by (simp add: full_ok sample_tx_fields)
qed


subsection \<open>Burns and bridge locks\<close>

lemma checked_sum_val:
  assumes L: "dec_laws D v" and "at_scale 8 (v a)" "at_scale 8 (v x)" "0 \<le> v a" "0 \<le> v x" "v a + v x \<le> 10 ^ 16"
    and ok: "checked_sum D a x = Inr s"
  shows "v s = v a + v x"
proof -
  have "dec_repr (v a + v x)"
    by (rule dec_repr_at_scale [OF at_scale_add [OF assms(2,3)]]) (use assms(4-6) in simp_all)
  from dec_laws_add [OF L this] ok show ?thesis by (auto simp: checked_sum_def)
qed

lemma guarded_sum_val:
  assumes L: "dec_laws D v" and "guarded_sum D guard acc outs = Inr s"
    and "\<forall>out\<in>set outs. tame_amount D v out" and "at_scale 8 (v acc)" "0 \<le> v acc"
    and "v acc + sum_list (map (nominal_val D v) (filter (pos_amount D v) outs)) \<le> 10 ^ 16"
  shows "v s = v acc + sum_list (map (nominal_val D v) outs) \<and> at_scale 8 (v s) \<and>
    (\<forall>out\<in>set outs. guard out = Inr () \<and> pos_amount D v out)"
  using assms(2-)
proof (induction outs arbitrary: acc)
  case Nil
  then show ?case by (simp add: guarded_sum_def)
next
  case (Cons out outs)
  obtain d acc' where g: "guard out = Inr ()" "amount_parse_pos_dec D (o_amount out) = Inr d"
    "checked_sum D acc d = Inr acc'" and rest: "guarded_sum D guard acc' outs = Inr s"
    using Cons.prems(1) by (auto simp: guarded_sum_def)
  have p: "pos_amount D v out" by (rule pos_amount_iff(2) [OF L g(2)])
  have d: "v d = nominal_val D v out" "0 < v d" using p pos_amount_iff(1) [OF L, of out] g(2) by auto
  have nn: "0 \<le> sum_list (map (nominal_val D v) (filter (pos_amount D v) outs))"
    by (rule sum_list_nonneg) (use pos_amount_iff(1) [OF L] in force)
  have s8: "at_scale 8 (v d)" using Cons.prems(2) d(1) by (simp add: tame_amount_def)
  have acc': "v acc' = v acc + v d"
    by (rule checked_sum_val [OF L Cons.prems(3) s8 _ _ _ g(3)]) (use Cons.prems d p nn in simp_all)
  have "v s = v acc' + sum_list (map (nominal_val D v) outs) \<and> at_scale 8 (v s) \<and>
      (\<forall>out\<in>set outs. guard out = Inr () \<and> pos_amount D v out)"
    by (rule Cons.IH [OF rest]) (use Cons.prems acc' d p s8 in \<open>auto intro: at_scale_add\<close>)
  with acc' d g(1) p show ?case by auto
qed

lemma burn_ok:
  "validate_token_burn_async D X get tx asset_id amount owner p now_ms = Inr outs \<Longrightarrow>
     verify_tx_signatures X tx (p_network_id p) = Inr () \<and> fetch_input_outputs get tx = Inr outs \<and>
     check_spend_authorization X (tx_unlocks tx) outs = Inr () \<and> check_input_time_locks outs now_ms = Inr () \<and>
     (\<exists>in_sum change_sum declared burned.
        guarded_sum D (burn_input_guard X asset_id owner) (d_zero D) outs = Inr in_sum \<and>
        guarded_sum D (burn_change_guard X asset_id owner) (d_zero D) (tx_outputs tx) = Inr change_sum \<and>
        amount_parse_pos_dec D amount = Inr declared \<and> d_checked_sub D in_sum change_sum = Some burned \<and>
        d_eq D burned declared)"
  by (auto simp: validate_token_burn_async_def split: if_splits)

lemma filter_pos_le:
  assumes L: "dec_laws D v" and "\<forall>out\<in>set outs. 0 \<le> nominal_val D v out"
  shows "sum_list (map (nominal_val D v) (filter (pos_amount D v) outs)) \<le> sum_list (map (nominal_val D v) outs)"
  using assms(2) by (induction outs) (auto simp: add_increasing)

text \<open>
  An accepted token burn destroys exactly what it declares: the inputs, all of one asset and all
  credited to the burner, are worth the change, of the same asset and credited to the burner, plus
  the positive amount declared; every input is released by its owner and past its time lock.
\<close>

lemma accepted_burn_exact:
  assumes L: "dec_laws D v"
    and ok: "validate_token_burn_async D X get tx asset_id amount owner p now_ms = Inr outs"
    and tame: "\<forall>out\<in>set outs \<union> set (tx_outputs tx). tame_amount D v out \<and> 0 \<le> nominal_val D v out"
    and total: "sum_list (map (nominal_val D v) outs) \<le> 10 ^ 16"
      "sum_list (map (nominal_val D v) (tx_outputs tx)) \<le> 10 ^ 16"
  shows "\<exists>declared. amount_parse_pos_dec D amount = Inr declared \<and> 0 < v declared \<and>
    sum_list (map (nominal_val D v) outs) = sum_list (map (nominal_val D v) (tx_outputs tx)) + v declared \<and>
    (\<forall>out\<in>set outs \<union> set (tx_outputs tx). o_asset_id out = asset_id \<and>
       address_identity X (o_address out) = address_identity X owner) \<and>
    distinct (map ti_out (tx_inputs tx)) \<and>
    (\<exists>msg. \<forall>i<length outs. spend_allowed X msg (outs ! i) (tx_unlocks tx ! i)) \<and>
    (\<forall>out\<in>set outs. \<forall>t. o_locked_until out = Some t \<longrightarrow> t \<le> now_ms)"
proof -
  note c = burn_ok [OF ok]
  obtain in_sum change_sum declared burned where
    i: "guarded_sum D (burn_input_guard X asset_id owner) (d_zero D) outs = Inr in_sum"
    and ch: "guarded_sum D (burn_change_guard X asset_id owner) (d_zero D) (tx_outputs tx) = Inr change_sum"
    and am: "amount_parse_pos_dec D amount = Inr declared" "d_checked_sub D in_sum change_sum = Some burned"
      "d_eq D burned declared"
    using c by blast
  have z: "v (d_zero D) = 0" by (rule dec_laws_zero [OF L])
  have vi: "v in_sum = sum_list (map (nominal_val D v) outs) \<and> at_scale 8 (v in_sum) \<and>
      (\<forall>out\<in>set outs. burn_input_guard X asset_id owner out = Inr () \<and> pos_amount D v out)"
    using guarded_sum_val [OF L i] tame filter_pos_le [OF L, of outs] total(1) z by auto
  have vc: "v change_sum = sum_list (map (nominal_val D v) (tx_outputs tx)) \<and> at_scale 8 (v change_sum) \<and>
      (\<forall>out\<in>set (tx_outputs tx). burn_change_guard X asset_id owner out = Inr () \<and> pos_amount D v out)"
    using guarded_sum_val [OF L ch] tame filter_pos_le [OF L, of "tx_outputs tx"] total(2) z by auto
  have nn: "0 \<le> v in_sum" "0 \<le> v change_sum"
    using vi vc tame by (auto intro!: sum_list_nonneg)
  have "\<bar>v in_sum - v change_sum\<bar> < 2 ^ 96 / 10 ^ 8"
  proof -
    have "v in_sum \<le> 10 ^ 16" "v change_sum \<le> 10 ^ 16" using vi vc total by simp_all
    with nn have "\<bar>v in_sum - v change_sum\<bar> \<le> 10 ^ 16" unfolding abs_le_iff by linarith
    then show ?thesis by (rule order_le_less_trans) simp
  qed
  moreover have "at_scale 8 (v in_sum - v change_sum)" using vi vc at_scale_diff by blast
  ultimately have "dec_repr (v in_sum - v change_sum)" by (rule dec_repr_at_scale [rotated 2]) simp
  from dec_laws_sub [OF L this] am(2,3) have "v in_sum - v change_sum = v declared"
    by (auto simp: dec_laws_eq [OF L])
  moreover have "0 < v declared"
    using am(1) by (auto simp: amount_parse_pos_dec_def dec_order [OF L] not_le split: if_splits)
  moreover have "o_asset_id out = asset_id \<and> address_identity X (o_address out) = address_identity X owner"
    if "out \<in> set outs \<union> set (tx_outputs tx)" for out
    using that vi vc by (auto simp: burn_input_guard_def burn_change_guard_def split: if_splits)
  moreover obtain msg where "\<forall>i<length outs. spend_allowed X msg (outs ! i) (tx_unlocks tx ! i)"
    using spend_allowed_all c by blast
  ultimately show ?thesis
    using vi vc am(1) c by (auto simp: fetch_input_outputs_ok time_locks_ok)
qed

definition sample_burn :: transaction where
  "sample_burn = sample_tx\<lparr>tx_outputs := [txoutput_new sample_key ''3'' None]\<rparr>"

lemma ref_sums:
  "amount_parse_pos_dec ref_dec ''1'' = Inr (1, 0)" "amount_parse_pos_dec ref_dec ''3'' = Inr (3, 0)"
  "amount_parse_pos_dec ref_dec ''4'' = Inr (4, 0)" "amount_parse_non_neg_dec ref_dec ''0'' = Inr (0, 0)"
  "checked_sum ref_dec (d_zero ref_dec) (4, 0) = Inr (4, 0)" "checked_sum ref_dec (d_zero ref_dec) (3, 0) = Inr (3, 0)"
  "d_checked_sub ref_dec (4, 0) (3, 0) = Some (1, 0)" "d_eq ref_dec (1, 0) (1, 0)"
  "d_eq ref_dec (0, 0) (d_zero ref_dec)" "d_lt ref_dec (3, 0) (1, 0) = False"
  by code_simp+

lemma sample_burn_fields:
  "tx_inputs sample_burn = tx_inputs sample_tx" "tx_unlocks sample_burn = tx_unlocks sample_tx"
  "tx_outputs sample_burn = [txoutput_new sample_key ''3'' None]" "tx_fee sample_burn = ''0''"
  by (simp_all add: sample_burn_def sample_tx_def)

lemma sample_burn_accepted:
  "validate_token_burn_async ref_dec ref_ext sample_utxos sample_burn None ''1'' sample_key sample_policy_net 7
     = Inr [txoutput_new sample_key ''4'' None]"
proof -
  let ?o = "txoutput_new sample_key ''4'' None"
  have "signing_message ref_ext sample_burn ''net'' = signing_message ref_ext sample_tx ''net''"
    by (simp add: signing_message_def ref_ext_def sample_burn_def)
  then have "verify_tx_signatures ref_ext sample_burn (p_network_id sample_policy_net) = Inr ()"
    unfolding verify_tx_signatures_ok using sample_message sample_sig_valid
    by (simp add: sample_burn_fields sample_tx_fields sample_policy_net_def)
  moreover have "validate_output_conditions ref_ext (tx_outputs sample_burn) = Inr ()"
    by (simp add: validate_output_conditions_def sample_burn_fields validate_output_condition_def txoutput_new_def)
  moreover have "fetch_input_outputs sample_utxos sample_burn = Inr [?o]"
    by (simp add: fetch_input_outputs_ok sample_burn_fields sample_tx_fields sample_utxos_def)
  moreover have "check_spend_authorization ref_ext (tx_unlocks sample_burn) [?o] = Inr ()"
    by (simp add: check_spend_authorization_ok sample_burn_fields sample_tx_fields check_input_spend_condition_def
        txoutput_new_def sample_unlock_def unlock_new_def unlock_matches_address_def
        key_text [OF ref_hex_laws sample_key_decodes])
  moreover have "check_input_time_locks [?o] 7 = Inr ()"
    by (simp add: time_locks_ok txoutput_new_def)
  moreover have "guarded_sum ref_dec (burn_input_guard ref_ext None sample_key) (d_zero ref_dec) [?o] = Inr (4, 0)"
    "guarded_sum ref_dec (burn_change_guard ref_ext None sample_key) (d_zero ref_dec) (tx_outputs sample_burn) = Inr (3, 0)"
    by (simp_all add: guarded_sum_def burn_input_guard_def burn_change_guard_def sample_burn_fields
        txoutput_new_def ref_sums)
  ultimately show ?thesis
    by (simp add: validate_token_burn_async_def sample_burn_fields sample_tx_fields ref_sums)
qed

lemma fetch_inputs_map:
  "fetch_inputs (\<lambda>op. map_sum id (map_option f) (get op)) seen inps = map_sum id (map f) (fetch_inputs get seen inps)"
proof (induction inps arbitrary: seen)
  case (Cons inp inps)
  then show ?case
    by (cases "get (ti_out inp)"; cases "fetch_inputs get (ti_out inp # seen) inps")
      (auto simp: panics_def ok_or_def split: option.splits panic.splits)
qed simp

lemma try_each_enumerate_map:
  "try_each (\<lambda>(i, x). g i x) (List.enumerate n (map f xs)) = try_each (\<lambda>(i, x). g i (f x)) (List.enumerate n xs)"
  by (induction xs arbitrary: n) simp_all

lemma guarded_sum_map:
  assumes "\<And>out. guard (f out) = guard out" and "\<And>out. o_amount (f out) = o_amount out"
  shows "guarded_sum D guard acc (map f outs) = guarded_sum D guard acc outs"
  using assms by (induction outs arbitrary: acc) (simp_all add: guarded_sum_def)

text \<open>
  A token burn ignores demurrage: the creation times of the stored outputs play no part in
  its validation, so the change of a burn is counted against the nominal value of inputs whose
  effective value a transfer would have reduced, and comes out with a fresh creation time.
\<close>

lemma burn_ignores_demurrage:
  "validate_token_burn_async D X (\<lambda>op. map_sum id (map_option (o_created_at_update (\<lambda>_. c))) (get op))
       tx asset_id amount owner p now_ms
     = map_sum id (map (o_created_at_update (\<lambda>_. c)))
         (validate_token_burn_async D X get tx asset_id amount owner p now_ms)"
proof -
  let ?f = "o_created_at_update (\<lambda>_. c) :: tx_output \<Rightarrow> tx_output"
  have auth: "check_spend_authorization X us (map ?f outs) = check_spend_authorization X us outs" for us outs
  proof -
    have "check_input_spend_condition X i (?f out) u = check_input_spend_condition X i out u" for i out u
      by (simp add: check_input_spend_condition_def)
    then show ?thesis by (simp add: check_spend_authorization_def try_each_enumerate_map cong: if_cong)
  qed
  have lock: "check_input_time_locks (map ?f outs) now_ms = check_input_time_locks outs now_ms" for outs
    by (simp add: check_input_time_locks_def try_each_enumerate_map cong: prod.case_cong)
  have gs: "guarded_sum D (burn_input_guard X asset_id owner) acc (map ?f outs)
      = guarded_sum D (burn_input_guard X asset_id owner) acc outs" for acc outs
    by (rule guarded_sum_map) (simp_all add: burn_input_guard_def)
  have map_rbind: "map_sum id h (rbind m k) = rbind m (\<lambda>x. map_sum id h (k x))" for h m and k :: "_ \<Rightarrow> tx_output list vresult"
    by (cases m) simp_all
  have rbind_map: "rbind (map_sum id h m) k = rbind m (\<lambda>x. k (h x))" for h m and k :: "_ \<Rightarrow> tx_output list vresult"
    by (cases m) simp_all
  show ?thesis
    by (simp add: validate_token_burn_async_def fetch_input_outputs_def fetch_inputs_map map_rbind rbind_map
        auth lock gs if_distrib [of "map_sum id (map ?f)"] cong: if_cong)
qed

lemma bridge_duplicates_ok:
  "bridge_duplicates seen inps = Inr () \<longleftrightarrow> distinct (map ti_out inps) \<and> ti_out ` set inps \<inter> set seen = {}"
  by (induction seen inps rule: bridge_duplicates.induct) auto

lemma bridge_input_ok:
  "bridge_input D get asset_id acc inp = Inr acc' \<longleftrightarrow>
     (\<exists>out d. get (ti_out inp) = Inr (Some out) \<and> o_asset_id out = asset_id \<and>
        amount_parse_pos_dec D (o_amount out) = Inr d \<and> checked_sum D acc d = Inr acc')"
  by (auto simp: bridge_input_def split: option.splits if_splits)

lemma bridge_fold:
  assumes L: "dec_laws D v" and tame: "\<And>op out. get op = Inr (Some out) \<Longrightarrow> tame_amount D v out"
    and "try_fold (bridge_input D get asset_id) acc inputs = Inr s"
    and "at_scale 8 (v acc)" "0 \<le> v acc" "v acc + of_nat (length inputs) * 10 ^ 12 \<le> 10 ^ 16"
  shows "\<exists>outs. list_all2 (\<lambda>inp out. get (ti_out inp) = Inr (Some out)) inputs outs \<and>
    (\<forall>out\<in>set outs. o_asset_id out = asset_id) \<and> v s = v acc + sum_list (map (nominal_val D v) outs)"
  using assms(3-)
proof (induction inputs arbitrary: acc)
  case Nil
  then show ?case by auto
next
  case (Cons inp inputs)
  obtain out d acc' where g: "get (ti_out inp) = Inr (Some out)" "o_asset_id out = asset_id"
    "amount_parse_pos_dec D (o_amount out) = Inr d" "checked_sum D acc d = Inr acc'"
    "try_fold (bridge_input D get asset_id) acc' inputs = Inr s"
    using Cons.prems(1) by (auto simp: bridge_input_ok)
  have d: "v d = nominal_val D v out" "0 < v d"
    using pos_amount_iff [OF L, of out] g(3) by auto
  have t: "at_scale 8 (v d)" "v d \<le> 10 ^ 12" using tame [OF g(1)] d(1) by (auto simp: tame_amount_def)
  have "0 \<le> of_nat (length inputs) * (10::rat) ^ 12" by simp
  moreover have "v acc + v d + of_nat (length inputs) * 10 ^ 12 \<le> 10 ^ 16"
    using Cons.prems(4) t(2) by (simp add: algebra_simps)
  ultimately have b: "v acc + v d \<le> 10 ^ 16" "v acc + v d + of_nat (length inputs) * 10 ^ 12 \<le> 10 ^ 16"
    by linarith+
  have acc': "v acc' = v acc + v d"
    by (rule checked_sum_val [OF L Cons.prems(2) t(1) Cons.prems(3) _ b(1) g(4)]) (use d in simp)
  obtain outs where "list_all2 (\<lambda>inp out. get (ti_out inp) = Inr (Some out)) inputs outs"
    "\<forall>out\<in>set outs. o_asset_id out = asset_id" "v s = v acc' + sum_list (map (nominal_val D v) outs)"
    using Cons.IH [OF g(5)] Cons.prems(2,3) acc' d t b(2) by (auto intro: at_scale_add)
  then show ?case using g(1,2) acc' d(1) by (intro exI [of _ "out # outs"]) simp
qed

text \<open>
  An accepted bridge lock names distinct outpoints that are all in the store under the asset it
  locks, and their total covers the amount to be minted on the other ledger.
\<close>

lemma accepted_bridge_lock_covers:
  assumes L: "dec_laws D v" and ok: "validate_bridge_lock_async D get inputs amount asset_id = Inr ()"
    and tame: "\<forall>op out. get op = Inr (Some out) \<longrightarrow> tame_amount D v out"
    and few: "length inputs \<le> 10000"
  shows "distinct (map ti_out inputs) \<and> (\<exists>outs required.
    list_all2 (\<lambda>inp out. get (ti_out inp) = Inr (Some out)) inputs outs \<and> (\<forall>out\<in>set outs. o_asset_id out = asset_id) \<and>
    amount_parse_pos_dec D amount = Inr required \<and> 0 < v required \<and>
    v required \<le> sum_list (map (nominal_val D v) outs))"
proof -
  obtain in_sum required where s: "bridge_duplicates [] inputs = Inr ()"
    "try_fold (bridge_input D get asset_id) (d_zero D) inputs = Inr in_sum"
    "amount_parse_pos_dec D amount = Inr required" "\<not> d_lt D in_sum required"
    using ok by (auto simp: validate_bridge_lock_async_def split: if_splits)
  obtain outs where outs: "list_all2 (\<lambda>inp out. get (ti_out inp) = Inr (Some out)) inputs outs"
    "\<forall>out\<in>set outs. o_asset_id out = asset_id" "v in_sum = sum_list (map (nominal_val D v) outs)"
    using bridge_fold [OF L _ s(2)] tame few by (auto simp: dec_laws_zero [OF L])
  moreover have "0 < v required"
    using s(3) by (auto simp: amount_parse_pos_dec_def dec_order [OF L] not_le split: if_splits)
  ultimately show ?thesis using s by (auto simp: bridge_duplicates_ok dec_order [OF L] not_less)
qed

end
