(* ===== verification/DagSearch.thy ===== *)
theory DagSearch
  imports Prelude
begin

section \<open>Breadth-first search over the child index\<close>

text \<open>
  Both DAG structures (\<open>Dag\<close> and \<open>ConcurrentDag\<close>) count descendants with the same queue: children of
  the start are seen and queued, then each queued block contributes the children not seen before,
  until the queue is empty or enough blocks are seen. The child index is an association list from a
  block to its children (a hash map of vectors). \<open>bfs\<close> is the loop, with its termination: a round
  either sees a new child of the index or shortens the queue.
\<close>

subsection \<open>Finality marks\<close>

record finality_state =
  fs_finalized :: "string set"
  fs_last_milestone :: "string option"
  fs_depth_k :: nat

definition finality_new :: "nat \<Rightarrow> finality_state" where
  "finality_new depth_k = \<lparr>fs_finalized = {}, fs_last_milestone = None, fs_depth_k = depth_k\<rparr>"

definition mark_final :: "string \<Rightarrow> finality_state \<Rightarrow> finality_state" where
  "mark_final x f = f\<lparr>fs_finalized := insert x (fs_finalized f)\<rparr>"

definition set_milestone :: "string \<Rightarrow> finality_state \<Rightarrow> finality_state" where
  "set_milestone x f = mark_final x (f\<lparr>fs_last_milestone := Some x\<rparr>)"

subsection \<open>Descendants\<close>

type_synonym child_index = "(string \<times> string list) list"

definition children_of :: "child_index \<Rightarrow> string \<Rightarrow> string list" where
  "children_of idx x = (case map_of idx x of None \<Rightarrow> [] | Some cs \<Rightarrow> cs)"

definition visit :: "string list \<Rightarrow> string list \<times> string list \<Rightarrow> string list \<times> string list" where
  "visit cs sq = fold (\<lambda>c (seen, queue).
     if c \<in> set seen then (seen, queue) else (seen @ [c], queue @ [c])) cs sq"

lemma visit_simps [simp]:
  "visit [] sq = sq"
  "visit (c # cs) (seen, queue) =
     (if c \<in> set seen then visit cs (seen, queue) else visit cs (seen @ [c], queue @ [c]))"
  by (simp_all add: visit_def)

lemma visit_extends:
  "\<exists>new. visit cs (seen, queue) = (seen @ new, queue @ new) \<and> set new = set cs - set seen \<and> distinct new"
proof (induction cs arbitrary: seen queue)
  case (Cons c cs)
  show ?case
  proof (cases "c \<in> set seen")
    case True
    with Cons.IH [of seen queue] show ?thesis by auto
  next
    case False
    obtain new where new: "visit cs (seen @ [c], queue @ [c]) = ((seen @ [c]) @ new, (queue @ [c]) @ new)"
      "set new = set cs - set (seen @ [c])" "distinct new"
      using Cons.IH [of "seen @ [c]" "queue @ [c]"] by blast
    have "visit (c # cs) (seen, queue) = (seen @ c # new, queue @ c # new)"
      using False new(1) by simp
    with False new(2,3) show ?thesis by (intro exI [of _ "c # new"]) auto
  qed
qed simp

definition indexed :: "child_index \<Rightarrow> string set" where
  "indexed idx = (\<Union>(k, cs)\<in>set idx. set cs)"

lemma finite_indexed [simp]: "finite (indexed idx)"
  by (auto simp: indexed_def)

lemma children_indexed: "set (children_of idx x) \<subseteq> indexed idx"
proof (cases "map_of idx x")
  case (Some cs)
  then have "(x, cs) \<in> set idx" by (rule map_of_SomeD)
  with Some show ?thesis by (auto simp: children_of_def indexed_def)
qed (simp add: children_of_def)

function bfs :: "child_index \<Rightarrow> nat \<Rightarrow> string list \<Rightarrow> string list \<Rightarrow> string list" where
  "bfs idx k seen [] = seen"
| "bfs idx k seen (x # queue) =
     (if k \<le> length seen then seen
      else bfs idx k (fst (visit (children_of idx x) (seen, queue))) (snd (visit (children_of idx x) (seen, queue))))"
  by pat_completeness auto

termination
proof (relation "measures [\<lambda>(idx, k, seen, queue). card (indexed idx - set seen), \<lambda>(idx, k, seen, queue). length queue]")
  fix idx k seen x queue
  obtain new where new: "visit (children_of idx x) (seen, queue) = (seen @ new, queue @ new)"
    "set new = set (children_of idx x) - set seen"
    using visit_extends by blast
  have sub: "set new \<subseteq> indexed idx" using new(2) children_indexed by auto
  show "((idx, k, fst (visit (children_of idx x) (seen, queue)), snd (visit (children_of idx x) (seen, queue))),
         (idx, k, seen, x # queue))
    \<in> measures [\<lambda>(idx, k, seen, queue). card (indexed idx - set seen), \<lambda>(idx, k, seen, queue). length queue]"
  proof (cases "new = []")
    case True
    then show ?thesis using new(1) by simp
  next
    case False
    then obtain c where "c \<in> set new" by (cases new) auto
    then have "indexed idx - set (seen @ new) \<subset> indexed idx - set seen" using sub new(2) by auto
    then have "card (indexed idx - set (seen @ new)) < card (indexed idx - set seen)"
      by (intro psubset_card_mono) auto
    then show ?thesis using new(1) by simp
  qed
qed simp

text \<open>The edges of the index, and the descendants of a block.\<close>

definition child_edges :: "child_index \<Rightarrow> (string \<times> string) set" where
  "child_edges idx = {(x, y). y \<in> set (children_of idx x)}"

definition descendants :: "child_index \<Rightarrow> string \<Rightarrow> string set" where
  "descendants idx b = {x. (b, x) \<in> (child_edges idx)\<^sup>+}"

lemma descendants_indexed: "descendants idx b \<subseteq> indexed idx"
proof
  fix x assume "x \<in> descendants idx b"
  then have "(b, x) \<in> (child_edges idx)\<^sup>+" by (simp add: descendants_def)
  then show "x \<in> indexed idx"
    by (cases rule: trancl.cases) (use children_indexed in \<open>auto simp: child_edges_def\<close>)
qed

lemma finite_descendants [simp]: "finite (descendants idx b)"
  by (rule finite_subset [OF descendants_indexed]) simp

lemma descendants_closed:
  assumes "x = b \<or> x \<in> descendants idx b" and "y \<in> set (children_of idx x)"
  shows "y \<in> descendants idx b"
  using assms by (auto simp: descendants_def child_edges_def intro: trancl.intros)

lemma closed_descendants:
  assumes "set (children_of idx b) \<subseteq> S" and "\<And>x. x \<in> S \<Longrightarrow> set (children_of idx x) \<subseteq> S"
  shows "descendants idx b \<subseteq> S"
proof
  fix x assume "x \<in> descendants idx b"
  then have "(b, x) \<in> (child_edges idx)\<^sup>+" by (simp add: descendants_def)
  then show "x \<in> S"
    by (induction rule: trancl_induct) (use assms in \<open>auto simp: child_edges_def\<close>)
qed

definition search_inv :: "child_index \<Rightarrow> string \<Rightarrow> string list \<Rightarrow> string list \<Rightarrow> bool" where
  "search_inv idx b seen queue \<longleftrightarrow> distinct seen \<and> set queue \<subseteq> set seen \<and> set seen \<subseteq> descendants idx b \<and>
     set (children_of idx b) \<subseteq> set seen \<and> (\<forall>y\<in>set seen - set queue. set (children_of idx y) \<subseteq> set seen)"

lemma search_inv_step:
  assumes "search_inv idx b seen (x # queue)"
  shows "search_inv idx b (fst (visit (children_of idx x) (seen, queue))) (snd (visit (children_of idx x) (seen, queue)))"
proof -
  obtain new where new: "visit (children_of idx x) (seen, queue) = (seen @ new, queue @ new)"
    "set new = set (children_of idx x) - set seen" "distinct new"
    using visit_extends by blast
  have "set new \<subseteq> descendants idx b"
    using assms new(2) descendants_closed [of x b idx] by (auto simp: search_inv_def)
  with assms new show ?thesis by (auto simp: search_inv_def)
qed

lemma bfs_result:
  assumes "search_inv idx b seen queue"
  shows "distinct (bfs idx k seen queue) \<and> set (bfs idx k seen queue) \<subseteq> descendants idx b \<and>
    (k \<le> length (bfs idx k seen queue) \<or> set (bfs idx k seen queue) = descendants idx b)"
  using assms
proof (induction idx k seen queue rule: bfs.induct)
  case (1 idx k seen)
  then have "descendants idx b \<subseteq> set seen"
    by (intro closed_descendants) (auto simp: search_inv_def)
  with 1 show ?case by (auto simp: search_inv_def)
next
  case (2 idx k seen x queue)
  show ?case
  proof (cases "k \<le> length seen")
    case True
    with 2(2) show ?thesis by (simp add: search_inv_def)
  next
    case False
    then show ?thesis using 2(1) [OF False search_inv_step [OF 2(2)]] by simp
  qed
qed

text \<open>The search the two structures run, from the children of a block.\<close>

definition descend :: "child_index \<Rightarrow> string \<Rightarrow> nat \<Rightarrow> string list" where
  "descend idx b k = (let (seen, queue) = visit (children_of idx b) ([], []) in bfs idx k seen queue)"

lemma search_inv_seed:
  "search_inv idx b (fst (visit (children_of idx b) ([], []))) (snd (visit (children_of idx b) ([], [])))"
proof -
  obtain new where "visit (children_of idx b) ([], []) = (new, new)"
    "set new = set (children_of idx b)" "distinct new"
    using visit_extends [of "children_of idx b" "[]" "[]"] by auto
  then show ?thesis using descendants_closed [of b b idx] by (auto simp: search_inv_def)
qed

lemma descend_result:
  "distinct (descend idx b k)" "set (descend idx b k) \<subseteq> descendants idx b"
  "set (descend idx b k) = descendants idx b \<or> k \<le> length (descend idx b k)"
  using bfs_result [OF search_inv_seed [of idx b], of k] by (auto simp: descend_def case_prod_beta)

lemma descend_length: "length (descend idx b k) \<le> card (descendants idx b)"
  using descend_result(1,2) [where idx = idx and b = b and k = k] by (metis card_mono distinct_card finite_descendants)

lemma descend_exact:
  assumes "length (descend idx b k) < k"
  shows "length (descend idx b k) = card (descendants idx b)"
  using descend_result [where idx = idx and b = b and k = k] assms by (metis distinct_card not_le)

lemma descend_enough: "k \<le> length (descend idx b k) \<longleftrightarrow> k \<le> card (descendants idx b)"
  using descend_length [where idx = idx and b = b and k = k] descend_exact [where idx = idx and b = b and k = k] by (metis le_trans not_le)

end
