(* ===== verification/ConcDag.thy ===== *)
theory ConcDag
  imports DagSearch PayloadTypes "HOL-Library.Multiset"
begin

section \<open>The concurrent DAG: insertion, tips, pruning, spent outpoints and replay claims\<close>

text \<open>
  \<open>ConcurrentDag\<close> (pms-core concurrent_dag/) is the structure of the production path. Each method is
  one step here (its fields are concurrent maps whose operations are atomic; the orders of steps are
  the interleavings). The block map is an association list (its length is read), the tips a list
  without duplicates (their number is read, their order is arbitrary), the spent outpoints and the
  replay claims are sets. Random choice of parents takes the sampling function as an argument.
\<close>

record conc_dag =
  cd_blocks :: "(string \<times> block) list"
  cd_children_count :: "string \<Rightarrow> u64 option"
  cd_children_idx :: child_index
  cd_spent :: "output_id set"
  cd_finality :: finality_state
  cd_insertion_order :: "string list"
  cd_max_blocks :: nat
  cd_insert_counter :: u64
  cd_spent_order :: "output_id list"
  cd_max_spent :: nat
  cd_tips :: "string list"
  cd_bridge_locks :: "string set"
  cd_custodial_mints :: "string set"
  cd_collections :: "string \<Rightarrow> string option"

definition max_tips_cap :: nat where
  "max_tips_cap = 64"

definition prune_check_interval :: u64 where
  "prune_check_interval = 1000"

definition conc_dag_new :: "nat \<Rightarrow> nat \<Rightarrow> conc_dag" where
  "conc_dag_new max_blocks max_spent =
     \<lparr>cd_blocks = [], cd_children_count = Map.empty, cd_children_idx = [], cd_spent = {},
      cd_finality = finality_new 0, cd_insertion_order = [], cd_max_blocks = max_blocks,
      cd_insert_counter = 0, cd_spent_order = [], cd_max_spent = max_spent, cd_tips = [],
      cd_bridge_locks = {}, cd_custodial_mints = {}, cd_collections = Map.empty\<rparr>"

definition conc_dag_genesis :: "block \<Rightarrow> conc_dag" where
  "conc_dag_genesis g = (conc_dag_new 0 0)
     \<lparr>cd_children_count := [b_id g \<mapsto> 0], cd_tips := [b_id g], cd_blocks := [(b_id g, g)],
      cd_insertion_order := [b_id g]\<rparr>"

definition contains_block :: "conc_dag \<Rightarrow> string \<Rightarrow> bool" where
  "contains_block d x \<longleftrightarrow> map_of (cd_blocks d) x \<noteq> None"

definition get_children :: "conc_dag \<Rightarrow> string \<Rightarrow> string list" where
  "get_children d x = children_of (cd_children_idx d) x"

definition get_children_count :: "conc_dag \<Rightarrow> string \<Rightarrow> u64" where
  "get_children_count d x = (case cd_children_count d x of None \<Rightarrow> 0 | Some n \<Rightarrow> n)"

definition conc_find_tips :: "conc_dag \<Rightarrow> string list" where
  "conc_find_tips d = take max_tips_cap (cd_tips d)"

definition count_descendants :: "conc_dag \<Rightarrow> string \<Rightarrow> nat \<Rightarrow> nat" where
  "count_descendants d x max_count = length (descend (cd_children_idx d) x max_count)"

definition conc_select_parents ::
  "(string list \<Rightarrow> nat \<Rightarrow> string list) \<Rightarrow> conc_dag \<Rightarrow> nat \<Rightarrow> nat \<Rightarrow> string list" where
  "conc_select_parents choose_multiple d min_parents max_parents =
     (let genesis = List.find (\<lambda>(k, b). b_parents b = []) (cd_blocks d);
          tips = conc_find_tips d
      in if length (cd_blocks d) = 1 \<and> genesis \<noteq> None then [fst (the genesis)]
         else if tips = [] then (case cd_blocks d of [] \<Rightarrow> [] | (k, _) # _ \<Rightarrow> [k])
         else choose_multiple tips (min (min (max min_parents 1) (length tips)) max_parents))"

subsection \<open>Insertion\<close>

definition link_parent :: "string \<Rightarrow> string \<Rightarrow> conc_dag \<Rightarrow> conc_dag" where
  "link_parent child parent d =
     d\<lparr>cd_children_count := (cd_children_count d)(parent \<mapsto> get_children_count d parent + 1),
       cd_children_idx := upsert parent [] (\<lambda>cs. cs @ [child]) (cd_children_idx d),
       cd_tips := removeAll parent (cd_tips d)\<rparr>"

definition place_block :: "block \<Rightarrow> conc_dag \<Rightarrow> conc_dag" where
  "place_block b d =
     (let d' = fold (link_parent (b_id b)) (b_parents b) d
      in d'\<lparr>cd_children_count := (cd_children_count d')(b_id b \<mapsto> get_children_count d' (b_id b)),
            cd_tips := (if b_id b \<in> set (cd_tips d') then cd_tips d' else cd_tips d' @ [b_id b]),
            cd_blocks := AList.update (b_id b) b (cd_blocks d')\<rparr>)"

definition bootstrap_insert :: "block \<Rightarrow> conc_dag \<Rightarrow> conc_dag" where
  "bootstrap_insert b d = (if contains_block d (b_id b) then d else place_block b d)"

subsection \<open>Pruning\<close>

text \<open>
  \<open>prune_loop\<close> is the loop over the insertion order: at most as many rounds as the deque is long, an
  identifier no longer in the map is dropped, a tip goes to the back unless the budget allows its
  removal.
\<close>

fun prune_loop ::
  "(string \<Rightarrow> bool) \<Rightarrow> (string \<Rightarrow> bool) \<Rightarrow> nat \<Rightarrow> nat \<Rightarrow> nat \<Rightarrow> string list \<Rightarrow> string list
   \<Rightarrow> string list \<times> string list" where
  "prune_loop present tip to_remove 0 budget order ids = (order, ids)"
| "prune_loop present tip to_remove (Suc rounds) budget [] ids = ([], ids)"
| "prune_loop present tip to_remove (Suc rounds) budget (old # order) ids =
     (if to_remove \<le> length ids then (old # order, ids)
      else if \<not> present old then prune_loop present tip to_remove rounds budget order ids
      else if tip old then
        (if budget = 0 then prune_loop present tip to_remove rounds budget (order @ [old]) ids
         else prune_loop present tip to_remove rounds (budget - 1) order (ids @ [old]))
      else prune_loop present tip to_remove rounds budget order (ids @ [old]))"

definition tip_removal_budget :: "conc_dag \<Rightarrow> nat" where
  "tip_removal_budget d =
     (let to_remove = length (cd_blocks d) - cd_max_blocks d;
          live_tips = length (cd_tips d)
      in min (to_remove - (length (cd_blocks d) - live_tips)) (live_tips - 1))"

definition remove_blocks :: "string list \<Rightarrow> conc_dag \<Rightarrow> conc_dag" where
  "remove_blocks ids d =
     d\<lparr>cd_blocks := filter (\<lambda>(k, _). k \<notin> set ids) (cd_blocks d),
       cd_children_count := (cd_children_count d) |` (- set ids),
       cd_children_idx := filter (\<lambda>(k, _). k \<notin> set ids) (cd_children_idx d),
       cd_tips := filter (\<lambda>k. k \<notin> set ids) (cd_tips d),
       cd_finality := (cd_finality d)\<lparr>fs_finalized := fs_finalized (cd_finality d) - set ids\<rparr>\<rparr>"

definition prune_oldest :: "conc_dag \<Rightarrow> conc_dag" where
  "prune_oldest d =
     (if cd_max_blocks d = 0 \<or> length (cd_blocks d) \<le> cd_max_blocks d then d
      else
        let (order, ids) = prune_loop (contains_block d) (\<lambda>x. x \<in> set (cd_tips d))
              (length (cd_blocks d) - cd_max_blocks d) (length (cd_insertion_order d))
              (tip_removal_budget d) (cd_insertion_order d) []
        in remove_blocks ids (d\<lparr>cd_insertion_order := order\<rparr>))"

definition insert_block :: "block \<Rightarrow> conc_dag \<Rightarrow> bool \<times> conc_dag" where
  "insert_block b d =
     (if contains_block d (b_id b) then (False, d)
      else
        let d' = place_block b d;
            count = cd_insert_counter d';
            d'' = d'\<lparr>cd_insertion_order := cd_insertion_order d' @ [b_id b], cd_insert_counter := count + 1\<rparr>
        in (True, if 0 < cd_max_blocks d'' \<and> count mod prune_check_interval = 0 then prune_oldest d'' else d''))"

definition cleanup_ghost_entries :: "conc_dag \<Rightarrow> conc_dag" where
  "cleanup_ghost_entries d =
     (let ghost = (\<lambda>x. cd_children_count d x \<noteq> None \<and> \<not> contains_block d x)
      in d\<lparr>cd_children_count := (\<lambda>x. if ghost x then None else cd_children_count d x),
           cd_children_idx := filter (\<lambda>(k, _). \<not> ghost k) (cd_children_idx d),
           cd_tips := filter (\<lambda>x. \<not> ghost x) (cd_tips d)\<rparr>)"

text \<open>The loop of \<open>bootstrap_from_store_with_capacity\<close> over the blocks the store returned, in its order.\<close>

definition bootstrap_blocks :: "nat \<Rightarrow> nat \<Rightarrow> block list \<Rightarrow> conc_dag" where
  "bootstrap_blocks max_blocks max_spent bs =
     (let d = cleanup_ghost_entries (fold bootstrap_insert bs (conc_dag_new max_blocks max_spent))
      in prune_oldest (d\<lparr>cd_insertion_order := filter (contains_block d) (map b_id bs)\<rparr>))"

subsection \<open>The frontier invariant\<close>

text \<open>
  \<open>frontier_ok\<close>: the insertion order enumerates the blocks, and the tips are the blocks without a
  child, at least one when there is a block.
\<close>

definition block_ids :: "conc_dag \<Rightarrow> string set" where
  "block_ids d = dom (map_of (cd_blocks d))"

definition frontier_ok :: "conc_dag \<Rightarrow> bool" where
  "frontier_ok d \<longleftrightarrow> distinct (map fst (cd_blocks d)) \<and> distinct (cd_tips d) \<and>
     distinct (cd_insertion_order d) \<and> set (cd_insertion_order d) = block_ids d \<and>
     set (cd_tips d) = {x \<in> block_ids d. get_children d x = []} \<and> (cd_blocks d \<noteq> [] \<longrightarrow> cd_tips d \<noteq> [])"

lemma block_ids_keys: "block_ids d = fst ` set (cd_blocks d)"
  by (simp add: block_ids_def dom_map_of_conv_image_fst)

lemma reordered [simp]:
  "block_ids (d\<lparr>cd_insertion_order := order\<rparr>) = block_ids d"
  "block_ids (d\<lparr>cd_insert_counter := n\<rparr>) = block_ids d"
  "get_children (d\<lparr>cd_insertion_order := order\<rparr>) = get_children d"
  "get_children (d\<lparr>cd_insert_counter := n\<rparr>) = get_children d"
  by (auto simp: block_ids_def get_children_def)

lemma contains_block_iff: "contains_block d x \<longleftrightarrow> x \<in> block_ids d"
  by (auto simp: contains_block_def block_ids_def)

lemma length_block_ids: "distinct (map fst (cd_blocks d)) \<Longrightarrow> length (cd_blocks d) = card (block_ids d)"
  by (metis block_ids_keys distinct_card length_map set_map)

lemma children_of_upsert:
  "children_of (upsert p [] (\<lambda>cs. cs @ [c]) idx) x = (if x = p then children_of idx p @ [c] else children_of idx x)"
  by (auto simp: children_of_def map_of_upsert split: option.splits)

lemma children_of_filter:
  "children_of (filter (\<lambda>(k, _). P k) idx) x = (if P x then children_of idx x else [])"
  by (induction idx) (auto simp: children_of_def)

lemma get_children_link:
  "get_children (link_parent c p d) x = (if x = p then get_children d p @ [c] else get_children d x)"
  by (simp add: get_children_def link_parent_def children_of_upsert)

lemma link_parents_fields:
  "cd_blocks (fold (link_parent c) ps d) = cd_blocks d"
  "cd_insertion_order (fold (link_parent c) ps d) = cd_insertion_order d"
  "cd_max_blocks (fold (link_parent c) ps d) = cd_max_blocks d"
  "cd_insert_counter (fold (link_parent c) ps d) = cd_insert_counter d"
  "cd_tips (fold (link_parent c) ps d) = filter (\<lambda>x. x \<notin> set ps) (cd_tips d)"
  by (induction ps arbitrary: d) (auto simp: link_parent_def removeAll_filter_not_eq conj_commute intro: filter_cong)

lemma link_parents_children:
  "get_children (fold (link_parent c) ps d) x = [] \<longleftrightarrow> get_children d x = [] \<and> x \<notin> set ps"
  by (induction ps arbitrary: d) (auto simp: get_children_link)

lemma place_block_fields:
  "cd_blocks (place_block b d) = AList.update (b_id b) b (cd_blocks d)"
  "cd_insertion_order (place_block b d) = cd_insertion_order d"
  "cd_max_blocks (place_block b d) = cd_max_blocks d"
  "cd_insert_counter (place_block b d) = cd_insert_counter d"
  by (simp_all add: place_block_def Let_def link_parents_fields)

lemma place_block_children:
  "get_children (place_block b d) x = [] \<longleftrightarrow> get_children d x = [] \<and> x \<notin> set (b_parents b)"
  using link_parents_children [of "b_id b" "b_parents b" d x] by (simp add: place_block_def Let_def get_children_def)

lemma place_block_tips:
  "set (cd_tips (place_block b d)) = insert (b_id b) (set (cd_tips d) - set (b_parents b))"
  "distinct (cd_tips d) \<Longrightarrow> distinct (cd_tips (place_block b d))"
  by (auto simp: place_block_def Let_def link_parents_fields)

lemma place_block_ids: "block_ids (place_block b d) = insert (b_id b) (block_ids d)"
  by (simp add: block_ids_def place_block_fields update_conv')

definition in_order :: "block \<Rightarrow> conc_dag \<Rightarrow> bool" where
  "in_order b d \<longleftrightarrow> \<not> contains_block d (b_id b) \<and> get_children d (b_id b) = [] \<and> b_id b \<notin> set (b_parents b)"

lemma place_block_frontier:
  assumes "frontier_ok d" and "in_order b d"
  shows "frontier_ok ((place_block b d)\<lparr>cd_insertion_order := cd_insertion_order d @ [b_id b], cd_insert_counter := n\<rparr>)"
proof -
  let ?d = "(place_block b d)\<lparr>cd_insertion_order := cd_insertion_order d @ [b_id b], cd_insert_counter := n\<rparr>"
  have "set (cd_tips ?d) = {x \<in> block_ids ?d. get_children ?d x = []}"
    using assms by (auto simp: place_block_ids place_block_children place_block_tips frontier_ok_def in_order_def contains_block_iff)
  moreover have "cd_tips ?d \<noteq> []" using place_block_tips(1) [of b d] by auto
  ultimately show ?thesis
    using assms by (auto simp: place_block_ids frontier_ok_def place_block_fields place_block_tips distinct_update
        in_order_def contains_block_iff)
qed

subsection \<open>What pruning removes\<close>

lemma prune_loop_result:
  assumes "\<forall>x\<in>set todo. present x"
  shows "\<exists>order taken. prune_loop present tip r (length todo) budget (todo @ skipped) ids = (order, ids @ taken) \<and>
     mset order + mset taken = mset todo + mset skipped \<and> set taken \<subseteq> set todo \<and>
     length taken = min (r - length ids) (length (filter (\<lambda>x. \<not> tip x) todo) + min budget (length (filter tip todo))) \<and>
     length (filter tip taken) \<le> budget"
  using assms
proof (induction todo arbitrary: budget skipped ids)
  case (Cons x todo)
  show ?case
  proof (cases "r \<le> length ids")
    case True
    then show ?thesis by (intro exI [of _ "x # todo @ skipped"] exI [of _ "[]"]) simp
  next
    case False
    consider (skip) "tip x" "budget = 0" | (tip) "tip x" "0 < budget" | (old) "\<not> tip x" by auto
    then show ?thesis
    proof cases
      case skip
      obtain order taken where
        "prune_loop present tip r (length todo) 0 (todo @ (skipped @ [x])) ids = (order, ids @ taken)"
        "mset order + mset taken = mset todo + mset (skipped @ [x])" "set taken \<subseteq> set todo"
        "length taken = min (r - length ids) (length (filter (\<lambda>x. \<not> tip x) todo) + min 0 (length (filter tip todo)))"
        "length (filter tip taken) \<le> 0"
        using Cons.IH [of 0 "skipped @ [x]" ids] Cons.prems by auto
      with skip False Cons.prems show ?thesis by - (rule exI [of _ order], rule exI [of _ taken], auto)
    next
      case tip
      obtain order taken where
        "prune_loop present tip r (length todo) (budget - 1) (todo @ skipped) (ids @ [x]) = (order, (ids @ [x]) @ taken)"
        "mset order + mset taken = mset todo + mset skipped" "set taken \<subseteq> set todo"
        "length taken = min (r - length (ids @ [x])) (length (filter (\<lambda>x. \<not> tip x) todo) + min (budget - 1) (length (filter tip todo)))"
        "length (filter tip taken) \<le> budget - 1"
        using Cons.IH [of "budget - 1" skipped "ids @ [x]"] Cons.prems by auto
      with tip False Cons.prems show ?thesis by - (rule exI [of _ order], rule exI [of _ "x # taken"], auto simp: min_def)
    next
      case old
      obtain order taken where
        "prune_loop present tip r (length todo) budget (todo @ skipped) (ids @ [x]) = (order, (ids @ [x]) @ taken)"
        "mset order + mset taken = mset todo + mset skipped" "set taken \<subseteq> set todo"
        "length taken = min (r - length (ids @ [x])) (length (filter (\<lambda>x. \<not> tip x) todo) + min budget (length (filter tip todo)))"
        "length (filter tip taken) \<le> budget"
        using Cons.IH [of budget skipped "ids @ [x]"] Cons.prems by auto
      with old False Cons.prems show ?thesis by - (rule exI [of _ order], rule exI [of _ "x # taken"], auto)
    qed
  qed
qed (simp add: exI [of _ "[]"])

lemma remove_blocks_fields:
  "block_ids (remove_blocks ids d) = block_ids d - set ids"
  "get_children (remove_blocks ids d) x = (if x \<in> set ids then [] else get_children d x)"
  "cd_tips (remove_blocks ids d) = filter (\<lambda>x. x \<notin> set ids) (cd_tips d)"
  "cd_insertion_order (remove_blocks ids d) = cd_insertion_order d"
  "distinct (map fst (cd_blocks d)) \<Longrightarrow> distinct (map fst (cd_blocks (remove_blocks ids d)))"
proof -
  show "block_ids (remove_blocks ids d) = block_ids d - set ids"
    by (auto simp: block_ids_keys remove_blocks_def image_iff)
  show "get_children (remove_blocks ids d) x = (if x \<in> set ids then [] else get_children d x)"
    by (simp add: get_children_def remove_blocks_def children_of_filter)
qed (auto simp: remove_blocks_def distinct_map_filter case_prod_beta)

lemma prune_oldest_removes:
  assumes ok: "frontier_ok d" and big: "0 < cd_max_blocks d" "cd_max_blocks d < length (cd_blocks d)"
  obtains order ids where "prune_oldest d = remove_blocks ids (d\<lparr>cd_insertion_order := order\<rparr>)"
    "distinct (order @ ids)" "set order \<union> set ids = block_ids d" "set order \<inter> set ids = {}"
    "length ids = length (cd_blocks d) - cd_max_blocks d"
    "card (set (cd_tips d) \<inter> set ids) \<le> tip_removal_budget d"
proof -
  let ?tip = "\<lambda>x. x \<in> set (cd_tips d)" and ?r = "length (cd_blocks d) - cd_max_blocks d"
  let ?o = "cd_insertion_order d" and ?b = "tip_removal_budget d"
  have pres: "\<forall>x\<in>set ?o. contains_block d x" using ok by (auto simp: frontier_ok_def contains_block_iff)
  obtain order ids where run: "prune_loop (contains_block d) ?tip ?r (length ?o) ?b (?o @ []) [] = (order, [] @ ids)"
    and part: "mset order + mset ids = mset ?o"
    and len: "length ids = min ?r (length (filter (\<lambda>x. \<not> ?tip x) ?o) + min ?b (length (filter ?tip ?o)))"
    and tips: "length (filter ?tip ids) \<le> ?b"
    using prune_loop_result [OF pres, of ?tip ?r ?b "[]" "[]"] by auto
  have o: "distinct ?o" "set ?o = block_ids d" "length ?o = length (cd_blocks d)"
    using ok length_block_ids [of d] distinct_card [of ?o] by (auto simp: frontier_ok_def)
  have "mset (order @ ids) = mset ?o" using part by simp
  then have d: "distinct (order @ ids)" "set (order @ ids) = set ?o"
    using o(1) by (metis distinct_count_atmost_1 mset_eq_imp_distinct_iff, metis set_mset_mset)
  have tipso: "length (filter ?tip ?o) = length (cd_tips d)"
  proof -
    have "set (filter ?tip ?o) = set (cd_tips d)" using ok by (auto simp: frontier_ok_def)
    moreover have "distinct (filter ?tip ?o)" "distinct (cd_tips d)" using ok by (auto simp: frontier_ok_def)
    ultimately show ?thesis by (metis distinct_card)
  qed
  have sum: "length (filter ?tip ?o) + length (filter (\<lambda>x. \<not> ?tip x) ?o) = length ?o"
    by (rule sum_length_filter_compl)
  have "cd_tips d \<noteq> []" using ok big by (auto simp: frontier_ok_def)
  then have ge: "?r \<le> length (filter (\<lambda>x. \<not> ?tip x) ?o) + min ?b (length (filter ?tip ?o))"
    using sum big o(3) unfolding tipso by (cases "cd_tips d") (auto simp: tip_removal_budget_def Let_def)
  have "set (cd_tips d) \<inter> set ids = set (filter ?tip ids)" by auto
  moreover have "card (set (filter ?tip ids)) = length (filter ?tip ids)" using d(1) by (intro distinct_card) auto
  moreover have "prune_oldest d = remove_blocks ids (d\<lparr>cd_insertion_order := order\<rparr>)"
    using run big by (simp add: prune_oldest_def Let_def)
  ultimately show thesis using that [of ids order] d o(2) len ge tips by auto
qed

lemma prune_keeps_frontier:
  assumes ok: "frontier_ok d" and big: "0 < cd_max_blocks d" "cd_max_blocks d < length (cd_blocks d)"
  shows "frontier_ok (prune_oldest d)" and "length (cd_blocks (prune_oldest d)) = cd_max_blocks d"
    and "length (cd_tips d) \<le> cd_max_blocks d \<Longrightarrow> set (cd_tips (prune_oldest d)) = set (cd_tips d)"
proof -
  obtain order ids where p: "prune_oldest d = remove_blocks ids (d\<lparr>cd_insertion_order := order\<rparr>)"
    "distinct (order @ ids)" "set order \<union> set ids = block_ids d" "set order \<inter> set ids = {}"
    "length ids = length (cd_blocks d) - cd_max_blocks d"
    "card (set (cd_tips d) \<inter> set ids) \<le> tip_removal_budget d"
    by (rule prune_oldest_removes [OF assms])
  let ?d = "prune_oldest d"
  have fin: "finite (block_ids d)" by (simp add: block_ids_keys)
  have cdb: "distinct (map fst (cd_blocks d))" "distinct (cd_tips d)" using ok by (auto simp: frontier_ok_def)
  have ids: "block_ids ?d = block_ids d - set ids"
    unfolding p(1) by (simp add: remove_blocks_fields)
  have ch: "get_children ?d x = (if x \<in> set ids then [] else get_children d x)" for x
    unfolding p(1) by (simp add: remove_blocks_fields)
  have tips: "cd_tips ?d = filter (\<lambda>x. x \<notin> set ids) (cd_tips d)"
    unfolding p(1) by (simp add: remove_blocks_fields)
  have keys: "distinct (map fst (cd_blocks ?d))"
    unfolding p(1) using cdb by (simp add: remove_blocks_fields)
  show len: "length (cd_blocks ?d) = cd_max_blocks d"
  proof -
    have "card (block_ids ?d) = card (block_ids d) - card (set ids)"
      unfolding ids using p(3) fin by (intro card_Diff_subset) auto
    then show ?thesis
      using length_block_ids [OF keys] length_block_ids [OF cdb(1)] p(2,5) big distinct_card [of ids] by simp
  qed
  have "set (cd_tips d) \<inter> set ids \<noteq> set (cd_tips d)"
  proof
    assume "set (cd_tips d) \<inter> set ids = set (cd_tips d)"
    then have "length (cd_tips d) \<le> tip_removal_budget d" using p(6) cdb(2) distinct_card by metis
    moreover have "cd_tips d \<noteq> []" using ok big by (auto simp: frontier_ok_def)
    ultimately show False by (cases "cd_tips d") (auto simp: tip_removal_budget_def Let_def)
  qed
  then have "cd_tips ?d \<noteq> []" unfolding tips by (auto simp: filter_empty_conv)
  moreover have "cd_insertion_order ?d = order" unfolding p(1) by (simp add: remove_blocks_fields)
  ultimately show "frontier_ok ?d"
    using ok keys p(2-4) by (auto simp: frontier_ok_def ids ch tips)
  show "set (cd_tips ?d) = set (cd_tips d)" if "length (cd_tips d) \<le> cd_max_blocks d"
  proof -
    have "tip_removal_budget d = 0" using that big by (simp add: tip_removal_budget_def Let_def)
    then have "set (cd_tips d) \<inter> set ids = {}" using p(6) by simp
    then show ?thesis unfolding tips by auto
  qed
qed

text \<open>
  Claim C7. Pruning keeps the DAG within its bound and never loses the frontier: on a structure over
  its bound it leaves exactly \<open>max_blocks\<close> blocks and at least one tip, keeps every tip as long as the
  tips alone fit the bound, and leaves the double-spend memory alone.
\<close>

theorem prune_protects_frontier:
  assumes "frontier_ok d" and "0 < cd_max_blocks d" and "cd_max_blocks d < length (cd_blocks d)"
  shows "frontier_ok (prune_oldest d) \<and> cd_tips (prune_oldest d) \<noteq> [] \<and>
    length (cd_blocks (prune_oldest d)) = cd_max_blocks d \<and>
    (length (cd_tips d) \<le> cd_max_blocks d \<longrightarrow> set (cd_tips (prune_oldest d)) = set (cd_tips d)) \<and>
    cd_spent (prune_oldest d) = cd_spent d"
proof -
  have "cd_blocks (prune_oldest d) \<noteq> []"
    using prune_keeps_frontier(2) [OF assms] assms(2) by auto
  moreover have "cd_spent (prune_oldest d) = cd_spent d"
    by (simp add: prune_oldest_def Let_def remove_blocks_def split: prod.split)
  ultimately show ?thesis
    using prune_keeps_frontier [OF assms] by (auto simp: frontier_ok_def)
qed

lemma prune_small: "length (cd_blocks d) \<le> cd_max_blocks d \<Longrightarrow> prune_oldest d = d"
  by (simp add: prune_oldest_def)

text \<open>A chain of three blocks and a side tip, over a bound of two.\<close>

definition sample_block :: "string \<Rightarrow> string list \<Rightarrow> block" where
  "sample_block x ps = \<lparr>b_id = x, b_parents = ps, b_payload = None, b_nonce = 0, b_signer_pk = None,
     b_signature = None, b_metadata = None\<rparr>"

definition sample_dag :: conc_dag where
  "sample_dag = (conc_dag_new 2 0)
     \<lparr>cd_blocks := [(''g'', sample_block ''g'' []), (''a'', sample_block ''a'' [''g'']), (''b'', sample_block ''b'' [''g''])],
      cd_children_idx := [(''g'', [''a'', ''b''])], cd_insertion_order := [''g'', ''a'', ''b''], cd_tips := [''a'', ''b'']\<rparr>"

theorem prune_protects_frontier_witness:
  "length (cd_blocks (prune_oldest sample_dag)) = 2 \<and> set (cd_tips (prune_oldest sample_dag)) = {''a'', ''b''}"
proof -
  have "frontier_ok sample_dag"
    by (auto simp: frontier_ok_def block_ids_def sample_dag_def get_children_def children_of_def)
  then show ?thesis
    using prune_protects_frontier [of sample_dag] by (simp add: sample_dag_def conc_dag_new_def)
qed

text \<open>
  Claim C8. Inserting a block that is new, that no known block names as a parent and that does not name
  itself is accepted, and afterwards the tips are again exactly the blocks without a child, whatever
  pruning the insertion triggered; a block already present is refused and changes nothing.
\<close>

theorem insert_keeps_frontier:
  assumes "frontier_ok d" and "contains_block d (b_id b) \<or> in_order b d"
  shows "fst (insert_block b d) = (\<not> contains_block d (b_id b)) \<and> frontier_ok (snd (insert_block b d)) \<and>
    (contains_block d (b_id b) \<longrightarrow> snd (insert_block b d) = d)"
proof (cases "contains_block d (b_id b)")
  case True
  with assms show ?thesis by (simp add: insert_block_def)
next
  case False
  let ?d = "(place_block b d)\<lparr>cd_insertion_order := cd_insertion_order d @ [b_id b],
    cd_insert_counter := cd_insert_counter d + 1\<rparr>"
  have ok: "frontier_ok ?d" using place_block_frontier assms False by blast
  have "frontier_ok (prune_oldest ?d)" if "0 < cd_max_blocks ?d"
  proof (cases "length (cd_blocks ?d) \<le> cd_max_blocks ?d")
    case True
    then show ?thesis using ok by (simp only: prune_small)
  next
    case False
    with prune_keeps_frontier(1) [OF ok that] show ?thesis by simp
  qed
  moreover have "snd (insert_block b d) = ?d \<or> snd (insert_block b d) = prune_oldest ?d \<and> 0 < cd_max_blocks ?d"
    using False by (simp add: insert_block_def Let_def place_block_fields)
  moreover have "fst (insert_block b d)" using False by (simp add: insert_block_def Let_def)
  ultimately show ?thesis using ok False by auto
qed

theorem insert_keeps_frontier_witness:
  "fst (insert_block (sample_block ''c'' [''a'']) sample_dag) \<and>
   frontier_ok (snd (insert_block (sample_block ''c'' [''a'']) sample_dag))"
proof -
  have "frontier_ok sample_dag"
    by (auto simp: frontier_ok_def block_ids_def sample_dag_def get_children_def children_of_def)
  moreover have "in_order (sample_block ''c'' [''a'']) sample_dag" "\<not> contains_block sample_dag ''c''"
    by (auto simp: in_order_def sample_block_def sample_dag_def contains_block_def get_children_def children_of_def)
  ultimately show ?thesis
    using insert_keeps_frontier [of sample_dag "sample_block ''c'' [''a'']"] by (simp add: sample_block_def)
qed

text \<open>
  Bootstrap is not independent of the order in which the store returns the blocks: whenever a
  child is loaded before its parent, the parent ends up among the tips although a child of it is
  counted, and neither the ghost cleanup nor the final pruning repairs it.
\<close>

lemma bootstrap_false_tip:
  assumes "b_id child \<noteq> b_id parent" and "b_parents child = [b_id parent]" and "b_parents parent = []"
  shows "b_id parent \<in> set (conc_find_tips (bootstrap_blocks 0 n [child, parent])) \<and>
    get_children_count (bootstrap_blocks 0 n [child, parent]) (b_id parent) = 1"
  using assms
  by (auto simp: bootstrap_blocks_def prune_oldest_def cleanup_ghost_entries_def bootstrap_insert_def
      contains_block_def place_block_def link_parent_def conc_dag_new_def get_children_count_def Let_def
      conc_find_tips_def max_tips_cap_def)

text \<open>
  The descendant count is exact up to its limit: it reaches the limit exactly when the block
  has that many distinct descendants, and below the limit it is their number; the search always
  returns.
\<close>

lemma count_descendants_exact:
  "(k \<le> count_descendants d x k \<longleftrightarrow> k \<le> card (descendants (cd_children_idx d) x)) \<and>
   (count_descendants d x k < k \<longrightarrow> count_descendants d x k = card (descendants (cd_children_idx d) x))"
  using descend_enough descend_exact by (simp add: count_descendants_def)

end
