(* ===== verification/Claims.thy ===== *)
theory Claims
  imports ConcDag
begin

section \<open>Atomic claims: spent outpoints, bridge locks, custodial nonces, collections\<close>

text \<open>
  The commit point of a block claims what it consumes with atomic test-and-set operations on the
  concurrent DAG (pms-core concurrent_dag/spent.rs). The memory of spent outpoints is bounded: beyond
  \<open>max_spent_outpoints\<close> the oldest claims are forgotten in the order of \<open>spent_order\<close>.
\<close>

fun evict_spent :: "nat \<Rightarrow> output_id list \<Rightarrow> output_id set \<Rightarrow> output_id list \<times> output_id set" where
  "evict_spent limit [] spent = ([], spent)"
| "evict_spent limit (oldest # order) spent =
     (if limit < length (oldest # order) then evict_spent limit order (spent - {oldest})
      else (oldest # order, spent))"

definition try_mark_spent :: "output_id \<Rightarrow> conc_dag \<Rightarrow> bool \<times> conc_dag" where
  "try_mark_spent op d =
     (let newly = (op \<notin> cd_spent d); spent = insert op (cd_spent d)
      in (newly,
          if newly \<and> 0 < cd_max_spent d then
            (let (order, kept) = evict_spent (cd_max_spent d) (cd_spent_order d @ [op]) spent
             in d\<lparr>cd_spent := kept, cd_spent_order := order\<rparr>)
          else d\<lparr>cd_spent := spent\<rparr>))"

definition mark_spent :: "output_id \<Rightarrow> conc_dag \<Rightarrow> conc_dag" where
  "mark_spent op d = snd (try_mark_spent op d)"

definition unmark_spent :: "output_id \<Rightarrow> conc_dag \<Rightarrow> conc_dag" where
  "unmark_spent op d = d\<lparr>cd_spent := cd_spent d - {op}\<rparr>"

definition is_spent :: "conc_dag \<Rightarrow> output_id \<Rightarrow> bool" where
  "is_spent d op \<longleftrightarrow> op \<in> cd_spent d"

text \<open>The durable store is an argument: it answers or fails.\<close>

definition is_outpoint_spent_authoritative ::
  "conc_dag \<Rightarrow> (output_id \<Rightarrow> string + bool) \<Rightarrow> output_id \<Rightarrow> string + bool" where
  "is_outpoint_spent_authoritative d stored op = (if is_spent d op then Inr True else stored op)"

definition try_consume_bridge_lock :: "string \<Rightarrow> conc_dag \<Rightarrow> bool \<times> conc_dag" where
  "try_consume_bridge_lock l d =
     (l \<notin> cd_bridge_locks d, d\<lparr>cd_bridge_locks := insert l (cd_bridge_locks d)\<rparr>)"

definition unconsume_bridge_lock :: "string \<Rightarrow> conc_dag \<Rightarrow> conc_dag" where
  "unconsume_bridge_lock l d = d\<lparr>cd_bridge_locks := cd_bridge_locks d - {l}\<rparr>"

definition try_consume_custodial_mint :: "string \<Rightarrow> conc_dag \<Rightarrow> bool \<times> conc_dag" where
  "try_consume_custodial_mint key d =
     (key \<notin> cd_custodial_mints d, d\<lparr>cd_custodial_mints := insert key (cd_custodial_mints d)\<rparr>)"

definition unconsume_custodial_mint :: "string \<Rightarrow> conc_dag \<Rightarrow> conc_dag" where
  "unconsume_custodial_mint key d = d\<lparr>cd_custodial_mints := cd_custodial_mints d - {key}\<rparr>"

definition try_claim_collection :: "string \<Rightarrow> string \<Rightarrow> conc_dag \<Rightarrow> (string + unit) \<times> conc_dag" where
  "try_claim_collection collection_id owner d =
     (case cd_collections d collection_id of
        Some existing \<Rightarrow> (if eq_ignore_case existing owner then Inr () else Inl existing, d)
      | None \<Rightarrow> (Inr (), d\<lparr>cd_collections := (cd_collections d)(collection_id \<mapsto> owner)\<rparr>))"

text \<open>
  The claim loop of the commit point (net_adapter/persist.rs): every spend is claimed in order, the first
  one already spent undoes the claims made so far and rejects the block.
\<close>

fun claim_spends :: "output_id list \<Rightarrow> output_id list \<Rightarrow> conc_dag \<Rightarrow> (output_id + unit) \<times> conc_dag" where
  "claim_spends [] claimed d = (Inr (), d)"
| "claim_spends (sp # sps) claimed d =
     (case try_mark_spent sp d of
        (True, d') \<Rightarrow> claim_spends sps (claimed @ [sp]) d'
      | (False, d') \<Rightarrow> (Inl sp, fold unmark_spent claimed d'))"

subsection \<open>What the claims guarantee\<close>

definition room :: "nat \<Rightarrow> conc_dag \<Rightarrow> bool" where
  "room n d \<longleftrightarrow> cd_max_spent d = 0 \<or> length (cd_spent_order d) + n \<le> cd_max_spent d"

lemma try_mark_spent_room:
  assumes "room (Suc n) d"
  shows "fst (try_mark_spent op d) = (op \<notin> cd_spent d)"
    "cd_spent (snd (try_mark_spent op d)) = insert op (cd_spent d)" "room n (snd (try_mark_spent op d))"
proof -
  have "evict_spent l order spent = (order, spent)" if "length order \<le> l" for l order spent
    using that by (cases order) auto
  then show "fst (try_mark_spent op d) = (op \<notin> cd_spent d)"
    "cd_spent (snd (try_mark_spent op d)) = insert op (cd_spent d)" "room n (snd (try_mark_spent op d))"
    using assms by (auto simp: try_mark_spent_def room_def Let_def)
qed

lemma fold_unmark: "cd_spent (fold unmark_spent ops d) = cd_spent d - set ops"
  by (induction ops arbitrary: d) (auto simp: unmark_spent_def)

lemma claim_spends_split:
  "claim_spends (sp # sps) claimed d =
     (if sp \<in> cd_spent d then (Inl sp, fold unmark_spent claimed (snd (try_mark_spent sp d)))
      else claim_spends sps (claimed @ [sp]) (snd (try_mark_spent sp d)))"
proof -
  have "try_mark_spent sp d = (sp \<notin> cd_spent d, snd (try_mark_spent sp d))"
    by (simp add: try_mark_spent_def Let_def)
  then show ?thesis by (cases "try_mark_spent sp d") auto
qed

declare claim_spends.simps(2) [simp del]

lemma claim_spends_result:
  assumes "room (length sps) d" and "distinct claimed" and "set claimed \<subseteq> cd_spent d"
  shows "case claim_spends sps claimed d of
      (Inr _, d') \<Rightarrow> distinct sps \<and> set sps \<inter> cd_spent d = {} \<and> cd_spent d' = cd_spent d \<union> set sps
    | (Inl op, d') \<Rightarrow> op \<in> set sps \<and> (op \<in> cd_spent d \<or> \<not> distinct sps) \<and> cd_spent d' = cd_spent d - set claimed"
  using assms
proof (induction sps arbitrary: claimed d)
  case (Cons sp sps)
  let ?d = "snd (try_mark_spent sp d)"
  have r: "cd_spent ?d = insert sp (cd_spent d)" "room (length sps) ?d"
    using try_mark_spent_room [of "length sps" d sp] Cons.prems(1) by auto
  show ?case
  proof (cases "sp \<in> cd_spent d")
    case True
    then have "claim_spends (sp # sps) claimed d = (Inl sp, fold unmark_spent claimed ?d)"
      by (simp add: claim_spends_split)
    with True r(1) Cons.prems show ?thesis by (simp add: fold_unmark insert_absorb)
  next
    case False
    then have step: "claim_spends (sp # sps) claimed d = claim_spends sps (claimed @ [sp]) ?d"
      by (simp add: claim_spends_split)
    have "distinct (claimed @ [sp])" "set (claimed @ [sp]) \<subseteq> cd_spent ?d"
      using False Cons.prems r(1) by auto
    note ih = Cons.IH [OF r(2) this]
    show ?thesis
    proof (cases "claim_spends sps (claimed @ [sp]) ?d")
      case (Pair res d')
      show ?thesis
        using ih False r(1) Cons.prems(3) unfolding step Pair by (cases res) auto
    qed
  qed
qed simp



text \<open>
  The stale entry a rolled-back claim leaves in the eviction queue is not harmless: an outpoint
  that is claimed, released and claimed again is forgotten as soon as the queue overflows, as if its
  live claim were the old one, although fewer outpoints are claimed than the memory holds, and the next
  claim on it succeeds: it is spent twice.
\<close>

lemma stale_entry_frees_live_claim:
  assumes "a \<noteq> b" and "cd_max_spent d = 2" and "cd_spent d = {}" and "cd_spent_order d = []"
  shows "let d1 = snd (try_mark_spent a (unmark_spent a (snd (try_mark_spent a d))));
             d2 = snd (try_mark_spent b d1)
         in is_spent d1 a \<and> \<not> is_spent d2 a \<and> fst (try_mark_spent a d2)"
  using assms by (auto simp: try_mark_spent_def unmark_spent_def is_spent_def Let_def)

end
