(* ===== verification/Utxo.thy ===== *)
theory Utxo
  imports Conservation ExtLib
begin

section \<open>The sharded set of unspent outputs: \<open>pms-core/src/utxo.rs\<close>\<close>

text \<open>
  \<open>ShardedUtxoSet\<close>: 256 shards, each a bounded LRU cache of compact outputs in front of the
  persistent store (\<open>fallback\<close>), and four caches beside them: the addresses' outpoints, the supply
  per asset and the balances per address. The LRU cache is the crate \<open>lru\<close>: its operations are an
  argument \<open>R\<close> whose documented behaviour is \<open>lru_laws\<close>; in particular \<open>push\<close> returns the old entry
  of the same key or the entry it evicts. The concurrent maps are maps, an operation of the set runs
  as a whole, interned strings are strings. The \<open>+=\<close> and \<open>-=\<close> of the caches panic on overflow, as
  does slicing a transaction identifier inside a multi-byte character.
\<close>

record 'd compact_output =
  c_address :: string
  c_amount :: 'd
  c_asset_id :: "string option"
  c_locked_until :: "u64 option"
  c_spend_condition :: "spend_condition option"
  c_created_at :: "u64 option"

definition to_tx_output :: "'d dec_lib \<Rightarrow> 'd compact_output \<Rightarrow> tx_output" where
  "to_tx_output D c =
     \<lparr>o_address = c_address c, o_amount = d_show D (c_amount c), o_asset_id = c_asset_id c,
      o_locked_until = c_locked_until c, o_spend_condition = c_spend_condition c,
      o_created_at = c_created_at c\<rparr>"

definition to_compact :: "'d dec_lib \<Rightarrow> tx_output \<Rightarrow> 'd compact_output" where
  "to_compact D out =
     \<lparr>c_address = o_address out,
      c_amount = (case d_from_str D (o_amount out) of Some d \<Rightarrow> d | None \<Rightarrow> d_zero D),
      c_asset_id = o_asset_id out, c_locked_until = o_locked_until out,
      c_spend_condition = o_spend_condition out, c_created_at = o_created_at out\<rparr>"

subsection \<open>The LRU cache\<close>

record ('c, 'd) lru_lib =
  l_unbounded :: 'c
  l_new :: "nat \<Rightarrow> 'c"
  l_peek :: "'c \<Rightarrow> output_id \<Rightarrow> 'd compact_output option"
  l_push :: "'c \<Rightarrow> output_id \<Rightarrow> 'd compact_output \<Rightarrow> 'c \<times> (output_id \<times> 'd compact_output) option"
  l_pop :: "'c \<Rightarrow> output_id \<Rightarrow> 'c \<times> 'd compact_output option"
  l_iter :: "'c \<Rightarrow> (output_id \<times> 'd compact_output) list"

definition lru_laws :: "('c, 'd) lru_lib \<Rightarrow> bool" where
  "lru_laws R \<longleftrightarrow>
     (\<forall>k. l_peek R (l_unbounded R) k = None) \<and> (\<forall>n k. l_peek R (l_new R n) k = None) \<and>
     (\<forall>c k. snd (l_pop R c k) = l_peek R c k \<and> l_peek R (fst (l_pop R c k)) = (l_peek R c)(k := None)) \<and>
     (\<forall>c k x. case snd (l_push R c k x) of
        None \<Rightarrow> l_peek R c k = None \<and> l_peek R (fst (l_push R c k x)) = (l_peek R c)(k := Some x)
      | Some (k', x') \<Rightarrow> l_peek R c k' = Some x' \<and> (k' = k \<or> l_peek R c k = None) \<and>
          l_peek R (fst (l_push R c k x)) = (l_peek R c)(k' := None, k := Some x)) \<and>
     (\<forall>c. distinct (map fst (l_iter R c)) \<and> (\<forall>k x. (k, x) \<in> set (l_iter R c) \<longleftrightarrow> l_peek R c k = Some x))"

subsection \<open>The state\<close>

definition shard_count :: nat where
  "shard_count = 256"

type_synonym utxo_fetcher = "string \<Rightarrow> u32 \<Rightarrow> tx_output option"

record ('c, 'd) utxo_set =
  us_shards :: "'c list"
  us_address_index :: "string \<Rightarrow> output_id set option"
  us_supply :: "string option \<Rightarrow> ('d \<times> nat) option"
  us_native :: "string \<Rightarrow> 'd option"
  us_token :: "string \<times> string \<Rightarrow> 'd option"
  us_fallback :: "utxo_fetcher option"

definition utxo_new :: "('c, 'd) lru_lib \<Rightarrow> nat \<Rightarrow> utxo_fetcher option \<Rightarrow> ('c, 'd) utxo_set" where
  "utxo_new R max_utxos fallback =
     \<lparr>us_shards = replicate shard_count
        (if max_utxos = 0 then l_unbounded R
         else l_new R (max ((max_utxos + shard_count - 1) div shard_count) 1)),
      us_address_index = (\<lambda>_. None), us_supply = (\<lambda>_. None), us_native = (\<lambda>_. None),
      us_token = (\<lambda>_. None), us_fallback = fallback\<rparr>"

text \<open>\<open>u8::from_str_radix\<close> on the first two bytes (a leading plus sign is accepted), which must end on a
  character boundary.\<close>

definition radix16 :: "char \<Rightarrow> char \<Rightarrow> nat option" where
  "radix16 a b =
     (if is_hex_digit b \<and> a = CHR ''+'' then Some (hex_value b)
      else if is_hex_digit a \<and> is_hex_digit b then Some (16 * hex_value a + hex_value b)
      else None)"

definition shard_index :: "output_id \<Rightarrow> panic + nat" where
  "shard_index op =
     (case op_txid op of
        a # b # rest \<Rightarrow>
          if (case rest of [] \<Rightarrow> False | c # _ \<Rightarrow> 128 \<le> (of_char c :: nat) \<and> (of_char c :: nat) < 192)
          then Inl (Panic ''byte index 2 is not a char boundary'')
          else Inr (case radix16 a b of Some n \<Rightarrow> n | None \<Rightarrow> 0)
      | _ \<Rightarrow> Inr 0)"

definition fetch_from_store :: "('c, 'd) utxo_set \<Rightarrow> output_id \<Rightarrow> tx_output option" where
  "fetch_from_store s op =
     (case us_fallback s of None \<Rightarrow> None | Some f \<Rightarrow> f (op_txid op) (op_index op))"

subsection \<open>The supply and balance caches\<close>

definition cache_add :: "'d dec_lib \<Rightarrow> ('k \<Rightarrow> 'd option) \<Rightarrow> 'k \<Rightarrow> 'd \<Rightarrow> panic + ('k \<Rightarrow> 'd option)" where
  "cache_add D m k a =
     (case m k of
        None \<Rightarrow> Inr (m(k := Some a))
      | Some b \<Rightarrow> rbind (dec_add D b a) (\<lambda>b'. Inr (m(k := Some b'))))"

definition cache_sub :: "'d dec_lib \<Rightarrow> ('k \<Rightarrow> 'd option) \<Rightarrow> 'k \<Rightarrow> 'd \<Rightarrow> panic + ('k \<Rightarrow> 'd option)" where
  "cache_sub D m k a =
     (case m k of
        None \<Rightarrow> Inr m
      | Some b \<Rightarrow> rbind (dec_sub D b a) (\<lambda>b'. Inr (m(k := if d_is_zero D b' then None else Some b'))))"

definition supply_add :: "'d dec_lib \<Rightarrow> (string option \<Rightarrow> ('d \<times> nat) option) \<Rightarrow> string option \<Rightarrow> 'd
    \<Rightarrow> panic + (string option \<Rightarrow> ('d \<times> nat) option)" where
  "supply_add D m k a =
     (let (t, n) = (case m k of None \<Rightarrow> (d_zero D, 0) | Some e \<Rightarrow> e) in
      rbind (dec_add D t a) (\<lambda>t'. Inr (m(k := Some (t', n + 1)))))"

definition supply_sub :: "'d dec_lib \<Rightarrow> (string option \<Rightarrow> ('d \<times> nat) option) \<Rightarrow> string option \<Rightarrow> 'd
    \<Rightarrow> panic + (string option \<Rightarrow> ('d \<times> nat) option)" where
  "supply_sub D m k a =
     (case m k of
        None \<Rightarrow> Inr m
      | Some (t, n) \<Rightarrow>
          rbind (dec_sub D t a) (\<lambda>t'. Inr (m(k := if n - 1 = 0 then None else Some (t', n - 1)))))"

definition supply_add_compact ::
  "'d dec_lib \<Rightarrow> ('c, 'd) utxo_set \<Rightarrow> 'd compact_output \<Rightarrow> panic + ('c, 'd) utxo_set" where
  "supply_add_compact D s out =
     rbind (supply_add D (us_supply s) (c_asset_id out) (c_amount out)) (\<lambda>supply.
     case c_asset_id out of
       None \<Rightarrow> rbind (cache_add D (us_native s) (c_address out) (c_amount out)) (\<lambda>native.
         Inr (s\<lparr>us_supply := supply, us_native := native\<rparr>))
     | Some asset \<Rightarrow> rbind (cache_add D (us_token s) (c_address out, asset) (c_amount out)) (\<lambda>token.
         Inr (s\<lparr>us_supply := supply, us_token := token\<rparr>)))"

definition supply_sub_compact ::
  "'d dec_lib \<Rightarrow> ('c, 'd) utxo_set \<Rightarrow> 'd compact_output \<Rightarrow> panic + ('c, 'd) utxo_set" where
  "supply_sub_compact D s out =
     rbind (supply_sub D (us_supply s) (c_asset_id out) (c_amount out)) (\<lambda>supply.
     case c_asset_id out of
       None \<Rightarrow> rbind (cache_sub D (us_native s) (c_address out) (c_amount out)) (\<lambda>native.
         Inr (s\<lparr>us_supply := supply, us_native := native\<rparr>))
     | Some asset \<Rightarrow> rbind (cache_sub D (us_token s) (c_address out, asset) (c_amount out)) (\<lambda>token.
         Inr (s\<lparr>us_supply := supply, us_token := token\<rparr>)))"

definition supply_sub_txoutput ::
  "'d dec_lib \<Rightarrow> ('c, 'd) utxo_set \<Rightarrow> tx_output \<Rightarrow> panic + ('c, 'd) utxo_set" where
  "supply_sub_txoutput D s out = supply_sub_compact D s (to_compact D out)"

definition addr_index_add :: "('c, 'd) utxo_set \<Rightarrow> string \<Rightarrow> output_id \<Rightarrow> ('c, 'd) utxo_set" where
  "addr_index_add s address op =
     s\<lparr>us_address_index := (us_address_index s)(address :=
        Some (insert op (case us_address_index s address of None \<Rightarrow> {} | Some ops \<Rightarrow> ops)))\<rparr>"

definition addr_index_remove :: "('c, 'd) utxo_set \<Rightarrow> string \<Rightarrow> output_id \<Rightarrow> ('c, 'd) utxo_set" where
  "addr_index_remove s address op =
     (case us_address_index s address of
        None \<Rightarrow> s
      | Some ops \<Rightarrow> s\<lparr>us_address_index := (us_address_index s)(address :=
          if ops - {op} = {} then None else Some (ops - {op}))\<rparr>)"

subsection \<open>The operations\<close>

definition utxo_get :: "'d dec_lib \<Rightarrow> ('c, 'd) lru_lib \<Rightarrow> ('c, 'd) utxo_set \<Rightarrow> output_id \<Rightarrow> panic + tx_output option" where
  "utxo_get D R s op =
     rbind (shard_index op) (\<lambda>idx.
     case l_peek R (us_shards s ! idx) op of
       Some c \<Rightarrow> Inr (Some (to_tx_output D c))
     | None \<Rightarrow> Inr (fetch_from_store s op))"

definition utxo_add ::
  "'d dec_lib \<Rightarrow> ('c, 'd) lru_lib \<Rightarrow> ('c, 'd) utxo_set \<Rightarrow> output_id \<Rightarrow> tx_output \<Rightarrow> panic + ('c, 'd) utxo_set" where
  "utxo_add D R s op out =
     (let c = to_compact D out in
      rbind (supply_add_compact D s c) (\<lambda>s1.
      rbind (shard_index op) (\<lambda>idx.
      let (shard, evicted) = l_push R (us_shards s1 ! idx) op c;
          s2 = addr_index_add (s1\<lparr>us_shards := (us_shards s1)[idx := shard]\<rparr>) (c_address c) op
      in Inr (case evicted of
                None \<Rightarrow> s2
              | Some (evicted_id, evicted_compact) \<Rightarrow> addr_index_remove s2 (c_address evicted_compact) evicted_id))))"

definition utxo_remove ::
  "'d dec_lib \<Rightarrow> ('c, 'd) lru_lib \<Rightarrow> ('c, 'd) utxo_set \<Rightarrow> output_id \<Rightarrow> panic + (('c, 'd) utxo_set \<times> tx_output option)" where
  "utxo_remove D R s op =
     rbind (shard_index op) (\<lambda>idx.
     let (shard, removed) = l_pop R (us_shards s ! idx) op;
         s1 = s\<lparr>us_shards := (us_shards s)[idx := shard]\<rparr>
     in case removed of
          Some c \<Rightarrow>
            rbind (supply_sub_compact D (addr_index_remove s1 (c_address c) op) c) (\<lambda>s2.
            Inr (s2, Some (to_tx_output D c)))
        | None \<Rightarrow>
            (case fetch_from_store s1 op of
               Some txo \<Rightarrow>
                 rbind (supply_sub_txoutput D (addr_index_remove s1 (o_address txo) op) txo) (\<lambda>s2.
                 Inr (s2, Some txo))
             | None \<Rightarrow> Inr (s1, None)))"

subsection \<open>Applying the spends and creations of a block\<close>

text \<open>
  \<open>apply_diff\<close> visits the affected shards in ascending order; in each it pops the spends, then pushes
  the creations. Spends that miss the cache are looked up in the store afterwards, the updates of
  the address index come last, and after them the entries the shards evicted leave the index.
\<close>

datatype diff_op = DSpend output_id | DCreate output_id tx_output

record ('c, 'd) diff_run =
  dr_set :: "('c, 'd) utxo_set"
  dr_deferred :: "(string \<times> output_id \<times> bool) list"
  dr_missed :: "output_id list"
  dr_evicted :: "(output_id \<times> 'd compact_output) list"

definition set_shard :: "('c, 'd) utxo_set \<Rightarrow> nat \<Rightarrow> 'c \<Rightarrow> ('c, 'd) utxo_set" where
  "set_shard s idx shard = s\<lparr>us_shards := (us_shards s)[idx := shard]\<rparr>"

definition diff_step ::
  "'d dec_lib \<Rightarrow> ('c, 'd) lru_lib \<Rightarrow> ('c, 'd) diff_run \<Rightarrow> nat \<times> diff_op \<Rightarrow> panic + ('c, 'd) diff_run" where
  "diff_step D R run = (\<lambda>(idx, op).
     let shard = us_shards (dr_set run) ! idx in
     case op of
       DSpend sp \<Rightarrow>
         let (shard', popped) = l_pop R shard sp; s = set_shard (dr_set run) idx shard' in
         (case popped of
            Some c \<Rightarrow>
              rbind (supply_sub_compact D s c) (\<lambda>s'.
              Inr (run\<lparr>dr_set := s', dr_deferred := dr_deferred run @ [(c_address c, sp, False)]\<rparr>))
          | None \<Rightarrow> Inr (run\<lparr>dr_set := s, dr_missed := dr_missed run @ [sp]\<rparr>))
     | DCreate op out \<Rightarrow>
         let c = to_compact D out in
         rbind (supply_add_compact D (dr_set run) c) (\<lambda>s.
         let (shard', evicted) = l_push R shard op c in
         Inr (run\<lparr>dr_set := set_shard s idx shard', dr_deferred := dr_deferred run @ [(c_address c, op, True)],
           dr_evicted := dr_evicted run @ (case evicted of None \<Rightarrow> [] | Some e \<Rightarrow> [e])\<rparr>)))"

definition diff_missed ::
  "'d dec_lib \<Rightarrow> ('c, 'd) utxo_set \<times> (string \<times> output_id \<times> bool) list \<Rightarrow> output_id
   \<Rightarrow> panic + ('c, 'd) utxo_set \<times> (string \<times> output_id \<times> bool) list" where
  "diff_missed D = (\<lambda>(s, deferred) sp.
     case fetch_from_store s sp of
       None \<Rightarrow> Inr (s, deferred)
     | Some txo \<Rightarrow>
         rbind (supply_sub_txoutput D s txo) (\<lambda>s'. Inr (s', deferred @ [(o_address txo, sp, False)])))"

definition diff_ops :: "output_id list \<Rightarrow> (output_id \<times> tx_output) list \<Rightarrow> nat list \<Rightarrow> (nat \<times> diff_op) list" where
  "diff_ops spends creates affected = concat (map (\<lambda>i.
     map (\<lambda>sp. (i, DSpend sp)) (filter (\<lambda>sp. shard_index sp = Inr i) spends) @
     map (\<lambda>(op, out). (i, DCreate op out)) (filter (\<lambda>(op, out). shard_index op = Inr i) creates)) affected)"

definition index_op :: "string \<times> output_id \<times> bool \<Rightarrow> ('c, 'd) utxo_set \<Rightarrow> ('c, 'd) utxo_set" where
  "index_op = (\<lambda>(address, op, is_add) s.
     if is_add then addr_index_add s address op else addr_index_remove s address op)"

definition apply_diff ::
  "'d dec_lib \<Rightarrow> ('c, 'd) lru_lib \<Rightarrow> ('c, 'd) utxo_set \<Rightarrow> output_id list \<Rightarrow> (output_id \<times> tx_output) list
   \<Rightarrow> panic + ('c, 'd) utxo_set" where
  "apply_diff D R s spends creates =
     rbind (try_map shard_index (spends @ map fst creates)) (\<lambda>idxs.
     rbind (try_fold (diff_step D R) \<lparr>dr_set = s, dr_deferred = [], dr_missed = [], dr_evicted = []\<rparr>
       (diff_ops spends creates (sorted_list_of_set (set idxs)))) (\<lambda>run.
     rbind (try_fold (diff_missed D) (dr_set run, dr_deferred run) (dr_missed run)) (\<lambda>(s1, deferred).
     Inr (fold (\<lambda>(op, c) s. addr_index_remove s (c_address c) op) (dr_evicted run)
       (fold index_op deferred s1)))))"

subsection \<open>Queries and the rebuild at start-up\<close>

definition circulating_supply_by_asset :: "'d dec_lib \<Rightarrow> ('c, 'd) utxo_set \<Rightarrow> string option \<Rightarrow> 'd \<times> nat" where
  "circulating_supply_by_asset D s a = (case us_supply s a of None \<Rightarrow> (d_zero D, 0) | Some e \<Rightarrow> e)"

definition circulating_supply :: "'d dec_lib \<Rightarrow> ('c, 'd) utxo_set \<Rightarrow> 'd \<times> nat" where
  "circulating_supply D s = circulating_supply_by_asset D s None"

definition balance_by_address :: "'d dec_lib \<Rightarrow> ('c, 'd) utxo_set \<Rightarrow> string \<Rightarrow> 'd" where
  "balance_by_address D s address = (case us_native s address of None \<Rightarrow> d_zero D | Some b \<Rightarrow> b)"

definition balance_by_address_and_asset ::
  "'d dec_lib \<Rightarrow> ('c, 'd) utxo_set \<Rightarrow> string \<Rightarrow> string option \<Rightarrow> 'd" where
  "balance_by_address_and_asset D s address asset_id =
     (case asset_id of
        None \<Rightarrow> balance_by_address D s address
      | Some asset \<Rightarrow> (case us_token s (address, asset) of None \<Rightarrow> d_zero D | Some b \<Rightarrow> b))"

text \<open>
  The outputs of an address, as the set of pairs the query returns (the order of the code's answer is
  that of hash sets).
\<close>

definition utxos_by_address ::
  "'d dec_lib \<Rightarrow> ('c, 'd) lru_lib \<Rightarrow> ('c, 'd) utxo_set \<Rightarrow> string \<Rightarrow> (output_id \<times> tx_output) set" where
  "utxos_by_address D R s address =
     (case us_address_index s address of
        None \<Rightarrow> {}
      | Some ops \<Rightarrow> {(op, out) |op out. op \<in> ops \<and> utxo_get D R s op = Inr (Some out)})"

definition rebuild_entry ::
  "'d dec_lib \<Rightarrow> ('c, 'd) utxo_set \<Rightarrow> output_id \<times> 'd compact_output \<Rightarrow> panic + ('c, 'd) utxo_set" where
  "rebuild_entry D s = (\<lambda>(op, c). supply_add_compact D (addr_index_add s (c_address c) op) c)"

definition clear_indexes :: "('c, 'd) utxo_set \<Rightarrow> ('c, 'd) utxo_set" where
  "clear_indexes s =
     s\<lparr>us_address_index := (\<lambda>_. None), us_native := (\<lambda>_. None), us_token := (\<lambda>_. None), us_supply := (\<lambda>_. None)\<rparr>"

definition rebuild_indexes :: "'d dec_lib \<Rightarrow> ('c, 'd) lru_lib \<Rightarrow> ('c, 'd) utxo_set \<Rightarrow> panic + ('c, 'd) utxo_set" where
  "rebuild_indexes D R s =
     try_fold (rebuild_entry D) (clear_indexes s) (concat (map (l_iter R) (us_shards s)))"

definition rebuild_indexes_from_utxos ::
  "'d dec_lib \<Rightarrow> ('c, 'd) utxo_set \<Rightarrow> (output_id \<times> tx_output) list \<Rightarrow> panic + ('c, 'd) utxo_set" where
  "rebuild_indexes_from_utxos D s all_utxos =
     try_fold (rebuild_entry D) (clear_indexes s) (map (\<lambda>(op, txo). (op, to_compact D txo)) all_utxos)"

end
