(* ===== verification/UtxoSpec.thy ===== *)
theory UtxoSpec
  imports Utxo
begin

section \<open>What the set of unspent outputs promises\<close>

text \<open>
  The abstract state is the map \<open>U\<close> from outpoints to the outputs not yet spent, wherever they are:
  in a shard or, evicted, in the store alone. \<open>caches_ok\<close> says that the supply and balance caches are
  the sums over \<open>U\<close>; \<open>utxo_inv\<close> adds that the shards hold outputs of \<open>U\<close> and that the store backs
  all of \<open>U\<close>. The interface \<open>utxo_store\<close> is what a ledger needs of the set.
\<close>

subsection \<open>Sums over a map of outputs\<close>

type_synonym umap = "output_id \<Rightarrow> tx_output option"

definition keyed :: "umap \<Rightarrow> (tx_output \<Rightarrow> 'k option) \<Rightarrow> 'k \<Rightarrow> output_id set" where
  "keyed U key k = {op. \<exists>out. U op = Some out \<and> key out = Some k}"

definition ksum :: "(tx_output \<Rightarrow> 'b::comm_monoid_add) \<Rightarrow> umap \<Rightarrow> (tx_output \<Rightarrow> 'k option) \<Rightarrow> 'k \<Rightarrow> 'b" where
  "ksum f U key k = (\<Sum>op\<in>keyed U key k. f (the (U op)))"

definition utotal :: "(tx_output \<Rightarrow> rat) \<Rightarrow> umap \<Rightarrow> rat" where
  "utotal f U = (\<Sum>op\<in>dom U. f (the (U op)))"

lemma keyed_finite: "finite (dom U) \<Longrightarrow> finite (keyed U key k)"
  by (rule finite_subset [of _ "dom U"]) (auto simp: keyed_def)

lemma ksum_update:
  assumes "finite (dom U)" and "U op = None"
  shows "ksum f (U(op := Some out)) key k = ksum f U key k + (if key out = Some k then f out else 0)"
proof -
  have fin: "finite (keyed U key k)" by (rule keyed_finite [OF assms(1)])
  have notin: "op \<notin> keyed U key k" using assms(2) by (simp add: keyed_def)
  have same: "(\<Sum>x\<in>keyed U key k. f (the ((U(op := Some out)) x))) = ksum f U key k"
    unfolding ksum_def by (rule sum.cong) (use notin in auto)
  have "keyed (U(op := Some out)) key k = (if key out = Some k then insert op (keyed U key k) else keyed U key k)"
    using assms(2) by (auto simp: keyed_def split: if_splits)
  with fin notin same show ?thesis by (auto simp: ksum_def add.commute)
qed

lemma ksum_delete:
  assumes "finite (dom U)" and "U op = Some out"
  shows "ksum f U key k = ksum f (U(op := None)) key k + (if key out = Some k then f out else 0)"
  using ksum_update [of "U(op := None)" op f out key k] assms by (simp add: fun_upd_idem)

lemma utotal_update: "finite (dom U) \<Longrightarrow> U op = None \<Longrightarrow> utotal f (U(op := Some out)) = utotal f U + f out"
  using ksum_update [of U op f out "\<lambda>_. Some ()" "()"] by (simp add: utotal_def ksum_def keyed_def dom_def)

lemma utotal_delete: "finite (dom U) \<Longrightarrow> U op = Some out \<Longrightarrow> utotal f U = utotal f (U(op := None)) + f out"
  using utotal_update [of "U(op := None)" op f out] by (simp add: fun_upd_idem)

text \<open>The outputs of a set are in range: at eight decimals, not negative, within what 96 bits hold.\<close>

definition in_range :: "'d dec_lib \<Rightarrow> ('d \<Rightarrow> rat) \<Rightarrow> umap \<Rightarrow> bool" where
  "in_range D v U \<longleftrightarrow> finite (dom U) \<and>
     (\<forall>op out. U op = Some out \<longrightarrow> at_scale 8 (nominal_val D v out) \<and> 0 \<le> nominal_val D v out) \<and>
     utotal (nominal_val D v) U \<le> 10 ^ 20"

lemma ksum_bounds:
  assumes "in_range D v U"
  shows "0 \<le> ksum (nominal_val D v) U key k" "ksum (nominal_val D v) U key k \<le> 10 ^ 20"
    "at_scale 8 (ksum (nominal_val D v) U key k)"
proof -
  have fin: "finite (dom U)" and nn: "\<And>op. op \<in> dom U \<Longrightarrow> 0 \<le> nominal_val D v (the (U op))"
    and sc: "\<And>op. op \<in> dom U \<Longrightarrow> at_scale 8 (nominal_val D v (the (U op)))"
    using assms by (auto simp: in_range_def)
  have sub: "keyed U key k \<subseteq> dom U" by (auto simp: keyed_def)
  show "0 \<le> ksum (nominal_val D v) U key k"
    unfolding ksum_def by (rule sum_nonneg) (use nn sub in blast)
  have "ksum (nominal_val D v) U key k \<le> utotal (nominal_val D v) U"
    unfolding ksum_def utotal_def by (rule sum_mono2 [OF fin sub]) (use nn in auto)
  then show "ksum (nominal_val D v) U key k \<le> 10 ^ 20" using assms by (simp add: in_range_def)
  have sums: "at_scale 8 (\<Sum>op\<in>A. nominal_val D v (the (U op)))" if "finite A" "A \<subseteq> dom U" for A
    using that
  proof (induction A rule: finite_induct)
    case (insert op A)
    have "op \<in> dom U" "A \<subseteq> dom U" using insert.prems by simp_all
    from at_scale_add [OF sc [OF this(1)] insert.IH [OF this(2)]] show ?case
      by (simp only: sum.insert [OF insert.hyps])
  qed (simp only: sum.empty at_scale_0)
  show "at_scale 8 (ksum (nominal_val D v) U key k)"
    unfolding ksum_def by (rule sums [OF keyed_finite [OF fin] sub])
qed

subsection \<open>The caches\<close>

definition one_output :: "tx_output \<Rightarrow> nat" where
  "one_output out = 1"

definition cache_ok :: "('d \<Rightarrow> rat) \<Rightarrow> ('k \<Rightarrow> 'd option) \<Rightarrow> ('k \<Rightarrow> rat) \<Rightarrow> bool" where
  "cache_ok v m g \<longleftrightarrow> (\<forall>k. (case m k of None \<Rightarrow> 0 | Some d \<Rightarrow> v d) = g k)"

definition supply_ok :: "('d \<Rightarrow> rat) \<Rightarrow> ('k \<Rightarrow> ('d \<times> nat) option) \<Rightarrow> ('k \<Rightarrow> rat) \<Rightarrow> ('k \<Rightarrow> nat) \<Rightarrow> bool" where
  "supply_ok v m g n \<longleftrightarrow>
     (\<forall>k. case m k of None \<Rightarrow> g k = 0 \<and> n k = 0 | Some (t, c) \<Rightarrow> v t = g k \<and> c = n k \<and> 0 < c)"

definition money :: "rat \<Rightarrow> bool" where
  "money q \<longleftrightarrow> at_scale 8 q \<and> 0 \<le> q \<and> q \<le> 10 ^ 20"

lemma money_repr: "money q \<Longrightarrow> dec_repr q"
  by (rule dec_repr_at_scale [of 8]) (auto simp: money_def)

lemma money_0 [simp]: "money 0"
  by (simp add: money_def)

lemma dec_add_money:
  assumes L: "dec_laws D v" and "money (v a + v b)"
  shows "\<exists>c. dec_add D a b = Inr c \<and> v c = v a + v b"
  using dec_laws_add [OF L money_repr [OF assms(2)]] by (auto simp: dec_add_def)

lemma dec_sub_money:
  assumes L: "dec_laws D v" and "money (v a - v b)"
  shows "\<exists>c. dec_sub D a b = Inr c \<and> v c = v a - v b"
  using dec_laws_sub [OF L money_repr [OF assms(2)]] by (auto simp: dec_sub_def)

lemma cache_add_ok:
  assumes L: "dec_laws D v" and "cache_ok v m g" and "g' = g(k := g k + v a)" and "money (g' k)"
  shows "\<exists>m'. cache_add D m k a = Inr m' \<and> cache_ok v m' g'"
proof (cases "m k")
  case None
  then have "g k = 0" using assms(2) by (auto simp: cache_ok_def dest: spec [of _ k])
  with None assms show ?thesis by (auto simp: cache_add_def cache_ok_def)
next
  case (Some b)
  then have "v b = g k" using assms(2) by (auto simp: cache_ok_def dest: spec [of _ k])
  with dec_add_money [OF L, of b a] assms(3,4) obtain c where "dec_add D b a = Inr c" "v c = g' k" by auto
  with Some assms(2,3) show ?thesis by (auto simp: cache_add_def cache_ok_def)
qed

lemma cache_sub_ok:
  assumes L: "dec_laws D v" and "cache_ok v m g" and "g = g'(k := g' k + v a)" and "money (g' k)" "0 \<le> v a"
  shows "\<exists>m'. cache_sub D m k a = Inr m' \<and> cache_ok v m' g'"
proof (cases "m k")
  case None
  have "g k = 0" using None assms(2) by (auto simp: cache_ok_def dest: spec [of _ k])
  then have "g' k = 0" "v a = 0" using assms(3-5) by (auto simp: money_def)
  then have "g = g'" using assms(3) by auto
  with None assms(2) show ?thesis by (simp add: cache_sub_def)
next
  case (Some b)
  then have "v b = g k" using assms(2) by (auto simp: cache_ok_def dest: spec [of _ k])
  then have eq: "v b - v a = g' k" using assms(3) by (auto dest: fun_cong [of _ _ k])
  with dec_sub_money [OF L, of b a] assms(4) obtain c where c: "dec_sub D b a = Inr c" "v c = g' k" by auto
  have "cache_ok v (m(k := if d_is_zero D c then None else Some c)) g'"
    unfolding cache_ok_def
  proof
    fix j
    have "(case m j of None \<Rightarrow> 0 | Some d \<Rightarrow> v d) = g j" using assms(2) by (simp add: cache_ok_def)
    then show "(case (m(k := if d_is_zero D c then None else Some c)) j of None \<Rightarrow> 0 | Some d \<Rightarrow> v d) = g' j"
      using c(2) assms(3) by (auto simp: dec_laws_is_zero [OF L] fun_upd_apply split: if_splits)
  qed
  with Some c(1) show ?thesis by (simp add: cache_sub_def)
qed

lemma supply_add_ok:
  assumes L: "dec_laws D v" and ok: "supply_ok v m g n" and g': "g' = g(k := g k + v a)" "money (g' k)"
    and n': "n' = n(k := n k + 1)"
  shows "\<exists>m'. supply_add D m k a = Inr m' \<and> supply_ok v m' g' n'"
proof -
  obtain t c where tc: "(case m k of None \<Rightarrow> (d_zero D, 0) | Some e \<Rightarrow> e) = (t, c)" by fastforce
  then have "v t = g k" "c = n k"
    using ok by (auto simp: supply_ok_def dec_laws_zero [OF L] split: option.splits dest!: spec [of _ k])
  moreover obtain t' where "dec_add D t a = Inr t'" "v t' = g' k"
    using dec_add_money [OF L, of t a] g' \<open>v t = g k\<close> by auto
  moreover have "supply_ok v (m(k := Some (t', c + 1))) g' n'"
    unfolding supply_ok_def
  proof
    fix j
    have "case m j of None \<Rightarrow> g j = 0 \<and> n j = 0 | Some (t, c) \<Rightarrow> v t = g j \<and> c = n j \<and> 0 < c"
      using ok by (simp add: supply_ok_def)
    then show "case (m(k := Some (t', c + 1))) j of None \<Rightarrow> g' j = 0 \<and> n' j = 0
        | Some (t, c) \<Rightarrow> v t = g' j \<and> c = n' j \<and> 0 < c"
      using \<open>v t' = g' k\<close> \<open>c = n k\<close> g'(1) n' by (cases "j = k") (auto split: option.splits)
  qed
  ultimately show ?thesis by (auto simp: supply_add_def tc)
qed

lemma supply_sub_ok:
  assumes L: "dec_laws D v" and ok: "supply_ok v m g n" and g: "g = g'(k := g' k + v a)" "money (g' k)"
    and n: "n = n'(k := n' k + 1)" and zero: "n' k = 0 \<Longrightarrow> g' k = 0"
  shows "\<exists>m'. supply_sub D m k a = Inr m' \<and> supply_ok v m' g' n'"
proof -
  have k: "case m k of None \<Rightarrow> False | Some (t, c) \<Rightarrow> v t = g k \<and> c = n k"
    using ok n by (auto simp: supply_ok_def split: option.splits dest: spec [of _ k])
  then obtain t c where tc: "m k = Some (t, c)" "v t = g k" "c = n k" by (auto split: option.splits)
  have "v t - v a = g' k" using tc(2) g(1) by (auto dest: fun_cong [of _ _ k])
  then obtain t' where t': "dec_sub D t a = Inr t'" "v t' = g' k"
    using dec_sub_money [OF L, of t a] g(2) by auto
  have c: "c - 1 = n' k" using tc(3) n by (auto dest: fun_cong [of _ _ k])
  have "supply_ok v (m(k := if c - 1 = 0 then None else Some (t', c - 1))) g' n'"
    unfolding supply_ok_def
  proof
    fix j
    have "case m j of None \<Rightarrow> g j = 0 \<and> n j = 0 | Some (t, c) \<Rightarrow> v t = g j \<and> c = n j \<and> 0 < c"
      using ok by (simp add: supply_ok_def)
    then show "case (m(k := if c - 1 = 0 then None else Some (t', c - 1))) j of None \<Rightarrow> g' j = 0 \<and> n' j = 0
        | Some (t, c) \<Rightarrow> v t = g' j \<and> c = n' j \<and> 0 < c"
      using t'(2) c zero g(1) n by (cases "j = k") (auto split: option.splits)
  qed
  with tc(1) t'(1) show ?thesis by (simp add: supply_sub_def)
qed

subsection \<open>Adding and removing an output\<close>

definition asset_key :: "tx_output \<Rightarrow> string option option" where
  "asset_key out = Some (o_asset_id out)"

definition native_key :: "tx_output \<Rightarrow> string option" where
  "native_key out = (if o_asset_id out = None then Some (o_address out) else None)"

definition token_key :: "tx_output \<Rightarrow> (string \<times> string) option" where
  "token_key out = map_option (\<lambda>a. (o_address out, a)) (o_asset_id out)"

definition caches_ok :: "'d dec_lib \<Rightarrow> ('d \<Rightarrow> rat) \<Rightarrow> umap \<Rightarrow> ('c, 'd) utxo_set \<Rightarrow> bool" where
  "caches_ok D v U s \<longleftrightarrow>
     supply_ok v (us_supply s) (ksum (nominal_val D v) U asset_key) (ksum one_output U asset_key) \<and>
     cache_ok v (us_native s) (ksum (nominal_val D v) U native_key) \<and>
     cache_ok v (us_token s) (ksum (nominal_val D v) U token_key)"

definition same_rest :: "('c, 'd) utxo_set \<Rightarrow> ('c, 'd) utxo_set \<Rightarrow> bool" where
  "same_rest s s' \<longleftrightarrow> us_shards s' = us_shards s \<and> us_address_index s' = us_address_index s \<and>
     us_fallback s' = us_fallback s"

lemma ksum_update_fun:
  "finite (dom U) \<Longrightarrow> U op = None \<Longrightarrow> ksum f (U(op := Some out)) key =
     (case key out of None \<Rightarrow> ksum f U key | Some k \<Rightarrow> (ksum f U key)(k := ksum f U key k + f out))"
  by (rule ext) (auto simp: ksum_update split: option.splits)

lemma ksum_delete_fun:
  "finite (dom U) \<Longrightarrow> U op = Some out \<Longrightarrow> ksum f U key =
     (case key out of None \<Rightarrow> ksum f (U(op := None)) key
      | Some k \<Rightarrow> (ksum f (U(op := None)) key)(k := ksum f (U(op := None)) key k + f out))"
  by (rule ext) (auto simp: ksum_delete split: option.splits)

lemma compact_val: "dec_laws D v \<Longrightarrow> v (c_amount (to_compact D out)) = nominal_val D v out"
  by (simp add: to_compact_def nominal_val_def dec_laws_zero split: option.splits)

lemma compact_fields [simp]:
  "c_address (to_compact D out) = o_address out" "c_asset_id (to_compact D out) = o_asset_id out"
  by (simp_all add: to_compact_def)

lemma in_range_delete: "in_range D v U \<Longrightarrow> in_range D v (U(op := None))"
proof (cases "U op")
  case (Some out)
  assume r: "in_range D v U"
  then have "utotal (nominal_val D v) U = utotal (nominal_val D v) (U(op := None)) + nominal_val D v out"
    using utotal_delete Some by (auto simp: in_range_def)
  moreover have "0 \<le> nominal_val D v out" using r Some by (auto simp: in_range_def)
  ultimately have "utotal (nominal_val D v) (U(op := None)) \<le> 10 ^ 20" using r by (simp add: in_range_def)
  then show ?thesis using r by (auto simp: in_range_def)
qed (simp add: fun_upd_idem)

lemma in_range_money: "in_range D v U \<Longrightarrow> money (ksum (nominal_val D v) U key k)"
  using ksum_bounds by (auto simp: money_def)

lemma ksum_count_zero:
  assumes "finite (dom U)" and "ksum one_output U key k = 0"
  shows "ksum f U key k = 0"
proof -
  have "keyed U key k = {}"
    using assms keyed_finite [OF assms(1), of key k] by (simp add: ksum_def one_output_def)
  then show ?thesis by (simp add: ksum_def)
qed

lemma supply_add_compact_ok:
  assumes L: "dec_laws D v" and ok: "caches_ok D v U s" and op: "U op = None"
    and r: "in_range D v (U(op := Some out))"
  shows "\<exists>s'. supply_add_compact D s (to_compact D out) = Inr s' \<and> caches_ok D v (U(op := Some out)) s' \<and> same_rest s s'"
proof -
  have fin: "finite (dom U)" using r by (simp add: in_range_def)
  let ?a = "c_amount (to_compact D out)"
  note upd = ksum_update_fun [OF fin op, of _ out] and val = compact_val [OF L, of out]
  note m = in_range_money [OF r]
  have "\<exists>sup. supply_add D (us_supply s) (o_asset_id out) ?a = Inr sup \<and>
      supply_ok v sup (ksum (nominal_val D v) (U(op := Some out)) asset_key) (ksum one_output (U(op := Some out)) asset_key)"
    by (rule supply_add_ok [OF L, where g = "ksum (nominal_val D v) U asset_key" and n = "ksum one_output U asset_key"])
      (use ok m [of asset_key "o_asset_id out"] in \<open>simp_all add: caches_ok_def upd asset_key_def val one_output_def\<close>)
  then obtain sup where sup: "supply_add D (us_supply s) (o_asset_id out) ?a = Inr sup"
    "supply_ok v sup (ksum (nominal_val D v) (U(op := Some out)) asset_key) (ksum one_output (U(op := Some out)) asset_key)"
    by blast
  show ?thesis
  proof (cases "o_asset_id out")
    case None
    have key: "native_key out = Some (o_address out)" "token_key out = None"
      using None by (simp_all add: native_key_def token_key_def)
    have "\<exists>m'. cache_add D (us_native s) (o_address out) ?a = Inr m' \<and> cache_ok v m' (ksum (nominal_val D v) (U(op := Some out)) native_key)"
      by (rule cache_add_ok [OF L, where g = "ksum (nominal_val D v) U native_key"])
        (use ok m [of native_key "o_address out"] in \<open>simp_all add: caches_ok_def upd [of _ native_key] key val\<close>)
    then obtain nat where "cache_add D (us_native s) (o_address out) ?a = Inr nat"
      "cache_ok v nat (ksum (nominal_val D v) (U(op := Some out)) native_key)"
      by blast
    with sup ok None show ?thesis
      by (auto simp: supply_add_compact_def caches_ok_def same_rest_def upd [of _ token_key] key)
  next
    case (Some asset)
    have key: "native_key out = None" "token_key out = Some (o_address out, asset)"
      using Some by (simp_all add: native_key_def token_key_def)
    have "\<exists>m'. cache_add D (us_token s) (o_address out, asset) ?a = Inr m' \<and> cache_ok v m' (ksum (nominal_val D v) (U(op := Some out)) token_key)"
      by (rule cache_add_ok [OF L, where g = "ksum (nominal_val D v) U token_key"])
        (use ok m [of token_key "(o_address out, asset)"] in \<open>simp_all add: caches_ok_def upd [of _ token_key] key val\<close>)
    then obtain tok where "cache_add D (us_token s) (o_address out, asset) ?a = Inr tok"
      "cache_ok v tok (ksum (nominal_val D v) (U(op := Some out)) token_key)"
      by blast
    with sup ok Some show ?thesis
      by (auto simp: supply_add_compact_def caches_ok_def same_rest_def upd [of _ native_key] key)
  qed
qed

lemma supply_sub_compact_ok:
  assumes L: "dec_laws D v" and ok: "caches_ok D v U s" and op: "U op = Some out" and r: "in_range D v U"
  shows "\<exists>s'. supply_sub_compact D s (to_compact D out) = Inr s' \<and> caches_ok D v (U(op := None)) s' \<and> same_rest s s'"
proof -
  have fin: "finite (dom U)" using r by (simp add: in_range_def)
  let ?a = "c_amount (to_compact D out)" and ?U = "U(op := None)"
  note del = ksum_delete_fun [OF fin op] and val = compact_val [OF L, of out]
  note m = in_range_money [OF in_range_delete [OF r, of op]]
  have nn: "0 \<le> v ?a" using r op val by (auto simp: in_range_def)
  have finU: "finite (dom ?U)" using fin by simp
  have "\<exists>sup. supply_sub D (us_supply s) (o_asset_id out) ?a = Inr sup \<and>
      supply_ok v sup (ksum (nominal_val D v) ?U asset_key) (ksum one_output ?U asset_key)"
    by (rule supply_sub_ok [OF L, where g = "ksum (nominal_val D v) U asset_key" and n = "ksum one_output U asset_key"])
      (use ok m [of asset_key "o_asset_id out"] del [of "nominal_val D v" asset_key] del [of one_output asset_key]
        ksum_count_zero [OF finU] in \<open>simp_all add: caches_ok_def asset_key_def val one_output_def\<close>)
  then obtain sup where sup: "supply_sub D (us_supply s) (o_asset_id out) ?a = Inr sup"
    "supply_ok v sup (ksum (nominal_val D v) ?U asset_key) (ksum one_output ?U asset_key)"
    by blast
  show ?thesis
  proof (cases "o_asset_id out")
    case None
    have key: "native_key out = Some (o_address out)" "token_key out = None"
      using None by (simp_all add: native_key_def token_key_def)
    have "\<exists>m'. cache_sub D (us_native s) (o_address out) ?a = Inr m' \<and> cache_ok v m' (ksum (nominal_val D v) ?U native_key)"
      by (rule cache_sub_ok [OF L, where g = "ksum (nominal_val D v) U native_key"])
        (use ok m [of native_key "o_address out"] nn del [of "nominal_val D v" native_key] in \<open>simp_all add: caches_ok_def key val\<close>)
    then obtain nat where "cache_sub D (us_native s) (o_address out) ?a = Inr nat"
      "cache_ok v nat (ksum (nominal_val D v) ?U native_key)"
      by blast
    with sup ok None del [of "nominal_val D v" token_key] show ?thesis
      by (auto simp: supply_sub_compact_def caches_ok_def same_rest_def key)
  next
    case (Some asset)
    have key: "native_key out = None" "token_key out = Some (o_address out, asset)"
      using Some by (simp_all add: native_key_def token_key_def)
    have "\<exists>m'. cache_sub D (us_token s) (o_address out, asset) ?a = Inr m' \<and> cache_ok v m' (ksum (nominal_val D v) ?U token_key)"
      by (rule cache_sub_ok [OF L, where g = "ksum (nominal_val D v) U token_key"])
        (use ok m [of token_key "(o_address out, asset)"] nn del [of "nominal_val D v" token_key] in \<open>simp_all add: caches_ok_def key val\<close>)
    then obtain tok where "cache_sub D (us_token s) (o_address out, asset) ?a = Inr tok"
      "cache_ok v tok (ksum (nominal_val D v) ?U token_key)"
      by blast
    with sup ok Some del [of "nominal_val D v" native_key] show ?thesis
      by (auto simp: supply_sub_compact_def caches_ok_def same_rest_def key)
  qed
qed

subsection \<open>The invariant of the set\<close>

lemma in_range_submap: "in_range D v U \<Longrightarrow> V \<subseteq>\<^sub>m U \<Longrightarrow> in_range D v V"
proof -
  assume r: "in_range D v U" and le: "V \<subseteq>\<^sub>m U"
  have sub: "dom V \<subseteq> dom U" by (rule map_le_implies_dom_le [OF le])
  have eq: "V op = Some out \<Longrightarrow> U op = Some out" for op out using le by (force simp: map_le_def)
  have "utotal (nominal_val D v) V = (\<Sum>op\<in>dom V. nominal_val D v (the (U op)))"
    unfolding utotal_def by (rule sum.cong) (use le in \<open>auto simp: map_le_def\<close>)
  also have "\<dots> \<le> utotal (nominal_val D v) U"
    unfolding utotal_def by (rule sum_mono2) (use r sub in \<open>auto simp: in_range_def\<close>)
  finally show ?thesis
    using r eq finite_subset [OF sub] unfolding in_range_def by (meson order_trans)
qed

lemma hex_value_less: "is_hex_digit c \<Longrightarrow> hex_value c < 16"
  by (auto simp: is_hex_digit_def hex_value_def Let_def)

lemma shard_index_less: "shard_index op = Inr i \<Longrightarrow> i < 256"
proof -
  have "radix16 a b = Some n \<Longrightarrow> n < 256" for a b n
    using hex_value_less [of a] hex_value_less [of b] by (auto simp: radix16_def split: if_splits)
  then show "shard_index op = Inr i \<Longrightarrow> i < 256"
    by (auto simp: shard_index_def split: list.splits if_splits option.splits)
qed

definition shards_ok :: "'d dec_lib \<Rightarrow> ('c, 'd) lru_lib \<Rightarrow> umap \<Rightarrow> 'c list \<Rightarrow> bool" where
  "shards_ok D R U shards \<longleftrightarrow> length shards = 256 \<and>
     (\<forall>i<256. \<forall>op c. l_peek R (shards ! i) op = Some c \<longrightarrow>
        shard_index op = Inr i \<and> (\<exists>out. U op = Some out \<and> c = to_compact D out))"

definition store_ok :: "umap \<Rightarrow> ('c, 'd) utxo_set \<Rightarrow> bool" where
  "store_ok U s \<longleftrightarrow> (\<forall>op out. U op = Some out \<longrightarrow>
     (\<exists>i. shard_index op = Inr i) \<and> fetch_from_store s op = Some out)"

definition utxo_inv :: "'d dec_lib \<Rightarrow> ('d \<Rightarrow> rat) \<Rightarrow> ('c, 'd) lru_lib \<Rightarrow> umap \<Rightarrow> ('c, 'd) utxo_set \<Rightarrow> bool" where
  "utxo_inv D v R U s \<longleftrightarrow>
     in_range D v U \<and> caches_ok D v U s \<and> shards_ok D R U (us_shards s) \<and> store_ok U s"

lemma lru_pop: "lru_laws R \<Longrightarrow> l_pop R c k = (c', r) \<Longrightarrow> r = l_peek R c k \<and> l_peek R c' = (l_peek R c)(k := None)"
  unfolding lru_laws_def by (metis fst_conv snd_conv)

lemma lru_push_peek:
  assumes "lru_laws R" and "l_push R c k x = (c', r)" and "l_peek R c' j = Some y"
  shows "(j = k \<and> y = x) \<or> (j \<noteq> k \<and> l_peek R c j = Some y)"
proof -
  have "case snd (l_push R c k x) of
        None \<Rightarrow> l_peek R c k = None \<and> l_peek R (fst (l_push R c k x)) = (l_peek R c)(k := Some x)
      | Some (k', x') \<Rightarrow> l_peek R c k' = Some x' \<and> (k' = k \<or> l_peek R c k = None) \<and>
          l_peek R (fst (l_push R c k x)) = (l_peek R c)(k' := None, k := Some x)"
    using assms(1) by (simp add: lru_laws_def)
  with assms(2,3) show ?thesis by (auto split: option.splits if_splits simp: fun_upd_apply)
qed

lemma shards_ok_pop:
  assumes R: "lru_laws R" and ok: "shards_ok D R U shards" and i: "shard_index op = Inr i"
    and pop: "l_pop R (shards ! i) op = (shard', r)"
  shows "shards_ok D R U (shards[i := shard'])" "shards_ok D R (U(op := None)) (shards[i := shard'])"
    "\<forall>j<256. l_peek R (shards[i := shard'] ! j) op = None"
proof -
  have len: "length shards = 256" "i < 256" using ok shard_index_less [OF i] by (auto simp: shards_ok_def)
  have p: "l_peek R shard' = (l_peek R (shards ! i))(op := None)" using lru_pop [OF R pop] by simp
  show 1: "shards_ok D R U (shards[i := shard'])"
    using ok len p unfolding shards_ok_def by (auto simp: nth_list_update split: if_splits)
  show 2: "\<forall>j<256. l_peek R (shards[i := shard'] ! j) op = None"
  proof (intro allI impI)
    fix j :: nat assume j: "j < 256"
    show "l_peek R (shards[i := shard'] ! j) op = None"
    proof (cases "j = i")
      case True
      with len p show ?thesis by simp
    next
      case False
      then show ?thesis using ok j i len unfolding shards_ok_def
        by (metis Inr_inject not_None_eq nth_list_update_neq)
    qed
  qed
  show "shards_ok D R (U(op := None)) (shards[i := shard'])"
    using 1 2 unfolding shards_ok_def by (metis fun_upd_other option.distinct(1))
qed

lemma shards_push_back:
  assumes R: "lru_laws R" and len: "i < length shards"
    and push: "l_push R (shards ! i) op x = (shard', r)"
    and c: "l_peek R (shards[i := shard'] ! j) op' = Some c" and ne: "op' \<noteq> op"
  shows "l_peek R (shards ! j) op' = Some c"
  using lru_push_peek [OF R push, of op' c] c len ne by (cases "j = i") auto

lemma shards_ok_push:
  assumes R: "lru_laws R" and ok: "shards_ok D R U shards" and i: "shard_index op = Inr i" and fresh: "U op = None"
    and push: "l_push R (shards ! i) op (to_compact D out) = (shard', r)"
  shows "shards_ok D R (U(op := Some out)) (shards[i := shard'])"
proof -
  have len: "length shards = 256" "i < 256" using ok shard_index_less [OF i] by (auto simp: shards_ok_def)
  note pk = lru_push_peek [OF R push]
  have "shard_index op' = Inr j \<and> (\<exists>o'. (U(op := Some out)) op' = Some o' \<and> c = to_compact D o')"
    if j: "j < 256" and c: "l_peek R (shards[i := shard'] ! j) op' = Some c" for j op' c
  proof (cases "op' = op")
    case True
    have "j = i"
    proof (rule ccontr)
      assume "j \<noteq> i"
      then have "l_peek R (shards ! j) op = Some c" using c True by simp
      then show False using ok j fresh unfolding shards_ok_def by fastforce
    qed
    then show ?thesis using True i c pk [of op' c] len by auto
  next
    case False
    then have "l_peek R (shards ! j) op' = Some c" using shards_push_back [OF R _ push c] len by simp
    then show ?thesis using ok j False unfolding shards_ok_def by auto
  qed
  then show ?thesis using len unfolding shards_ok_def by simp
qed

subsection \<open>Single operations\<close>

lemma same_rest_facts:
  assumes "same_rest s s'"
  shows "us_shards s' = us_shards s" "fetch_from_store s' op = fetch_from_store s op" "store_ok U s' = store_ok U s"
  using assms by (simp_all add: same_rest_def fetch_from_store_def store_ok_def)

lemma set_shard_facts [simp]:
  "us_shards (set_shard s i c) = (us_shards s)[i := c]" "caches_ok D v U (set_shard s i c) = caches_ok D v U s"
  "store_ok U (set_shard s i c) = store_ok U s" "fetch_from_store (set_shard s i c) = fetch_from_store s"
  by (auto simp: set_shard_def caches_ok_def store_ok_def fetch_from_store_def)

lemma utxo_inv_index [simp]:
  "utxo_inv D v R U (addr_index_add s a op) = utxo_inv D v R U s"
  "utxo_inv D v R U (addr_index_remove s a op) = utxo_inv D v R U s"
  by (auto simp: addr_index_add_def addr_index_remove_def utxo_inv_def caches_ok_def store_ok_def
      fetch_from_store_def split: option.splits)

lemma addr_index_rest [simp]:
  "us_shards (addr_index_remove s a op) = us_shards s" "caches_ok D v U (addr_index_remove s a op) = caches_ok D v U s"
  "fetch_from_store (addr_index_remove s a op) = fetch_from_store s"
  by (auto simp: addr_index_remove_def caches_ok_def fetch_from_store_def split: option.splits)

lemma store_ok_submap: "store_ok U s \<Longrightarrow> store_ok (U(op := None)) s"
  by (simp add: store_ok_def)

lemma spend_ok:
  assumes L: "dec_laws D v" and R: "lru_laws R" and inv: "utxo_inv D v R U s" and op: "U op = Some out"
    and i: "shard_index op = Inr i" and pop: "l_pop R (us_shards s ! i) op = (shard', r)"
  shows "utxo_inv D v R U (set_shard s i shard') \<and>
    (r = None \<or> r = Some (to_compact D out)) \<and>
    (\<exists>s'. supply_sub_compact D (set_shard s i shard') (to_compact D out) = Inr s' \<and>
       utxo_inv D v R (U(op := None)) s' \<and> same_rest (set_shard s i shard') s')"
proof -
  have parts: "in_range D v U" "caches_ok D v U s" "shards_ok D R U (us_shards s)" "store_ok U s"
    using inv by (simp_all add: utxo_inv_def)
  note sh = shards_ok_pop [OF R parts(3) i pop]
  have r: "r = None \<or> r = Some (to_compact D out)"
  proof (cases r)
    case (Some c)
    then have "l_peek R (us_shards s ! i) op = Some c" using lru_pop [OF R pop] by simp
    then show ?thesis using parts(3) shard_index_less [OF i] op Some unfolding shards_ok_def by fastforce
  qed simp
  have c: "caches_ok D v U (set_shard s i shard')" using parts(2) by simp
  obtain s' where s': "supply_sub_compact D (set_shard s i shard') (to_compact D out) = Inr s'"
    "caches_ok D v (U(op := None)) s'" "same_rest (set_shard s i shard') s'"
    using supply_sub_compact_ok [OF L c op parts(1)] by blast
  have "utxo_inv D v R (U(op := None)) s'"
    using s'(2) sh(2) same_rest_facts [OF s'(3)] in_range_delete [OF parts(1)] store_ok_submap [OF parts(4)]
    by (simp add: utxo_inv_def)
  then show ?thesis using r s' parts sh(1) by (auto simp: utxo_inv_def)
qed

lemma create_ok:
  assumes L: "dec_laws D v" and R: "lru_laws R" and inv: "utxo_inv D v R U s" and op: "U op = None"
    and i: "shard_index op = Inr i" and st: "fetch_from_store s op = Some out"
    and range: "in_range D v (U(op := Some out))"
  shows "\<exists>s'. supply_add_compact D s (to_compact D out) = Inr s' \<and> same_rest s s' \<and>
    (\<forall>shard' e. l_push R (us_shards s ! i) op (to_compact D out) = (shard', e) \<longrightarrow>
       utxo_inv D v R (U(op := Some out)) (set_shard s' i shard'))"
proof -
  have parts: "caches_ok D v U s" "shards_ok D R U (us_shards s)" "store_ok U s"
    using inv by (simp_all add: utxo_inv_def)
  obtain s' where s': "supply_add_compact D s (to_compact D out) = Inr s'"
    "caches_ok D v (U(op := Some out)) s'" "same_rest s s'"
    using supply_add_compact_ok [OF L parts(1) op range] by blast
  have "store_ok (U(op := Some out)) s'"
    using parts(3) st i same_rest_facts [OF s'(3)] by (simp add: store_ok_def)
  then show ?thesis
    using s' shards_ok_push [OF R parts(2) i op] same_rest_facts(1) [OF s'(3)] range
    by (auto simp: utxo_inv_def)
qed

lemma utxo_add_ok:
  assumes L: "dec_laws D v" and R: "lru_laws R" and inv: "utxo_inv D v R U s" and op: "U op = None"
    and i: "shard_index op = Inr i" and st: "fetch_from_store s op = Some out"
    and range: "in_range D v (U(op := Some out))"
  shows "\<exists>s'. utxo_add D R s op out = Inr s' \<and> utxo_inv D v R (U(op := Some out)) s'"
proof -
  obtain s1 where s1: "supply_add_compact D s (to_compact D out) = Inr s1" "same_rest s s1"
    "\<And>shard' e. l_push R (us_shards s ! i) op (to_compact D out) = (shard', e) \<Longrightarrow>
       utxo_inv D v R (U(op := Some out)) (set_shard s1 i shard')"
    using create_ok [OF assms] by blast
  obtain shard' e where p: "l_push R (us_shards s ! i) op (to_compact D out) = (shard', e)" by fastforce
  from s1(3) [OF p] s1(1,2) p i show ?thesis
    by (auto simp: utxo_add_def Let_def same_rest_def set_shard_def split: option.splits)
qed

lemma utxo_remove_ok:
  assumes L: "dec_laws D v" and R: "lru_laws R" and inv: "utxo_inv D v R U s" and op: "U op = Some out"
  shows "\<exists>s' o'. utxo_remove D R s op = Inr (s', Some o') \<and> utxo_inv D v R (U(op := None)) s' \<and>
    o' \<in> {out, to_tx_output D (to_compact D out)}"
proof -
  obtain i where i: "shard_index op = Inr i" and st: "fetch_from_store s op = Some out"
    using inv op by (auto simp: utxo_inv_def store_ok_def)
  obtain shard' r where p: "l_pop R (us_shards s ! i) op = (shard', r)" by fastforce
  note sp = spend_ok [OF L R inv op i p]
  let ?s1 = "addr_index_remove (set_shard s i shard') (o_address out) op"
  have inv1: "utxo_inv D v R U ?s1" using sp by simp
  have "\<exists>s'. supply_sub_compact D ?s1 (to_compact D out) = Inr s' \<and> utxo_inv D v R (U(op := None)) s'"
  proof -
    have parts: "in_range D v U" "caches_ok D v U ?s1" "store_ok U s"
      using inv1 inv by (simp_all add: utxo_inv_def)
    obtain s' where s': "supply_sub_compact D ?s1 (to_compact D out) = Inr s'"
      "caches_ok D v (U(op := None)) s'" "same_rest ?s1 s'"
      using supply_sub_compact_ok [OF L parts(2) op parts(1)] by blast
    have "shards_ok D R (U(op := None)) (us_shards s')"
      using shards_ok_pop(2) [OF R _ i p] inv same_rest_facts(1) [OF s'(3)] by (simp add: utxo_inv_def)
    moreover have "store_ok (U(op := None)) s'"
      using store_ok_submap [OF parts(3)] same_rest_facts(2) [OF s'(3)] by (simp add: store_ok_def)
    ultimately show ?thesis using s' in_range_delete [OF parts(1)] by (auto simp: utxo_inv_def)
  qed
  then show ?thesis
    using i p sp st
    by (auto simp: utxo_remove_def Let_def set_shard_def [symmetric] supply_sub_txoutput_def)
qed

lemma utxo_get_ok:
  assumes inv: "utxo_inv D v R U s" and op: "U op = Some out"
  shows "\<exists>o'. utxo_get D R s op = Inr (Some o') \<and> o' \<in> {out, to_tx_output D (to_compact D out)}"
proof -
  obtain i where i: "shard_index op = Inr i" and st: "fetch_from_store s op = Some out"
    using inv op by (auto simp: utxo_inv_def store_ok_def)
  have "l_peek R (us_shards s ! i) op = Some c \<Longrightarrow> c = to_compact D out" for c
    using inv op shard_index_less [OF i] by (fastforce simp: utxo_inv_def shards_ok_def)
  then show ?thesis using i st by (auto simp: utxo_get_def split: option.splits)
qed

lemma utxo_get_absent:
  assumes inv: "utxo_inv D v R U s" and op: "U op = None" and "utxo_get D R s op = Inr (Some out)"
  shows "fetch_from_store s op = Some out"
proof -
  obtain i where i: "shard_index op = Inr i" using assms(3) by (auto simp: utxo_get_def)
  have "l_peek R (us_shards s ! i) op \<noteq> Some c" for c
    using inv op shard_index_less [OF i] by (fastforce simp: utxo_inv_def shards_ok_def)
  then have "l_peek R (us_shards s ! i) op = None" by (cases "l_peek R (us_shards s ! i) op") auto
  with assms(3) i show ?thesis by (simp add: utxo_get_def)
qed

subsection \<open>Whole blocks\<close>

fun op_key :: "nat \<times> diff_op \<Rightarrow> output_id" where
  "op_key (_, DSpend sp) = sp"
| "op_key (_, DCreate op _) = op"

fun op_map :: "nat \<times> diff_op \<Rightarrow> umap \<Rightarrow> umap" where
  "op_map (_, DSpend sp) U = U(sp := None)"
| "op_map (_, DCreate op out) U = U(op := Some out)"

fun op_grow :: "nat \<times> diff_op \<Rightarrow> umap \<Rightarrow> umap" where
  "op_grow (_, DSpend _) U = U"
| "op_grow (_, DCreate op out) U = U(op := Some out)"

definition run_inv ::
  "'d dec_lib \<Rightarrow> ('d \<Rightarrow> rat) \<Rightarrow> ('c, 'd) lru_lib \<Rightarrow> umap \<Rightarrow> ('c, 'd) diff_run \<Rightarrow> bool" where
  "run_inv D v R U run \<longleftrightarrow> utxo_inv D v R U (dr_set run) \<and> set (dr_missed run) \<subseteq> dom U \<and> distinct (dr_missed run) \<and>
     (\<forall>sp\<in>set (dr_missed run). \<forall>j<256. l_peek R (us_shards (dr_set run) ! j) sp = None)"

definition logical :: "umap \<Rightarrow> ('c, 'd) diff_run \<Rightarrow> umap" where
  "logical U run = U |` (- set (dr_missed run))"

text \<open>What an operation of the list needs of the map it meets.\<close>

fun op_fits :: "(output_id \<Rightarrow> tx_output option) \<Rightarrow> umap \<Rightarrow> output_id list \<Rightarrow> nat \<times> diff_op \<Rightarrow> bool" where
  "op_fits F U missed (i, DSpend sp) \<longleftrightarrow> shard_index sp = Inr i \<and> sp \<in> dom U \<and> sp \<notin> set missed"
| "op_fits F U missed (i, DCreate op out) \<longleftrightarrow> shard_index op = Inr i \<and> U op = None \<and> F op = Some out"

lemma fold_op_grow_le: "U \<subseteq>\<^sub>m V \<Longrightarrow> fold op_grow ops U \<subseteq>\<^sub>m fold op_grow ops V"
proof (induction ops arbitrary: U V)
  case (Cons x ops)
  have "op_grow x U \<subseteq>\<^sub>m op_grow x V"
    using Cons.prems by (cases "(x, U)" rule: op_grow.cases) (auto simp: map_le_def)
  with Cons.IH show ?case by simp
qed simp

lemma fold_op_grow_other: "op \<notin> op_key ` set ops \<Longrightarrow> fold op_grow ops U op = U op"
proof (induction ops arbitrary: U)
  case (Cons x ops)
  then show ?case by (cases "(x, U)" rule: op_grow.cases) auto
qed simp

lemma fold_op_grow_ge:
  "distinct (map op_key ops) \<Longrightarrow> (\<forall>x\<in>set ops. op_fits F U m x) \<Longrightarrow> U \<subseteq>\<^sub>m fold op_grow ops U"
  unfolding map_le_def
proof (intro ballI)
  fix op assume d: "distinct (map op_key ops)" and f: "\<forall>x\<in>set ops. op_fits F U m x" and op: "op \<in> dom U"
  have "fold op_grow ops W op = W op" if "\<forall>x\<in>set ops. case x of (_, DCreate k _) \<Rightarrow> k \<noteq> op | _ \<Rightarrow> True" for W
    using that
  proof (induction ops arbitrary: W)
    case (Cons x ops)
    then show ?case by (cases "(x, W)" rule: op_grow.cases) auto
  qed simp
  moreover have "case x of (_, DCreate k _) \<Rightarrow> k \<noteq> op | _ \<Rightarrow> True" if "x \<in> set ops" for x
    using f that op by (cases x rule: op_key.cases) (auto simp: dom_def)
  ultimately show "U op = fold op_grow ops U op" by simp
qed

lemma missed_spend_step:
  assumes inv: "run_inv D v R U run" and sp: "U sp = Some out" "sp \<notin> set (dr_missed run)"
    and u: "utxo_inv D v R U (set_shard (dr_set run) i shard')"
    and nn: "\<forall>j<256. l_peek R ((us_shards (dr_set run))[i := shard'] ! j) sp = None"
    and keep: "\<And>op j. j < 256 \<Longrightarrow> l_peek R (us_shards (dr_set run) ! j) op = None \<Longrightarrow>
      l_peek R ((us_shards (dr_set run))[i := shard'] ! j) op = None"
  shows "run_inv D v R U (run\<lparr>dr_set := set_shard (dr_set run) i shard', dr_missed := dr_missed run @ [sp]\<rparr>)"
  using assms by (auto simp: run_inv_def)

lemma spend_step:
  assumes L: "dec_laws D v" and R: "lru_laws R" and inv: "run_inv D v R U run"
    and fits: "op_fits F U (dr_missed run) (i, DSpend sp)"
  shows "\<exists>run' U'. diff_step D R run (i, DSpend sp) = Inr run' \<and> run_inv D v R U' run' \<and>
    logical U' run' = op_map (i, DSpend sp) (logical U run) \<and> U' \<subseteq>\<^sub>m U \<and> (\<forall>op. op \<noteq> sp \<longrightarrow> U' op = U op) \<and>
    set (dr_missed run') \<subseteq> insert sp (set (dr_missed run)) \<and>
    fetch_from_store (dr_set run') = fetch_from_store (dr_set run)"
proof -
  obtain out where sp: "shard_index sp = Inr i" "U sp = Some out" "sp \<notin> set (dr_missed run)"
    using fits by auto
  let ?s = "dr_set run"
  have u: "utxo_inv D v R U ?s" using inv by (simp add: run_inv_def)
  obtain shard' r where p: "l_pop R (us_shards ?s ! i) sp = (shard', r)" by fastforce
  note ok = spend_ok [OF L R u sp(2,1) p]
  have sh: "shards_ok D R U (us_shards ?s)" using u by (simp add: utxo_inv_def)
  have len: "i < length (us_shards ?s)" using sh shard_index_less [OF sp(1)] by (simp add: shards_ok_def)
  have keep: "l_peek R ((us_shards ?s)[i := shard'] ! j) op = None"
    if "j < 256" "l_peek R (us_shards ?s ! j) op = None" for op j
    using that lru_pop [OF R p] len by (cases "j = i") auto
  show ?thesis
  proof (cases r)
    case None
    let ?run' = "run\<lparr>dr_set := set_shard ?s i shard', dr_missed := dr_missed run @ [sp]\<rparr>"
    have "diff_step D R run (i, DSpend sp) = Inr ?run'" by (simp add: diff_step_def p None)
    moreover have "run_inv D v R U ?run'"
      using missed_spend_step [OF inv sp(2,3)] ok shards_ok_pop(3) [OF R sh sp(1) p] keep by blast
    moreover have "logical U ?run' = op_map (i, DSpend sp) (logical U run)"
      by (auto simp: logical_def restrict_map_def fun_eq_iff)
    ultimately show ?thesis by (intro exI [of _ ?run'] exI [of _ U]) auto
  next
    case (Some c)
    then have c: "c = to_compact D out" using ok by simp
    obtain s' where s': "supply_sub_compact D (set_shard ?s i shard') c = Inr s'"
      "utxo_inv D v R (U(sp := None)) s'" "same_rest (set_shard ?s i shard') s'"
      using ok c by blast
    let ?run' = "run\<lparr>dr_set := s', dr_deferred := dr_deferred run @ [(c_address c, sp, False)]\<rparr>"
    have step: "diff_step D R run (i, DSpend sp) = Inr ?run'" by (simp add: diff_step_def p Some s'(1))
    have ri: "run_inv D v R (U(sp := None)) ?run'"
      using inv s'(2) keep sp(3) same_rest_facts(1) [OF s'(3)] unfolding run_inv_def by auto
    have lg: "logical (U(sp := None)) ?run' = op_map (i, DSpend sp) (logical U run)"
      using sp(3) by (auto simp: logical_def restrict_map_def fun_eq_iff)
    have "fetch_from_store s' = fetch_from_store ?s"
      using same_rest_facts(2) [OF s'(3)] by (simp add: fun_eq_iff)
    with step ri lg show ?thesis
      by (intro exI [of _ ?run'] exI [of _ "U(sp := None)"]) (auto simp: map_le_def)
  qed
qed

lemma create_step:
  assumes L: "dec_laws D v" and R: "lru_laws R" and inv: "run_inv D v R U run"
    and fits: "op_fits (fetch_from_store (dr_set run)) U (dr_missed run) (i, DCreate op out)"
    and range: "in_range D v (U(op := Some out))"
  shows "\<exists>run'. diff_step D R run (i, DCreate op out) = Inr run' \<and> run_inv D v R (U(op := Some out)) run' \<and>
    logical (U(op := Some out)) run' = op_map (i, DCreate op out) (logical U run) \<and>
    dr_missed run' = dr_missed run \<and> fetch_from_store (dr_set run') = fetch_from_store (dr_set run)"
proof -
  have op: "shard_index op = Inr i" "U op = None" "fetch_from_store (dr_set run) op = Some out"
    using fits by auto
  let ?s = "dr_set run"
  have u: "utxo_inv D v R U ?s" using inv by (simp add: run_inv_def)
  have m: "op \<notin> set (dr_missed run)" using inv op(2) by (auto simp: run_inv_def)
  obtain shard' e where p: "l_push R (us_shards ?s ! i) op (to_compact D out) = (shard', e)" by fastforce
  obtain s' where s': "supply_add_compact D ?s (to_compact D out) = Inr s'" "same_rest ?s s'"
    "utxo_inv D v R (U(op := Some out)) (set_shard s' i shard')"
    using create_ok [OF L R u op(2,1,3) range] p by blast
  have len: "i < length (us_shards ?s)"
    using u shard_index_less [OF op(1)] by (simp add: utxo_inv_def shards_ok_def)
  let ?run' = "run\<lparr>dr_set := set_shard s' i shard', dr_deferred := dr_deferred run @ [(o_address out, op, True)],
    dr_evicted := dr_evicted run @ (case e of None \<Rightarrow> [] | Some e \<Rightarrow> [e])\<rparr>"
  have step: "diff_step D R run (i, DCreate op out) = Inr ?run'"
    using same_rest_facts(1) [OF s'(2)] by (simp add: diff_step_def s'(1) p Let_def)
  have nn: "l_peek R ((us_shards ?s)[i := shard'] ! j) sp = None"
    if "sp \<in> set (dr_missed run)" "j < 256" for sp j
  proof (rule ccontr)
    assume "l_peek R ((us_shards ?s)[i := shard'] ! j) sp \<noteq> None"
    then obtain c where "l_peek R ((us_shards ?s)[i := shard'] ! j) sp = Some c" by blast
    from shards_push_back [OF R len p this] m that inv show False by (auto simp: run_inv_def)
  qed
  have ri: "run_inv D v R (U(op := Some out)) ?run'"
    using inv s'(3) nn same_rest_facts(1) [OF s'(2)] unfolding run_inv_def by auto
  have "logical (U(op := Some out)) ?run' = op_map (i, DCreate op out) (logical U run)"
    using m by (auto simp: logical_def restrict_map_def fun_eq_iff)
  moreover have "fetch_from_store (set_shard s' i shard') = fetch_from_store ?s"
    using same_rest_facts(2) [OF s'(2)] by (simp add: fun_eq_iff)
  ultimately show ?thesis using step ri by (intro exI [of _ ?run']) simp
qed

lemma op_fits_later:
  assumes "op_fits F U m x" and "op_key x \<noteq> k" and "\<And>op. op \<noteq> k \<Longrightarrow> U' op = U op" and "set m' \<subseteq> insert k (set m)"
  shows "op_fits F U' m' x"
  using assms by (cases x rule: op_key.cases) (auto simp: dom_def)

lemma diff_steps:
  assumes L: "dec_laws D v" and R: "lru_laws R"
    and "run_inv D v R U run" and "distinct (map op_key ops)"
    and "\<forall>x\<in>set ops. op_fits (fetch_from_store (dr_set run)) U (dr_missed run) x"
    and "in_range D v (fold op_grow ops U)"
  shows "\<exists>run' U'. try_fold (diff_step D R) run ops = Inr run' \<and> run_inv D v R U' run' \<and>
    logical U' run' = fold op_map ops (logical U run) \<and>
    fetch_from_store (dr_set run') = fetch_from_store (dr_set run)"
  using assms(3-)
proof (induction ops arbitrary: U run)
  case Nil
  then show ?case by auto
next
  case (Cons x ops)
  note fits = Cons.prems(3)
  obtain i a where x: "x = (i, a)" by (cases x)
  have nk: "op_key x \<notin> op_key ` set ops" and dist1: "distinct (map op_key ops)" using Cons.prems(2) by simp_all
  have dist2: "op_key y \<noteq> op_key x" if "y \<in> set ops" for y using nk that by (metis image_eqI)
  note dist = dist1 dist2
  show ?case
  proof (cases a)
    case (DSpend sp)
    obtain run1 U1 where st: "diff_step D R run x = Inr run1" "run_inv D v R U1 run1"
      "logical U1 run1 = op_map x (logical U run)" "U1 \<subseteq>\<^sub>m U" "\<And>op. op \<noteq> sp \<Longrightarrow> U1 op = U op"
      "set (dr_missed run1) \<subseteq> insert sp (set (dr_missed run))"
      "fetch_from_store (dr_set run1) = fetch_from_store (dr_set run)"
      using spend_step [OF L R Cons.prems(1), where i = i and sp = sp] fits x DSpend by auto
    have f1: "op_fits (fetch_from_store (dr_set run1)) U1 (dr_missed run1) y" if "y \<in> set ops" for y
      unfolding st(7) by (rule op_fits_later [where k = sp, OF _ _ st(5) st(6)]) (use fits that dist x DSpend in auto)
    have "fold op_grow ops U1 \<subseteq>\<^sub>m fold op_grow (x # ops) U"
      using fold_op_grow_le [OF st(4)] x DSpend by simp
    then have "in_range D v (fold op_grow ops U1)" by (rule in_range_submap [OF Cons.prems(4)])
    from Cons.IH [OF st(2) dist(1) _ this] f1 st(1,3,7) show ?thesis by auto
  next
    case (DCreate op out)
    let ?U1 = "U(op := Some out)"
    have fx: "op_fits (fetch_from_store (dr_set run)) U (dr_missed run) (i, DCreate op out)"
      using fits x DCreate by simp
    have f0: "op_fits (fetch_from_store (dr_set run)) ?U1 (dr_missed run) y" if "y \<in> set ops" for y
      by (rule op_fits_later [where k = op and U = U]) (use fits that dist x DCreate in auto)
    have grow: "fold op_grow (x # ops) U = fold op_grow ops ?U1" using x DCreate by simp
    have "?U1 \<subseteq>\<^sub>m fold op_grow (x # ops) U"
      unfolding grow by (rule fold_op_grow_ge [OF dist(1)]) (use f0 in blast)
    then have "in_range D v ?U1" by (rule in_range_submap [OF Cons.prems(4)])
    then obtain run1 where st: "diff_step D R run x = Inr run1" "run_inv D v R ?U1 run1"
      "logical ?U1 run1 = op_map x (logical U run)" "dr_missed run1 = dr_missed run"
      "fetch_from_store (dr_set run1) = fetch_from_store (dr_set run)"
      using create_step [OF L R Cons.prems(1) fx] x DCreate by auto
    have f1: "\<forall>y\<in>set ops. op_fits (fetch_from_store (dr_set run1)) ?U1 (dr_missed run1) y"
      unfolding st(4,5) using f0 by blast
    have r1: "in_range D v (fold op_grow ops ?U1)" using Cons.prems(4) unfolding grow .
    from Cons.IH [OF st(2) dist(1) f1 r1, unfolded st(3,5)] st(1) show ?thesis
      by (simp only: try_fold.simps rbind_Inr fold.simps comp_apply)
  qed
qed

lemma missed_steps:
  assumes L: "dec_laws D v" and "utxo_inv D v R U s" and "set ms \<subseteq> dom U" and "distinct ms"
    and "\<forall>sp\<in>set ms. \<forall>j<256. l_peek R (us_shards s ! j) sp = None"
  shows "\<exists>s' deferred'. try_fold (diff_missed D) (s, deferred) ms = Inr (s', deferred') \<and>
    utxo_inv D v R (U |` (- set ms)) s'"
  using assms(2-)
proof (induction ms arbitrary: U s deferred)
  case Nil
  then show ?case by (simp add: restrict_map_def)
next
  case (Cons sp ms)
  obtain out where sp: "U sp = Some out" using Cons.prems(2) by auto
  have parts: "in_range D v U" "caches_ok D v U s" "shards_ok D R U (us_shards s)" "store_ok U s"
    using Cons.prems(1) by (simp_all add: utxo_inv_def)
  have st: "fetch_from_store s sp = Some out" using parts(4) sp by (simp add: store_ok_def)
  obtain s1 where s1: "supply_sub_compact D s (to_compact D out) = Inr s1" "caches_ok D v (U(sp := None)) s1"
    "same_rest s s1"
    using supply_sub_compact_ok [OF L parts(2) sp parts(1)] by blast
  have "shards_ok D R (U(sp := None)) (us_shards s)"
    using parts(3) Cons.prems(4) unfolding shards_ok_def
    by (metis fun_upd_other list.set_intros(1) option.distinct(1))
  then have "utxo_inv D v R (U(sp := None)) s1"
    using s1 same_rest_facts [OF s1(3)] in_range_delete [OF parts(1)] store_ok_submap [OF parts(4)]
    by (simp add: utxo_inv_def)
  moreover have "set ms \<subseteq> dom (U(sp := None))" using Cons.prems(2,3) by auto
  ultimately have "\<exists>s' deferred'. try_fold (diff_missed D) (s1, deferred @ [(o_address out, sp, False)]) ms = Inr (s', deferred') \<and>
      utxo_inv D v R (U(sp := None) |` (- set ms)) s'"
    by (rule Cons.IH) (use Cons.prems(3,4) same_rest_facts(1) [OF s1(3)] in simp_all)
  moreover have "U(sp := None) |` (- set ms) = U |` (- set (sp # ms))"
    by (auto simp: restrict_map_def fun_eq_iff)
  ultimately show ?case using st s1(1) by (simp add: diff_missed_def supply_sub_txoutput_def)
qed

lemma evicted_inv:
  "utxo_inv D v R U (fold (\<lambda>(op, c) s. addr_index_remove s (c_address c) op) evs s) = utxo_inv D v R U s"
  by (induction evs arbitrary: s) (simp_all add: case_prod_beta)

lemma index_op_inv: "utxo_inv D v R U (fold index_op ops s) = utxo_inv D v R U s"
  by (induction ops arbitrary: s) (simp_all add: index_op_def case_prod_beta)

subsection \<open>The list of operations of a block\<close>

definition diff_map :: "umap \<Rightarrow> output_id list \<Rightarrow> (output_id \<times> tx_output) list \<Rightarrow> umap" where
  "diff_map U spends creates =
     (\<lambda>op. case map_of creates op of Some out \<Rightarrow> Some out | None \<Rightarrow> if op \<in> set spends then None else U op)"

lemma diff_ops_set:
  "(i, a) \<in> set (diff_ops spends creates affected) \<longleftrightarrow> i \<in> set affected \<and>
     (case a of DSpend sp \<Rightarrow> sp \<in> set spends \<and> shard_index sp = Inr i
      | DCreate op out \<Rightarrow> (op, out) \<in> set creates \<and> shard_index op = Inr i)"
  by (cases a) (auto simp: diff_ops_def image_iff)

lemma diff_ops_key:
  "op_key (i, a) = (case a of DSpend sp \<Rightarrow> sp | DCreate op _ \<Rightarrow> op)"
  by (cases a) auto

lemma diff_ops_distinct:
  assumes "distinct affected" and "distinct spends" and "distinct (map fst creates)"
    and "set spends \<inter> fst ` set creates = {}"
  shows "distinct (map op_key (diff_ops spends creates affected))"
  using assms(1)
proof (induction affected)
  case Nil
  then show ?case by (simp add: diff_ops_def)
next
  case (Cons i affected)
  let ?sp = "filter (\<lambda>sp. shard_index sp = Inr i) spends"
  let ?cr = "filter (\<lambda>(op, out). shard_index op = Inr i) creates"
  have split: "map op_key (diff_ops spends creates (i # affected)) =
      ?sp @ map fst ?cr @ map op_key (diff_ops spends creates affected)"
    by (auto simp: diff_ops_def comp_def case_prod_beta)
  have key: "shard_index (op_key x) \<noteq> Inr i" if "x \<in> set (diff_ops spends creates affected)" for x
    using that diff_ops_set [of "fst x" "snd x" spends creates affected] Cons.prems
    by (cases x rule: op_key.cases) auto
  have cr: "distinct (map fst ?cr)" by (rule distinct_map_filter [OF assms(3)])
  have sh: "\<forall>op\<in>set ?sp. shard_index op = Inr i" "\<forall>op\<in>set (map fst ?cr). shard_index op = Inr i" by auto
  have disj: "set ?sp \<inter> op_key ` set (diff_ops spends creates affected) = {}"
    "set (map fst ?cr) \<inter> op_key ` set (diff_ops spends creates affected) = {}"
    using key sh by blast+
  have "set ?sp \<inter> set (map fst ?cr) = {}" using assms(4) by auto
  moreover have "distinct (map op_key (diff_ops spends creates affected))" using Cons by simp
  ultimately show ?case
    unfolding split distinct_append set_append set_map [of op_key] Int_Un_distrib
    using cr assms(2) disj by simp
qed

lemma fold_op_map_value:
  assumes "distinct (map op_key ops)"
  shows "(\<forall>i out. (i, DCreate op out) \<in> set ops \<longrightarrow> fold op_map ops U op = Some out) \<and>
    (\<forall>i. (i, DSpend op) \<in> set ops \<longrightarrow> fold op_map ops U op = None) \<and>
    (op \<notin> op_key ` set ops \<longrightarrow> fold op_map ops U op = U op)"
  using assms
proof (induction ops rule: rev_induct)
  case (snoc x ops)
  have d: "distinct (map op_key ops)" "op_key x \<notin> op_key ` set ops" using snoc.prems by auto
  have other: "op_key x \<noteq> op \<Longrightarrow> op_map x W op = W op" for W
    by (cases x rule: op_key.cases) auto
  show ?case
  proof (cases "op_key x = op")
    case True
    then have "op_key y \<noteq> op" if "y \<in> set ops" for y using d(2) that by (metis image_eqI)
    then have "(i, DCreate op out) \<notin> set ops" "(i, DSpend op) \<notin> set ops" for i out by force+
    then show ?thesis using True by (cases x rule: op_key.cases) auto
  next
    case False
    then have "(i, DCreate op out) \<noteq> x" "(i, DSpend op) \<noteq> x" for i out by auto
    then show ?thesis using snoc.IH [OF d(1)] other [OF False] False by auto
  qed
qed simp

lemma apply_diff_ok:
  assumes L: "dec_laws D v" and R: "lru_laws R" and inv: "utxo_inv D v R U s"
    and sp: "distinct spends" "set spends \<subseteq> dom U"
    and cr: "distinct (map fst creates)" "fst ` set creates \<inter> dom U = {}"
    and new: "\<And>op out. (op, out) \<in> set creates \<Longrightarrow> (\<exists>i. shard_index op = Inr i) \<and> fetch_from_store s op = Some out"
    and range: "in_range D v (U ++ map_of creates)"
  shows "\<exists>s'. apply_diff D R s spends creates = Inr s' \<and> utxo_inv D v R (diff_map U spends creates) s'"
proof -
  have st: "U op = Some out \<Longrightarrow> \<exists>i. shard_index op = Inr i" for op out
    using inv by (auto simp: utxo_inv_def store_ok_def)
  define keys where "keys = spends @ map fst creates"
  have "\<exists>idxs. try_map shard_index keys = Inr idxs \<and> (\<forall>op\<in>set keys. \<exists>i\<in>set idxs. shard_index op = Inr i)"
  proof -
    have "\<forall>op\<in>set keys. \<exists>i. shard_index op = Inr i"
      using st sp(2) new by (fastforce simp: keys_def dom_def)
    then show ?thesis by (induction keys) auto
  qed
  then obtain idxs where idxs: "try_map shard_index keys = Inr idxs"
    "\<And>op. op \<in> set keys \<Longrightarrow> \<exists>i\<in>set idxs. shard_index op = Inr i" by blast
  define affected where "affected = sorted_list_of_set (set idxs)"
  have aff: "distinct affected" "set affected = set idxs" by (simp_all add: affected_def)
  define ops where "ops = diff_ops spends creates affected"
  let ?run = "\<lparr>dr_set = s, dr_deferred = [], dr_missed = [], dr_evicted = []\<rparr>"
  have disj: "set spends \<inter> fst ` set creates = {}" using sp(2) cr(2) by blast
  have dist: "distinct (map op_key ops)"
    unfolding ops_def by (rule diff_ops_distinct [OF aff(1) sp(1) cr(1) disj])
  have fits: "\<forall>x\<in>set ops. op_fits (fetch_from_store s) U [] x"
  proof
    fix x assume "x \<in> set ops"
    then obtain i a where x: "x = (i, a)" "(i, a) \<in> set ops" by (metis surj_pair)
    then show "op_fits (fetch_from_store s) U [] x"
      using sp(2) cr(2) new unfolding ops_def diff_ops_set by (cases a) (force simp: dom_def)+
  qed
  have create_iff: "(\<exists>i. (i, DCreate op out) \<in> set ops) \<longleftrightarrow> (op, out) \<in> set creates" for op out
    using idxs(2) aff(2) unfolding ops_def diff_ops_set keys_def by force
  have spend_iff: "(\<exists>i. (i, DSpend op) \<in> set ops) \<longleftrightarrow> op \<in> set spends" for op
    using idxs(2) aff(2) unfolding ops_def diff_ops_set keys_def by force
  have final: "fold op_map ops U = diff_map U spends creates"
  proof
    fix op
    note val = fold_op_map_value [OF dist, where U = U and op = op]
    show "fold op_map ops U op = diff_map U spends creates op"
    proof (cases "map_of creates op")
      case (Some out)
      then have "(op, out) \<in> set creates" by (rule map_of_SomeD)
      then show ?thesis using val create_iff Some by (auto simp: diff_map_def)
    next
      case None
      show ?thesis
      proof (cases "op \<in> set spends")
        case True
        then show ?thesis using val spend_iff None by (auto simp: diff_map_def)
      next
        case False
        have "op \<notin> op_key ` set ops"
        proof
          assume "op \<in> op_key ` set ops"
          then obtain i a where "(i, a) \<in> set ops" "op = op_key (i, a)" by auto
          then consider "(i, DSpend op) \<in> set ops" | out where "(i, DCreate op out) \<in> set ops"
            by (cases a) auto
          then show False
          proof cases
            case 1
            then show False using False spend_iff by blast
          next
            case (2 out)
            then have "(op, out) \<in> set creates" using create_iff by blast
            then show False using None by (force simp: map_of_eq_None_iff)
          qed
        qed
        then show ?thesis using val None False by (simp add: diff_map_def)
      qed
    qed
  qed
  have "fold op_grow ops U \<subseteq>\<^sub>m U ++ map_of creates"
  proof -
    have none: "map_of creates a = None" if "a \<in> dom U" for a
      using cr(2) that by (auto simp: map_of_eq_None_iff)
    have "fold op_grow xs U \<subseteq>\<^sub>m U ++ map_of creates"
      if "\<forall>i op out. (i, DCreate op out) \<in> set xs \<longrightarrow> map_of creates op = Some out" for xs
      using that
    proof (induction xs rule: rev_induct)
      case (snoc x xs)
      then show ?case by (cases x rule: op_key.cases) (auto simp: map_le_def map_add_def)
    qed (simp add: map_le_def map_add_def none)
    moreover have "map_of creates op = Some out" if "(i, DCreate op out) \<in> set ops" for i op out
      using that create_iff cr(1) by (metis map_of_is_SomeI)
    ultimately show ?thesis by blast
  qed
  then have grow: "in_range D v (fold op_grow ops U)" by (rule in_range_submap [OF range])
  have "run_inv D v R U ?run" using inv by (simp add: run_inv_def)
  from diff_steps [OF L R this dist _ grow] fits obtain run U' where
    run: "try_fold (diff_step D R) ?run ops = Inr run" "run_inv D v R U' run"
      "logical U' run = fold op_map ops (logical U ?run)"
    by auto
  have "logical U ?run = U" by (simp add: logical_def restrict_map_def)
  then have lg: "U' |` (- set (dr_missed run)) = diff_map U spends creates"
    using run(3) final by (simp add: logical_def)
  obtain s1 deferred where ms: "try_fold (diff_missed D) (dr_set run, dr_deferred run) (dr_missed run) = Inr (s1, deferred)"
    "utxo_inv D v R (U' |` (- set (dr_missed run))) s1"
    using missed_steps [OF L, of R U' "dr_set run" "dr_missed run" "dr_deferred run"] run(2)
    unfolding run_inv_def by blast
  have "apply_diff D R s spends creates =
      Inr (fold (\<lambda>(op, c) s. addr_index_remove s (c_address c) op) (dr_evicted run) (fold index_op deferred s1))"
    using idxs(1) run(1) ms(1) by (simp add: apply_diff_def keys_def affected_def ops_def)
  with ms(2) lg show ?thesis by (simp add: evicted_inv index_op_inv)
qed

end
