(* ===== verification/UtxoStore.thy ===== *)
theory UtxoStore
  imports UtxoSpec RefDecimal
begin

section \<open>The store interface and its implementation by the sharded set\<close>

text \<open>
  \<open>utxo_store\<close> is what the ledger relies on: a look-up finds what is unspent, a commit spends and
  creates, the supply is the sum over what is unspent. The interpretation shows that the model of
  \<open>ShardedUtxoSet\<close> provides it, for any decimal library and LRU cache that behave as documented.
\<close>

definition same_output :: "(tx_output \<Rightarrow> rat) \<Rightarrow> tx_output \<Rightarrow> tx_output \<Rightarrow> bool" where
  "same_output value o' out \<longleftrightarrow> value o' = value out \<and> o_address o' = o_address out \<and>
     o_asset_id o' = o_asset_id out \<and> o_locked_until o' = o_locked_until out \<and>
     o_spend_condition o' = o_spend_condition out \<and> o_created_at o' = o_created_at out"

locale utxo_store =
  fixes represents :: "umap \<Rightarrow> 's \<Rightarrow> bool"
    and lookup :: "'s \<Rightarrow> output_id \<Rightarrow> panic + tx_output option"
    and commit :: "'s \<Rightarrow> output_id list \<Rightarrow> (output_id \<times> tx_output) list \<Rightarrow> panic + 's"
    and amount_of :: "tx_output \<Rightarrow> rat"
    and supply_at :: "'s \<Rightarrow> string option \<Rightarrow> rat"
    and admits :: "umap \<Rightarrow> 's \<Rightarrow> (output_id \<times> tx_output) list \<Rightarrow> bool"
  assumes finite_map: "represents U s \<Longrightarrow> finite (dom U)"
    and lookup_ok: "represents U s \<Longrightarrow> U op = Some out \<Longrightarrow>
      \<exists>o'. lookup s op = Inr (Some o') \<and> same_output amount_of o' out"
    and supply_ok: "represents U s \<Longrightarrow> supply_at s a = ksum amount_of U asset_key a"
    and admits_fresh: "admits U s creates \<Longrightarrow> distinct (map fst creates) \<and> fst ` set creates \<inter> dom U = {}"
    and commit_ok: "represents U s \<Longrightarrow> distinct spends \<Longrightarrow> set spends \<subseteq> dom U \<Longrightarrow> admits U s creates \<Longrightarrow>
      \<exists>s'. commit s spends creates = Inr s' \<and> represents (diff_map U spends creates) s'"

definition store_state ::
  "'d dec_lib \<Rightarrow> ('d \<Rightarrow> rat) \<Rightarrow> ('c, 'd) lru_lib \<Rightarrow> umap \<Rightarrow> ('c, 'd) utxo_set \<Rightarrow> bool" where
  "store_state D v R U s \<longleftrightarrow> dec_laws D v \<and> text_laws D v \<and> lru_laws R \<and> utxo_inv D v R U s"

definition store_admits ::
  "'d dec_lib \<Rightarrow> ('d \<Rightarrow> rat) \<Rightarrow> umap \<Rightarrow> ('c, 'd) utxo_set \<Rightarrow> (output_id \<times> tx_output) list \<Rightarrow> bool" where
  "store_admits D v U s creates \<longleftrightarrow> distinct (map fst creates) \<and> fst ` set creates \<inter> dom U = {} \<and>
     (\<forall>op out. (op, out) \<in> set creates \<longrightarrow> (\<exists>i. shard_index op = Inr i) \<and> fetch_from_store s op = Some out) \<and>
     in_range D v (U ++ map_of creates)"

definition supply_of ::
  "'d dec_lib \<Rightarrow> ('d \<Rightarrow> rat) \<Rightarrow> ('c, 'd) utxo_set \<Rightarrow> string option \<Rightarrow> rat" where
  "supply_of D v s a = v (fst (circulating_supply_by_asset D s a))"

lemma canonical_same:
  assumes L: "dec_laws D v" and T: "text_laws D v"
  shows "same_output (nominal_val D v) (to_tx_output D (to_compact D out)) out"
proof -
  obtain d' where "d_from_str D (d_show D (c_amount (to_compact D out))) = Some d'"
    "v d' = v (c_amount (to_compact D out))"
    using T by (cases "d_from_str D (o_amount out)") (auto simp: text_laws_def to_compact_def)
  then have "nominal_val D v (to_tx_output D (to_compact D out)) = nominal_val D v out"
    using compact_val [OF L, of out] by (simp add: nominal_val_def to_tx_output_def)
  then show ?thesis by (simp add: same_output_def to_tx_output_def to_compact_def)
qed

lemma supply_query_ok:
  assumes L: "dec_laws D v" and c: "caches_ok D v U s"
  shows "v (fst (circulating_supply_by_asset D s a)) = ksum (nominal_val D v) U asset_key a"
    "snd (circulating_supply_by_asset D s a) = card (keyed U asset_key a)"
proof -
  have "case us_supply s a of None \<Rightarrow> ksum (nominal_val D v) U asset_key a = 0 \<and> ksum one_output U asset_key a = 0
    | Some (t, n) \<Rightarrow> v t = ksum (nominal_val D v) U asset_key a \<and> n = ksum one_output U asset_key a \<and> 0 < n"
    using c by (simp add: caches_ok_def supply_ok_def)
  then show "v (fst (circulating_supply_by_asset D s a)) = ksum (nominal_val D v) U asset_key a"
    "snd (circulating_supply_by_asset D s a) = card (keyed U asset_key a)"
    by (auto simp: circulating_supply_by_asset_def dec_laws_zero [OF L] ksum_def one_output_def split: option.splits)
qed

lemma balance_query_ok:
  assumes L: "dec_laws D v" and c: "caches_ok D v U s"
  shows "v (balance_by_address_and_asset D s address None) = ksum (nominal_val D v) U native_key address"
    "v (balance_by_address_and_asset D s address (Some t)) = ksum (nominal_val D v) U token_key (address, t)"
proof -
  have "(case us_native s address of None \<Rightarrow> 0 | Some d \<Rightarrow> v d) = ksum (nominal_val D v) U native_key address"
    "(case us_token s (address, t) of None \<Rightarrow> 0 | Some d \<Rightarrow> v d) = ksum (nominal_val D v) U token_key (address, t)"
    using c unfolding caches_ok_def cache_ok_def by blast+
  then show "v (balance_by_address_and_asset D s address None) = ksum (nominal_val D v) U native_key address"
    "v (balance_by_address_and_asset D s address (Some t)) = ksum (nominal_val D v) U token_key (address, t)"
    by (auto simp: balance_by_address_and_asset_def balance_by_address_def dec_laws_zero [OF L] split: option.splits)
qed

interpretation sharded: utxo_store "store_state D v R" "utxo_get D R" "apply_diff D R" "nominal_val D v"
  "supply_of D v" "store_admits D v"
  for D :: "'d dec_lib" and v and R :: "('c, 'd) lru_lib"
proof unfold_locales
  fix U :: umap and s :: "('c, 'd) utxo_set" and op out a spends creates
  assume st: "store_state D v R U s"
  then have inv: "utxo_inv D v R U s" and L: "dec_laws D v" and T: "text_laws D v" and R: "lru_laws R"
    by (simp_all add: store_state_def)
  show "finite (dom U)" using inv by (simp add: utxo_inv_def in_range_def)
  show "supply_of D v s a = ksum (nominal_val D v) U asset_key a"
    using supply_query_ok(1) [OF L, of U s a] inv by (simp add: supply_of_def utxo_inv_def)
  show "\<exists>o'. utxo_get D R s op = Inr (Some o') \<and> same_output (nominal_val D v) o' out" if "U op = Some out"
    using utxo_get_ok [OF inv that] canonical_same [OF L T] by (auto simp: same_output_def)
  show "\<exists>s'. apply_diff D R s spends creates = Inr s' \<and> store_state D v R (diff_map U spends creates) s'"
    if "distinct spends" "set spends \<subseteq> dom U" "store_admits D v U s creates"
    using apply_diff_ok [OF L R inv that(1,2), of creates] that(3) st
    by (auto simp: store_admits_def store_state_def)
qed (simp add: store_admits_def)

subsection \<open>An empty set, and a reference cache\<close>

lemma utxo_new_inv: "lru_laws R \<Longrightarrow> utxo_inv D v R Map.empty (utxo_new R n F)"
  by (auto simp: utxo_inv_def in_range_def utotal_def caches_ok_def supply_ok_def cache_ok_def ksum_def
      keyed_def shards_ok_def store_ok_def utxo_new_def shard_count_def lru_laws_def)

definition ref_lru :: "((output_id \<times> 'd compact_output) list, 'd) lru_lib" where
  "ref_lru = \<lparr>l_unbounded = [], l_new = (\<lambda>_. []), l_peek = map_of,
     l_push = (\<lambda>c k x. (AList.update k x c, map_option (Pair k) (map_of c k))),
     l_pop = (\<lambda>c k. (AList.delete k c, map_of c k)), l_iter = AList.clearjunk\<rparr>"

lemma ref_lru_laws: "lru_laws ref_lru"
proof -
  have "(k, x) \<in> set (AList.clearjunk c) \<longleftrightarrow> map_of c k = Some x" for k x and c :: "(output_id \<times> 'a compact_output) list"
    by (metis distinct_clearjunk map_of_clearjunk map_of_eq_Some_iff)
  then show ?thesis
    by (auto simp: lru_laws_def ref_lru_def update_conv' delete_conv' distinct_clearjunk split: option.splits)
qed


definition sample_fetch :: utxo_fetcher where
  "sample_fetch txid i = (if txid = ''a1'' \<and> i = 0 then Some (txoutput_new ''alice'' ''5'' None) else None)"

lemma sample_range:
  "in_range ref_dec ref_val [\<lparr>op_txid = ''a1'', op_index = 0\<rparr> \<mapsto> txoutput_new ''alice'' ''5'' None]"
  by (simp add: in_range_def utotal_def sample_values at_scale_numeral)

lemma sample_admits:
  "store_admits ref_dec ref_val Map.empty (utxo_new ref_lru 0 (Some sample_fetch))
     [(\<lparr>op_txid = ''a1'', op_index = 0\<rparr>, txoutput_new ''alice'' ''5'' None)]"
proof -
  have "shard_index \<lparr>op_txid = ''a1'', op_index = 0\<rparr> = Inr 161" by code_simp
  then show ?thesis
    using sample_range by (simp add: store_admits_def fetch_from_store_def utxo_new_def sample_fetch_def)
qed


text \<open>
  The address index is not immune to eviction: when adding an output makes its shard evict an
  entry (or replace the entry of the same outpoint), the entry's outpoint leaves the index of its
  address, so the outputs of the address are listed without it although a look-up still finds it in
  the store.
\<close>

lemma eviction_forgets_address:
  assumes ok: "utxo_add D R s op out = Inr s'" and i: "shard_index op = Inr i"
    and ev: "snd (l_push R (us_shards s ! i) op (to_compact D out)) = Some (k, c)"
  shows "(k, o') \<notin> utxos_by_address D R s' (c_address c)"
proof -
  obtain s1 where s1: "supply_add_compact D s (to_compact D out) = Inr s1" using ok by (auto simp: utxo_add_def Let_def)
  then have "us_shards s1 = us_shards s"
    by (auto simp: supply_add_compact_def split: option.splits)
  then obtain s2 where "s' = addr_index_remove s2 (c_address c) k"
    using ok s1 i ev by (auto simp: utxo_add_def Let_def split: prod.splits)
  then show ?thesis
    by (auto simp: utxos_by_address_def addr_index_remove_def split: option.splits if_splits)
qed

definition sample_full_set :: "((output_id \<times> rdec compact_output) list, rdec) utxo_set" where
  "sample_full_set = (utxo_new ref_lru 0 (Some sample_fetch))\<lparr>us_shards := (replicate 256 [])
     [161 := [(\<lparr>op_txid = ''a1'', op_index = 0\<rparr>, to_compact ref_dec (txoutput_new ''alice'' ''5'' None))]]\<rparr>"

end
