(* ===== verification/HotPath.thy ===== *)
theory HotPath
  imports Claims UtxoStore
begin

section \<open>The commit of a block on the production path\<close>

text \<open>
  The last third of \<open>do_persist_block_internal\<close> (pms-core net_adapter/persist.rs): from a validated
  payload to the delta of unspent outputs, the replay claims, the atomic claim of the inputs, the
  update of the store and the insertion into the concurrent DAG. The clock value is an argument, as
  is the delta a caller supplies for an encrypted payload. The commit is not one atomic action:
  between the duplicate check and the insertion other blocks of the node run, so the three parts are
  three definitions, and \<open>hot_step\<close> interleaves them.
\<close>

definition custodial_mint_consumed_key :: "string \<Rightarrow> string \<Rightarrow> string" where
  "custodial_mint_consumed_key asset_id mint_nonce = asset_id @ [CHR 0x00] @ mint_nonce"

record utxo_delta =
  ud_spend :: "output_id list"
  ud_create :: "(output_id \<times> tx_output) list"

definition stamp :: "u64 \<Rightarrow> tx_output \<Rightarrow> tx_output" where
  "stamp now_ms out = out\<lparr>o_created_at := Some now_ms\<rparr>"

definition indexed_creates :: "string \<Rightarrow> tx_output list \<Rightarrow> (output_id \<times> tx_output) list" where
  "indexed_creates block_id outs =
     map (\<lambda>(i, out). (\<lparr>op_txid = block_id, op_index = of_nat i\<rparr>, out)) (List.enumerate 0 outs)"

definition stamped_creates :: "u64 \<Rightarrow> string \<Rightarrow> tx_output list \<Rightarrow> (output_id \<times> tx_output) list" where
  "stamped_creates now_ms block_id outs = indexed_creates block_id (map (stamp now_ms) outs)"

fun plain_delta :: "u64 \<Rightarrow> string \<Rightarrow> plain_payload \<Rightarrow> utxo_delta option" where
  "plain_delta now block_id (Mint outputs) = Some \<lparr>ud_spend = [], ud_create = stamped_creates now block_id outputs\<rparr>"
| "plain_delta now block_id (CustodialMint _ outputs _ _ _) =
     Some \<lparr>ud_spend = [], ud_create = stamped_creates now block_id outputs\<rparr>"
| "plain_delta now block_id (TxUtxo tx) =
     Some \<lparr>ud_spend = map ti_out (tx_inputs tx), ud_create = stamped_creates now block_id (tx_outputs tx)\<rparr>"
| "plain_delta now block_id (MarketSettle tx _ _ _ _ _ _) =
     Some \<lparr>ud_spend = map ti_out (tx_inputs tx), ud_create = stamped_creates now block_id (tx_outputs tx)\<rparr>"
| "plain_delta now block_id (TokenBurn tx _ _ _) =
     Some \<lparr>ud_spend = map ti_out (tx_inputs tx), ud_create = stamped_creates now block_id (tx_outputs tx)\<rparr>"
| "plain_delta now block_id (Reward fee_outputs reward_outputs _ _) =
     (let create = indexed_creates block_id
            (map (\<lambda>out. (stamp now out)\<lparr>o_asset_id := None\<rparr>) (fee_outputs @ reward_outputs))
      in if create = [] then None else Some \<lparr>ud_spend = [], ud_create = create\<rparr>)"
| "plain_delta now block_id (BridgeLock inputs _ _ _ _) = Some \<lparr>ud_spend = map ti_out inputs, ud_create = []\<rparr>"
| "plain_delta now block_id (BridgeMint outputs _ _) =
     Some \<lparr>ud_spend = [], ud_create = stamped_creates now block_id outputs\<rparr>"
| "plain_delta now block_id (Seize _ inputs outputs _) =
     Some \<lparr>ud_spend = map ti_out inputs, ud_create = stamped_creates now block_id outputs\<rparr>"
| "plain_delta now block_id (Reverse _ inputs outputs _) =
     Some \<lparr>ud_spend = map ti_out inputs, ud_create = stamped_creates now block_id outputs\<rparr>"
| "plain_delta now block_id _ = None"

definition payload_delta :: "u64 \<Rightarrow> utxo_delta option \<Rightarrow> block \<Rightarrow> utxo_delta option" where
  "payload_delta now external b =
     (case external of
        Some d \<Rightarrow> Some d
      | None \<Rightarrow> (case b_payload b of Some (Plain p) \<Rightarrow> plain_delta now (b_id b) p | _ \<Rightarrow> None))"

subsection \<open>The commit\<close>

datatype put_result = Inserted | AlreadyExists | Rejected string

record ('c, 'd) node =
  nd_dag :: conc_dag
  nd_utxos :: "('c, 'd) utxo_set"

definition bridge_replay_rejected :: "string \<Rightarrow> put_result" where
  "bridge_replay_rejected lock_block_id = Rejected (''bridge lock already consumed (replay): '' @ lock_block_id)"

definition double_spend_rejected :: "output_id \<Rightarrow> put_result" where
  "double_spend_rejected op =
     Rejected (''double-spend: outpoint '' @ op_txid op @ '':'' @ show_nat (unat (op_index op)) @ '' already spent'')"

definition claim_replay :: "block \<Rightarrow> conc_dag \<Rightarrow> put_result option \<times> conc_dag" where
  "claim_replay b d =
     (case b_payload b of
        Some (Plain (BridgeMint _ lock_block_id _)) \<Rightarrow>
          (let (fresh, d') = try_consume_bridge_lock lock_block_id d
           in (if fresh then None else Some (bridge_replay_rejected lock_block_id), d'))
      | Some (Plain (CustodialMint asset_id _ _ _ mint_nonce)) \<Rightarrow>
          (let (fresh, d') = try_consume_custodial_mint (custodial_mint_consumed_key asset_id mint_nonce) d
           in (if fresh then None
               else Some (Rejected (''custodial mint nonce already consumed (replay): '' @ asset_id)), d'))
      | _ \<Rightarrow> (None, d))"

text \<open>\<open>commit_apply\<close> returns the reason of a rejection, if any, and the node, or the panic.\<close>

definition commit_apply ::
  "'d dec_lib \<Rightarrow> ('c, 'd) lru_lib \<Rightarrow> u64 \<Rightarrow> utxo_delta option \<Rightarrow> block \<Rightarrow> ('c, 'd) node
   \<Rightarrow> panic + put_result option \<times> ('c, 'd) node" where
  "commit_apply D R now external b n =
     (let (replayed, d) = claim_replay b (nd_dag n) in
      if replayed \<noteq> None then Inr (replayed, n\<lparr>nd_dag := d\<rparr>)
      else
        (case payload_delta now external b of
           None \<Rightarrow> Inr (None, n\<lparr>nd_dag := d\<rparr>)
         | Some delta \<Rightarrow>
             (case claim_spends (ud_spend delta) [] d of
                (Inl op, d') \<Rightarrow> Inr (Some (double_spend_rejected op), n\<lparr>nd_dag := d'\<rparr>)
              | (Inr _, d') \<Rightarrow>
                  rbind (apply_diff D R (nd_utxos n) (ud_spend delta) (ud_create delta)) (\<lambda>s.
                  Inr (None, n\<lparr>nd_dag := d', nd_utxos := s\<rparr>)))))"

definition commit_insert :: "block \<Rightarrow> ('c, 'd) node \<Rightarrow> ('c, 'd) node" where
  "commit_insert b n = n\<lparr>nd_dag := snd (insert_block b (nd_dag n))\<rparr>"

definition commit_block ::
  "'d dec_lib \<Rightarrow> ('c, 'd) lru_lib \<Rightarrow> u64 \<Rightarrow> utxo_delta option \<Rightarrow> block \<Rightarrow> ('c, 'd) node
   \<Rightarrow> panic + put_result \<times> ('c, 'd) node" where
  "commit_block D R now external b n =
     (if contains_block (nd_dag n) (b_id b) then Inr (AlreadyExists, n)
      else
        rbind (commit_apply D R now external b n) (\<lambda>(rejected, n').
        case rejected of
          Some r \<Rightarrow> Inr (r, n')
        | None \<Rightarrow> Inr (Inserted, commit_insert b n')))"

subsection \<open>The delta agrees with the payload\<close>

definition delta_creates :: "utxo_delta option \<Rightarrow> (output_id \<times> tx_output) list" where
  "delta_creates d = (case d of None \<Rightarrow> [] | Some x \<Rightarrow> ud_create x)"

definition delta_spends :: "utxo_delta option \<Rightarrow> output_id list" where
  "delta_spends d = (case d of None \<Rightarrow> [] | Some x \<Rightarrow> ud_spend x)"

fun settled :: "plain_payload \<Rightarrow> u64 \<Rightarrow> tx_output \<Rightarrow> tx_output" where
  "settled (Reward _ _ _ _) now = (\<lambda>out. (stamp now out)\<lparr>o_asset_id := None\<rparr>)"
| "settled _ now = stamp now"

text \<open>
  What a plain payload creates is what its \<open>outputs\<close> accessor announces, in the same order and
  under the same indices, stamped with the system clock (rewards forced to the native asset); what it
  spends are the inputs of its transaction, when it wraps one.
\<close>

lemma delta_agrees_with_outputs:
  "delta_creates (plain_delta now block_id p) =
     indexed_creates block_id (map (settled p now) (case payload_outputs p of None \<Rightarrow> [] | Some outs \<Rightarrow> outs)) \<and>
   (case payload_tx p of None \<Rightarrow> True
    | Some tx \<Rightarrow> delta_spends (plain_delta now block_id p) = map ti_out (tx_inputs tx))"
  by (cases p) (auto simp: delta_creates_def delta_spends_def stamped_creates_def indexed_creates_def Let_def)

text \<open>The replay key of a custodial mint identifies its asset and its nonce.\<close>

lemma custodial_key_injective:
  assumes "CHR 0x00 \<notin> set a" and "CHR 0x00 \<notin> set a'"
    and "custodial_mint_consumed_key a nonce = custodial_mint_consumed_key a' nonce'"
  shows "a = a' \<and> nonce = nonce'"
  using assms by (auto simp: custodial_mint_consumed_key_def append_eq_append_conv2 append_eq_Cons_conv Cons_eq_append_conv)

end
