(* ===== verification/Ledger.thy ===== *)
theory Ledger
  imports TxValidation HotPath
begin

section \<open>Validation and commit together: what a transfer does to the supply\<close>

text \<open>
  The production path validates a transaction against the store and commits its spends and creations.
  Inside the interface \<open>utxo_store\<close> the supply of an asset after a commit is the supply before, less
  what the inputs were worth, plus what the outputs are worth; with the validation's conservation
  rule this bounds the supply, for any provider of the interface, and in particular for the sharded
  set.
\<close>

lemma stamped_outputs: "map snd (stamped_creates now block_id outs) = map (stamp now) outs"
  by (simp add: stamped_creates_def indexed_creates_def comp_def case_prod_beta)

lemma nominal_stamp [simp]: "nominal_val D v (stamp now out) = nominal_val D v out"
  by (simp add: nominal_val_def stamp_def)

lemma stamped_total: "asset_total (nominal_val D v) a (map (stamp now) outs) = asset_total (nominal_val D v) a outs"
  by (induction outs) (auto simp: asset_total_def stamp_def nominal_val_def)

subsection \<open>Sums over a commit\<close>

definition keyed_total :: "(tx_output \<Rightarrow> 'b::comm_monoid_add) \<Rightarrow> (tx_output \<Rightarrow> 'k option) \<Rightarrow> 'k \<Rightarrow> tx_output list \<Rightarrow> 'b" where
  "keyed_total f key k outs = sum_list (map (\<lambda>out. if key out = Some k then f out else 0) outs)"

lemma ksum_spend_all:
  assumes "finite (dom U)" and "distinct sps" and "list_all2 (\<lambda>sp out. U sp = Some out) sps outs"
  shows "ksum f U key k = ksum f (U |` (- set sps)) key k + keyed_total f key k outs"
  using assms
proof (induction sps arbitrary: U outs)
  case Nil
  then show ?case by (simp add: keyed_total_def restrict_map_def)
next
  case (Cons sp sps)
  obtain out outs' where o: "outs = out # outs'" "U sp = Some out" "list_all2 (\<lambda>sp out. U sp = Some out) sps outs'"
    using Cons.prems(3) by (auto simp: list_all2_Cons1)
  have "list_all2 (\<lambda>x out. (U(sp := None)) x = Some out) sps outs'"
    by (rule list.rel_mono_strong [OF o(3)]) (use Cons.prems(2) in auto)
  then have "ksum f (U(sp := None)) key k = ksum f (U(sp := None) |` (- set sps)) key k + keyed_total f key k outs'"
    using Cons.prems(1,2) by (intro Cons.IH) (simp_all only: dom_fun_upd distinct.simps finite_Diff if_True option.simps simp_thms)
  moreover have "U(sp := None) |` (- set sps) = U |` (- set (sp # sps))"
    by (auto simp: restrict_map_def fun_eq_iff)
  ultimately show ?case
    using ksum_delete [OF Cons.prems(1) o(2), of f key k] o(1) by (simp add: keyed_total_def ac_simps)
qed

lemma ksum_create_all:
  assumes "finite (dom W)" and "distinct (map fst cr)" and "fst ` set cr \<inter> dom W = {}"
  shows "ksum f (W ++ map_of cr) key k = ksum f W key k + keyed_total f key k (map snd cr)"
  using assms
proof (induction cr)
  case Nil
  then show ?case by (simp add: keyed_total_def)
next
  case (Cons c cr)
  obtain op out where c: "c = (op, out)" by (cases c)
  have eq: "W ++ map_of (c # cr) = (W ++ map_of cr)(op := Some out)" by (simp add: c)
  have "(W ++ map_of cr) op = None"
    using Cons.prems c by (auto simp: map_add_None map_of_eq_None_iff)
  moreover have "finite (dom (W ++ map_of cr))" using Cons.prems(1) by (simp add: finite_dom_map_of)
  ultimately have step: "ksum f (W ++ map_of (c # cr)) key k
      = ksum f (W ++ map_of cr) key k + (if key out = Some k then f out else 0)"
    unfolding eq by (intro ksum_update)
  have ih: "ksum f (W ++ map_of cr) key k = ksum f W key k + keyed_total f key k (map snd cr)"
    by (rule Cons.IH) (use Cons.prems in auto)
  have "keyed_total f key k (map snd (c # cr)) = keyed_total f key k (map snd cr) + (if key out = Some k then f out else 0)"
    by (simp add: keyed_total_def c add.commute)
  then show ?case unfolding step ih by (simp only: add.assoc)
qed

lemma diff_map_parts: "diff_map U sps cr = (U |` (- set sps)) ++ map_of cr"
  by (auto simp: diff_map_def restrict_map_def map_add_def fun_eq_iff split: option.splits)

lemma keyed_total_asset: "keyed_total f asset_key a outs = asset_total f a outs"
  by (induction outs) (auto simp: keyed_total_def asset_total_def asset_key_def)

context utxo_store
begin

lemma lookup_values:
  assumes "represents U s" and "list_all2 (\<lambda>sp out. lookup s sp = Inr (Some out)) sps outs" and "set sps \<subseteq> dom U"
  shows "list_all2 (\<lambda>sp out. \<exists>o'. U sp = Some o' \<and> same_output amount_of out o') sps outs"
  using assms(2,3)
proof (induction rule: list_all2_induct)
  case (Cons sp sps out outs)
  then obtain o' where "U sp = Some o'" by auto
  with lookup_ok [OF assms(1) this] Cons show ?case by auto
qed simp

lemma commit_supply:
  assumes st: "represents U s" and sps: "distinct sps" "set sps \<subseteq> dom U"
    and outs: "list_all2 (\<lambda>sp out. lookup s sp = Inr (Some out)) sps outs" and ad: "admits U s creates"
  shows "\<exists>s'. commit s sps creates = Inr s' \<and> (\<forall>a. supply_at s' a
    = supply_at s a - asset_total amount_of a outs + asset_total amount_of a (map snd creates))"
proof -
  obtain s' where s': "commit s sps creates = Inr s'" "represents (diff_map U sps creates) s'"
    using commit_ok [OF st sps ad] by blast
  define os where "os = map (\<lambda>sp. the (U sp)) sps"
  have os: "list_all2 (\<lambda>sp out. U sp = Some out) sps os" "list_all2 (same_output amount_of) outs os"
    using lookup_values [OF st outs sps(2)] by (auto simp: os_def list_all2_conv_all_nth)
  have same: "asset_total amount_of a os = asset_total amount_of a outs" for a
    using os(2) by (induction rule: list_all2_induct) (auto simp: asset_total_def same_output_def)
  have fin: "finite (dom U)" by (rule finite_map [OF st])
  have "supply_at s' a = supply_at s a - asset_total amount_of a outs + asset_total amount_of a (map snd creates)" for a
  proof -
    have cr: "distinct (map fst creates)" "fst ` set creates \<inter> dom (U |` (- set sps)) = {}"
      using admits_fresh [OF ad] by auto
    have "finite (dom (U |` (- set sps)))" using fin by simp
    from ksum_create_all [OF this cr, of amount_of asset_key a] ksum_spend_all [OF fin sps(1) os(1), of amount_of asset_key a]
    show ?thesis
      using supply_ok [OF st] supply_ok [OF s'(2)] same by (simp add: diff_map_parts keyed_total_asset)
  qed
  with s'(1) show ?thesis by blast
qed

end


definition sample_store_fetch :: utxo_fetcher where
  "sample_store_fetch txid i =
     (if txid = ''genesis'' \<and> i = 0 then Some (txoutput_new sample_key ''4'' None)
      else if txid = ''b1'' \<and> i = 0 then Some (stamp 7 (txoutput_new sample_key ''3'' None))
      else if txid = ''b1'' \<and> i = 1 then Some (stamp 7 (txoutput_new ''fees'' ''1'' None)) else None)"

lemma sample_indexes:
  "shard_index \<lparr>op_txid = ''genesis'', op_index = 0\<rparr> = Inr 0" "shard_index \<lparr>op_txid = ''b1'', op_index = 0\<rparr> = Inr 177"
  "shard_index \<lparr>op_txid = ''b1'', op_index = 1\<rparr> = Inr 177"
  by code_simp+

lemma sample_creates:
  "stamped_creates 7 ''b1'' (tx_outputs sample_tx) = [(\<lparr>op_txid = ''b1'', op_index = 0\<rparr>, stamp 7 (txoutput_new sample_key ''3'' None)),
     (\<lparr>op_txid = ''b1'', op_index = 1\<rparr>, stamp 7 (txoutput_new ''fees'' ''1'' None))]"
  by (simp add: stamped_creates_def indexed_creates_def sample_tx_outs)

lemma in_range_add:
  assumes "in_range D v U" and "U op = None" and "at_scale 8 (nominal_val D v out)" "0 \<le> nominal_val D v out"
    and "utotal (nominal_val D v) U + nominal_val D v out \<le> 10 ^ 20"
  shows "in_range D v (U(op := Some out))"
  using assms utotal_update [of U op "nominal_val D v" out] by (auto simp: in_range_def)

lemma in_range_empty: "in_range D v Map.empty"
  by (simp add: in_range_def utotal_def)

lemma utotal_empty: "utotal f Map.empty = 0"
  by (simp add: utotal_def)

lemma index_fallback [simp]:
  "us_fallback (addr_index_add s a op) = us_fallback s" "us_fallback (addr_index_remove s a op) = us_fallback s"
  by (auto simp: addr_index_add_def addr_index_remove_def split: option.splits)

lemma supply_add_fallback: "supply_add_compact D s c = Inr s' \<Longrightarrow> us_fallback s' = us_fallback s"
  by (auto simp: supply_add_compact_def split: option.splits)

lemma utxo_add_fallback: "utxo_add D R s op out = Inr s' \<Longrightarrow> us_fallback s' = us_fallback s"
  by (auto simp: utxo_add_def Let_def case_prod_beta dest!: supply_add_fallback split: option.splits)

lemma empty_map_none: "Map.empty k = None"
  by simp


end
