(* ===== verification/HotSteps.thy ===== *)
theory HotSteps
  imports HotPath
begin

section \<open>Interleaved commits\<close>

text \<open>
  Several blocks are committed at once by the tasks of the node. \<open>hot_step\<close> is one step of any task:
  a block passes the duplicate check, a checked block is applied (or rejected), an applied block is
  inserted. \<open>h_log\<close> is a ghost: the deltas applied so far, latest first. The theorems hold for every
  interleaving and for every clock value and caller's delta.
\<close>

record ('c, 'd) hot =
  h_node :: "('c, 'd) node"
  h_checked :: "block list"
  h_applied :: "block list"
  h_log :: "(block \<times> utxo_delta) list"

definition delta_or_empty :: "utxo_delta option \<Rightarrow> utxo_delta" where
  "delta_or_empty d = (case d of None \<Rightarrow> \<lparr>ud_spend = [], ud_create = []\<rparr> | Some x \<Rightarrow> x)"

inductive hot_step :: "'d dec_lib \<Rightarrow> ('c, 'd) lru_lib \<Rightarrow> ('c, 'd) hot \<Rightarrow> ('c, 'd) hot \<Rightarrow> bool"
  for D :: "'d dec_lib" and R :: "('c, 'd) lru_lib" where
  hs_check: "\<not> contains_block (nd_dag (h_node h)) (b_id b) \<Longrightarrow>
    hot_step D R h (h\<lparr>h_checked := b # h_checked h\<rparr>)"
| hs_apply: "b \<in> set (h_checked h) \<Longrightarrow> commit_apply D R now external b (h_node h) = Inr (None, n) \<Longrightarrow>
    hot_step D R h (h\<lparr>h_node := n, h_checked := remove1 b (h_checked h), h_applied := b # h_applied h,
      h_log := (b, delta_or_empty (payload_delta now external b)) # h_log h\<rparr>)"
| hs_reject: "b \<in> set (h_checked h) \<Longrightarrow> commit_apply D R now external b (h_node h) = Inr (Some r, n) \<Longrightarrow>
    hot_step D R h (h\<lparr>h_node := n, h_checked := remove1 b (h_checked h)\<rparr>)"
| hs_insert: "b \<in> set (h_applied h) \<Longrightarrow>
    hot_step D R h (h\<lparr>h_node := commit_insert b (h_node h), h_applied := remove1 b (h_applied h)\<rparr>)"

inductive_cases hot_stepE: "hot_step D R h h'"

definition hot_start :: "nat \<Rightarrow> ('c, 'd) utxo_set \<Rightarrow> ('c, 'd) hot" where
  "hot_start max_blocks s =
     \<lparr>h_node = \<lparr>nd_dag = conc_dag_new max_blocks 0, nd_utxos = s\<rparr>, h_checked = [], h_applied = [], h_log = []\<rparr>"

definition log_spends :: "(block \<times> utxo_delta) list \<Rightarrow> output_id list" where
  "log_spends entries = concat (map (\<lambda>(b, d). ud_spend d) entries)"

fun minted_lock :: "block \<Rightarrow> string list" where
  "minted_lock b = (case b_payload b of Some (Plain (BridgeMint _ l _)) \<Rightarrow> [l] | _ \<Rightarrow> [])"

fun minted_nonce :: "block \<Rightarrow> string list" where
  "minted_nonce b =
     (case b_payload b of
        Some (Plain (CustodialMint a _ _ _ nonce)) \<Rightarrow> [custodial_mint_consumed_key a nonce] | _ \<Rightarrow> [])"

declare minted_lock.simps [simp del] minted_nonce.simps [simp del]

definition claims_hold :: "('c, 'd) hot \<Rightarrow> bool" where
  "claims_hold h \<longleftrightarrow> (let d = nd_dag (h_node h); entries = h_log h in
     cd_max_spent d = 0 \<and>
     distinct (log_spends entries) \<and> set (log_spends entries) \<subseteq> cd_spent d \<and>
     distinct (concat (map (minted_lock \<circ> fst) entries)) \<and>
     set (concat (map (minted_lock \<circ> fst) entries)) \<subseteq> cd_bridge_locks d \<and>
     distinct (concat (map (minted_nonce \<circ> fst) entries)) \<and>
     set (concat (map (minted_nonce \<circ> fst) entries)) \<subseteq> cd_custodial_mints d)"

subsection \<open>What the parts of a commit keep\<close>

definition same_claims :: "conc_dag \<Rightarrow> conc_dag \<Rightarrow> bool" where
  "same_claims d d' \<longleftrightarrow> cd_max_spent d' = cd_max_spent d \<and> cd_max_blocks d' = cd_max_blocks d \<and> cd_bridge_locks d' = cd_bridge_locks d \<and>
     cd_custodial_mints d' = cd_custodial_mints d"

lemma same_claims_refl [simp]: "same_claims d d"
  by (simp add: same_claims_def)

lemma link_parents_claims:
  "same_claims d (fold (link_parent c) ps d) \<and> cd_spent (fold (link_parent c) ps d) = cd_spent d"
  by (induction ps arbitrary: d) (auto simp: link_parent_def same_claims_def)

lemma prune_claims: "same_claims d (prune_oldest d) \<and> cd_spent (prune_oldest d) = cd_spent d"
  by (auto simp: prune_oldest_def remove_blocks_def same_claims_def Let_def split: prod.split)

lemma insert_block_claims:
  "same_claims d (snd (insert_block b d)) \<and> cd_spent (snd (insert_block b d)) = cd_spent d"
  using link_parents_claims [of d "b_id b" "b_parents b"]
    prune_claims [of "(place_block b d)\<lparr>cd_insertion_order := cd_insertion_order (place_block b d) @ [b_id b],
      cd_insert_counter := cd_insert_counter (place_block b d) + 1\<rparr>"]
  by (auto simp: insert_block_def place_block_def same_claims_def Let_def)

lemma mark_claims: "same_claims d (snd (try_mark_spent op d))"
  by (auto simp: try_mark_spent_def same_claims_def Let_def split: prod.split)

lemma unmark_claims: "same_claims d (fold unmark_spent ops d)"
  by (induction ops arbitrary: d) (auto simp: unmark_spent_def same_claims_def)

lemma same_claims_trans: "same_claims a b \<Longrightarrow> same_claims b c \<Longrightarrow> same_claims a c"
  by (simp add: same_claims_def)

lemma claim_spends_claims: "same_claims d (snd (claim_spends sps claimed d))"
proof (induction sps arbitrary: claimed d)
  case (Cons sp sps)
  have m: "same_claims d (snd (try_mark_spent sp d))" by (rule mark_claims)
  show ?case
  proof (cases "sp \<in> cd_spent d")
    case True
    then show ?thesis using same_claims_trans [OF m unmark_claims] by (simp add: claim_spends_split)
  next
    case False
    then show ?thesis using same_claims_trans [OF m Cons.IH] by (simp add: claim_spends_split)
  qed
qed simp

lemma claim_replay_fresh:
  assumes "claim_replay b d = (r, d')"
  shows "cd_spent d' = cd_spent d" "cd_max_spent d' = cd_max_spent d"
    "cd_bridge_locks d \<subseteq> cd_bridge_locks d'" "cd_custodial_mints d \<subseteq> cd_custodial_mints d'"
    "r = None \<Longrightarrow> set (minted_lock b) \<inter> cd_bridge_locks d = {} \<and> set (minted_lock b) \<subseteq> cd_bridge_locks d' \<and>
       set (minted_nonce b) \<inter> cd_custodial_mints d = {} \<and> set (minted_nonce b) \<subseteq> cd_custodial_mints d'"
  using assms
  by (auto simp: claim_replay_def try_consume_bridge_lock_def try_consume_custodial_mint_def Let_def
      minted_lock.simps minted_nonce.simps
      split: option.splits payload_envelope.splits plain_payload.splits if_splits)

lemma minted_at_most_one: "distinct (minted_lock b)" "distinct (minted_nonce b)"
  by (auto simp: minted_lock.simps minted_nonce.simps
      split: option.splits payload_envelope.splits plain_payload.splits)

lemma commit_apply_rejected:
  assumes "commit_apply D R now external b n = Inr (Some r, n')" and "cd_max_spent (nd_dag n) = 0"
  shows "cd_spent (nd_dag n) \<subseteq> cd_spent (nd_dag n')" "cd_max_spent (nd_dag n') = 0"
    "cd_bridge_locks (nd_dag n) \<subseteq> cd_bridge_locks (nd_dag n')"
    "cd_custodial_mints (nd_dag n) \<subseteq> cd_custodial_mints (nd_dag n')"
proof -
  obtain rep d where rep: "claim_replay b (nd_dag n) = (rep, d)" by force
  note fresh = claim_replay_fresh [OF rep]
  have "nd_dag n' = d \<or> (\<exists>sps op. claim_spends sps [] d = (Inl op, nd_dag n'))"
    using assms(1) rep
    by (auto simp: commit_apply_def Let_def split: if_splits option.splits prod.splits sum.splits)
  then have "cd_spent (nd_dag n') = cd_spent (nd_dag n) \<and> same_claims d (nd_dag n')"
  proof (elim disjE exE)
    assume "nd_dag n' = d"
    then show ?thesis using fresh by simp
  next
    fix sps op
    assume "claim_spends sps [] d = (Inl op, nd_dag n')"
    then show ?thesis
      using claim_spends_result [of sps d "[]"] claim_spends_claims [of d sps "[]"]
        fresh assms(2) by (simp add: room_def)
  qed
  then show "cd_spent (nd_dag n) \<subseteq> cd_spent (nd_dag n')" "cd_max_spent (nd_dag n') = 0"
    "cd_bridge_locks (nd_dag n) \<subseteq> cd_bridge_locks (nd_dag n')"
    "cd_custodial_mints (nd_dag n) \<subseteq> cd_custodial_mints (nd_dag n')"
    using fresh assms(2) by (auto simp: same_claims_def)
qed

lemma commit_apply_accepted:
  assumes "commit_apply D R now external b n = Inr (None, n')" and "cd_max_spent (nd_dag n) = 0"
  defines "delta \<equiv> delta_or_empty (payload_delta now external b)"
  shows "cd_max_spent (nd_dag n') = 0" "distinct (ud_spend delta)" "set (ud_spend delta) \<inter> cd_spent (nd_dag n) = {}"
    "cd_spent (nd_dag n') = cd_spent (nd_dag n) \<union> set (ud_spend delta)"
    "set (minted_lock b) \<inter> cd_bridge_locks (nd_dag n) = {}"
    "cd_bridge_locks (nd_dag n) \<union> set (minted_lock b) \<subseteq> cd_bridge_locks (nd_dag n')"
    "set (minted_nonce b) \<inter> cd_custodial_mints (nd_dag n) = {}"
    "cd_custodial_mints (nd_dag n) \<union> set (minted_nonce b) \<subseteq> cd_custodial_mints (nd_dag n')"
proof -
  obtain rep d where rep: "claim_replay b (nd_dag n) = (rep, d)" by force
  note fresh = claim_replay_fresh [OF rep]
  have none: "rep = None" using assms(1) rep by (auto simp: commit_apply_def split: if_splits)
  have "delta = \<lparr>ud_spend = [], ud_create = []\<rparr> \<and> nd_dag n' = d
    \<or> (\<exists>u. claim_spends (ud_spend delta) [] d = (Inr u, nd_dag n'))"
    using assms(1) rep none
    by (auto simp: commit_apply_def delta_def delta_or_empty_def Let_def split: if_splits option.splits prod.splits sum.splits)
  then have s: "distinct (ud_spend delta) \<and> set (ud_spend delta) \<inter> cd_spent d = {} \<and>
    cd_spent (nd_dag n') = cd_spent d \<union> set (ud_spend delta) \<and> same_claims d (nd_dag n')"
    using claim_spends_result [of "ud_spend delta" d "[]"] claim_spends_claims [of d "ud_spend delta" "[]"]
      fresh assms(2) by (elim disjE exE) (simp_all add: room_def)
  show "cd_max_spent (nd_dag n') = 0" "distinct (ud_spend delta)" "set (ud_spend delta) \<inter> cd_spent (nd_dag n) = {}"
    "cd_spent (nd_dag n') = cd_spent (nd_dag n) \<union> set (ud_spend delta)"
    "set (minted_lock b) \<inter> cd_bridge_locks (nd_dag n) = {}"
    "cd_bridge_locks (nd_dag n) \<union> set (minted_lock b) \<subseteq> cd_bridge_locks (nd_dag n')"
    "set (minted_nonce b) \<inter> cd_custodial_mints (nd_dag n) = {}"
    "cd_custodial_mints (nd_dag n) \<union> set (minted_nonce b) \<subseteq> cd_custodial_mints (nd_dag n')"
    using s fresh none assms(2) by (auto simp: same_claims_def)
qed

lemma hot_step_claims:
  assumes "hot_step D R h h'" and "claims_hold h"
  shows "claims_hold h'"
  using assms
proof (cases rule: hot_step.cases)
  case (hs_apply b now external n)
  let ?e = "delta_or_empty (payload_delta now external b)"
  have m: "cd_max_spent (nd_dag (h_node h)) = 0" using assms(2) by (simp add: claims_hold_def Let_def)
  note acc = commit_apply_accepted [OF hs_apply(3) m]
  have logs: "log_spends ((b, ?e) # h_log h) = ud_spend ?e @ log_spends (h_log h)" by (simp add: log_spends_def)
  show ?thesis
    using assms(2) acc minted_at_most_one [of b] unfolding hs_apply(1) claims_hold_def Let_def
    by (auto simp: logs)
next
  case (hs_reject b now external r n)
  have m: "cd_max_spent (nd_dag (h_node h)) = 0" using assms(2) by (simp add: claims_hold_def Let_def)
  show ?thesis
    using assms(2) commit_apply_rejected [OF hs_reject(3) m] unfolding hs_reject(1) claims_hold_def Let_def by auto
next
  case (hs_insert b)
  then show ?thesis
    using assms(2) insert_block_claims [of "nd_dag (h_node h)" b]
    by (simp add: claims_hold_def Let_def commit_insert_def same_claims_def)
qed (simp add: claims_hold_def)

lemma hot_steps_claims: "(hot_step D R)\<^sup>*\<^sup>* h h' \<Longrightarrow> claims_hold h \<Longrightarrow> claims_hold h'"
  by (induction rule: rtranclp_induct) (auto intro: hot_step_claims)

lemma claims_start: "claims_hold (hot_start m s)"
  by (simp add: claims_hold_def hot_start_def conc_dag_new_def log_spends_def)


lemma commit_apply_blocks:
  assumes "commit_apply D R now external b n = Inr (r, n')"
  shows "cd_max_blocks (nd_dag n') = cd_max_blocks (nd_dag n)"
proof -
  obtain rep d where rep: "claim_replay b (nd_dag n) = (rep, d)" by force
  then have "cd_max_blocks d = cd_max_blocks (nd_dag n)"
    by (auto simp: claim_replay_def try_consume_bridge_lock_def try_consume_custodial_mint_def
        split: option.splits payload_envelope.splits plain_payload.splits)
  moreover have "nd_dag n' = d \<or> (\<exists>sps. nd_dag n' = snd (claim_spends sps [] d))"
    using assms rep by (auto simp: commit_apply_def split: if_splits option.splits prod.splits sum.splits)
      (metis snd_conv)+
  ultimately show ?thesis using claim_spends_claims by (auto simp: same_claims_def)
qed

lemma commit_apply_not_inserted: "commit_apply D R now external b n \<noteq> Inr (Some Inserted, n')"
  by (auto simp: commit_apply_def claim_replay_def bridge_replay_rejected_def double_spend_rejected_def
      split: if_splits option.splits prod.splits sum.splits payload_envelope.splits plain_payload.splits)

subsection \<open>A block without inputs can be applied twice\<close>

lemma mint_applies:
  assumes "b_payload b = Some (Plain (Mint outs))"
    and "apply_diff D R (nd_utxos n) [] (stamped_creates now (b_id b) outs) = Inr s"
  shows "commit_apply D R now None b n = Inr (None, n\<lparr>nd_utxos := s\<rparr>)"
  using assms by (cases n) (simp add: commit_apply_def claim_replay_def payload_delta_def)

type_synonym ref_set = "((output_id \<times> rdec compact_output) list, rdec) utxo_set"

definition sample_mint :: block where
  "sample_mint = (sample_block ''b1'' [])\<lparr>b_payload := Some (Plain (Mint [txoutput_new ''a'' ''5'' None]))\<rparr>"

definition sample_mint_once :: "panic + ref_set" where
  "sample_mint_once = apply_diff ref_dec ref_lru (utxo_new ref_lru 0 None) []
     (stamped_creates 7 ''b1'' [txoutput_new ''a'' ''5'' None])"

definition sample_mint_twice :: "panic + ref_set" where
  "sample_mint_twice = rbind sample_mint_once (\<lambda>s. apply_diff ref_dec ref_lru s []
     (stamped_creates 7 ''b1'' [txoutput_new ''a'' ''5'' None]))"

lemma sample_mint_supply:
  "case sample_mint_twice of Inl _ \<Rightarrow> False
   | Inr s \<Rightarrow> us_supply s None = Some ((10, 0), 2) \<and> us_native s ''a'' = Some (10, 0) \<and> us_address_index s ''a'' = None"
  by code_simp

lemma sample_mint_states:
  obtains s1 s2 :: ref_set where
    "apply_diff ref_dec ref_lru (utxo_new ref_lru 0 None) [] (stamped_creates 7 ''b1'' [txoutput_new ''a'' ''5'' None]) = Inr s1"
    "apply_diff ref_dec ref_lru s1 [] (stamped_creates 7 ''b1'' [txoutput_new ''a'' ''5'' None]) = Inr s2"
    "us_supply s2 None = Some ((10, 0), 2)" "us_native s2 ''a'' = Some (10, 0)" "us_address_index s2 ''a'' = None"
proof -
  obtain s2 where s2: "sample_mint_twice = Inr s2" "us_supply s2 None = Some ((10, 0), 2)"
    "us_native s2 ''a'' = Some (10, 0)" "us_address_index s2 ''a'' = None"
    using sample_mint_supply by (auto split: sum.splits)
  moreover obtain s1 where "sample_mint_once = Inr s1"
    "apply_diff ref_dec ref_lru s1 [] (stamped_creates 7 ''b1'' [txoutput_new ''a'' ''5'' None]) = Inr s2"
    using s2(1) unfolding sample_mint_twice_def rbind_eq_Inr by blast
  ultimately show thesis using that unfolding sample_mint_once_def by blast
qed

lemma sample_mint_fields:
  "b_payload sample_mint = Some (Plain (Mint [txoutput_new ''a'' ''5'' None]))" "b_id sample_mint = ''b1''"
  by (simp_all add: sample_mint_def sample_block_def)

lemma mint_twice_reachable:
  assumes b: "b_payload b = Some (Plain (Mint outs))"
    and a1: "apply_diff D R s [] (stamped_creates now (b_id b) outs) = Inr s1"
    and a2: "apply_diff D R s1 [] (stamped_creates now (b_id b) outs) = Inr s2"
  shows "\<exists>h. (hot_step D R)\<^sup>*\<^sup>* (hot_start m s) h \<and> map fst (h_log h) = [b, b] \<and> nd_utxos (h_node h) = s2"
proof -
  let ?h0 = "hot_start m s :: ('a, 'b) hot" and ?d = "\<lparr>ud_spend = [], ud_create = stamped_creates now (b_id b) outs\<rparr>"
  let ?h1 = "?h0\<lparr>h_checked := [b]\<rparr>" and ?h2 = "?h0\<lparr>h_checked := [b, b]\<rparr>"
  let ?n1 = "(h_node ?h0)\<lparr>nd_utxos := s1\<rparr>" and ?n2 = "(h_node ?h0)\<lparr>nd_utxos := s2\<rparr>"
  let ?h3 = "?h0\<lparr>h_node := ?n1, h_checked := [b], h_applied := [b], h_log := [(b, ?d)]\<rparr>"
  let ?h4 = "?h0\<lparr>h_node := ?n2, h_checked := [], h_applied := [b, b], h_log := [(b, ?d), (b, ?d)]\<rparr>"
  have d: "delta_or_empty (payload_delta now None b) = ?d"
    using b by (simp add: payload_delta_def delta_or_empty_def)
  have new: "\<not> contains_block (nd_dag (h_node ?h0)) (b_id b)" "\<not> contains_block (nd_dag (h_node ?h1)) (b_id b)"
    by (simp_all add: hot_start_def conc_dag_new_def contains_block_def)
  have "hot_step D R ?h0 ?h1"
    using hs_check [where D = D and R = R and h = ?h0 and b = b, OF new(1)] by (simp add: hot_start_def)
  moreover have "hot_step D R ?h1 ?h2"
    using hs_check [where D = D and R = R and h = ?h1 and b = b, OF new(2)] by (simp add: hot_start_def)
  moreover have "hot_step D R ?h2 ?h3"
    using hs_apply [where D = D and R = R and h = ?h2 and b = b and now = now and external = None and n = ?n1]
      mint_applies [OF b, of D R "h_node ?h0" now s1] a1 by (simp add: d hot_start_def)
  moreover have "hot_step D R ?h3 ?h4"
    using hs_apply [where D = D and R = R and h = ?h3 and b = b and now = now and external = None and n = ?n2]
      mint_applies [OF b, of D R ?n1 now s2] a2 by (simp add: d hot_start_def)
  ultimately have "(hot_step D R)\<^sup>*\<^sup>* ?h0 ?h4" by (meson rtranclp.rtrancl_into_rtrancl rtranclp.rtrancl_refl)
  then show ?thesis by (intro exI [of _ ?h4]) simp
qed

text \<open>
  A minting block submitted twice at the same time inflates the caches: an interleaving exists in
  which both submissions pass the duplicate check before either is inserted, the block creating one
  output of five units is applied twice, the supply and the balance become ten units in two outputs,
  and the output is missing from the address index. (Two commits one after the other cannot do
  this.)
\<close>

lemma concurrent_mint_applied_twice:
  "\<exists>h :: ((output_id \<times> rdec compact_output) list, rdec) hot.
     (hot_step ref_dec ref_lru)\<^sup>*\<^sup>* (hot_start 0 (utxo_new ref_lru 0 None)) h \<and>
     map fst (h_log h) = [sample_mint, sample_mint] \<and>
     circulating_supply ref_dec (nd_utxos (h_node h)) = ((10, 0), 2) \<and>
     balance_by_address ref_dec (nd_utxos (h_node h)) ''a'' = (10, 0) \<and>
     us_address_index (nd_utxos (h_node h)) ''a'' = None"
proof -
  obtain s1 s2 :: ref_set where s:
    "apply_diff ref_dec ref_lru (utxo_new ref_lru 0 None) [] (stamped_creates 7 ''b1'' [txoutput_new ''a'' ''5'' None]) = Inr s1"
    "apply_diff ref_dec ref_lru s1 [] (stamped_creates 7 ''b1'' [txoutput_new ''a'' ''5'' None]) = Inr s2"
    "us_supply s2 None = Some ((10, 0), 2)" "us_native s2 ''a'' = Some (10, 0)" "us_address_index s2 ''a'' = None"
    by (rule sample_mint_states)
  obtain h where "(hot_step ref_dec ref_lru)\<^sup>*\<^sup>* (hot_start 0 (utxo_new ref_lru 0 None)) h"
    "map fst (h_log h) = [sample_mint, sample_mint]" "nd_utxos (h_node h) = s2"
    using mint_twice_reachable [OF sample_mint_fields(1), of ref_dec ref_lru "utxo_new ref_lru 0 None" 7 s1 s2 0] s(1,2)
    by (auto simp: sample_mint_fields)
  with s show ?thesis
    by (intro exI [of _ h]) (simp add: circulating_supply_def circulating_supply_by_asset_def balance_by_address_def)
qed


text \<open>
  One commit after the other is idempotent: on a node that does not prune, a block that was
  inserted is reported as existing when it is submitted again, and nothing changes, whatever the clock
  and the caller's delta.
\<close>

lemma sequential_commit_idempotent:
  assumes "commit_block D R now external b n = Inr (Inserted, n')" and "cd_max_blocks (nd_dag n) = 0"
  shows "commit_block D R now' external' b n' = Inr (AlreadyExists, n')"
proof -
  obtain n1 where n1: "commit_apply D R now external b n = Inr (None, n1)" "n' = commit_insert b n1"
    using assms(1) commit_apply_not_inserted [of D R now external b n]
    by (fastforce simp: commit_block_def split: if_splits option.splits)
  have "contains_block (snd (insert_block b d)) (b_id b)" if "cd_max_blocks d = 0" for d
    using that by (auto simp: insert_block_def Let_def contains_block_def place_block_fields update_conv')
  moreover have "cd_max_blocks (nd_dag n1) = 0"
    using commit_apply_blocks [OF n1(1)] assms(2) by simp
  ultimately show ?thesis by (simp add: commit_block_def n1(2) commit_insert_def)
qed

end
