(* ===== verification/Mint.thy ===== *)
theory Mint
  imports Conservation Policy PayloadTypes
begin

section \<open>Minting: who may mint, and how much\<close>

text \<open>
  \<open>validations/mint.rs\<close> and \<open>validations/policy.rs\<close>: the coordinator gate, the reward policy, and the
  money rules of registered custom assets (granularity, supply cap, collateral). The maps the caller
  resolved (registry entries, circulating supply, locked collateral) are arguments. \<open>minted\<close> is
  iterated, so it is an association list. The environment variable of the test mode is an argument.
\<close>

subsection \<open>The coordinator gate\<close>

definition validate_mint_security_logic :: "string \<Rightarrow> string \<Rightarrow> 'd policy \<Rightarrow> unit vresult" where
  "validate_mint_security_logic signer_pk block_id p =
     (let signer = trim signer_pk in
      case p_coordinator_public_key p of
        Some coord_key \<Rightarrow> require (eq_ignore_case signer coord_key) (UnauthorizedMint block_id signer)
      | None \<Rightarrow> Inr ())"

definition validate_mint_security :: "wire_block \<Rightarrow> 'd policy \<Rightarrow> unit vresult" where
  "validate_mint_security wb p = validate_mint_security_logic (w_signer_pk_hex wb) (w_id wb) p"

subsection \<open>The reward policy\<close>

definition max_reward_per_block_str :: string where
  "max_reward_per_block_str = ''1000000''"

definition check_mint_amount :: "'d dec_lib \<Rightarrow> tx_output list \<Rightarrow> string \<Rightarrow> unit vresult" where
  "check_mint_amount D outputs block_id =
     rbind (try_fold (\<lambda>s out.
       rbind (ok_or (d_from_str D (o_amount out))
         (InvalidAmount (''reward output amount not a valid decimal: '' @ quoted (o_amount out)))) (\<lambda>x.
       if d_lt D x (d_zero D) then Inl (InvalidAmount ''reward output amount is negative'')
       else ok_or (d_checked_add D s x) (InvalidAmount ''reward output sum overflow'')))
       (d_zero D) outputs) (\<lambda>sum.
     rbind (ok_or (d_from_str D max_reward_per_block_str) (RustPanic ''MAX_REWARD_PER_BLOCK_STR constant'')) (\<lambda>max_reward.
     if d_lt D max_reward sum then Inl (MintAmountTooHigh block_id max_reward_per_block_str) else Inr ()))"

fun show_mode :: "network_mode \<Rightarrow> string" where
  "show_mode Dev = ''Dev''"
| "show_mode Testnet = ''Testnet''"
| "show_mode Mainnet = ''Mainnet''"

definition validate_mint_policy ::
  "'d dec_lib \<Rightarrow> string option \<Rightarrow> tx_output list \<Rightarrow> wire_block \<Rightarrow> net_settings \<Rightarrow> unit vresult" where
  "validate_mint_policy D test_pk outputs wb s =
     (let signer = trim (w_signer_pk_hex wb);
          unauthorized = (\<lambda>text. Inl (UnauthorizedMint (w_id wb) text));
          normal =
            (if ns_signer_pubkeys s \<noteq> [] then
               (if \<exists>pk\<in>set (ns_signer_pubkeys s). eq_ignore_case pk signer then check_mint_amount D outputs (w_id wb)
                else unauthorized signer)
             else if ns_mode s = Dev then check_mint_amount D outputs (w_id wb)
             else unauthorized (signer @ '' (admin.signer_pubkeys is empty '' @ [CHR 0xE2, CHR 0x80, CHR 0x94] @ '' required in '' @
               show_mode (ns_mode s) @ '' mode)''))
      in case test_pk of
           Some pk \<Rightarrow>
             if ns_mode s = Dev \<and> trim pk \<noteq> [] then
               (if eq_ignore_case (trim pk) signer then check_mint_amount D outputs (w_id wb)
                else unauthorized signer)
             else normal
         | None \<Rightarrow> normal)"

subsection \<open>Custom assets\<close>

definition add_minted :: "'d dec_lib \<Rightarrow> (string \<times> 'd) list \<Rightarrow> tx_output \<Rightarrow> (string \<times> 'd) list vresult" where
  "add_minted D m out =
     (case o_asset_id out of
        None \<Rightarrow> Inr m
      | Some asset \<Rightarrow>
          rbind (ok_or (d_from_str D (o_amount out))
            (InvalidAmount (''mint output amount is not a decimal: '' @ o_amount out))) (\<lambda>amount.
          if d_le D amount (d_zero D) then Inl (InvalidAmount ''mint output amount must be > 0'')
          else
            rbind (ok_or (d_checked_add D (case map_of m asset of None \<Rightarrow> d_zero D | Some e \<Rightarrow> e) amount)
              (InvalidAmount ''mint amount sum overflow'')) (\<lambda>sum.
            Inr (AList.update asset sum m))))"

definition minted_amounts_by_custom_asset :: "'d dec_lib \<Rightarrow> tx_output list \<Rightarrow> (string \<times> 'd) list vresult" where
  "minted_amounts_by_custom_asset D outputs = try_fold (add_minted D) [] outputs"

definition sum_locked_collateral ::
  "'d dec_lib \<Rightarrow> (output_id \<times> tx_output) list \<Rightarrow> string option \<Rightarrow> u64 \<Rightarrow> panic + 'd" where
  "sum_locked_collateral D utxos collateral_asset_id now_ms =
     try_fold (dec_add D) (d_zero D)
       (List.map_filter (\<lambda>(_, out). d_from_str D (o_amount out))
         (filter (\<lambda>(_, out). o_asset_id out = collateral_asset_id \<and>
            (case o_locked_until out of None \<Rightarrow> False | Some until \<Rightarrow> now_ms < until)) utxos))"

type_synonym registry = "string \<Rightarrow> token_metadata option option"

definition amount_at :: "'d dec_lib \<Rightarrow> (string \<Rightarrow> 'd option) \<Rightarrow> string \<Rightarrow> 'd" where
  "amount_at D m a = (case m a of None \<Rightarrow> d_zero D | Some x \<Rightarrow> x)"

definition check_granularity :: "'d dec_lib \<Rightarrow> string \<Rightarrow> token_metadata \<Rightarrow> tx_output list \<Rightarrow> unit vresult" where
  "check_granularity D asset_id meta outputs =
     try_each (\<lambda>out.
       let amount = (case d_from_str D (o_amount out) of None \<Rightarrow> d_zero D | Some x \<Rightarrow> x)
       in require (d_scale D (d_normalize D amount) \<le> unat (tm_decimals meta))
            (InvalidAmount (''asset '' @ asset_id @ '' supports '' @ show_nat (unat (tm_decimals meta)) @
              '' decimals, got amount '' @ o_amount out)))
       (filter (\<lambda>out. o_asset_id out = Some asset_id) outputs)"

definition check_supply_cap :: "'d dec_lib \<Rightarrow> string \<Rightarrow> token_metadata \<Rightarrow> 'd \<Rightarrow> 'd \<Rightarrow> unit vresult" where
  "check_supply_cap D asset_id meta current mint_amount =
     (case tm_max_supply meta of
        None \<Rightarrow> Inr ()
      | Some max_supply_str \<Rightarrow>
          rbind (ok_or (d_from_str D max_supply_str)
            (InvalidAmount (''token registry max_supply is not a decimal: '' @ max_supply_str))) (\<lambda>max_supply.
          rbind (ok_or (d_checked_add D current mint_amount) (MaxSupplyExceeded asset_id)) (\<lambda>sum.
          if d_lt D max_supply sum then Inl (MaxSupplyExceeded asset_id) else Inr ())))"

definition check_collateral :: "'d dec_lib \<Rightarrow> string \<Rightarrow> token_metadata \<Rightarrow> 'd \<Rightarrow> 'd \<Rightarrow> 'd \<Rightarrow> unit vresult" where
  "check_collateral D asset_id meta current mint_amount locked =
     (if tm_collateral_address meta = None then Inr ()
      else
        let ratio = d_of_nat D (unat (case tm_collateral_ratio_bps meta of None \<Rightarrow> 10000 | Some r \<Rightarrow> r));
            covered = Option.bind (d_checked_add D current mint_amount) (\<lambda>sum.
              Option.bind (d_checked_mul D sum ratio) (\<lambda>x. d_checked_div D x (d_of_nat D 10000)))
        in rbind (ok_or covered (InsufficientCollateral asset_id)) (\<lambda>required.
           if d_lt D locked required then Inl (InsufficientCollateral asset_id) else Inr ()))"

definition validate_custom_asset_mint_amounts ::
  "'d dec_lib \<Rightarrow> tx_output list \<Rightarrow> (string \<times> 'd) list \<Rightarrow> registry \<Rightarrow> (string \<Rightarrow> 'd option)
   \<Rightarrow> (string \<Rightarrow> 'd option) \<Rightarrow> unit vresult" where
  "validate_custom_asset_mint_amounts D outputs minted metadata circulating locked_collateral =
     try_each (\<lambda>(asset_id, mint_amount).
       case metadata asset_id of
         Some (Some meta) \<Rightarrow>
           rbind (check_granularity D asset_id meta outputs) (\<lambda>_.
           rbind (check_supply_cap D asset_id meta (amount_at D circulating asset_id) mint_amount) (\<lambda>_.
           check_collateral D asset_id meta (amount_at D circulating asset_id) mint_amount
             (amount_at D locked_collateral asset_id)))
       | _ \<Rightarrow> Inr ()) minted"

definition validate_custom_asset_mints ::
  "'d dec_lib \<Rightarrow> tx_output list \<Rightarrow> string \<Rightarrow> (string \<times> 'd) list \<Rightarrow> registry \<Rightarrow> (string \<Rightarrow> 'd option)
   \<Rightarrow> (string \<Rightarrow> 'd option) \<Rightarrow> unit vresult" where
  "validate_custom_asset_mints D outputs signer_pk minted metadata circulating locked_collateral =
     rbind (try_each (\<lambda>(asset_id, _).
       case metadata asset_id of
         Some (Some meta) \<Rightarrow>
           require (eq_ignore_case (trim signer_pk) (trim (tm_mint_authority meta))) (UnauthorizedTokenMint asset_id)
       | _ \<Rightarrow> Inr ()) minted) (\<lambda>_.
     validate_custom_asset_mint_amounts D outputs minted metadata circulating locked_collateral)"

subsection \<open>What an accepted mint respects\<close>

definition minted_ok :: "('d \<Rightarrow> rat) \<Rightarrow> (tx_output \<Rightarrow> rat) \<Rightarrow> tx_output list \<Rightarrow> (string \<times> 'd) list \<Rightarrow> bool" where
  "minted_ok v f outs m \<longleftrightarrow>
     (\<forall>a. case map_of m a of None \<Rightarrow> Some a \<notin> o_asset_id ` set outs
          | Some e \<Rightarrow> Some a \<in> o_asset_id ` set outs \<and> v e = asset_total f (Some a) outs)"

lemma minted_ok_entry:
  assumes L: "dec_laws D v" and "minted_ok v f outs m"
  shows "v (case map_of m a of None \<Rightarrow> d_zero D | Some e \<Rightarrow> e) = asset_total f (Some a) outs"
  using assms by (cases "map_of m a") (auto simp: minted_ok_def asset_total_none dec_laws_zero dest!: spec [of _ a])

lemma minted_amounts_exact:
  assumes L: "dec_laws D v" and "minted_amounts_by_custom_asset D outs = Inr m"
    and "\<forall>out\<in>set outs. tame_amount D v out \<and> 0 \<le> nominal_val D v out"
    and "sum_list (map (nominal_val D v) outs) \<le> 10 ^ 12"
  shows "minted_ok v (nominal_val D v) outs m"
  using assms(2-) unfolding minted_amounts_by_custom_asset_def
proof (induction outs arbitrary: m rule: rev_induct)
  case Nil
  then show ?case by (simp add: minted_ok_def)
next
  case (snoc out outs)
  let ?f = "nominal_val D v"
  obtain m' where m': "try_fold (add_minted D) [] outs = Inr m'" and step: "add_minted D m' out = Inr m"
    using snoc.prems(1) by (auto simp: try_fold_append)
  have nn: "\<And>x. x \<in> set (outs @ [out]) \<Longrightarrow> 0 \<le> ?f x" using snoc.prems(2) by blast
  have "sum_list (map ?f outs) \<le> 10 ^ 12" using snoc.prems(3) nn [of out] by simp
  then have ih: "minted_ok v ?f outs m'" using snoc.IH [OF m'] snoc.prems(2) by simp
  show ?case
  proof (cases "o_asset_id out")
    case None
    then have "m = m'" using step by (simp add: add_minted_def)
    moreover have "asset_total ?f (Some a) (outs @ [out]) = asset_total ?f (Some a) outs" for a
      using None by (simp add: asset_total_snoc)
    moreover have "Some a \<in> o_asset_id ` set (outs @ [out]) \<longleftrightarrow> Some a \<in> o_asset_id ` set outs" for a
      using None by auto
    ultimately show ?thesis using ih by (simp only: minted_ok_def option.split simp_thms)
  next
    case (Some a)
    let ?e = "case map_of m' a of None \<Rightarrow> d_zero D | Some e \<Rightarrow> e"
    obtain d s where d: "d_from_str D (o_amount out) = Some d" and s: "d_checked_add D ?e d = Some s"
      and m: "m = AList.update a s m'"
      using step Some by (auto simp: add_minted_def split: if_splits)
    have e: "v ?e = asset_total ?f (Some a) outs" by (rule minted_ok_entry [OF L ih])
    have vd: "v d = ?f out" using d by (simp add: nominal_val_def)
    let ?t = "asset_total ?f (Some a) (outs @ [out])"
    have t: "v ?e + v d = ?t" using e vd Some by (simp add: asset_total_snoc)
    have "at_scale 8 ?t" unfolding asset_total_def
      by (rule at_scale_sum_list) (use snoc.prems(2) in \<open>auto simp: tame_amount_def\<close>)
    moreover have "0 \<le> ?t" by (rule asset_total_nonneg [OF nn])
    moreover have "?t \<le> 10 ^ 12" using asset_total_le [OF nn] snoc.prems(3) by (rule order_trans)
    ultimately have "dec_repr (v ?e + v d)" unfolding t by (intro dec_repr_at_scale) auto
    then have "v s = ?t" using dec_laws_add [OF L] s t by fastforce
    moreover have "asset_total ?f (Some b) (outs @ [out]) = asset_total ?f (Some b) outs" if "b \<noteq> a" for b
      using that Some by (simp add: asset_total_snoc)
    moreover have "Some b \<in> o_asset_id ` set (outs @ [out]) \<longleftrightarrow> b = a \<or> Some b \<in> o_asset_id ` set outs" for b
      using Some by auto
    ultimately have "case map_of m b of None \<Rightarrow> Some b \<notin> o_asset_id ` set (outs @ [out])
        | Some e \<Rightarrow> Some b \<in> o_asset_id ` set (outs @ [out]) \<and> v e = asset_total ?f (Some b) (outs @ [out])" for b
      using spec [OF ih [unfolded minted_ok_def], of b] unfolding m
      by (cases "b = a") (simp_all only: update_conv' fun_upd_same fun_upd_other option.case simp_thms if_True
        not_False_eq_True)
    then show ?thesis unfolding minted_ok_def by blast
  qed
qed

lemma supply_cap_sound:
  assumes L: "dec_laws D v" and "check_supply_cap D a meta cur amount = Inr ()"
    and "tm_max_supply meta = Some t" and "dec_repr (v cur + v amount)"
  shows "\<exists>mx. d_from_str D t = Some mx \<and> v cur + v amount \<le> v mx"
proof -
  obtain mx s where "d_from_str D t = Some mx" "d_checked_add D cur amount = Some s" "\<not> d_lt D mx s"
    using assms(2,3) by (auto simp: check_supply_cap_def split: if_splits)
  moreover have "v s = v cur + v amount" using dec_laws_add [OF L assms(4)] calculation by auto
  ultimately show ?thesis using L by (auto simp: dec_laws_lt)
qed

lemma collateral_sound:
  assumes L: "dec_laws D v" and "check_collateral D a meta cur amount locked = Inr ()"
    and "tm_collateral_address meta \<noteq> None"
    and r: "r = (case tm_collateral_ratio_bps meta of None \<Rightarrow> 10000 | Some x \<Rightarrow> x)" "unat r \<le> 100000"
    and range: "at_scale 8 (v cur + v amount)" "0 \<le> v cur + v amount" "v cur + v amount \<le> 10 ^ 13"
  shows "(v cur + v amount) * of_nat (unat r) / 10000 \<le> v locked"
proof -
  let ?t = "v cur + v amount"
  obtain s x req where s: "d_checked_add D cur amount = Some s"
    and x: "d_checked_mul D s (d_of_nat D (unat r)) = Some x"
    and req: "d_checked_div D x (d_of_nat D 10000) = Some req" and ok: "\<not> d_lt D locked req"
    using assms(2,3) r(1) by (auto simp: check_collateral_def Let_def Option.bind_eq_Some_conv split: if_splits)
  have ratio: "v (d_of_nat D (unat r)) = of_nat (unat r)" "v (d_of_nat D 10000) = 10000"
    using dec_laws_of_nat [OF L, of "unat r"] dec_laws_of_nat [OF L, of 10000] r(2) by simp_all
  have "dec_repr ?t" using range by (intro dec_repr_at_scale [of 8]) (auto simp: abs_of_nonneg)
  then have vs: "v s = ?t" using dec_laws_add [OF L] s by fastforce
  have prod: "at_scale 8 (?t * of_nat (unat r))"
    by (rule at_scale_nat_mult [OF range(1)])
  have cap: "(of_nat (unat r) :: rat) \<le> 100000" using of_nat_mono [OF r(2), where 'a = rat] by simp
  have upper: "?t * of_nat (unat r) \<le> 10 ^ 13 * 100000"
    by (rule mult_mono [OF range(3) cap _ of_nat_0_le_iff]) simp
  have lower: "0 \<le> ?t * of_nat (unat r)"
    by (rule mult_nonneg_nonneg [OF range(2) of_nat_0_le_iff])
  have "\<bar>?t * of_nat (unat r)\<bar> < 2 ^ 96 / 10 ^ 8"
    unfolding abs_of_nonneg [OF lower] by (rule le_less_trans [OF upper]) simp
  then have "dec_repr (?t * of_nat (unat r))" by (rule dec_repr_at_scale [OF prod, rotated]) simp
  then have vx: "v x = ?t * of_nat (unat r)" 
    using dec_laws_mul [OF L, of s "d_of_nat D (unat r)"] x unfolding vs ratio(1) by (metis option.inject)
  have small: "\<bar>y / 10000\<bar> < 2 ^ 96 / 10 ^ 12" if "0 \<le> y" "y \<le> 10 ^ 13 * 100000" for y :: rat
    using that by simp
  have "at_scale 12 (v x / 10000)"
  proof -
    obtain k where "v x = of_int k / 10 ^ 8" using prod vx by (auto simp: at_scale_def)
    then have "v x / 10000 = of_int k / 10 ^ 12" by simp
    then show ?thesis unfolding at_scale_def by blast
  qed
  moreover have "\<bar>v x / 10000\<bar> < 2 ^ 96 / 10 ^ 12"
    using small [OF lower upper] unfolding vx by simp
  ultimately have "dec_repr (v x / 10000)" by (intro dec_repr_at_scale) auto
  then have "v req = v x / 10000" using dec_laws_div [OF L, of "d_of_nat D 10000" x] req ratio(2) by fastforce
  with ok vx show ?thesis using L by (simp add: dec_laws_lt)
qed

text \<open>The limits of an asset, whatever gate decides who mints it.\<close>

lemma mint_amounts_within_limits:
  assumes L: "dec_laws D v"
    and minted: "minted_amounts_by_custom_asset D outs = Inr m"
    and ok: "validate_custom_asset_mint_amounts D outs m metadata circulating locked = Inr ()"
    and tame: "\<forall>out\<in>set outs. tame_amount D v out \<and> 0 \<le> nominal_val D v out"
    and bound: "sum_list (map (nominal_val D v) outs) \<le> 10 ^ 12"
    and reg: "metadata a = Some (Some meta)" and created: "Some a \<in> o_asset_id ` set outs"
    and cur: "at_scale 8 (v (amount_at D circulating a))" "0 \<le> v (amount_at D circulating a)"
      "v (amount_at D circulating a) \<le> 10 ^ 12"
    and r: "r = (case tm_collateral_ratio_bps meta of None \<Rightarrow> 10000 | Some x \<Rightarrow> x)" "unat r \<le> 100000"
  shows "(\<forall>out\<in>set outs. o_asset_id out = Some a \<longrightarrow> at_scale (unat (tm_decimals meta)) (nominal_val D v out))
    \<and> (\<forall>t. tm_max_supply meta = Some t \<longrightarrow> (\<exists>mx. d_from_str D t = Some mx \<and>
          v (amount_at D circulating a) + asset_total (nominal_val D v) (Some a) outs \<le> v mx))
    \<and> (tm_collateral_address meta \<noteq> None \<longrightarrow>
          (v (amount_at D circulating a) + asset_total (nominal_val D v) (Some a) outs) * of_nat (unat r) / 10000
            \<le> v (amount_at D locked a))"
proof -
  let ?f = "nominal_val D v" and ?c = "amount_at D circulating a"
  have "minted_ok v ?f outs m" by (rule minted_amounts_exact [OF L minted tame bound])
  then obtain e where e: "map_of m a = Some e" and ve: "v e = asset_total ?f (Some a) outs"
    using created by (cases "map_of m a") (auto simp: minted_ok_def dest!: spec [of _ a])
  have "(a, e) \<in> set m" by (rule map_of_SomeD [OF e])
  then have gran: "check_granularity D a meta outs = Inr ()"
    and cap: "check_supply_cap D a meta ?c e = Inr ()"
    and coll: "check_collateral D a meta ?c e (amount_at D locked a) = Inr ()"
    using ok reg by (fastforce simp: validate_custom_asset_mint_amounts_def try_each_eq_Inr)+
  have nn: "\<And>x. x \<in> set outs \<Longrightarrow> 0 \<le> ?f x" using tame by blast
  have "at_scale 8 (v e)" unfolding ve asset_total_def
    by (rule at_scale_sum_list) (use tame in \<open>simp add: tame_amount_def\<close>)
  then have "at_scale 8 (v ?c + v e)" by (rule at_scale_add [OF cur(1)])
  moreover have "0 \<le> v e" unfolding ve by (rule asset_total_nonneg [OF nn])
  moreover have "v e \<le> 10 ^ 12" unfolding ve by (rule order_trans [OF asset_total_le [OF nn] bound])
  ultimately have range: "at_scale 8 (v ?c + v e)" "0 \<le> v ?c + v e" "v ?c + v e \<le> 10 ^ 13"
    using cur(2,3) by simp_all
  have repr: "dec_repr (v ?c + v e)"
    by (rule dec_repr_at_scale [OF range(1)]) (use range(2,3) in simp_all)
  have "at_scale (unat (tm_decimals meta)) (?f out)" if "out \<in> set outs" "o_asset_id out = Some a" for out
  proof -
    let ?x = "case d_from_str D (o_amount out) of None \<Rightarrow> d_zero D | Some x \<Rightarrow> x"
    have "d_scale D (d_normalize D ?x) \<le> unat (tm_decimals meta)"
      using gran that by (auto simp: check_granularity_def try_each_eq_Inr)
    moreover have "v (d_normalize D ?x) = ?f out"
      using L by (auto simp: dec_laws_def nominal_val_def split: option.splits)
    ultimately show ?thesis using L at_scale_weaken unfolding dec_laws_def at_scale_def by metis
  qed
  then show ?thesis
    using supply_cap_sound [OF L cap _ repr] collateral_sound [OF L coll _ r range] ve by auto
qed

text \<open>
  Claim C11. A mint the custom-asset rules accept keeps every limit of the registry: for each
  registered asset it creates, the block signer is the mint authority of the asset (up to case),
  every output amount uses at most the asset's decimals, circulating supply plus the exact sum of
  the outputs stays within the maximum supply, and the locked collateral covers the required
  ratio of the new supply.
\<close>

lemma accepted_mint_within_limits:
  assumes L: "dec_laws D v"
    and minted: "minted_amounts_by_custom_asset D outs = Inr m"
    and ok: "validate_custom_asset_mints D outs signer m metadata circulating locked = Inr ()"
    and tame: "\<forall>out\<in>set outs. tame_amount D v out \<and> 0 \<le> nominal_val D v out"
    and bound: "sum_list (map (nominal_val D v) outs) \<le> 10 ^ 12"
    and reg: "metadata a = Some (Some meta)" and created: "Some a \<in> o_asset_id ` set outs"
    and cur: "at_scale 8 (v (amount_at D circulating a))" "0 \<le> v (amount_at D circulating a)"
      "v (amount_at D circulating a) \<le> 10 ^ 12"
    and r: "r = (case tm_collateral_ratio_bps meta of None \<Rightarrow> 10000 | Some x \<Rightarrow> x)" "unat r \<le> 100000"
  shows "eq_ignore_case (trim signer) (trim (tm_mint_authority meta))
    \<and> (\<forall>out\<in>set outs. o_asset_id out = Some a \<longrightarrow> at_scale (unat (tm_decimals meta)) (nominal_val D v out))
    \<and> (\<forall>t. tm_max_supply meta = Some t \<longrightarrow> (\<exists>mx. d_from_str D t = Some mx \<and>
          v (amount_at D circulating a) + asset_total (nominal_val D v) (Some a) outs \<le> v mx))
    \<and> (tm_collateral_address meta \<noteq> None \<longrightarrow>
          (v (amount_at D circulating a) + asset_total (nominal_val D v) (Some a) outs) * of_nat (unat r) / 10000
            \<le> v (amount_at D locked a))"
proof -
  have "minted_ok v (nominal_val D v) outs m" by (rule minted_amounts_exact [OF L minted tame bound])
  then obtain e where "map_of m a = Some e"
    using created by (cases "map_of m a") (auto simp: minted_ok_def dest!: spec [of _ a])
  then have "(a, e) \<in> set m" by (rule map_of_SomeD)
  then have "eq_ignore_case (trim signer) (trim (tm_mint_authority meta))"
    using ok reg by (fastforce simp: validate_custom_asset_mints_def try_each_eq_Inr)
  moreover have "validate_custom_asset_mint_amounts D outs m metadata circulating locked = Inr ()"
    using ok by (auto simp: validate_custom_asset_mints_def)
  note mint_amounts_within_limits [OF L minted this tame bound reg created cur r]
  ultimately show ?thesis by blast
qed

definition sample_meta :: token_metadata where
  "sample_meta = \<lparr>tm_asset_id = ''GLD'', tm_symbol = ''GLD'', tm_name = ''Gold'', tm_decimals = 2,
     tm_max_supply = Some ''5'', tm_creator = ''c'', tm_mint_authority = ''ab'', tm_demurrage_bps_per_day = None,
     tm_collateral_address = Some ''r'', tm_collateral_asset_id = None, tm_collateral_ratio_bps = None,
     tm_royalty_bps = None, tm_royalty_beneficiary = None, tm_royalty_version = 1\<rparr>"

theorem accepted_mint_within_limits_witness:
  "eq_ignore_case (trim '' AB '') (trim (tm_mint_authority sample_meta)) \<and> at_scale 2 2
    \<and> (\<exists>mx. d_from_str ref_dec ''5'' = Some mx \<and> 2 \<le> ref_val mx)"
proof -
  let ?outs = "[txoutput_new ''bob'' ''2'' (Some ''GLD'')]" and ?none = "\<lambda>_. None"
  let ?reg = "\<lambda>a. if a = ''GLD'' then Some (Some sample_meta) else None"
  have minted: "minted_amounts_by_custom_asset ref_dec ?outs = Inr [(''GLD'', (2, 0))]" by code_simp
  have ok: "validate_custom_asset_mints ref_dec ?outs '' AB '' [(''GLD'', (2, 0))] ?reg ?none (\<lambda>_. Some (3, 0)) = Inr ()"
    by code_simp
  have tame: "\<forall>out\<in>set ?outs. tame_amount ref_dec ref_val out \<and> 0 \<le> nominal_val ref_dec ref_val out"
    by (simp add: tame_amount_def sample_values at_scale_numeral)
  have bound: "sum_list (map (nominal_val ref_dec ref_val) ?outs) \<le> 10 ^ 12" by (simp add: sample_values)
  have zero: "ref_val (amount_at ref_dec ?none a) = 0" for a
    using dec_laws_zero [OF ref_dec_laws] by (simp add: amount_at_def)
  show ?thesis
    using accepted_mint_within_limits [OF ref_dec_laws minted ok tame bound, of "''GLD''" sample_meta 10000]
    by (simp add: zero sample_meta_def sample_values asset_total_def)
qed

end
