(* ===== verification/Authority.thy ===== *)
theory Authority
  imports Policy
begin

section \<open>Who may emit a payload, and its minimal shape\<close>

text \<open>
  \<open>validations/authority.rs\<close>: the gate shared by the validation of the in-memory DAG and by the hot
  path. \<open>coordinator_only\<close> and \<open>well_shaped\<close> are its specification; \<open>authority_decides\<close> shows
  that the code, arm by arm, is their conjunction.
\<close>

definition require_coordinator :: "string option \<Rightarrow> 'd policy \<Rightarrow> string \<Rightarrow> unit vresult" where
  "require_coordinator signer_pk p action_name =
     (case p_coordinator_public_key p of
        None \<Rightarrow> Inr ()
      | Some coord_pk \<Rightarrow>
          (case signer_pk of
             Some spk \<Rightarrow>
               if eq_ignore_case spk coord_pk then Inr ()
               else Inl (InvalidSignature (action_name @ '' signed by unauthorized key: '' @ spk @ ''. Expected Coordinator''))
           | None \<Rightarrow> Inl (InvalidSignature (action_name @ '' block must be signed by Coordinator''))))"

definition snapshot_amounts :: "'d dec_lib \<Rightarrow> (string option \<times> string) list \<Rightarrow> unit vresult" where
  "snapshot_amounts D supply_list =
     try_each (\<lambda>(_, amount). require (d_from_str_exact D amount \<noteq> None)
       (Other ''ReserveSnapshot: total_supply amounts must be decimals'')) supply_list"

fun authority_plain :: "'d dec_lib \<Rightarrow> ext_lib \<Rightarrow> string option \<Rightarrow> 'd policy \<Rightarrow> plain_payload \<Rightarrow> unit vresult" where
  "authority_plain D X pk p (Milestone _ _) = require_coordinator pk p ''Milestone''"
| "authority_plain D X pk p (ConfigUpdatePayload _) = require_coordinator pk p ''ConfigUpdate''"
| "authority_plain D X pk p (GovernanceProposal _ _ _ _ _ _) = require_coordinator pk p ''GovernanceProposal''"
| "authority_plain D X pk p (GovernanceEnact _ _) = require_coordinator pk p ''GovernanceEnact''"
| "authority_plain D X pk p (GovernanceCancel _ _) = require_coordinator pk p ''GovernanceCancel''"
| "authority_plain D X pk p (Reward _ _ _ _) = require_coordinator pk p ''Reward''"
| "authority_plain D X pk p (EncryptedReward _ _ _) = require_coordinator pk p ''EncryptedReward''"
| "authority_plain D X pk p (TokenCreate _) = require_coordinator pk p ''TokenCreate''"
| "authority_plain D X pk p (SftClassCreate _) = require_coordinator pk p ''SftClassCreate''"
| "authority_plain D X pk p (BridgeLock inputs _ _ dest_ledger_id dest_address) =
     rbind (require_coordinator pk p ''BridgeLock'') (\<lambda>_.
     rbind (require (inputs \<noteq> []) (Other ''BridgeLock: at least one input required'')) (\<lambda>_.
     require (dest_ledger_id \<noteq> [] \<and> dest_address \<noteq> [])
       (Other ''BridgeLock: dest_ledger_id and dest_address required'')))"
| "authority_plain D X pk p (BridgeMint outputs lock_block_id source_ledger_id) =
     rbind (require_coordinator pk p ''BridgeMint'') (\<lambda>_.
     rbind (require (outputs \<noteq> []) (Other ''BridgeMint: at least one output required'')) (\<lambda>_.
     require (lock_block_id \<noteq> [] \<and> source_ledger_id \<noteq> [])
       (Other ''BridgeMint: lock_block_id and source_ledger_id required'')))"
| "authority_plain D X pk p (Freeze address _) =
     rbind (require_coordinator pk p ''Freeze'') (\<lambda>_.
     require (trim address \<noteq> []) (Other ''Freeze: address cannot be empty''))"
| "authority_plain D X pk p (Unfreeze address _ freeze_block_id) =
     rbind (require_coordinator pk p ''Unfreeze'') (\<lambda>_.
     require (trim address \<noteq> [] \<and> trim freeze_block_id \<noteq> [])
       (Other ''Unfreeze: address and freeze_block_id required''))"
| "authority_plain D X pk p (Seize from_address inputs outputs _) =
     rbind (require_coordinator pk p ''Seize'') (\<lambda>_.
     rbind (require (inputs \<noteq> [] \<and> outputs \<noteq> []) (Other ''Seize: inputs and outputs required'')) (\<lambda>_.
     require (trim from_address \<noteq> []) (Other ''Seize: from_address cannot be empty'')))"
| "authority_plain D X pk p (Reverse original_block_id inputs outputs _) =
     rbind (require_coordinator pk p ''Reverse'') (\<lambda>_.
     require (trim original_block_id \<noteq> [] \<and> inputs \<noteq> [] \<and> outputs \<noteq> [])
       (Other ''Reverse: original_block_id, inputs and outputs required''))"
| "authority_plain D X pk p (ContractRegister c) =
     rbind (require_coordinator pk p ''ContractRegister'') (\<lambda>_.
     rbind (require (trim (ct_contract_id c) \<noteq> []) (Other ''ContractRegister: contract_id cannot be empty'')) (\<lambda>_.
     rbind (require (trim (ct_name c) \<noteq> []) (Other ''ContractRegister: name cannot be empty'')) (\<lambda>_.
     require (ct_actions c \<noteq> []) (Other ''ContractRegister: at least one action required''))))"
| "authority_plain D X pk p (ContractUpdate contract_id _ _) =
     rbind (require_coordinator pk p ''ContractUpdate'') (\<lambda>_.
     require (trim contract_id \<noteq> []) (Other ''ContractUpdate: contract_id cannot be empty''))"
| "authority_plain D X pk p (LedgerOwnershipTransfer ledger_id _) =
     rbind (require_coordinator pk p ''LedgerOwnershipTransfer'') (\<lambda>_.
     require (trim ledger_id \<noteq> []) (Other ''LedgerOwnershipTransfer: ledger_id cannot be empty''))"
| "authority_plain D X pk p (ReserveSnapshot state_root total_supply _ _) =
     rbind (require_coordinator pk p ''ReserveSnapshot'') (\<lambda>_.
     rbind (require (length (trim state_root) = 64 \<and> x_hex_decode X (trim state_root) \<noteq> None)
       (Other ''ReserveSnapshot: state_root must be 64 hex chars (SHA-256)'')) (\<lambda>_.
     snapshot_amounts D total_supply))"
| "authority_plain D X pk p (CoordinatorKeyRotate old_pk new_pk _) =
     rbind (require_coordinator pk p ''CoordinatorKeyRotate'') (\<lambda>_.
     rbind (require (trim old_pk \<noteq> [] \<and> trim new_pk \<noteq> [])
       (Other ''CoordinatorKeyRotate: old_pk and new_pk must be non-empty'')) (\<lambda>_.
     require (trim old_pk \<noteq> trim new_pk) (Other ''CoordinatorKeyRotate: old_pk and new_pk must differ'')))"
| "authority_plain D X pk p Genesis = Inr ()"
| "authority_plain D X pk p (Mint _) = Inr ()"
| "authority_plain D X pk p (TxUtxo _) = Inr ()"
| "authority_plain D X pk p (TokenBurn _ _ _ _) = Inr ()"
| "authority_plain D X pk p (MarketSettle _ _ _ _ _ _ _) = Inr ()"
| "authority_plain D X pk p (RoyaltyUpdate _ _ _ _ _) = Inr ()"
| "authority_plain D X pk p (CustodialMint _ _ _ _ _) = Inr ()"
| "authority_plain D X pk p (NftPayload _) = Inr ()"

definition validate_payload_authority ::
  "'d dec_lib \<Rightarrow> ext_lib \<Rightarrow> string option \<Rightarrow> payload_envelope option \<Rightarrow> 'd policy \<Rightarrow> unit vresult" where
  "validate_payload_authority D X signer_pk payload p =
     (case payload of
        Some (Plain pp) \<Rightarrow> authority_plain D X signer_pk p pp
      | _ \<Rightarrow> Inr ())"

subsection \<open>The specification of the gate\<close>

fun coordinator_only :: "plain_payload \<Rightarrow> bool" where
  "coordinator_only Genesis = False"
| "coordinator_only (Mint _) = False"
| "coordinator_only (TxUtxo _) = False"
| "coordinator_only (TokenBurn _ _ _ _) = False"
| "coordinator_only (MarketSettle _ _ _ _ _ _ _) = False"
| "coordinator_only (RoyaltyUpdate _ _ _ _ _) = False"
| "coordinator_only (CustodialMint _ _ _ _ _) = False"
| "coordinator_only (NftPayload _) = False"
| "coordinator_only _ = True"

fun well_shaped :: "'d dec_lib \<Rightarrow> ext_lib \<Rightarrow> plain_payload \<Rightarrow> bool" where
  "well_shaped D X (BridgeLock inputs _ _ l a) \<longleftrightarrow> inputs \<noteq> [] \<and> l \<noteq> [] \<and> a \<noteq> []"
| "well_shaped D X (BridgeMint outputs b l) \<longleftrightarrow> outputs \<noteq> [] \<and> b \<noteq> [] \<and> l \<noteq> []"
| "well_shaped D X (Freeze a _) \<longleftrightarrow> trim a \<noteq> []"
| "well_shaped D X (Unfreeze a _ b) \<longleftrightarrow> trim a \<noteq> [] \<and> trim b \<noteq> []"
| "well_shaped D X (Seize a inputs outputs _) \<longleftrightarrow> inputs \<noteq> [] \<and> outputs \<noteq> [] \<and> trim a \<noteq> []"
| "well_shaped D X (Reverse b inputs outputs _) \<longleftrightarrow> trim b \<noteq> [] \<and> inputs \<noteq> [] \<and> outputs \<noteq> []"
| "well_shaped D X (ContractRegister c) \<longleftrightarrow>
     trim (ct_contract_id c) \<noteq> [] \<and> trim (ct_name c) \<noteq> [] \<and> ct_actions c \<noteq> []"
| "well_shaped D X (ContractUpdate c _ _) \<longleftrightarrow> trim c \<noteq> []"
| "well_shaped D X (LedgerOwnershipTransfer l _) \<longleftrightarrow> trim l \<noteq> []"
| "well_shaped D X (ReserveSnapshot sroot supply_list _ _) \<longleftrightarrow>
     length (trim sroot) = 64 \<and> x_hex_decode X (trim sroot) \<noteq> None \<and>
     (\<forall>(_, amount)\<in>set supply_list. d_from_str_exact D amount \<noteq> None)"
| "well_shaped D X (CoordinatorKeyRotate old_pk new_pk _) \<longleftrightarrow>
     trim old_pk \<noteq> [] \<and> trim new_pk \<noteq> [] \<and> trim old_pk \<noteq> trim new_pk"
| "well_shaped D X _ \<longleftrightarrow> True"

definition signed_by_coordinator :: "string option \<Rightarrow> 'd policy \<Rightarrow> bool" where
  "signed_by_coordinator signer_pk p \<longleftrightarrow>
     (\<forall>k. p_coordinator_public_key p = Some k \<longrightarrow> (\<exists>s. signer_pk = Some s \<and> eq_ignore_case s k))"

lemma require_coordinator_ok: "require_coordinator pk p n = Inr () \<longleftrightarrow> signed_by_coordinator pk p"
  by (auto simp: require_coordinator_def signed_by_coordinator_def split: option.splits)

lemma snapshot_amounts_ok:
  "snapshot_amounts D l = Inr () \<longleftrightarrow> (\<forall>(_, amount)\<in>set l. d_from_str_exact D amount \<noteq> None)"
  by (fastforce simp: snapshot_amounts_def try_each_eq_Inr)

lemma authority_plain_decides:
  "authority_plain D X pk p pp = Inr () \<longleftrightarrow> (coordinator_only pp \<longrightarrow> signed_by_coordinator pk p) \<and> well_shaped D X pp"
  by (cases pp) (auto simp: require_coordinator_ok snapshot_amounts_ok simp del: not_None_eq)

text \<open>
  The authority gate accepts a payload exactly when it is opaque, or it is well shaped for its
  type and, if its type is reserved to the coordinator and a coordinator key is configured, the
  block is signed by that key..
\<close>

lemma authority_decides:
  "validate_payload_authority D X pk payload p = Inr () \<longleftrightarrow>
     (case payload of
        Some (Plain pp) \<Rightarrow> (if coordinator_only pp then signed_by_coordinator pk p else True) \<and> well_shaped D X pp
      | _ \<Rightarrow> True)"
  by (auto simp: validate_payload_authority_def authority_plain_decides split: option.split payload_envelope.split)

text \<open>
  The gate compares the two keys of a rotation as texts, while every check of a signer compares
  keys up to case: a rotation to the same key written in another case passes.
\<close>

lemma rotation_to_the_same_key_accepted:
  assumes "p_coordinator_public_key p = Some ''ab''"
  shows "validate_payload_authority D X (Some ''ab'') (Some (Plain (CoordinatorKeyRotate ''ab'' ''AB'' 0))) p = Inr ()"
    and "eq_ignore_case ''ab'' ''AB''"
proof -
  have "trim ''ab'' = ''ab''" "trim ''AB'' = ''AB''" by code_simp+
  then show "validate_payload_authority D X (Some ''ab'') (Some (Plain (CoordinatorKeyRotate ''ab'' ''AB'' 0))) p = Inr ()"
    using assms by (simp add: validate_payload_authority_def require_coordinator_def)
  show "eq_ignore_case ''ab'' ''AB''" by code_simp
qed

end
