(* ===== verification/Gate.thy ===== *)
theory Gate
  imports Decimals TxTypes
begin

section \<open>Refusals of the hot path\<close>

text \<open>
  What a stage of \<open>do_persist_block_internal\<close> ends with: the block is refused with a text
  (\<open>PutResult::Rejected\<close>), the call fails (\<open>Err\<close> of \<open>anyhow\<close>), or the thread panics. The texts are
  those of the code; \<open>show_verror\<close> is the \<open>Display\<close> derived by \<open>thiserror\<close> in \<open>pms-errors\<close>.
  \<open>show_debug_string\<close> prints an optional text as \<open>{:?}\<close> does for texts without escapes.
\<close>

datatype stop = Reject string | Fail string | Crash string

type_synonym 'a gate = "stop + 'a"

definition show_debug_string :: "string option \<Rightarrow> string" where
  "show_debug_string a =
     (case a of None \<Rightarrow> ''None'' | Some s \<Rightarrow> ''Some('' @ CHR 0x22 # s @ [CHR 0x22] @ '')'')"

definition e_acute :: string where
  "e_acute = [CHR 0xC3, CHR 0xA9]"

fun show_verror :: "validation_error \<Rightarrow> string" where
  "show_verror (ParentMissing p) = ''parent '' @ p @ '' missing''"
| "show_verror DuplicateParents = ''duplicate parents not allowed''"
| "show_verror SelfParent = ''self-parent forbidden''"
| "show_verror (TooManyParents s) = ''too many parents: '' @ s"
| "show_verror MissingInput = ''input missing in block''"
| "show_verror MissingOutput = ''output missing in block''"
| "show_verror NotEnoughParents = ''not enough parents''"
| "show_verror PayloadTooLarge = ''payload too large''"
| "show_verror TooManyInputs = ''too many inputs''"
| "show_verror TooManyOutputs = ''too many outputs''"
| "show_verror TxTooLarge = ''tx too large''"
| "show_verror BadGenesis = ''genesis rules violated''"
| "show_verror CycleDetected = ''cycle d'' @ e_acute @ ''tect'' @ e_acute"
| "show_verror (InvalidGenesis s) = ''genesis invalide: '' @ s"
| "show_verror (InvalidSignature s) = ''signature invalide: '' @ s"
| "show_verror DoubleSpend = ''double d'' @ e_acute @ ''pense''"
| "show_verror InsufficientFunds = ''fonds insuffisants''"
| "show_verror (InvalidAmount reason) = ''invalid amount: '' @ reason"
| "show_verror (InvalidDifficulty i bits) =
     ''Invalid difficulty: '' @ i @ '' (expected at least 1 leading zero bit, got '' @ show_nat (unat bits) @ '' bits instead)''"
| "show_verror (UnauthorizedMint i pk) = ''unauthorized mint for block '' @ i @ '', signer='' @ pk"
| "show_verror (MintAmountTooHigh i mx) = ''mint amount too high for block '' @ i @ '', max allowed='' @ mx"
| "show_verror (FeeTooHigh fee mx) = ''Fee too high: '' @ fee @ '' > '' @ mx @ '' (max_fee_per_tx in policy)''"
| "show_verror (InvalidFeeRecipient a) = ''Recipient '' @ a @ '' is not valid''"
| "show_verror (Other s) = ''other: '' @ s"
| "show_verror (InvalidPlatformSignature a) =
     ''invalid platform address signature: address '' @ quoted a @ '' is not authorized by the master key''"
| "show_verror MissingPlatformSignature = ''missing platform address signature in config (required for Mainnet/Testnet)''"
| "show_verror (ProdKeyInDevMode n) =
     ''cannot use '' @ n @ '' coordinator key in Dev mode - this is a critical security misconfiguration''"
| "show_verror (ConfigError s) = ''config error: '' @ s"
| "show_verror (AssetBalanceMismatch a i out) =
     ''asset balance mismatch: asset='' @ show_debug_string a @ '', inputs='' @ i @ '', outputs='' @ out"
| "show_verror (TokenNotRegistered s) = ''token not registered: '' @ s"
| "show_verror (UnauthorizedTokenMint s) = ''unauthorized token mint: '' @ s"
| "show_verror (MaxSupplyExceeded s) = ''token max supply exceeded: '' @ s"
| "show_verror (InsufficientCollateral s) = ''insufficient locked collateral for asset: '' @ s"
| "show_verror (TokenAlreadyExists s) = ''token already exists: '' @ s"
| "show_verror (OwnershipMismatch i) =
     ''unlock '' @ show_nat i @ '' does not authorize spending the referenced output''"
| "show_verror (OutputTimeLocked i until now_ms) =
     ''input '' @ show_nat i @ '' is time-locked until '' @ show_nat (unat until) @ '' (now: '' @ show_nat (unat now_ms) @ '')''"
| "show_verror (InvalidSpendCondition reason) = ''invalid spend condition: '' @ reason"
| "show_verror (SpendConditionNotMet i) =
     ''unlock '' @ show_nat i @ '' does not satisfy the output spend condition''"
| "show_verror (AddressFrozen a) = ''address is frozen: '' @ a"
| "show_verror (OutputAlreadySpent txid i) =
     ''reverse failed: output already spent: '' @ txid @ ''#'' @ show_nat (unat i)"
| "show_verror (RustPanic s) = s"

text \<open>A validator called as \<open>if let Err(e) = ... { return Ok(Rejected(format!(...))) }\<close>.\<close>

definition guard :: "string \<Rightarrow> 'a vresult \<Rightarrow> 'a gate" where
  "guard prefix r = (case r of
     Inr x \<Rightarrow> Inr x
   | Inl (RustPanic s) \<Rightarrow> Inl (Crash s)
   | Inl e \<Rightarrow> Inl (Reject (prefix @ show_verror e)))"

definition uncaught :: "panic + 'a \<Rightarrow> 'a gate" where
  "uncaught r = (case r of Inr x \<Rightarrow> Inr x | Inl (Panic s) \<Rightarrow> Inl (Crash s))"

definition reject_if :: "bool \<Rightarrow> string \<Rightarrow> unit gate" where
  "reject_if b s = (if b then Inl (Reject s) else Inr ())"

lemma guard_eq_Inr [simp]: "guard p r = Inr x \<longleftrightarrow> r = Inr x"
  by (auto simp: guard_def split: sum.splits validation_error.splits)

lemma uncaught_eq_Inr [simp]: "uncaught r = Inr x \<longleftrightarrow> r = Inr x"
  by (auto simp: uncaught_def split: sum.splits panic.splits)

lemma reject_if_eq_Inr [simp]: "reject_if b s = Inr u \<longleftrightarrow> \<not> b"
  by (simp add: reject_if_def)

subsection \<open>Calls to the store\<close>

text \<open>
  Every call to the RocksDB-backed store may fail. The model takes the failures as an argument, a map
  from the call to the text of the error it returns in this run, so that the branches the code has
  for a failed read or write (fail open, fail closed, log and go on) are branches of the model.
\<close>

datatype store_call =
    GetConfig | SetConfig | AppendHistory
  | GetProposal string | PutProposal string
  | GetToken string | PutToken string | GetSftClass string | PutSftClass string
  | GetCollectionOwner string | PutCollectionOwner string
  | IsFrozen string | PutFrozen string | DeleteFrozen string | LogCompliance string
  | RecordRotation | ListRotations
  | DbGet string string | DbPut string string | DbDelete string string | DbScan string | DbWrite string
  | GetBlock string | IsCustodialConsumed string | IsBridgeConsumed string
  | GetFeePool | AddFeePool | GetMiners | ResetPool | GetRewardAddress string | IncrementBlockCount string

type_synonym faults = "store_call \<Rightarrow> string option"

definition io :: "faults \<Rightarrow> store_call \<Rightarrow> 'a \<Rightarrow> string + 'a" where
  "io F call x = (case F call of None \<Rightarrow> Inr x | Some e \<Rightarrow> Inl e)"

definition no_faults :: faults where
  "no_faults = (\<lambda>_. None)"

lemma io_eq_Inr [simp]: "io F call x = Inr y \<longleftrightarrow> F call = None \<and> y = x"
  by (auto simp: io_def split: option.splits)

lemma io_eq_Inl [simp]: "io F call x = Inl e \<longleftrightarrow> F call = Some e"
  by (auto simp: io_def split: option.splits)

lemma io_no_faults [simp]: "io no_faults call x = Inr x"
  by (simp add: no_faults_def)

end
