(* ===== verification/Market.thy ===== *)
theory Market
  imports Gate Conservation Ownership PayloadTypes
begin

section \<open>Atomic settlements and the resale royalty\<close>

text \<open>
  \<open>validations/market.rs\<close> and the royalty helpers of \<open>pms-types-payload\<close>. The two hash maps of
  \<open>validate_settlement\<close>, keyed by accounting identity and asset, are association lists. Unary minus
  is subtraction from zero.
\<close>

subsection \<open>The royalty policy of an asset\<close>

definition non_blank :: "string option \<Rightarrow> string option" where
  "non_blank s = (case s of None \<Rightarrow> None | Some t \<Rightarrow> if trim t = [] then None else Some (trim t))"

definition validate_royalty_fields :: "u32 option \<Rightarrow> string option \<Rightarrow> string + unit" where
  "validate_royalty_fields royalty_bps royalty_beneficiary =
     (let bps = (case royalty_bps of None \<Rightarrow> 0 | Some b \<Rightarrow> b);
          beneficiary = non_blank royalty_beneficiary
      in if 10000 < bps then Inl (''royalty_bps must be <= 10000, got '' @ show_nat (unat bps))
         else if royalty_beneficiary \<noteq> None \<and> beneficiary = None then Inl ''royalty_beneficiary cannot be empty''
         else if 0 < bps \<and> beneficiary = None then
           Inl ''royalty_beneficiary is required when royalty_bps > 0''
         else Inr ())"

definition effective_royalty :: "token_metadata \<Rightarrow> (u32 \<times> string) option" where
  "effective_royalty m =
     (case tm_royalty_bps m of
        Some bps \<Rightarrow>
          if 0 < bps then
            Some (bps, case non_blank (tm_royalty_beneficiary m) of Some b \<Rightarrow> b | None \<Rightarrow> tm_creator m)
          else None
      | None \<Rightarrow> None)"

definition pms_native_decimals :: nat where
  "pms_native_decimals = 8"

definition price_decimals :: "u8 option \<Rightarrow> nat" where
  "price_decimals meta_decimals = (case meta_decimals of None \<Rightarrow> pms_native_decimals | Some d \<Rightarrow> unat d)"

definition max_settlement_amount :: nat where
  "max_settlement_amount = 1000000000000000000"

definition compute_royalty :: "'d dec_lib \<Rightarrow> 'd \<Rightarrow> u32 \<Rightarrow> nat \<Rightarrow> 'd option" where
  "compute_royalty D price royalty_bps decimals =
     (if royalty_bps = 0 then Some (d_zero D)
      else
        Option.bind (d_checked_mul D price (d_of_nat D (unat royalty_bps))) (\<lambda>x.
        Option.bind (d_checked_div D x (d_of_nat D 10000)) (\<lambda>raw.
        Some (d_trunc_dp D raw decimals))))"

subsection \<open>The settlement gate\<close>

record 'd settlement_check =
  sk_asset_sold :: string
  sk_quantity :: 'd
  sk_price_asset :: "string option"
  sk_price :: 'd
  sk_seller :: string
  sk_buyer :: string
  sk_royalty :: 'd
  sk_beneficiary :: "string option"

type_synonym net_key = "string \<times> string option"
type_synonym 'd net = "(net_key \<times> 'd) list"

definition net_at :: "'d dec_lib \<Rightarrow> 'd net \<Rightarrow> net_key \<Rightarrow> 'd" where
  "net_at D m k = (case map_of m k of None \<Rightarrow> d_zero D | Some x \<Rightarrow> x)"

definition net_credit :: "'d dec_lib \<Rightarrow> ext_lib \<Rightarrow> 'd net \<Rightarrow> tx_output \<Rightarrow> 'd net gate" where
  "net_credit D X m out =
     (let k = (address_identity X (o_address out), o_asset_id out) in
      rbind (ok_or (d_from_str_exact D (o_amount out)) (Reject (''settlement: bad output amount '' @ o_amount out))) (\<lambda>a.
      rbind (ok_or (d_checked_add D (net_at D m k) a) (Reject ''settlement: amount overflow'')) (\<lambda>s.
      Inr (AList.update k s m))))"

definition net_debit :: "'d dec_lib \<Rightarrow> ext_lib \<Rightarrow> 'd net \<Rightarrow> tx_output \<Rightarrow> 'd net gate" where
  "net_debit D X m i =
     (let k = (address_identity X (o_address i), o_asset_id i) in
      rbind (ok_or (d_from_str_exact D (o_amount i)) (Reject (''settlement: bad input amount '' @ o_amount i))) (\<lambda>a.
      rbind (ok_or (d_checked_sub D (net_at D m k) a) (Reject ''settlement: amount overflow'')) (\<lambda>s.
      Inr (AList.update k s m))))"

definition settlement_shape :: "'d dec_lib \<Rightarrow> 'd settlement_check \<Rightarrow> unit gate" where
  "settlement_shape D c =
     (let mx = d_of_nat D max_settlement_amount; z = d_zero D in
      rbind (reject_if (d_le D (sk_quantity c) z \<or> d_lt D mx (sk_quantity c)) ''settlement: quantity out of range'') (\<lambda>_.
      rbind (reject_if (d_le D (sk_price c) z \<or> d_lt D mx (sk_price c)) ''settlement: price out of range'') (\<lambda>_.
      rbind (reject_if (trim (sk_asset_sold c) = []) ''settlement: asset_sold required'') (\<lambda>_.
      rbind (reject_if (trim (sk_seller c) = [] \<or> trim (sk_buyer c) = []) ''settlement: seller and buyer required'') (\<lambda>_.
      rbind (reject_if (sk_seller c = sk_buyer c) ''settlement: buyer and seller must differ'') (\<lambda>_.
      rbind (reject_if (sk_price_asset c = Some (sk_asset_sold c)) ''settlement: asset_sold and price_asset must differ'') (\<lambda>_.
      rbind (reject_if (d_lt D (sk_royalty c) z \<or> d_lt D (sk_price c) (sk_royalty c)) ''settlement: royalty out of range'') (\<lambda>_.
      rbind (reject_if (d_lt D z (sk_royalty c) \<and> sk_beneficiary c = None) ''settlement: royalty > 0 requires a beneficiary'') (\<lambda>_.
      reject_if (d_lt D z (sk_royalty c) \<and> sk_beneficiary c = Some (sk_buyer c))
        ''settlement: royalty beneficiary cannot be the buyer'')))))))))"

definition net_gain :: "'d dec_lib \<Rightarrow> net_key \<Rightarrow> 'd \<Rightarrow> 'd net \<Rightarrow> 'd net gate" where
  "net_gain D k a m = rbind (uncaught (dec_add D (net_at D m k) a)) (\<lambda>s. Inr (AList.update k s m))"

definition allowed_gains :: "'d dec_lib \<Rightarrow> ext_lib \<Rightarrow> 'd settlement_check \<Rightarrow> 'd \<Rightarrow> 'd net gate" where
  "allowed_gains D X c net_to_seller =
     rbind (net_gain D (address_identity X (sk_buyer c), Some (sk_asset_sold c)) (sk_quantity c) []) (\<lambda>m.
     rbind (net_gain D (address_identity X (sk_seller c), sk_price_asset c) net_to_seller m) (\<lambda>m.
     if d_lt D (d_zero D) (sk_royalty c) then
       (case sk_beneficiary c of
          None \<Rightarrow> Inl (Crash ''beneficiary present when royalty > 0'')
        | Some b \<Rightarrow> net_gain D (address_identity X b, sk_price_asset c) (sk_royalty c) m)
     else Inr m))"

definition show_asset :: "string option \<Rightarrow> string" where
  "show_asset a = (case a of None \<Rightarrow> ''PMS'' | Some t \<Rightarrow> t)"

definition no_other_credit :: "'d dec_lib \<Rightarrow> 'd net \<Rightarrow> 'd net \<Rightarrow> unit gate" where
  "no_other_credit D allowed net =
     try_each (\<lambda>((ident, asset), n).
       reject_if (d_lt D (d_zero D) n \<and>
         (case map_of allowed (ident, asset) of None \<Rightarrow> True | Some e \<Rightarrow> \<not> d_eq D e n))
         (''settlement: unexpected credit '' @ d_show D n @ '' '' @ show_asset asset @ '' to '' @ ident @
          '' (not part of the declared split)'')) net"

definition gains_paid :: "'d dec_lib \<Rightarrow> 'd net \<Rightarrow> 'd net \<Rightarrow> unit gate" where
  "gains_paid D allowed net =
     try_each (\<lambda>((ident, asset), e).
       reject_if (d_lt D (d_zero D) e \<and> \<not> d_eq D (net_at D net (ident, asset)) e)
         (''settlement: '' @ ident @ '' must net-receive exactly '' @ d_show D e @ '' of '' @ show_asset asset)) allowed"

definition validate_settlement ::
  "'d dec_lib \<Rightarrow> ext_lib \<Rightarrow> tx_output list \<Rightarrow> tx_output list \<Rightarrow> 'd settlement_check \<Rightarrow> unit gate" where
  "validate_settlement D X input_outputs outputs c =
     rbind (settlement_shape D c) (\<lambda>_.
     rbind (uncaught (dec_sub D (sk_price c) (sk_royalty c))) (\<lambda>net_to_seller.
     rbind (try_fold (net_credit D X) [] outputs) (\<lambda>net.
     rbind (try_fold (net_debit D X) net input_outputs) (\<lambda>net.
     rbind (allowed_gains D X c net_to_seller) (\<lambda>allowed.
     rbind (no_other_credit D allowed net) (\<lambda>_.
     rbind (gains_paid D allowed net) (\<lambda>_.
     rbind (uncaught (dec_sub D (d_zero D) (sk_quantity c))) (\<lambda>minus_quantity.
     reject_if (\<not> d_eq D (net_at D net (address_identity X (sk_seller c), Some (sk_asset_sold c))) minus_quantity)
       (''settlement: seller must net-relinquish exactly '' @ d_show D (sk_quantity c) @ '' of '' @ sk_asset_sold c)))))))))"

subsection \<open>The specification: who gains what\<close>

definition exact_val :: "'d dec_lib \<Rightarrow> ('d \<Rightarrow> rat) \<Rightarrow> tx_output \<Rightarrow> rat" where
  "exact_val D v out = (case d_from_str_exact D (o_amount out) of None \<Rightarrow> 0 | Some d \<Rightarrow> v d)"

definition exact_amount :: "'d dec_lib \<Rightarrow> ('d \<Rightarrow> rat) \<Rightarrow> tx_output \<Rightarrow> bool" where
  "exact_amount D v out \<longleftrightarrow>
     d_from_str_exact D (o_amount out) \<noteq> None \<and> at_scale 8 (exact_val D v out) \<and> 0 \<le> exact_val D v out"

definition flow :: "ext_lib \<Rightarrow> (tx_output \<Rightarrow> rat) \<Rightarrow> net_key \<Rightarrow> tx_output list \<Rightarrow> rat" where
  "flow X f k xs = sum_list (map f (filter (\<lambda>out. (address_identity X (o_address out), o_asset_id out) = k) xs))"

definition net_flow ::
  "'d dec_lib \<Rightarrow> ('d \<Rightarrow> rat) \<Rightarrow> ext_lib \<Rightarrow> tx_output list \<Rightarrow> tx_output list \<Rightarrow> net_key \<Rightarrow> rat" where
  "net_flow D v X ins outs k = flow X (exact_val D v) k outs - flow X (exact_val D v) k ins"

definition declared_gain :: "'d dec_lib \<Rightarrow> ('d \<Rightarrow> rat) \<Rightarrow> ext_lib \<Rightarrow> 'd settlement_check \<Rightarrow> net_key \<Rightarrow> rat" where
  "declared_gain D v X c k =
     (if k = (address_identity X (sk_buyer c), Some (sk_asset_sold c)) then v (sk_quantity c) else 0) +
     (if k = (address_identity X (sk_seller c), sk_price_asset c) then v (sk_price c) - v (sk_royalty c) else 0) +
     (if 0 < v (sk_royalty c) \<and> (\<exists>b. sk_beneficiary c = Some b \<and> k = (address_identity X b, sk_price_asset c))
      then v (sk_royalty c) else 0)"

definition well_declared :: "('d \<Rightarrow> rat) \<Rightarrow> 'd settlement_check \<Rightarrow> bool" where
  "well_declared v c \<longleftrightarrow>
     0 < v (sk_quantity c) \<and> v (sk_quantity c) \<le> 10 ^ 18 \<and> 0 < v (sk_price c) \<and> v (sk_price c) \<le> 10 ^ 18 \<and>
     trim (sk_asset_sold c) \<noteq> [] \<and> trim (sk_seller c) \<noteq> [] \<and> trim (sk_buyer c) \<noteq> [] \<and>
     sk_seller c \<noteq> sk_buyer c \<and> sk_price_asset c \<noteq> Some (sk_asset_sold c) \<and>
     0 \<le> v (sk_royalty c) \<and> v (sk_royalty c) \<le> v (sk_price c) \<and>
     (0 < v (sk_royalty c) \<longrightarrow> sk_beneficiary c \<noteq> None \<and> sk_beneficiary c \<noteq> Some (sk_buyer c))"

subsection \<open>The maps hold the flows\<close>

lemma flow_snoc:
  "flow X f k (xs @ [x]) = flow X f k xs + (if k = (address_identity X (o_address x), o_asset_id x) then f x else 0)"
  by (auto simp: flow_def)

lemma flow_nonneg: "(\<And>x. x \<in> set xs \<Longrightarrow> 0 \<le> f x) \<Longrightarrow> 0 \<le> flow X f k xs"
  unfolding flow_def by (rule sum_list_nonneg) auto

lemma flow_le: "(\<And>x. x \<in> set xs \<Longrightarrow> 0 \<le> f x) \<Longrightarrow> flow X f k xs \<le> sum_list (map f xs)"
  by (induction xs) (auto simp: flow_def add_increasing)

lemma flow_scale: "(\<forall>x\<in>set xs. at_scale n (f x)) \<Longrightarrow> at_scale n (flow X f k xs)"
  unfolding flow_def by (rule at_scale_sum_list) auto

definition net_rep :: "'d dec_lib \<Rightarrow> ('d \<Rightarrow> rat) \<Rightarrow> 'd net \<Rightarrow> (net_key \<Rightarrow> rat) \<Rightarrow> bool" where
  "net_rep D v m N \<longleftrightarrow> distinct (map fst m) \<and> (\<forall>k. v (net_at D m k) = N k)"

lemma net_rep_update:
  assumes "net_rep D v m N" and "v s = x"
  shows "net_rep D v (AList.update k s m) (N(k := x))"
  using assms by (auto simp: net_rep_def net_at_def update_conv' distinct_update)

lemma net_rep_all:
  assumes L: "dec_laws D v" and rep: "net_rep D v m N" and P0: "\<And>k. P k 0"
  shows "(\<forall>(k, n)\<in>set m. P k (v n)) \<longleftrightarrow> (\<forall>k. P k (N k))"
proof
  assume all: "\<forall>(k, n)\<in>set m. P k (v n)"
  show "\<forall>k. P k (N k)"
  proof
    fix k
    have k: "v (net_at D m k) = N k" using rep unfolding net_rep_def by blast
    show "P k (N k)"
    proof (cases "map_of m k")
      case None
      then have "N k = 0" using k dec_laws_zero [OF L] by (simp add: net_at_def)
      then show ?thesis using P0 by simp
    next
      case (Some n)
      then have "N k = v n" using k by (simp add: net_at_def)
      then show ?thesis using all map_of_SomeD [OF Some] by auto
    qed
  qed
next
  assume all: "\<forall>k. P k (N k)"
  have "P k (v n)" if "(k, n) \<in> set m" for k n
  proof -
    have "map_of m k = Some n" using rep that by (simp add: net_rep_def)
    moreover have "v (net_at D m k) = N k" using rep unfolding net_rep_def by blast
    ultimately have "v n = N k" by (simp add: net_at_def)
    then show ?thesis using spec [OF all, of k] by simp
  qed
  then show "\<forall>(k, n)\<in>set m. P k (v n)" by blast
qed

lemma net_credit_step:
  "d_from_str_exact D (o_amount out) = Some a \<Longrightarrow>
   d_checked_add D (net_at D m (address_identity X (o_address out), o_asset_id out)) a = Some s \<Longrightarrow>
   net_credit D X m out = Inr (AList.update (address_identity X (o_address out), o_asset_id out) s m)"
  by (simp add: net_credit_def)

lemma net_debit_step:
  "d_from_str_exact D (o_amount i) = Some a \<Longrightarrow>
   d_checked_sub D (net_at D m (address_identity X (o_address i), o_asset_id i)) a = Some s \<Longrightarrow>
   net_debit D X m i = Inr (AList.update (address_identity X (o_address i), o_asset_id i) s m)"
  by (simp add: net_debit_def)

lemma small_repr: "at_scale 8 q \<Longrightarrow> \<bar>q\<bar> \<le> 10 ^ 19 \<Longrightarrow> dec_repr q"
  by (rule dec_repr_at_scale [of 8]) auto

lemma net_credits:
  assumes L: "dec_laws D v" and "\<forall>x\<in>set outs. exact_amount D v x"
    and "sum_list (map (exact_val D v) outs) \<le> 10 ^ 16"
  shows "\<exists>m. try_fold (net_credit D X) [] outs = Inr m \<and> net_rep D v m (\<lambda>k. flow X (exact_val D v) k outs)"
  using assms(2-)
proof (induction outs rule: rev_induct)
  case Nil
  then show ?case by (simp add: net_rep_def net_at_def flow_def dec_laws_zero [OF L])
next
  case (snoc out outs)
  let ?f = "exact_val D v" and ?k = "(address_identity X (o_address out), o_asset_id out)"
  have nn: "\<And>x. x \<in> set (outs @ [out]) \<Longrightarrow> 0 \<le> ?f x" using snoc.prems(1) by (auto simp: exact_amount_def)
  have "sum_list (map ?f outs) \<le> 10 ^ 16" using snoc.prems(2) nn [of out] by simp
  then obtain m where m: "try_fold (net_credit D X) [] outs = Inr m" "net_rep D v m (\<lambda>k. flow X ?f k outs)"
    using snoc.IH snoc.prems(1) by auto
  obtain d where d: "d_from_str_exact D (o_amount out) = Some d" "v d = ?f out"
    using snoc.prems(1) by (auto simp: exact_amount_def exact_val_def)
  let ?t = "flow X ?f ?k (outs @ [out])"
  have t: "v (net_at D m ?k) + v d = ?t" using m(2) d(2) by (simp add: net_rep_def flow_snoc)
  have "at_scale 8 ?t" by (rule flow_scale) (use snoc.prems(1) in \<open>simp add: exact_amount_def\<close>)
  moreover have "0 \<le> ?t" by (rule flow_nonneg [OF nn])
  moreover have "?t \<le> 10 ^ 16" using flow_le [OF nn] snoc.prems(2) by (rule order_trans)
  ultimately have "dec_repr (v (net_at D m ?k) + v d)" unfolding t by (intro small_repr) auto
  then obtain s where s: "d_checked_add D (net_at D m ?k) d = Some s" "v s = ?t"
    using dec_laws_add [OF L] t by metis
  have "net_rep D v (AList.update ?k s m) (\<lambda>k. flow X ?f k (outs @ [out]))"
    using net_rep_update [OF m(2) s(2)] by (rule back_subst [of "net_rep D v _"]) (auto simp: flow_snoc)
  then show ?case using m(1) net_credit_step [OF d(1) s(1)] by (simp add: try_fold_append)
qed

lemma net_debits:
  assumes L: "dec_laws D v" and rep: "net_rep D v m N" and "\<forall>x\<in>set ins. exact_amount D v x"
    and N: "\<And>k. at_scale 8 (N k) \<and> 0 \<le> N k \<and> N k \<le> 10 ^ 16"
    and "sum_list (map (exact_val D v) ins) \<le> 10 ^ 16"
  shows "\<exists>m'. try_fold (net_debit D X) m ins = Inr m' \<and> net_rep D v m' (\<lambda>k. N k - flow X (exact_val D v) k ins)"
  using assms(3,5)
proof (induction ins rule: rev_induct)
  case Nil
  then show ?case using rep by (simp add: flow_def)
next
  case (snoc i ins)
  let ?f = "exact_val D v" and ?k = "(address_identity X (o_address i), o_asset_id i)"
  have nn: "\<And>x. x \<in> set (ins @ [i]) \<Longrightarrow> 0 \<le> ?f x" using snoc.prems(1) by (auto simp: exact_amount_def)
  have "sum_list (map ?f ins) \<le> 10 ^ 16" using snoc.prems(2) nn [of i] by simp
  then obtain m' where m': "try_fold (net_debit D X) m ins = Inr m'" "net_rep D v m' (\<lambda>k. N k - flow X ?f k ins)"
    using snoc.IH snoc.prems(1) by auto
  obtain d where d: "d_from_str_exact D (o_amount i) = Some d" "v d = ?f i"
    using snoc.prems(1) by (auto simp: exact_amount_def exact_val_def)
  let ?t = "N ?k - flow X ?f ?k (ins @ [i])"
  have t: "v (net_at D m' ?k) - v d = ?t" using m'(2) d(2) by (simp add: net_rep_def flow_snoc)
  have "at_scale 8 (flow X ?f ?k (ins @ [i]))"
    by (rule flow_scale) (use snoc.prems(1) in \<open>simp add: exact_amount_def\<close>)
  then have "at_scale 8 ?t" using N [of ?k] by (intro at_scale_diff) auto
  moreover have "0 \<le> flow X ?f ?k (ins @ [i])" by (rule flow_nonneg [OF nn])
  moreover have "flow X ?f ?k (ins @ [i]) \<le> 10 ^ 16" using flow_le [OF nn] snoc.prems(2) by (rule order_trans)
  ultimately have "dec_repr (v (net_at D m' ?k) - v d)"
    unfolding t using N [of ?k] by (intro small_repr) auto
  then obtain s where s: "d_checked_sub D (net_at D m' ?k) d = Some s" "v s = ?t"
    using dec_laws_sub [OF L] t by metis
  have "net_rep D v (AList.update ?k s m') (\<lambda>k. N k - flow X ?f k (ins @ [i]))"
    using net_rep_update [OF m'(2) s(2)] by (rule back_subst [of "net_rep D v _"]) (auto simp: flow_snoc)
  then show ?case using m'(1) net_debit_step [OF d(1) s(1)] by (simp add: try_fold_append)
qed

lemma net_gain_ok:
  assumes L: "dec_laws D v" and rep: "net_rep D v m N" and "N k = x" "dec_repr y" "x + v a = y"
  shows "\<exists>m'. net_gain D k a m = Inr m' \<and> net_rep D v m' (N(k := y))"
proof -
  have k: "v (net_at D m k) = N k" using rep unfolding net_rep_def by blast
  then obtain s where s: "d_checked_add D (net_at D m k) a = Some s" "v s = y"
    using dec_laws_add [OF L, of "net_at D m k" a] assms(3-) by auto
  then show ?thesis using net_rep_update [OF rep s(2)] by (simp add: net_gain_def dec_add_def uncaught_def)
qed

lemma allowed_gains_ok:
  assumes L: "dec_laws D v" and wd: "well_declared v c" and n: "v n = v (sk_price c) - v (sk_royalty c)"
    and scale: "at_scale 8 (v (sk_quantity c))" "at_scale 8 (v (sk_price c))" "at_scale 8 (v (sk_royalty c))"
  shows "\<exists>m. allowed_gains D X c n = Inr m \<and> net_rep D v m (declared_gain D v X c)"
proof -
  let ?q = "v (sk_quantity c)" and ?r = "v (sk_royalty c)" and ?p = "v (sk_price c)"
  let ?bk = "(address_identity X (sk_buyer c), Some (sk_asset_sold c))"
  let ?sk = "(address_identity X (sk_seller c), sk_price_asset c)"
  have range: "0 < ?q" "?q \<le> 10 ^ 18" "0 \<le> ?r" "?r \<le> ?p" "?p \<le> 10 ^ 18" "?sk \<noteq> ?bk"
    using wd by (auto simp: well_declared_def)
  let ?N1 = "(\<lambda>_. 0)(?bk := ?q)"
  let ?N2 = "?N1(?sk := v n)"
  have zero: "net_rep D v [] (\<lambda>_. 0)" by (simp add: net_rep_def net_at_def dec_laws_zero [OF L])
  have "dec_repr ?q" using range scale by (intro small_repr) auto
  then obtain m1 where m1: "net_gain D ?bk (sk_quantity c) [] = Inr m1" "net_rep D v m1 ?N1"
    using net_gain_ok [OF L zero, where x = 0 and y = ?q and a = "sk_quantity c" and k = ?bk] by auto
  have "dec_repr (v n)" unfolding n using range scale by (intro small_repr at_scale_diff) auto
  then obtain m2 where m2: "net_gain D ?sk n m1 = Inr m2" "net_rep D v m2 ?N2"
    using net_gain_ok [OF L m1(2), where x = 0 and y = "v n" and a = n and k = ?sk] range(6) by auto
  show ?thesis
  proof (cases "0 < ?r")
    case False
    then have "declared_gain D v X c = ?N2"
      using range(6) n by (auto simp: declared_gain_def fun_eq_iff)
    then show ?thesis using m1 m2 False dec_laws_zero [OF L]
      by (simp add: allowed_gains_def dec_laws_lt [OF L])
  next
    case True
    then obtain b where b: "sk_beneficiary c = Some b" using wd by (auto simp: well_declared_def)
    let ?rk = "(address_identity X b, sk_price_asset c)"
    let ?x = "if ?rk = ?sk then v n else 0"
    have rk: "?rk \<noteq> ?bk" using wd by (simp add: well_declared_def)
    have x: "?N2 ?rk = ?x" using rk by auto
    have "dec_repr (?x + ?r)"
      using range scale n by (intro small_repr at_scale_add) (auto intro: at_scale_diff)
    then obtain m3 where m3: "net_gain D ?rk (sk_royalty c) m2 = Inr m3" "net_rep D v m3 (?N2(?rk := ?x + ?r))"
      using net_gain_ok [OF L m2(2) x, where a = "sk_royalty c"] by blast
    have "declared_gain D v X c = ?N2(?rk := ?x + ?r)"
      using range(6) rk n b True by (auto simp: declared_gain_def fun_eq_iff)
    then show ?thesis using m1 m2 m3 b True dec_laws_zero [OF L]
      by (simp add: allowed_gains_def dec_laws_lt [OF L])
  qed
qed

lemma settlement_shape_ok:
  assumes L: "dec_laws D v"
  shows "settlement_shape D c = Inr () \<longleftrightarrow> well_declared v c"
proof -
  have "v (d_of_nat D max_settlement_amount) = 10 ^ 18"
    using dec_laws_of_nat [OF L, of max_settlement_amount] by (simp add: max_settlement_amount_def)
  then show ?thesis
    by (auto simp: settlement_shape_def well_declared_def Let_def dec_laws_lt [OF L] dec_laws_le [OF L] dec_laws_zero [OF L])
qed

lemma declared_gain_nonneg: "well_declared v c \<Longrightarrow> 0 \<le> declared_gain D v X c k"
  by (auto simp: declared_gain_def well_declared_def)

lemma no_other_credit_ok:
  assumes L: "dec_laws D v" and A: "net_rep D v allowed G" and N: "net_rep D v net N"
  shows "no_other_credit D allowed net = Inr () \<longleftrightarrow> (\<forall>k. 0 < N k \<longrightarrow> G k = N k)"
proof -
  have G: "(case map_of allowed k of None \<Rightarrow> True | Some e \<Rightarrow> v e \<noteq> x) \<longleftrightarrow> G k \<noteq> x" if "0 < x" for k x
  proof -
    have "v (net_at D allowed k) = G k" using A unfolding net_rep_def by blast
    then show ?thesis using that dec_laws_zero [OF L] by (cases "map_of allowed k") (auto simp: net_at_def)
  qed
  have step: "0 < v n \<and> (case map_of allowed k of None \<Rightarrow> True | Some e \<Rightarrow> v e \<noteq> v n) \<longleftrightarrow>
      \<not> (0 < v n \<longrightarrow> G k = v n)" for k n
    using G [of "v n" k] by blast
  have "no_other_credit D allowed net = Inr () \<longleftrightarrow> (\<forall>((i, a), n)\<in>set net. 0 < v n \<longrightarrow> G (i, a) = v n)"
    unfolding no_other_credit_def try_each_eq_Inr dec_laws_lt [OF L] dec_laws_zero [OF L] dec_laws_eq [OF L]
      case_prod_unfold reject_if_eq_Inr step by simp
  then show ?thesis using net_rep_all [OF L N, of "\<lambda>k x. 0 < x \<longrightarrow> G k = x"] by (simp add: case_prod_unfold)
qed

lemma gains_paid_ok:
  assumes L: "dec_laws D v" and A: "net_rep D v allowed G" and N: "net_rep D v net N"
  shows "gains_paid D allowed net = Inr () \<longleftrightarrow> (\<forall>k. 0 < G k \<longrightarrow> N k = G k)"
proof -
  have "v (net_at D net k) = N k" for k using N unfolding net_rep_def by blast
  then have "gains_paid D allowed net = Inr () \<longleftrightarrow> (\<forall>((i, a), e)\<in>set allowed. 0 < v e \<longrightarrow> N (i, a) = v e)"
    unfolding gains_paid_def try_each_eq_Inr dec_laws_lt [OF L] dec_laws_zero [OF L] dec_laws_eq [OF L]
      case_prod_unfold reject_if_eq_Inr by auto
  then show ?thesis using net_rep_all [OF L A, of "\<lambda>k x. 0 < x \<longrightarrow> N k = x"] by (simp add: case_prod_unfold)
qed

lemma settlement_decides:
  assumes L: "dec_laws D v"
    and amounts: "\<forall>x\<in>set outs. exact_amount D v x" "\<forall>x\<in>set ins. exact_amount D v x"
    and bounds: "sum_list (map (exact_val D v) outs) \<le> 10 ^ 16" "sum_list (map (exact_val D v) ins) \<le> 10 ^ 16"
    and scale: "at_scale 8 (v (sk_quantity c))" "at_scale 8 (v (sk_price c))" "at_scale 8 (v (sk_royalty c))"
  shows "validate_settlement D X ins outs c = Inr () \<longleftrightarrow>
    well_declared v c \<and> (\<forall>k. max 0 (net_flow D v X ins outs k) = declared_gain D v X c k) \<and>
    net_flow D v X ins outs (address_identity X (sk_seller c), Some (sk_asset_sold c)) = - v (sk_quantity c)"
proof (cases "well_declared v c")
  case False
  then show ?thesis using settlement_shape_ok [OF L, of c] by (auto simp: validate_settlement_def)
next
  case True
  let ?N = "net_flow D v X ins outs" and ?G = "declared_gain D v X c"
  let ?ik = "(address_identity X (sk_seller c), Some (sk_asset_sold c))"
  have range: "0 \<le> v (sk_royalty c)" "v (sk_royalty c) \<le> v (sk_price c)" "v (sk_price c) \<le> 10 ^ 18"
    "0 < v (sk_quantity c)" "v (sk_quantity c) \<le> 10 ^ 18"
    using True by (simp_all add: well_declared_def)
  have "dec_repr (v (sk_price c) - v (sk_royalty c))"
    using range scale by (intro small_repr) (auto intro: at_scale_diff)
  then obtain n where n: "d_checked_sub D (sk_price c) (sk_royalty c) = Some n" "v n = v (sk_price c) - v (sk_royalty c)"
    using dec_laws_sub [OF L] by blast
  have "dec_repr (0 - v (sk_quantity c))"
    using range by (intro small_repr at_scale_diff [OF at_scale_0 scale(1)]) auto
  then obtain q where q: "d_checked_sub D (d_zero D) (sk_quantity c) = Some q" "v q = - v (sk_quantity c)"
    using dec_laws_sub [OF L, of "d_zero D" "sk_quantity c"] dec_laws_zero [OF L] by auto
  obtain m where m: "try_fold (net_credit D X) [] outs = Inr m" "net_rep D v m (\<lambda>k. flow X (exact_val D v) k outs)"
    using net_credits [OF L amounts(1) bounds(1)] by blast
  have nn: "\<And>x. x \<in> set outs \<Longrightarrow> 0 \<le> exact_val D v x" using amounts(1) by (simp add: exact_amount_def)
  have "at_scale 8 (flow X (exact_val D v) k outs) \<and> 0 \<le> flow X (exact_val D v) k outs \<and>
      flow X (exact_val D v) k outs \<le> 10 ^ 16" for k
    using flow_scale [of outs 8 "exact_val D v"] flow_nonneg [OF nn] order_trans [OF flow_le [OF nn] bounds(1)] amounts(1)
    by (auto simp: exact_amount_def)
  then obtain net where net: "try_fold (net_debit D X) m ins = Inr net" "net_rep D v net ?N"
    using net_debits [OF L m(2) amounts(2) _ bounds(2)] unfolding net_flow_def by blast
  obtain A where A: "allowed_gains D X c n = Inr A" "net_rep D v A ?G"
    using allowed_gains_ok [OF L True n(2) scale] by blast
  have item: "v (net_at D net ?ik) = ?N ?ik" using net(2) unfolding net_rep_def by blast
  have split: "(\<forall>k. 0 < ?N k \<longrightarrow> ?G k = ?N k) \<and> (\<forall>k. 0 < ?G k \<longrightarrow> ?N k = ?G k) \<longleftrightarrow> (\<forall>k. max 0 (?N k) = ?G k)"
  proof -
    have "(0 < n \<longrightarrow> g = n) \<and> (0 < g \<longrightarrow> n = g) \<longleftrightarrow> max 0 n = g" if "0 \<le> g" for n g :: rat
      using that by (auto simp: max_def)
    then show ?thesis unfolding all_conj_distrib [symmetric] using declared_gain_nonneg [OF True, of D X] by simp
  qed
  have shape: "settlement_shape D c = Inr ()" using settlement_shape_ok [OF L] True by blast
  have "validate_settlement D X ins outs c = Inr () \<longleftrightarrow>
      no_other_credit D A net = Inr () \<and> gains_paid D A net = Inr () \<and> v (net_at D net ?ik) = v q"
    by (simp add: validate_settlement_def shape dec_sub_def n(1) m(1) net(1) A(1) q(1) uncaught_def dec_laws_eq [OF L])
  then show ?thesis
    unfolding no_other_credit_ok [OF L A(2) net(2)] gains_paid_ok [OF L A(2) net(2)] item q(2)
    using True split by blast
qed

text \<open>
  Claim C12. Exact accounting of a settlement: over the rationals, the gate accepts exactly the well
  declared settlements in which the net gain of every identity in every asset is the declared gain
  (the item to the buyer, the price less the royalty to the seller, the royalty to its beneficiary)
  or no gain at all, and the seller gives up exactly the quantity sold. No side payment, no short
  payment and no third recipient passes, and no valid settlement is refused.
\<close>

theorem settlement_accounting:
  assumes L: "dec_laws D v"
    and amounts: "\<forall>x\<in>set outs. exact_amount D v x" "\<forall>x\<in>set ins. exact_amount D v x"
    and bounds: "sum_list (map (exact_val D v) outs) \<le> 10 ^ 16" "sum_list (map (exact_val D v) ins) \<le> 10 ^ 16"
    and scale: "at_scale 8 (v (sk_quantity c))" "at_scale 8 (v (sk_price c))" "at_scale 8 (v (sk_royalty c))"
  shows "validate_settlement D X ins outs c = Inr () \<longleftrightarrow>
    well_declared v c \<and> (\<forall>k. max 0 (net_flow D v X ins outs k) = declared_gain D v X c k) \<and>
    net_flow D v X ins outs (address_identity X (sk_seller c), Some (sk_asset_sold c)) = - v (sk_quantity c)"
  by (rule settlement_decides [OF assms])

definition sample_sale :: "rdec settlement_check" where
  "sample_sale = \<lparr>sk_asset_sold = ''I'', sk_quantity = (2, 0), sk_price_asset = None, sk_price = (5, 0),
     sk_seller = ''s'', sk_buyer = ''b'', sk_royalty = (1, 0), sk_beneficiary = Some ''c''\<rparr>"

definition sale_inputs :: "tx_output list" where
  "sale_inputs = [txoutput_new ''s'' ''2'' (Some ''I''), txoutput_new ''b'' ''6'' None]"

definition sale_outputs :: "tx_output list" where
  "sale_outputs = [txoutput_new ''b'' ''2'' (Some ''I''), txoutput_new ''s'' ''4'' None, txoutput_new ''c'' ''1'' None,
     txoutput_new ''b'' ''1'' None]"

theorem settlement_accounting_witness:
  "validate_settlement ref_dec ref_ext sale_inputs sale_outputs sample_sale = Inr ()"
proof -
  have ident: "address_identity ref_ext ''s'' = ''nonkey:s''" "address_identity ref_ext ''b'' = ''nonkey:b''"
    "address_identity ref_ext ''c'' = ''nonkey:c''" by code_simp+
  have trims: "trim ''I'' \<noteq> []" "trim ''s'' \<noteq> []" "trim ''b'' \<noteq> []" by code_simp+
  have parse: "d_from_str_exact ref_dec ''1'' = Some (1, 0)" "d_from_str_exact ref_dec ''2'' = Some (2, 0)"
    "d_from_str_exact ref_dec ''4'' = Some (4, 0)" "d_from_str_exact ref_dec ''6'' = Some (6, 0)" by code_simp+
  have amounts: "\<forall>x\<in>set sale_outputs. exact_amount ref_dec ref_val x" "\<forall>x\<in>set sale_inputs. exact_amount ref_dec ref_val x"
    by (simp_all add: sale_outputs_def sale_inputs_def exact_amount_def exact_val_def txoutput_new_def parse ref_val_def at_scale_numeral)
  have bounds: "sum_list (map (exact_val ref_dec ref_val) sale_outputs) \<le> 10 ^ 16"
    "sum_list (map (exact_val ref_dec ref_val) sale_inputs) \<le> 10 ^ 16"
    by (simp_all add: sale_outputs_def sale_inputs_def exact_val_def txoutput_new_def parse ref_val_def)
  have scale: "at_scale 8 (ref_val (sk_quantity sample_sale))" "at_scale 8 (ref_val (sk_price sample_sale))"
    "at_scale 8 (ref_val (sk_royalty sample_sale))"
    by (simp_all add: sample_sale_def ref_val_def at_scale_numeral)
  have wd: "well_declared ref_val sample_sale"
    using trims by (simp add: well_declared_def sample_sale_def ref_val_def)
  have gains: "max 0 (net_flow ref_dec ref_val ref_ext sale_inputs sale_outputs k) =
      declared_gain ref_dec ref_val ref_ext sample_sale k" for k
    by (auto simp: net_flow_def flow_def sale_outputs_def sale_inputs_def exact_val_def txoutput_new_def parse ident
        declared_gain_def sample_sale_def ref_val_def)
  have item: "net_flow ref_dec ref_val ref_ext sale_inputs sale_outputs
      (address_identity ref_ext (sk_seller sample_sale), Some (sk_asset_sold sample_sale)) = - ref_val (sk_quantity sample_sale)"
    by (simp add: net_flow_def flow_def sale_outputs_def sale_inputs_def exact_val_def txoutput_new_def parse ident
        sample_sale_def ref_val_def)
  show ?thesis using settlement_accounting [OF ref_dec_laws amounts bounds scale, of ref_ext] wd gains item by blast
qed

lemma compute_royalty_value:
  assumes L: "dec_laws D v" and price: "at_scale 8 (v price)" "0 \<le> v price" "v price \<le> 10 ^ 16"
    and bps: "unat bps \<le> 10000"
  shows "\<exists>r. compute_royalty D price bps n = Some r \<and>
    v r = of_int \<lfloor>v price * of_nat (unat bps) / 10000 * 10 ^ n\<rfloor> / 10 ^ n \<and> 0 \<le> v r \<and> v r \<le> v price \<and>
    v r \<le> v price * of_nat (unat bps) / 10000 \<and> v price * of_nat (unat bps) / 10000 - v r < 1 / 10 ^ n"
proof -
  define x where "x = v price * of_nat (unat bps)"
  have le: "(of_nat (unat bps) :: rat) \<le> 10000" using of_nat_mono [OF bps, where 'a = rat] by simp
  have "x \<le> v price * 10000"
    unfolding x_def by (rule mult_left_mono [OF le price(2)])
  moreover have x0: "0 \<le> x" unfolding x_def by (rule mult_nonneg_nonneg [OF price(2) of_nat_0_le_iff])
  moreover have sx: "at_scale 8 x" unfolding x_def by (rule at_scale_nat_mult [OF price(1)])
  ultimately have rx: "dec_repr x" using price(3) by (intro dec_repr_at_scale [OF sx]) auto
  obtain k where "x = of_int k / 10 ^ 8" using sx by (auto simp: at_scale_def)
  then have "x / 10000 = of_int k / 10 ^ 12" by simp
  then have sq: "at_scale 12 (x / 10000)" unfolding at_scale_def by blast
  have rq: "dec_repr (x / 10000)"
    using \<open>x \<le> v price * 10000\<close> x0 price(3) by (intro dec_repr_at_scale [OF sq]) auto
  have floor: "of_int \<lfloor>q * 10 ^ n\<rfloor> / 10 ^ n \<le> q" "q - of_int \<lfloor>q * 10 ^ n\<rfloor> / 10 ^ n < 1 / 10 ^ n" for q :: rat
  proof -
    define z where "z = q * 10 ^ n"
    have e: "z / 10 ^ n = q" by (simp add: z_def)
    have "of_int \<lfloor>z\<rfloor> / 10 ^ n \<le> z / 10 ^ n" by (rule divide_right_mono) simp_all
    moreover have "(z - of_int \<lfloor>z\<rfloor>) / 10 ^ n < 1 / 10 ^ n"
      by (rule divide_strict_right_mono) (use floor_correct [of z] in simp_all, linarith?)
    ultimately show "of_int \<lfloor>q * 10 ^ n\<rfloor> / 10 ^ n \<le> q" "q - of_int \<lfloor>q * 10 ^ n\<rfloor> / 10 ^ n < 1 / 10 ^ n"
      unfolding z_def [symmetric] by (simp_all only: diff_divide_distrib e)
  qed
  have "\<exists>r. compute_royalty D price bps n = Some r \<and> v r = of_int \<lfloor>x / 10000 * 10 ^ n\<rfloor> / 10 ^ n"
  proof (cases "bps = 0")
    case True
    then show ?thesis using dec_laws_zero [OF L] by (simp add: compute_royalty_def x_def)
  next
    case False
    have b: "v (d_of_nat D (unat bps)) = of_nat (unat bps)" "v (d_of_nat D 10000) = 10000"
      using dec_laws_of_nat [OF L, of "unat bps"] dec_laws_of_nat [OF L, of 10000] bps by simp_all
    obtain y where y: "d_checked_mul D price (d_of_nat D (unat bps)) = Some y" "v y = x"
      using dec_laws_mul [OF L, of price "d_of_nat D (unat bps)"] rx b(1) x_def by metis
    obtain z where z: "d_checked_div D y (d_of_nat D 10000) = Some z" "v z = x / 10000"
      using dec_laws_div [OF L, of "d_of_nat D 10000" y] rq b(2) y(2) by auto
    have "v (d_trunc_dp D z n) = of_int \<lfloor>x / 10000 * 10 ^ n\<rfloor> / 10 ^ n"
      using dec_laws_trunc [OF L, of z n] z(2) x0 by simp
    then show ?thesis using False y(1) z(1) by (simp add: compute_royalty_def)
  qed
  then obtain r where r: "compute_royalty D price bps n = Some r" "v r = of_int \<lfloor>x / 10000 * 10 ^ n\<rfloor> / 10 ^ n" by blast
  have "0 \<le> v r" unfolding r(2) using x0 by simp
  moreover have "x / 10000 \<le> v price" using \<open>x \<le> v price * 10000\<close> by simp
  then have "v r \<le> v price" using floor(1) [of "x / 10000"] unfolding r(2) by (rule order_trans [rotated])
  ultimately show ?thesis 
    using r floor [of "x / 10000", folded r(2)] by (intro exI [of _ r]) (simp add: x_def)
qed

text \<open>
  The royalty never overflows on a price up to \<open>10^16\<close>, never exceeds the exact share
  \<open>price * bps / 10000\<close>, and is short of it by less than one unit of the price asset's last
  decimal: the seller absorbs the dust.
\<close>

lemma royalty_is_floored_share:
  assumes L: "dec_laws D v" and price: "at_scale 8 (v price)" "0 \<le> v price" "v price \<le> 10 ^ 16"
    and bps: "unat bps \<le> 10000"
  shows "\<exists>r. compute_royalty D price bps n = Some r \<and>
    v r = of_int \<lfloor>v price * of_nat (unat bps) / 10000 * 10 ^ n\<rfloor> / 10 ^ n \<and> 0 \<le> v r \<and> v r \<le> v price \<and>
    v r \<le> v price * of_nat (unat bps) / 10000 \<and> v price * of_nat (unat bps) / 10000 - v r < 1 / 10 ^ n"
  by (rule compute_royalty_value [OF assms])

end
