(* ===== verification/Config.thy ===== *)
theory Config
  imports RefDecimal PayloadTypes
begin

section \<open>The runtime configuration and its updates\<close>

text \<open>
  \<open>pms-config/src/runtime.rs\<close>: the parameters a signed block may change, the validation of fee tiers
  and of the fee split, and \<open>apply_update\<close>. \<open>max_fee_multiplier\<close> is an \<open>f64\<close> the code only stores: it is
  kept as the text it was parsed from, \<open>is_f64_text\<close> being the grammar of \<open>f64::from_str\<close>. The
  argument \<open>de\<close> gives the message of the decimal crate for a text it cannot parse. The sum of the two
  fee shares is a \<open>u32\<close> addition, which wraps in a release build.
\<close>

record runtime_config =
  rc_fee_rate_bps :: u32
  rc_base_fee :: string
  rc_coordinator_fee_bps :: u32
  rc_treasury_fee_bps :: u32
  rc_min_pow_bits :: u8
  rc_max_mint_per_block :: u64
  rc_mint_enabled :: bool
  rc_fee_tiers :: "fee_tier list"
  rc_fee_distribution :: "fee_beneficiary list option"
  rc_mint_fee_base :: "string option"
  rc_mint_fee_ratio :: "string option"
  rc_token_creation_fee :: "string option"
  rc_nft_mint_fee :: "string option"
  rc_nft_fee_exempt_types :: "string list"
  rc_burn_rate_bps :: u32
  rc_contract_deployment_fee :: "string option"
  rc_storage_fee_per_kb :: "string option"
  rc_dynamic_fee_enabled :: bool
  rc_target_tps :: u32
  rc_max_fee_multiplier :: string
  rc_emission_ceiling_bps :: "u32 option"
  rc_emission_floor_bps :: "u32 option"
  rc_emission_target_bps :: "u32 option"
  rc_emission_epoch_duration_sec :: "u64 option"
  rc_updated_at_block :: string
  rc_updated_at_timestamp :: int

definition runtime_config_default :: runtime_config where
  "runtime_config_default =
     \<lparr>rc_fee_rate_bps = 300, rc_base_fee = ''0.0000001'', rc_coordinator_fee_bps = 6700,
      rc_treasury_fee_bps = 3300, rc_min_pow_bits = 8, rc_max_mint_per_block = 1000000,
      rc_mint_enabled = True, rc_fee_tiers = [], rc_fee_distribution = None, rc_mint_fee_base = None,
      rc_mint_fee_ratio = None, rc_token_creation_fee = None, rc_nft_mint_fee = None,
      rc_nft_fee_exempt_types = [], rc_burn_rate_bps = 0, rc_contract_deployment_fee = None,
      rc_storage_fee_per_kb = None, rc_dynamic_fee_enabled = False, rc_target_tps = 100,
      rc_max_fee_multiplier = ''5.0'', rc_emission_ceiling_bps = None, rc_emission_floor_bps = None,
      rc_emission_target_bps = None, rc_emission_epoch_duration_sec = None,
      rc_updated_at_block = [], rc_updated_at_timestamp = 0\<rparr>"

subsection \<open>Fee tiers and fee split\<close>

definition tier_boundary ::
  "'d dec_lib \<Rightarrow> (string \<Rightarrow> string) \<Rightarrow> nat \<Rightarrow> 'd \<Rightarrow> nat \<times> fee_tier \<Rightarrow> string + 'd" where
  "tier_boundary D de n prev_boundary it =
     (let i = fst it; tier = snd it in
      rbind (ok_or (d_from_str_exact D (ft_ratio tier))
        (''Tier '' @ show_nat i @ '' ratio '' @ quoted (ft_ratio tier) @ '' is not a valid decimal: '' @ de (ft_ratio tier))) (\<lambda>ratio.
      if d_lt D ratio (d_zero D) then
        Inl (''Tier '' @ show_nat i @ '' ratio must be >= 0, got '' @ d_show D ratio)
      else if Suc i < n then
        (case ft_up_to tier of
           None \<Rightarrow> Inl (''Tier '' @ show_nat i @ '' must have up_to (only last tier can be None)'')
         | Some up_to_str \<Rightarrow>
             rbind (ok_or (d_from_str_exact D up_to_str)
               (''Tier '' @ show_nat i @ '' up_to '' @ quoted up_to_str @ '' is not a valid decimal: '' @ de up_to_str)) (\<lambda>up_to.
             if d_le D up_to prev_boundary then
               Inl (''Tier '' @ show_nat i @ '' up_to ('' @ d_show D up_to @
                 '') must be strictly greater than previous boundary ('' @ d_show D prev_boundary @ '')'')
             else Inr up_to))
      else Inr prev_boundary))"

definition validate_fee_tiers :: "'d dec_lib \<Rightarrow> (string \<Rightarrow> string) \<Rightarrow> fee_tier list \<Rightarrow> string + unit" where
  "validate_fee_tiers D de tiers =
     (if tiers = [] then Inl ''Fee tiers must have at least one tier''
      else if ft_up_to (last tiers) \<noteq> None then Inl ''Last fee tier must have up_to: None (catch-all)''
      else rbind (try_fold (tier_boundary D de (length tiers)) (d_zero D) (List.enumerate 0 tiers)) (\<lambda>_. Inr ()))"

definition validate_distribution :: "fee_beneficiary list \<Rightarrow> string + unit" where
  "validate_distribution beneficiaries =
     (let total_bps = sum_list (map (\<lambda>b. ucast (fb_percent_bps b) :: u32) beneficiaries) in
      if total_bps \<noteq> 10000 then
        Inl (''Fee basis points must sum to 10000 (100%), got '' @ show_nat (unat total_bps))
      else Inr ())"

definition validate_fee_split :: "runtime_config \<Rightarrow> string + unit" where
  "validate_fee_split c =
     (let total_bps = rc_coordinator_fee_bps c + rc_treasury_fee_bps c in
      if total_bps \<noteq> 10000 then
        Inl (''Coordinator + Treasury fees must sum to 10000 bps (100%), got '' @ show_nat (unat total_bps) @ '' bps'')
      else Inr ())"

definition validate_fee_config :: "'d dec_lib \<Rightarrow> (string \<Rightarrow> string) \<Rightarrow> runtime_config \<Rightarrow> string + unit" where
  "validate_fee_config D de c =
     rbind (case rc_fee_distribution c of
       Some beneficiaries \<Rightarrow> validate_distribution beneficiaries
     | None \<Rightarrow> validate_fee_split c) (\<lambda>_.
     if rc_fee_tiers c = [] then Inr () else validate_fee_tiers D de (rc_fee_tiers c))"

subsection \<open>Applying an update\<close>

definition is_digit :: "char \<Rightarrow> bool" where
  "is_digit c \<longleftrightarrow> (let n = (of_char c :: nat) in 48 \<le> n \<and> n \<le> 57)"

definition drop_sign :: "string \<Rightarrow> string" where
  "drop_sign s = (case s of [] \<Rightarrow> [] | c # t \<Rightarrow> if c = CHR ''+'' \<or> c = CHR ''-'' then t else s)"

definition is_f64_text :: "string \<Rightarrow> bool" where
  "is_f64_text s \<longleftrightarrow>
     (let body = drop_sign s; low = to_lower body;
          mantissa = takeWhile (\<lambda>c. c \<noteq> CHR ''e'') low; rest = dropWhile (\<lambda>c. c \<noteq> CHR ''e'') low;
          ip = takeWhile (\<lambda>c. c \<noteq> CHR ''.'') mantissa; fp = tl (dropWhile (\<lambda>c. c \<noteq> CHR ''.'') mantissa)
      in low = ''inf'' \<or> low = ''infinity'' \<or> low = ''nan'' \<or>
         list_all is_digit (ip @ fp) \<and> ip @ fp \<noteq> [] \<and>
         (rest = [] \<or> drop_sign (tl rest) \<noteq> [] \<and> list_all is_digit (drop_sign (tl rest))))"

definition bps_text :: "u32 \<Rightarrow> string" where
  "bps_text n = show_nat (unat n)"

fun apply_update_inner ::
  "'d dec_lib \<Rightarrow> (string \<Rightarrow> string) \<Rightarrow> string \<Rightarrow> int \<Rightarrow> runtime_config \<Rightarrow> config_update \<Rightarrow> string + runtime_config"
and apply_updates ::
  "'d dec_lib \<Rightarrow> (string \<Rightarrow> string) \<Rightarrow> string \<Rightarrow> int \<Rightarrow> runtime_config \<Rightarrow> config_update list \<Rightarrow> string + runtime_config"
where
  "apply_update_inner D de b t c (SetFeeRate bps) =
     Inr (c\<lparr>rc_fee_rate_bps := bps, rc_updated_at_block := b, rc_updated_at_timestamp := t\<rparr>)"
| "apply_update_inner D de b t c (SetBaseFee fee) =
     Inr (c\<lparr>rc_base_fee := fee, rc_updated_at_block := b, rc_updated_at_timestamp := t\<rparr>)"
| "apply_update_inner D de b t c (SetCoordinatorFee bps) =
     Inr (c\<lparr>rc_coordinator_fee_bps := bps, rc_updated_at_block := b, rc_updated_at_timestamp := t\<rparr>)"
| "apply_update_inner D de b t c (SetTreasuryFee bps) =
     Inr (c\<lparr>rc_treasury_fee_bps := bps, rc_updated_at_block := b, rc_updated_at_timestamp := t\<rparr>)"
| "apply_update_inner D de b t c (SetMinPow bits) =
     Inr (c\<lparr>rc_min_pow_bits := bits, rc_updated_at_block := b, rc_updated_at_timestamp := t\<rparr>)"
| "apply_update_inner D de b t c (SetMaxMint amount) =
     Inr (c\<lparr>rc_max_mint_per_block := amount, rc_updated_at_block := b, rc_updated_at_timestamp := t\<rparr>)"
| "apply_update_inner D de b t c (SetMintEnabled enabled) =
     Inr (c\<lparr>rc_mint_enabled := enabled, rc_updated_at_block := b, rc_updated_at_timestamp := t\<rparr>)"
| "apply_update_inner D de b t c (SetEmissionCorridor ceiling_bps floor_bps target_bps epoch) =
     (if target_bps < floor_bps \<or> ceiling_bps < target_bps then
        Inl (''invalid emission corridor: require floor('' @ bps_text floor_bps @ '') <= target('' @ bps_text target_bps @
          '') <= ceiling('' @ bps_text ceiling_bps @ '') bps'')
      else if epoch = 0 then Inl ''invalid emission corridor: epoch_duration_sec must be > 0''
      else Inr (c\<lparr>rc_emission_ceiling_bps := Some ceiling_bps, rc_emission_floor_bps := Some floor_bps,
             rc_emission_target_bps := Some target_bps, rc_emission_epoch_duration_sec := Some epoch,
             rc_updated_at_block := b, rc_updated_at_timestamp := t\<rparr>))"
| "apply_update_inner D de b t c (SetFeeTiers tiers) =
     rbind (validate_fee_tiers D de tiers) (\<lambda>_.
     Inr (c\<lparr>rc_fee_tiers := tiers, rc_updated_at_block := b, rc_updated_at_timestamp := t\<rparr>))"
| "apply_update_inner D de b t c ClearFeeTiers =
     Inr (c\<lparr>rc_fee_tiers := [], rc_updated_at_block := b, rc_updated_at_timestamp := t\<rparr>)"
| "apply_update_inner D de b t c (SetFeeDistribution beneficiaries) =
     rbind (validate_distribution beneficiaries) (\<lambda>_.
     Inr (c\<lparr>rc_fee_distribution := Some beneficiaries, rc_updated_at_block := b, rc_updated_at_timestamp := t\<rparr>))"
| "apply_update_inner D de b t c (SetMintFee base ratio) =
     Inr (c\<lparr>rc_mint_fee_base := base, rc_mint_fee_ratio := ratio,
            rc_updated_at_block := b, rc_updated_at_timestamp := t\<rparr>)"
| "apply_update_inner D de b t c (SetTokenCreationFee fee) =
     Inr (c\<lparr>rc_token_creation_fee := fee, rc_updated_at_block := b, rc_updated_at_timestamp := t\<rparr>)"
| "apply_update_inner D de b t c (SetNftMintFee fee) =
     Inr (c\<lparr>rc_nft_mint_fee := fee, rc_updated_at_block := b, rc_updated_at_timestamp := t\<rparr>)"
| "apply_update_inner D de b t c (SetNftFeeExemptTypes types) =
     Inr (c\<lparr>rc_nft_fee_exempt_types := types, rc_updated_at_block := b, rc_updated_at_timestamp := t\<rparr>)"
| "apply_update_inner D de b t c (SetBurnRate bps) =
     (if 10000 < bps then Inl (''burn_rate_bps must be <= 10000, got '' @ bps_text bps)
      else Inr (c\<lparr>rc_burn_rate_bps := bps, rc_updated_at_block := b, rc_updated_at_timestamp := t\<rparr>))"
| "apply_update_inner D de b t c (SetContractDeploymentFee fee) =
     Inr (c\<lparr>rc_contract_deployment_fee := fee, rc_updated_at_block := b, rc_updated_at_timestamp := t\<rparr>)"
| "apply_update_inner D de b t c (SetStorageFeePerKb fee) =
     Inr (c\<lparr>rc_storage_fee_per_kb := fee, rc_updated_at_block := b, rc_updated_at_timestamp := t\<rparr>)"
| "apply_update_inner D de b t c (SetDynamicFee enabled target_tps max_multiplier) =
     (let c1 = c\<lparr>rc_dynamic_fee_enabled := enabled,
          rc_target_tps := (case target_tps of None \<Rightarrow> rc_target_tps c | Some tps \<Rightarrow> tps),
          rc_updated_at_block := b, rc_updated_at_timestamp := t\<rparr>
      in case max_multiplier of
           None \<Rightarrow> Inr c1
         | Some m \<Rightarrow> if is_f64_text m then Inr (c1\<lparr>rc_max_fee_multiplier := m\<rparr>)
                     else Inl (''invalid max_multiplier: '' @ m))"
| "apply_update_inner D de b t c (BatchUpdate updates) =
     apply_updates D de b t (c\<lparr>rc_updated_at_block := b, rc_updated_at_timestamp := t\<rparr>) updates"
| "apply_updates D de b t c [] = Inr c"
| "apply_updates D de b t c (u # us) =
     rbind (apply_update_inner D de b t c u) (\<lambda>c'. apply_updates D de b t c' us)"

definition apply_update ::
  "'d dec_lib \<Rightarrow> (string \<Rightarrow> string) \<Rightarrow> runtime_config \<Rightarrow> config_update \<Rightarrow> string \<Rightarrow> int \<Rightarrow> string + runtime_config" where
  "apply_update D de c update block_id timestamp =
     rbind (apply_update_inner D de block_id timestamp c update) (\<lambda>result.
     rbind (validate_fee_config D de result) (\<lambda>_. Inr result))"

subsection \<open>What every accepted configuration satisfies\<close>

definition tier_ends_at :: "'d dec_lib \<Rightarrow> ('d \<Rightarrow> rat) \<Rightarrow> fee_tier \<Rightarrow> rat \<Rightarrow> bool" where
  "tier_ends_at D v tier b \<longleftrightarrow> (\<exists>s d. ft_up_to tier = Some s \<and> d_from_str_exact D s = Some d \<and> v d = b)"

definition tier_ratio_ok :: "'d dec_lib \<Rightarrow> ('d \<Rightarrow> rat) \<Rightarrow> fee_tier \<Rightarrow> bool" where
  "tier_ratio_ok D v tier \<longleftrightarrow> (\<exists>r. d_from_str_exact D (ft_ratio tier) = Some r \<and> 0 \<le> v r)"

definition well_tiered :: "'d dec_lib \<Rightarrow> ('d \<Rightarrow> rat) \<Rightarrow> fee_tier list \<Rightarrow> bool" where
  "well_tiered D v tiers \<longleftrightarrow> tiers \<noteq> [] \<and> ft_up_to (last tiers) = None \<and> (\<forall>t\<in>set tiers. tier_ratio_ok D v t) \<and>
     (\<exists>bs. list_all2 (tier_ends_at D v) (butlast tiers) bs \<and> sorted_wrt (<) (0 # bs))"

fun corridor_ok :: "u32 option \<Rightarrow> u32 option \<Rightarrow> u32 option \<Rightarrow> u64 option \<Rightarrow> bool" where
  "corridor_ok None None None None = True"
| "corridor_ok (Some hi) (Some lo) (Some mid) (Some epoch) = (lo \<le> mid \<and> mid \<le> hi \<and> 0 < epoch)"
| "corridor_ok _ _ _ _ = False"

definition limits_ok :: "'d dec_lib \<Rightarrow> ('d \<Rightarrow> rat) \<Rightarrow> runtime_config \<Rightarrow> bool" where
  "limits_ok D v c \<longleftrightarrow>
     corridor_ok (rc_emission_ceiling_bps c) (rc_emission_floor_bps c) (rc_emission_target_bps c)
       (rc_emission_epoch_duration_sec c) \<and> rc_burn_rate_bps c \<le> 10000 \<and>
     (rc_fee_tiers c = [] \<or> well_tiered D v (rc_fee_tiers c)) \<and>
     (case rc_fee_distribution c of None \<Rightarrow> True | Some bs \<Rightarrow> validate_distribution bs = Inr ())"

definition config_ok :: "'d dec_lib \<Rightarrow> ('d \<Rightarrow> rat) \<Rightarrow> runtime_config \<Rightarrow> bool" where
  "config_ok D v c \<longleftrightarrow> limits_ok D v c \<and>
     (rc_fee_distribution c = None \<longrightarrow> rc_coordinator_fee_bps c + rc_treasury_fee_bps c = 10000)"

lemma tiers_fold:
  assumes L: "dec_laws D v"
  shows "try_fold (tier_boundary D de n) prev (List.enumerate i ts) = Inr final \<Longrightarrow> i + length ts = n \<Longrightarrow> ts \<noteq> [] \<Longrightarrow>
    (\<forall>t\<in>set ts. tier_ratio_ok D v t) \<and>
    (\<exists>bs. list_all2 (tier_ends_at D v) (butlast ts) bs \<and> sorted_wrt (<) (v prev # bs))"
proof (induction ts arbitrary: i prev)
  case (Cons t ts)
  obtain b where b: "tier_boundary D de n prev (i, t) = Inr b"
    and rest: "try_fold (tier_boundary D de n) b (List.enumerate (Suc i) ts) = Inr final"
    using Cons.prems(1) by auto
  have ratio: "tier_ratio_ok D v t"
    using b by (auto simp: tier_boundary_def Let_def tier_ratio_ok_def dec_laws_lt [OF L] dec_laws_zero [OF L] split: if_splits)
  show ?case
  proof (cases "ts = []")
    case True
    with ratio show ?thesis by auto
  next
    case False
    then have "Suc i < n" using Cons.prems(2) by (cases ts) auto
    then have step: "tier_ends_at D v t (v b)" "v prev < v b"
      using b by (auto simp: tier_boundary_def Let_def tier_ends_at_def dec_laws_le [OF L] split: if_splits option.splits)
    obtain bs where bs: "\<forall>t\<in>set ts. tier_ratio_ok D v t" "list_all2 (tier_ends_at D v) (butlast ts) bs"
      "sorted_wrt (<) (v b # bs)"
      using Cons.IH [OF rest _ False] Cons.prems(2) by auto
    have "list_all2 (tier_ends_at D v) (butlast (t # ts)) (v b # bs) \<and> sorted_wrt (<) (v prev # v b # bs)"
      using False step bs(2,3) by auto
    then show ?thesis using ratio bs(1) by (intro conjI exI [of _ "v b # bs"]) auto
  qed
qed simp

lemma validate_fee_tiers_ok: "dec_laws D v \<Longrightarrow> validate_fee_tiers D de ts = Inr () \<Longrightarrow> well_tiered D v ts"
  using tiers_fold [of D v de "length ts" "d_zero D" 0 ts] dec_laws_zero [of D v]
  by (auto simp: validate_fee_tiers_def well_tiered_def split: if_splits)

lemma limits_kept:
  "apply_update_inner D de b t c u = Inr c' \<Longrightarrow> dec_laws D v \<Longrightarrow> limits_ok D v c \<Longrightarrow> limits_ok D v c'"
  "apply_updates D de b t c us = Inr c' \<Longrightarrow> dec_laws D v \<Longrightarrow> limits_ok D v c \<Longrightarrow> limits_ok D v c'"
proof (induction D de b t c u and D de b t c us arbitrary: c' and c' rule: apply_update_inner_apply_updates.induct)
  case (19 D de b t c enabled target_tps max_multiplier)
  then show ?case
    by (cases max_multiplier) (auto simp: limits_ok_def Let_def split: if_splits)
qed (auto simp: limits_ok_def validate_fee_tiers_ok not_less word_neq_0_conv split: if_splits)

lemma fee_config_split:
  "validate_fee_config D de c = Inr () \<Longrightarrow> rc_fee_distribution c = None \<Longrightarrow>
     rc_coordinator_fee_bps c + rc_treasury_fee_bps c = 10000"
  by (auto simp: validate_fee_config_def validate_fee_split_def Let_def split: if_splits)



text \<open>The split check adds two 32-bit numbers: shares far above 100 percent pass when the sum wraps.\<close>

lemma wrapped_fee_split_accepted:
  "validate_fee_split (runtime_config_default\<lparr>rc_coordinator_fee_bps := 4294967295, rc_treasury_fee_bps := 10001\<rparr>) = Inr ()"
  by (simp add: validate_fee_split_def)

end
