(* ===== verification/Governance.thy ===== *)
theory Governance
  imports Config Gate
begin

section \<open>Governed changes of the configuration\<close>

text \<open>
  \<open>pms-config/src/governance.rs\<close>, \<open>governance_policy.rs\<close>, the proposal store and the four payloads
  that change the runtime configuration in \<open>do_persist_block_internal\<close>: \<open>ConfigUpdate\<close> and the
  proposal, enactment and cancellation of a timelocked change. The 500 ms read cache of the
  configuration is written through by every update of the process, so reads return the last write;
  the history is keyed by time and block as its database key is.
\<close>

subsection \<open>Tiers, directions, timelocks\<close>

instantiation governance_tier :: linorder
begin

fun tier_rank :: "governance_tier \<Rightarrow> nat" where
  "tier_rank Operator = 0"
| "tier_rank Policy = 1"
| "tier_rank Constitution = 2"

definition less_eq_governance_tier :: "governance_tier \<Rightarrow> governance_tier \<Rightarrow> bool" where
  "s \<le> t \<longleftrightarrow> tier_rank s \<le> tier_rank t"

definition less_governance_tier :: "governance_tier \<Rightarrow> governance_tier \<Rightarrow> bool" where
  "s < t \<longleftrightarrow> tier_rank s < tier_rank t"

instance
proof
  fix s t :: governance_tier
  show "s \<le> t \<Longrightarrow> t \<le> s \<Longrightarrow> s = t" by (cases s; cases t) (auto simp: less_eq_governance_tier_def)
qed (auto simp: less_eq_governance_tier_def less_governance_tier_def)

end

fun default_duration_ms :: "governance_tier \<Rightarrow> u64" where
  "default_duration_ms Operator = 7 * 86400000"
| "default_duration_ms Policy = 15 * 86400000"
| "default_duration_ms Constitution = 45 * 86400000"

fun tier_str :: "governance_tier \<Rightarrow> string" where
  "tier_str Operator = ''operator''"
| "tier_str Policy = ''policy''"
| "tier_str Constitution = ''constitution''"

datatype governance_status = Pending | Enacted | Cancelled

fun status_str :: "governance_status \<Rightarrow> string" where
  "status_str Pending = ''pending''"
| "status_str Enacted = ''enacted''"
| "status_str Cancelled = ''cancelled''"

record proposal =
  gp_proposal_id :: string
  gp_update :: config_update
  gp_tier :: governance_tier
  gp_reason :: string
  gp_announced_at_ms :: u64
  gp_enact_after_ms :: u64
  gp_status :: governance_status
  gp_proposal_block_id :: string
  gp_enact_block_id :: "string option"
  gp_cancel_block_id :: "string option"

datatype direction = Tighten | Loosen

fun min_tier :: "config_update \<Rightarrow> governance_tier" where
  "min_tier (SetEmissionCorridor _ _ _ _) = Constitution"
| "min_tier (SetMintEnabled _) = Policy"
| "min_tier (SetMaxMint _) = Policy"
| "min_tier (SetCoordinatorFee _) = Policy"
| "min_tier (SetTreasuryFee _) = Policy"
| "min_tier (SetFeeDistribution _) = Policy"
| "min_tier (SetBurnRate _) = Policy"
| "min_tier (SetMintFee _ _) = Policy"
| "min_tier (BatchUpdate updates) = (case map min_tier updates of [] \<Rightarrow> Operator | t # ts \<Rightarrow> fold max ts t)"
| "min_tier _ = Operator"

fun change_direction :: "runtime_config \<Rightarrow> config_update \<Rightarrow> direction" where
  "change_direction c (SetMintEnabled enabled) = (if enabled then Loosen else Tighten)"
| "change_direction c (SetMaxMint amount) = (if amount < rc_max_mint_per_block c then Tighten else Loosen)"
| "change_direction c (SetEmissionCorridor ceiling_bps _ target_bps _) =
     (case (rc_emission_ceiling_bps c, rc_emission_target_bps c) of
        (Some cur_ceiling, Some cur_target) \<Rightarrow>
          if ceiling_bps \<le> cur_ceiling \<and> target_bps \<le> cur_target then Tighten else Loosen
      | _ \<Rightarrow> Loosen)"
| "change_direction c (BatchUpdate updates) =
     (if updates \<noteq> [] \<and> list_all (\<lambda>u. change_direction c u = Tighten) updates then Tighten else Loosen)"
| "change_direction c _ = Loosen"

definition required_timelock_ms :: "config_update \<Rightarrow> runtime_config \<Rightarrow> governance_tier \<Rightarrow> u64" where
  "required_timelock_ms update current declared_tier =
     (case change_direction current update of Tighten \<Rightarrow> 0 | Loosen \<Rightarrow> default_duration_ms declared_tier)"

fun join_comma :: "string list \<Rightarrow> string" where
  "join_comma [] = []"
| "join_comma [s] = s"
| "join_comma (s # ss) = s @ '', '' @ join_comma ss"

definition show_bool :: "bool \<Rightarrow> string" where
  "show_bool b = (if b then ''true'' else ''false'')"

fun description :: "config_update \<Rightarrow> string" where
  "description (SetFeeRate bps) = ''SetFeeRate('' @ bps_text bps @ ''bps)''"
| "description (SetBaseFee fee) = ''SetBaseFee('' @ fee @ '')''"
| "description (SetCoordinatorFee bps) = ''SetCoordinatorFee('' @ bps_text bps @ ''bps)''"
| "description (SetTreasuryFee bps) = ''SetTreasuryFee('' @ bps_text bps @ ''bps)''"
| "description (SetMinPow bits) = ''SetMinPow('' @ show_nat (unat bits) @ ''bits)''"
| "description (SetMaxMint amount) = ''SetMaxMint('' @ show_nat (unat amount) @ '')''"
| "description (SetMintEnabled enabled) = ''SetMintEnabled('' @ show_bool enabled @ '')''"
| "description (SetFeeTiers tiers) = ''SetFeeTiers('' @ show_nat (length tiers) @ '' tiers)''"
| "description ClearFeeTiers = ''ClearFeeTiers''"
| "description (SetFeeDistribution bs) = ''SetFeeDistribution('' @ show_nat (length bs) @ '' beneficiaries)''"
| "description (SetMintFee base ratio) =
     ''SetMintFee(base='' @ show_debug_string base @ '', ratio='' @ show_debug_string ratio @ '')''"
| "description (SetTokenCreationFee fee) = ''SetTokenCreationFee('' @ show_debug_string fee @ '')''"
| "description (SetNftMintFee fee) = ''SetNftMintFee('' @ show_debug_string fee @ '')''"
| "description (SetNftFeeExemptTypes types) =
     ''SetNftFeeExemptTypes(['' @ join_comma (map (\<lambda>t. CHR 0x22 # t @ [CHR 0x22]) types) @ ''])''"
| "description (SetBurnRate bps) = ''SetBurnRate('' @ bps_text bps @ ''bps)''"
| "description (SetContractDeploymentFee fee) = ''SetContractDeploymentFee('' @ show_debug_string fee @ '')''"
| "description (SetStorageFeePerKb fee) = ''SetStorageFeePerKb('' @ show_debug_string fee @ '')''"
| "description (SetDynamicFee enabled target_tps max_multiplier) =
     ''SetDynamicFee(enabled='' @ show_bool enabled @ '', target_tps='' @
     (case target_tps of None \<Rightarrow> ''None'' | Some n \<Rightarrow> ''Some('' @ bps_text n @ '')'') @
     '', max='' @ show_debug_string max_multiplier @ '')''"
| "description (SetEmissionCorridor hi lo mid epoch) =
     ''SetEmissionCorridor(ceiling='' @ bps_text hi @ ''bps, floor='' @ bps_text lo @ ''bps, target='' @ bps_text mid @
     ''bps, epoch='' @ show_nat (unat epoch) @ ''s)''"
| "description (BatchUpdate updates) = ''BatchUpdate('' @ show_nat (length updates) @ '' items)''"

definition validate_tier :: "config_update \<Rightarrow> governance_tier \<Rightarrow> string + unit" where
  "validate_tier update declared_tier =
     (if declared_tier < min_tier update then
        Inl (''governance tier too low: '' @ description update @ '' requires at least tier '' @
          tier_str (min_tier update) @ '' (declared '' @ tier_str declared_tier @ '')'')
      else Inr ())"

subsection \<open>The stores\<close>

record gov_store =
  gs_config :: runtime_config
  gs_history :: "int \<times> string \<Rightarrow> (config_update \<times> runtime_config) option"
  gs_proposals :: "string \<Rightarrow> proposal option"

definition apply_config_update ::
  "faults \<Rightarrow> 'd dec_lib \<Rightarrow> (string \<Rightarrow> string) \<Rightarrow> config_update \<Rightarrow> string \<Rightarrow> int \<Rightarrow> gov_store
   \<Rightarrow> (string + runtime_config) \<times> gov_store" where
  "apply_config_update F D de update block_id timestamp st =
     (case io F GetConfig (gs_config st) of
        Inl e \<Rightarrow> (Inl e, st)
      | Inr current \<Rightarrow>
          (case apply_update D de current update block_id timestamp of
             Inl e \<Rightarrow> (Inl (''config validation failed: '' @ e), st)
           | Inr new_config \<Rightarrow>
               (case F SetConfig of
                  Some e \<Rightarrow> (Inl e, st)
                | None \<Rightarrow>
                    let st' = st\<lparr>gs_config := new_config\<rparr> in
                    (case F AppendHistory of
                       Some e \<Rightarrow> (Inl e, st')
                     | None \<Rightarrow> (Inr new_config,
                         st'\<lparr>gs_history := (gs_history st)((timestamp, block_id) \<mapsto> (update, new_config))\<rparr>)))))"

definition put_proposal :: "faults \<Rightarrow> proposal \<Rightarrow> gov_store \<Rightarrow> (string + unit) \<times> gov_store" where
  "put_proposal F r st =
     (case F (PutProposal (gp_proposal_id r)) of
        Some e \<Rightarrow> (Inl e, st)
      | None \<Rightarrow> (Inr (), st\<lparr>gs_proposals := (gs_proposals st)(gp_proposal_id r \<mapsto> r)\<rparr>))"

definition get_proposal :: "faults \<Rightarrow> string \<Rightarrow> gov_store \<Rightarrow> string + proposal option" where
  "get_proposal F i st = io F (GetProposal i) (gs_proposals st i)"

definition set_governance_status ::
  "faults \<Rightarrow> string \<Rightarrow> governance_status \<Rightarrow> string \<Rightarrow> gov_store \<Rightarrow> (string + unit) \<times> gov_store" where
  "set_governance_status F i status action_block_id st =
     (case get_proposal F i st of
        Inl e \<Rightarrow> (Inl e, st)
      | Inr None \<Rightarrow> (Inl (''governance proposal not found: '' @ i), st)
      | Inr (Some r) \<Rightarrow>
          put_proposal F
            (case status of
               Enacted \<Rightarrow> r\<lparr>gp_status := status, gp_enact_block_id := Some action_block_id\<rparr>
             | Cancelled \<Rightarrow> r\<lparr>gp_status := status, gp_cancel_block_id := Some action_block_id\<rparr>
             | Pending \<Rightarrow> r\<lparr>gp_status := status\<rparr>) st)"

subsection \<open>The payloads\<close>

definition config_update_arm ::
  "faults \<Rightarrow> 'd dec_lib \<Rightarrow> (string \<Rightarrow> string) \<Rightarrow> string \<Rightarrow> int \<Rightarrow> config_update \<Rightarrow> gov_store \<Rightarrow> unit gate \<times> gov_store" where
  "config_update_arm F D de block_id timestamp update st =
     (case apply_config_update F D de update block_id timestamp st of
        (Inl e, st') \<Rightarrow> (Inl (Reject (''ConfigUpdate failed: '' @ e)), st')
      | (Inr _, st') \<Rightarrow> (Inr (), st'))"

definition proposal_arm ::
  "faults \<Rightarrow> string \<Rightarrow> string \<Rightarrow> config_update \<Rightarrow> governance_tier \<Rightarrow> string \<Rightarrow> u64 \<Rightarrow> u64 \<Rightarrow> gov_store
   \<Rightarrow> unit gate \<times> gov_store" where
  "proposal_arm F block_id i update tier reason announced_at_ms enact_after_ms st =
     (case get_proposal F i st of
        Inr (Some _) \<Rightarrow> (Inl (Reject (''governance proposal already exists: '' @ i)), st)
      | Inl e \<Rightarrow> (Inl (Reject (''governance proposal lookup failed: '' @ e)), st)
      | Inr None \<Rightarrow>
          (case validate_tier update tier of
             Inl reason \<Rightarrow> (Inl (Reject reason), st)
           | Inr _ \<Rightarrow>
               (case io F GetConfig (gs_config st) of
                  Inl e \<Rightarrow> (Inl (Reject (''governance proposal: runtime config unavailable: '' @ e)), st)
                | Inr current_cfg \<Rightarrow>
                    let expected_timelock = required_timelock_ms update current_cfg tier;
                        expected = sat_add announced_at_ms expected_timelock
                    in if enact_after_ms \<noteq> expected then
                         (Inl (Reject (''governance proposal: enact_after mismatch (declared='' @ show_nat (unat enact_after_ms) @
                            '', expected announced_at+'' @ show_nat (unat expected_timelock) @ ''ms='' @
                            show_nat (unat expected) @ '')'')), st)
                       else
                         (case put_proposal F
                             \<lparr>gp_proposal_id = i, gp_update = update, gp_tier = tier, gp_reason = reason,
                              gp_announced_at_ms = announced_at_ms, gp_enact_after_ms = enact_after_ms,
                              gp_status = Pending, gp_proposal_block_id = block_id, gp_enact_block_id = None,
                              gp_cancel_block_id = None\<rparr> st of
                            (Inl e, st') \<Rightarrow> (Inl (Reject (''governance proposal store failed: '' @ e)), st')
                          | (Inr _, st') \<Rightarrow> (Inr (), st')))))"

definition pending_proposal :: "faults \<Rightarrow> string \<Rightarrow> string \<Rightarrow> gov_store \<Rightarrow> proposal gate" where
  "pending_proposal F what i st =
     (case get_proposal F i st of
        Inr None \<Rightarrow> Inl (Reject (what @ '': unknown proposal '' @ i))
      | Inl e \<Rightarrow> Inl (Reject (what @ '' lookup failed: '' @ e))
      | Inr (Some r) \<Rightarrow>
          if gp_status r \<noteq> Pending then
            Inl (Reject (what @ '': proposal '' @ i @ '' not pending (status='' @ status_str (gp_status r) @ '')''))
          else Inr r)"

definition enact_arm ::
  "faults \<Rightarrow> 'd dec_lib \<Rightarrow> (string \<Rightarrow> string) \<Rightarrow> string \<Rightarrow> u64 \<Rightarrow> string \<Rightarrow> gov_store \<Rightarrow> unit gate \<times> gov_store" where
  "enact_arm F D de block_id now_ms i st =
     (case pending_proposal F ''governance enact'' i st of
        Inl e \<Rightarrow> (Inl e, st)
      | Inr r \<Rightarrow>
          if now_ms < gp_enact_after_ms r then
            (Inl (Reject (''governance enact: timelock not elapsed (now='' @ show_nat (unat now_ms) @ '', enact_after='' @
               show_nat (unat (gp_enact_after_ms r)) @ '')'')), st)
          else
            (case apply_config_update F D de (gp_update r) block_id (sint now_ms) st of
               (Inl e, st') \<Rightarrow> (Inl (Reject (''governance enact apply failed: '' @ e)), st')
             | (Inr _, st') \<Rightarrow> (Inr (), snd (set_governance_status F i Enacted block_id st'))))"

definition cancel_arm :: "faults \<Rightarrow> string \<Rightarrow> string \<Rightarrow> gov_store \<Rightarrow> unit gate \<times> gov_store" where
  "cancel_arm F block_id i st =
     (case pending_proposal F ''governance cancel'' i st of
        Inl e \<Rightarrow> (Inl e, st)
      | Inr r \<Rightarrow>
          (case set_governance_status F i Cancelled block_id st of
             (Inl e, st') \<Rightarrow> (Inl (Reject (''governance cancel failed: '' @ e)), st')
           | (Inr _, st') \<Rightarrow> (Inr (), st')))"

fun gov_arm ::
  "faults \<Rightarrow> 'd dec_lib \<Rightarrow> (string \<Rightarrow> string) \<Rightarrow> string \<Rightarrow> u64 \<Rightarrow> plain_payload \<Rightarrow> gov_store \<Rightarrow> unit gate \<times> gov_store" where
  "gov_arm F D de b now_ms (ConfigUpdatePayload u) st = config_update_arm F D de b (sint now_ms) u st"
| "gov_arm F D de b now_ms (GovernanceProposal i u tier reason announced enact_after) st =
     proposal_arm F b i u tier reason announced enact_after st"
| "gov_arm F D de b now_ms (GovernanceEnact i _) st = enact_arm F D de b now_ms i st"
| "gov_arm F D de b now_ms (GovernanceCancel i _) st = cancel_arm F b i st"
| "gov_arm F D de b now_ms _ st = (Inr (), st)"

subsection \<open>The life of a proposal\<close>

text \<open>
  Every block the node handles, accepted or not, at any time and with any failures of the store, is a
  step of the governance store.
\<close>

inductive gov_step :: "'d dec_lib \<Rightarrow> (string \<Rightarrow> string) \<Rightarrow> gov_store \<Rightarrow> gov_store \<Rightarrow> bool" for D de where
  block: "gov_step D de st (snd (gov_arm F D de b now p st))"

inductive_cases gov_stepE: "gov_step D de st st'"

definition same_terms :: "proposal \<Rightarrow> proposal \<Rightarrow> bool" where
  "same_terms r r' \<longleftrightarrow> gp_proposal_id r' = gp_proposal_id r \<and> gp_update r' = gp_update r \<and> gp_tier r' = gp_tier r \<and>
     gp_announced_at_ms r' = gp_announced_at_ms r \<and> gp_enact_after_ms r' = gp_enact_after_ms r"

definition announced_well :: "string \<Rightarrow> runtime_config \<Rightarrow> proposal \<Rightarrow> bool" where
  "announced_well i cfg r \<longleftrightarrow> gp_proposal_id r = i \<and> gp_status r = Pending \<and> min_tier (gp_update r) \<le> gp_tier r \<and>
     gp_enact_after_ms r = sat_add (gp_announced_at_ms r) (required_timelock_ms (gp_update r) cfg (gp_tier r))"

definition proposals_change :: "gov_store \<Rightarrow> gov_store \<Rightarrow> bool" where
  "proposals_change st st' \<longleftrightarrow> gs_proposals st' = gs_proposals st \<or>
     (\<exists>i r. gs_proposals st' = (gs_proposals st)(i \<mapsto> r) \<and>
        (gs_proposals st i = None \<and> announced_well i (gs_config st) r \<or>
         (\<exists>j r0. gs_proposals st j = Some r0 \<and> gp_proposal_id r0 = i \<and> gp_status r0 = Pending \<and>
            gp_status r \<noteq> Pending \<and> same_terms r0 r)))"

lemma proposals_unchanged: "gs_proposals st' = gs_proposals st \<Longrightarrow> proposals_change st st'"
  by (simp add: proposals_change_def)

lemma apply_config_update_proposals: "gs_proposals (snd (apply_config_update F D de u b t st)) = gs_proposals st"
  by (auto simp: apply_config_update_def Let_def split: sum.splits option.splits)

lemma put_proposal_proposals:
  "gs_proposals (snd (put_proposal F r st)) = gs_proposals st \<or>
   gs_proposals (snd (put_proposal F r st)) = (gs_proposals st)(gp_proposal_id r \<mapsto> r)"
  by (auto simp: put_proposal_def split: option.splits)

lemma set_status_change:
  assumes "gs_proposals st' = gs_proposals st" and "gs_proposals st i = Some r" and "gp_status r = Pending"
    and "status \<noteq> Pending"
  shows "proposals_change st (snd (set_governance_status F i status b st'))"
proof -
  let ?r = "case status of
      Enacted \<Rightarrow> r\<lparr>gp_status := status, gp_enact_block_id := Some b\<rparr>
    | Cancelled \<Rightarrow> r\<lparr>gp_status := status, gp_cancel_block_id := Some b\<rparr>
    | Pending \<Rightarrow> r\<lparr>gp_status := status\<rparr>"
  have r: "gp_status ?r \<noteq> Pending" "same_terms r ?r" "gp_proposal_id ?r = gp_proposal_id r"
    using assms(4) by (cases status; simp add: same_terms_def)+
  show ?thesis
  proof (cases "F (GetProposal i)")
    case (Some e)
    then show ?thesis using assms(1)
      by (intro proposals_unchanged) (simp add: set_governance_status_def get_proposal_def io_def)
  next
    case None
    then have "set_governance_status F i status b st' = put_proposal F ?r st'"
      using assms(1,2) by (simp add: set_governance_status_def get_proposal_def io_def)
    then show ?thesis
      using put_proposal_proposals [of F ?r st'] assms(1-3) r unfolding proposals_change_def by metis
  qed
qed

lemma pending_proposal_ok:
  "pending_proposal F w i st = Inr r \<longleftrightarrow> F (GetProposal i) = None \<and> gs_proposals st i = Some r \<and> gp_status r = Pending"
  by (auto simp: pending_proposal_def get_proposal_def io_def split: option.splits if_splits)

lemma proposal_arm_change: "proposals_change st (snd (proposal_arm F b i u tier reason ann aft st))"
proof (cases "snd (proposal_arm F b i u tier reason ann aft st) = st")
  case True
  then show ?thesis by (intro proposals_unchanged) simp
next
  case False
  let ?r = "\<lparr>gp_proposal_id = i, gp_update = u, gp_tier = tier, gp_reason = reason, gp_announced_at_ms = ann,
    gp_enact_after_ms = aft, gp_status = Pending, gp_proposal_block_id = b, gp_enact_block_id = None,
    gp_cancel_block_id = None\<rparr>"
  have fresh: "gs_proposals st i = None" and tier: "min_tier u \<le> tier"
    and aft: "aft = sat_add ann (required_timelock_ms u (gs_config st) tier)"
    and eq: "snd (proposal_arm F b i u tier reason ann aft st) = snd (put_proposal F ?r st)"
    using False
    by (auto simp: proposal_arm_def get_proposal_def io_def validate_tier_def Let_def not_less
        split: option.splits sum.splits if_splits prod.splits)
  have "announced_well i (gs_config st) ?r" using tier aft by (simp add: announced_well_def)
  then show ?thesis unfolding eq using put_proposal_proposals [of F ?r st] fresh by (auto simp: proposals_change_def)
qed

lemma enact_arm_change: "proposals_change st (snd (enact_arm F D de b now i st))"
proof (cases "pending_proposal F ''governance enact'' i st")
  case (Inl e)
  then show ?thesis by (intro proposals_unchanged) (simp add: enact_arm_def)
next
  case (Inr r)
  then have r: "gs_proposals st i = Some r" "gp_status r = Pending" by (simp_all add: pending_proposal_ok)
  obtain res st1 where run: "apply_config_update F D de (gp_update r) b (sint now) st = (res, st1)" by force
  then have same: "gs_proposals st1 = gs_proposals st"
    using apply_config_update_proposals [of F D de "gp_update r" b "sint now" st] by simp
  show ?thesis
    using set_status_change [OF same r, of Enacted F b] proposals_unchanged [OF same] Inr run
    by (cases res) (auto simp: enact_arm_def proposals_unchanged)
qed

lemma cancel_arm_change: "proposals_change st (snd (cancel_arm F b i st))"
proof (cases "pending_proposal F ''governance cancel'' i st")
  case (Inl e)
  then show ?thesis by (intro proposals_unchanged) (simp add: cancel_arm_def)
next
  case (Inr r)
  then have r: "gs_proposals st i = Some r" "gp_status r = Pending" by (simp_all add: pending_proposal_ok)
  obtain res st1 where run: "set_governance_status F i Cancelled b st = (res, st1)" by force
  then show ?thesis using set_status_change [OF refl r, of Cancelled F b] Inr by (cases res) (auto simp: cancel_arm_def)
qed

lemma gov_step_change: "gov_step D de st st' \<Longrightarrow> proposals_change st st'"
proof (erule gov_stepE)
  fix F b now p
  assume st': "st' = snd (gov_arm F D de b now p st)"
  have cfg: "gs_proposals (snd (config_update_arm F D de b t u st)) = gs_proposals st" for t u
    using apply_config_update_proposals [of F D de u b t st]
    by (auto simp: config_update_arm_def split: prod.splits sum.splits)
  show "proposals_change st st'"
    unfolding st' by (cases p) (simp_all add: proposals_unchanged cfg proposal_arm_change enact_arm_change cancel_arm_change)
qed

definition timelocked :: "gov_store \<Rightarrow> bool" where
  "timelocked st \<longleftrightarrow> (\<forall>i r. gs_proposals st i = Some r \<longrightarrow> gp_proposal_id r = i \<and> min_tier (gp_update r) \<le> gp_tier r \<and>
     (\<exists>cfg. gp_enact_after_ms r = sat_add (gp_announced_at_ms r) (required_timelock_ms (gp_update r) cfg (gp_tier r))))"

lemma timelocked_step: "gov_step D de st st' \<Longrightarrow> timelocked st \<Longrightarrow> timelocked st'"
  by (drule gov_step_change) (auto simp: proposals_change_def timelocked_def announced_well_def same_terms_def split: if_splits; metis)

lemma timelocked_reachable:
  assumes "(gov_step D de)\<^sup>*\<^sup>* st0 st" and "gs_proposals st0 = Map.empty"
  shows "timelocked st"
  using assms by (induction rule: rtranclp_induct) (auto simp: timelocked_def dest: timelocked_step [unfolded timelocked_def])

subsection \<open>Enactment\<close>

lemma set_status_config: "gs_config (snd (set_governance_status F i status b st)) = gs_config st"
  by (auto simp: set_governance_status_def put_proposal_def split: sum.splits option.splits)

lemma enact_ok:
  assumes "enact_arm F D de b now i st = (Inr (), st')"
  obtains r st1 where "gs_proposals st i = Some r" "gp_status r = Pending" "gp_enact_after_ms r \<le> now"
    "apply_update D de (gs_config st) (gp_update r) b (sint now) = Inr (gs_config st1)"
    "gs_proposals st1 = gs_proposals st" "F (GetProposal i) = None"
    "st' = snd (set_governance_status F i Enacted b st1)"
proof -
  obtain r where r: "pending_proposal F ''governance enact'' i st = Inr r" "\<not> now < gp_enact_after_ms r"
    using assms by (auto simp: enact_arm_def split: sum.splits if_splits)
  obtain res st1 where run: "apply_config_update F D de (gp_update r) b (sint now) st = (res, st1)" by force
  obtain c where c: "res = Inr c" "st' = snd (set_governance_status F i Enacted b st1)"
    using assms r run by (cases res) (auto simp: enact_arm_def)
  have "apply_update D de (gs_config st) (gp_update r) b (sint now) = Inr (gs_config st1)"
    using run c(1) by (auto simp: apply_config_update_def io_def Let_def split: sum.splits option.splits)
  moreover have "gs_proposals st1 = gs_proposals st"
    using apply_config_update_proposals [of F D de "gp_update r" b "sint now" st] run by simp
  ultimately show thesis using that r c(2) by (auto simp: pending_proposal_ok not_less)
qed


lemma settled_step:
  assumes "gov_step D de st st'" and "timelocked st" and "gs_proposals st i = Some r" and "gp_status r \<noteq> Pending"
  shows "gs_proposals st' i = Some r"
  using gov_step_change [OF assms(1)] assms(2-) unfolding proposals_change_def timelocked_def
  by (metis fun_upd_apply option.discI option.inject)

lemma settled_forever:
  assumes "(gov_step D de)\<^sup>*\<^sup>* st st'" and "timelocked st" and "gs_proposals st i = Some r" and "gp_status r \<noteq> Pending"
  shows "gs_proposals st' i = Some r \<and> timelocked st'"
  using assms by (induction rule: rtranclp_induct) (auto dest: settled_step timelocked_step)

text \<open>
  Claim C15. A proposal is enacted at most once: after an enactment whose status was written, no later
  enactment of the same proposal changes anything, whatever blocks and failures come in between.
\<close>

theorem enacted_at_most_once:
  assumes reach: "(gov_step D de)\<^sup>*\<^sup>* st0 st" "gs_proposals st0 = Map.empty"
    and enact: "enact_arm F D de b now i st = (Inr (), st1)" and written: "F (PutProposal i) = None"
    and later: "(gov_step D de)\<^sup>*\<^sup>* st1 st2"
  shows "\<exists>e. enact_arm F' D de b' now' i st2 = (Inl e, st2)"
proof -
  have tl: "timelocked st" by (rule timelocked_reachable [OF reach])
  obtain r c where r: "gs_proposals st i = Some r" "gs_proposals c = gs_proposals st" "F (GetProposal i) = None"
    and st1: "st1 = snd (set_governance_status F i Enacted b c)"
    using enact by (rule enact_ok)
  have "gp_proposal_id r = i" using tl r(1) unfolding timelocked_def by blast
  then have enacted: "gs_proposals st1 i = Some (r\<lparr>gp_status := Enacted, gp_enact_block_id := Some b\<rparr>)"
    using r written by (simp add: st1 set_governance_status_def get_proposal_def put_proposal_def io_def)
  have "gov_step D de st st1" using gov_step.block [of D de st F b now "GovernanceEnact i []"] enact by simp
  then have "timelocked st1" using tl by (rule timelocked_step)
  then have "gs_proposals st2 i = Some (r\<lparr>gp_status := Enacted, gp_enact_block_id := Some b\<rparr>)"
    using settled_forever [OF later _ enacted] by simp
  then have "\<nexists>r'. pending_proposal F' ''governance enact'' i st2 = Inr r'" by (auto simp: pending_proposal_ok)
  then show ?thesis by (cases "pending_proposal F' ''governance enact'' i st2") (auto simp: enact_arm_def)
qed

subsection \<open>Witnesses, and what the timelock does not cover\<close>

definition gov_empty :: gov_store where
  "gov_empty = \<lparr>gs_config = runtime_config_default, gs_history = Map.empty, gs_proposals = Map.empty\<rparr>"

definition run_gov :: "(string \<times> u64 \<times> plain_payload) list \<Rightarrow> gov_store \<Rightarrow> gov_store" where
  "run_gov evs st = fold (\<lambda>(b, now, p) s. snd (gov_arm no_faults ref_dec id b now p s)) evs st"

lemma run_gov_reach: "(gov_step ref_dec id)\<^sup>*\<^sup>* st (run_gov evs st)"
  unfolding run_gov_def
proof (induction evs arbitrary: st)
  case (Cons ev evs)
  obtain b now p where ev: "ev = (b, now, p)" by (cases ev)
  show ?case unfolding ev
    using converse_rtranclp_into_rtranclp [OF gov_step.block Cons.IH] by simp
qed simp

lemmas gov_eval = run_gov_def gov_empty_def proposal_arm_def get_proposal_def no_faults_def io_def validate_tier_def
  required_timelock_ms_def put_proposal_def enact_arm_def pending_proposal_def apply_config_update_def apply_update_def
  less_governance_tier_def sat_add_def validate_fee_config_def validate_fee_split_def runtime_config_default_def
  set_governance_status_def config_update_arm_def

definition burn_proposal :: "(string \<times> u64 \<times> plain_payload) list" where
  "burn_proposal = [(''b1'', 1000, GovernanceProposal ''p'' (SetBurnRate 5) Policy ''r'' 1000 1296001000)]"

lemma burn_enacted:
  "is_ok (fst (enact_arm no_faults ref_dec id ''b2'' 1296001000 ''p'' (run_gov burn_proposal gov_empty)))"
  by (simp add: burn_proposal_def gov_eval)


theorem enacted_at_most_once_witness:
  "\<exists>e st. enact_arm no_faults ref_dec id ''b3'' 1296001001 ''p'' st = (Inl e, st) \<and> gs_proposals st ''p'' \<noteq> None"
proof -
  let ?st = "run_gov burn_proposal gov_empty"
  obtain st1 where st1: "enact_arm no_faults ref_dec id ''b2'' 1296001000 ''p'' ?st = (Inr (), st1)"
    using burn_enacted by (metis is_ok_unit prod.collapse)
  have "\<exists>e. enact_arm no_faults ref_dec id ''b3'' 1296001001 ''p'' st1 = (Inl e, st1)"
    using enacted_at_most_once [OF run_gov_reach _ st1, of st1 no_faults "''b3''" 1296001001]
    by (auto simp: gov_empty_def no_faults_def)
  moreover have "is_ok (fst (enact_arm no_faults ref_dec id ''b2'' 1296001000 ''p'' ?st)) \<and>
      gs_proposals (snd (enact_arm no_faults ref_dec id ''b2'' 1296001000 ''p'' ?st)) ''p'' \<noteq> None"
    by (simp add: burn_proposal_def gov_eval)
  ultimately show ?thesis using st1 by auto
qed

text \<open>
  The direction of a change is fixed when it is proposed. A cap that was a reduction at that time is
  enacted without delay even when, in the meantime, a second proposal reduced the cap further: the
  enactment then raises the cap at once, which the policy calls a loosening.
\<close>

definition stale_tightening :: "(string \<times> u64 \<times> plain_payload) list" where
  "stale_tightening =
     [(''b1'', 1000, GovernanceProposal ''a'' (SetMaxMint 500) Policy ''r'' 1000 1000),
      (''b2'', 1001, GovernanceProposal ''b'' (SetMaxMint 10) Policy ''r'' 1001 1001),
      (''b3'', 1001, GovernanceEnact ''b'' ''r'')]"

lemma stale_tightening_loosens:
  "rc_max_mint_per_block (gs_config (run_gov stale_tightening gov_empty)) = 10"
  "change_direction (gs_config (run_gov stale_tightening gov_empty)) (SetMaxMint 500) = Loosen"
  "is_ok (fst (enact_arm no_faults ref_dec id ''b4'' 1002 ''a'' (run_gov stale_tightening gov_empty)))"
  "rc_max_mint_per_block (gs_config (snd (enact_arm no_faults ref_dec id ''b4'' 1002 ''a''
     (run_gov stale_tightening gov_empty)))) = 500"
  by (simp_all add: stale_tightening_def gov_eval)

text \<open>A plain \<open>ConfigUpdate\<close> payload changes any parameter at once, without a proposal.\<close>

lemma config_update_skips_timelock:
  "min_tier (SetEmissionCorridor 5000 0 5000 86400) = Constitution"
  "is_ok (fst (gov_arm no_faults ref_dec id ''b'' 1 (ConfigUpdatePayload (SetEmissionCorridor 5000 0 5000 86400)) gov_empty))"
  "rc_emission_ceiling_bps (gs_config (snd (gov_arm no_faults ref_dec id ''b'' 1
     (ConfigUpdatePayload (SetEmissionCorridor 5000 0 5000 86400)) gov_empty))) = Some 5000"
  by (simp_all add: gov_eval)

text \<open>
  A failure to record the new status is only logged: the enactment is accepted, the proposal stays
  pending and the next enactment of it is accepted too.
\<close>

lemma unrecorded_enactment_repeats:
  defines "F \<equiv> \<lambda>call. if call = PutProposal ''p'' then Some ''disk'' else None"
  defines "st1 \<equiv> snd (enact_arm F ref_dec id ''b2'' 1296001000 ''p'' (run_gov burn_proposal gov_empty))"
  shows "is_ok (fst (enact_arm F ref_dec id ''b2'' 1296001000 ''p'' (run_gov burn_proposal gov_empty)))"
    and "is_ok (fst (enact_arm F ref_dec id ''b3'' 1296001001 ''p'' st1))"
  unfolding F_def st1_def by (simp_all add: burn_proposal_def gov_eval)

end
