(* ===== verification/Column.thy ===== *)
theory Column
  imports Prelude "HOL-Library.List_Lexorder" "HOL-Library.Char_ord"
begin

section \<open>Column families of the store\<close>

text \<open>
  A column family of RocksDB, as the registries of \<open>pms-storage\<close> use it: point reads, writes and
  deletions by key, and a forward scan in the order of the bytes of the keys. The locale
  \<open>column_family\<close> is the contract the clients rely on; the model's column families are association
  lists kept in the order of their keys. \<open>be_bytes\<close> is the big-endian encoding the composite keys
  start with, whose order is the order of the numbers.
\<close>

lemma sorted_map_unique:
  fixes xs ys :: "(string \<times> 'v) list"
  assumes xs: "sorted_wrt (<) (map fst xs)" and ys: "sorted_wrt (<) (map fst ys)" and eq: "map_of xs = map_of ys"
  shows "xs = ys"
proof (rule map_sorted_distinct_set_unique [of fst])
  have d: "distinct (map fst xs)" "distinct (map fst ys)" using xs ys by (simp_all add: strict_sorted_iff)
  have iff: "p \<in> set xs \<longleftrightarrow> p \<in> set ys" for p
    using map_of_eq_Some_iff [OF d(1), of "fst p" "snd p"] map_of_eq_Some_iff [OF d(2), of "fst p" "snd p"] eq by simp
  then show "set xs = set ys" by blast
  then show "inj_on fst (set xs \<union> set ys)" using d by (simp add: distinct_map)
qed (use xs ys in \<open>simp_all add: strict_sorted_iff\<close>)

locale column_family =
  fixes ok :: "'s \<Rightarrow> bool"
    and get :: "'s \<Rightarrow> string \<Rightarrow> 'v option"
    and put :: "string \<Rightarrow> 'v \<Rightarrow> 's \<Rightarrow> 's"
    and delete :: "string \<Rightarrow> 's \<Rightarrow> 's"
    and scan :: "'s \<Rightarrow> (string \<times> 'v) list"
  assumes ok_put: "ok s \<Longrightarrow> ok (put k v s)"
    and ok_delete: "ok s \<Longrightarrow> ok (delete k s)"
    and get_put: "ok s \<Longrightarrow> get (put k v s) = (get s)(k \<mapsto> v)"
    and get_delete: "ok s \<Longrightarrow> get (delete k s) = (get s)(k := None)"
    and scan_sorted: "ok s \<Longrightarrow> sorted_wrt (<) (map fst (scan s))"
    and scan_get: "ok s \<Longrightarrow> map_of (scan s) = get s"
begin

lemma scan_mem: "ok s \<Longrightarrow> (k, v) \<in> set (scan s) \<longleftrightarrow> get s k = Some v"
  using scan_sorted [of s] by (simp add: scan_get [symmetric] strict_sorted_iff)

lemma scan_put_last:
  assumes ok: "ok s" and last: "\<And>k'. k' \<in> dom (get s) \<Longrightarrow> k' < k"
  shows "scan (put k v s) = scan s @ [(k, v)]"
proof (rule sorted_map_unique)
  show "sorted_wrt (<) (map fst (scan (put k v s)))" using scan_sorted [OF ok_put [OF ok]] .
  have "k' < k" if "k' \<in> fst ` set (scan s)" for k'
    using that last [of k'] scan_mem [OF ok] by (auto simp: dom_def)
  then show "sorted_wrt (<) (map fst (scan s @ [(k, v)]))"
    using scan_sorted [OF ok] by (auto simp: sorted_wrt_append)
  have new: "map_of (scan s) k = None"
    using last [of k] by (cases "get s k") (auto simp: scan_get [OF ok] dom_def)
  then show "map_of (scan (put k v s)) = map_of (scan s @ [(k, v)])"
    using scan_get [OF ok] scan_get [OF ok_put [OF ok]] get_put [OF ok] by (auto simp: map_add_def split: option.splits)
qed

lemma put_absent_once:
  assumes "ok s" and "s' = (if get s k = None then put k v s else s)"
  shows "(if get s' k = None then put k w s' else s') = s'"
  using assms by (auto simp: get_put)

end

type_synonym 'v cf = "(string \<times> 'v) list"

definition cf_ok :: "'v cf \<Rightarrow> bool" where
  "cf_ok m \<longleftrightarrow> sorted_wrt (<) (map fst m)"

definition cf_get :: "'v cf \<Rightarrow> string \<Rightarrow> 'v option" where
  "cf_get m k = map_of m k"

fun cf_put :: "string \<Rightarrow> 'v \<Rightarrow> 'v cf \<Rightarrow> 'v cf" where
  "cf_put k v [] = [(k, v)]"
| "cf_put k v ((k', v') # m) =
     (if k < k' then (k, v) # (k', v') # m else if k = k' then (k, v) # m else (k', v') # cf_put k v m)"

definition cf_delete :: "string \<Rightarrow> 'v cf \<Rightarrow> 'v cf" where
  "cf_delete k m = filter (\<lambda>(k', _). k' \<noteq> k) m"

lemma cf_keys_put: "fst ` set (cf_put k v m) = insert k (fst ` set m)"
proof (induction m)
  case (Cons p m)
  then show ?case by (cases p) auto
qed simp

lemma cf_ok_put: "cf_ok m \<Longrightarrow> cf_ok (cf_put k v m)"
  unfolding cf_ok_def
proof (induction m)
  case (Cons p m)
  obtain k' v' where p: "p = (k', v')" by (cases p)
  have "\<forall>x\<in>fst ` set (cf_put k v m). k' < x" if "\<not> k < k'" "k \<noteq> k'"
    using that Cons.prems by (auto simp: p cf_keys_put)
  then show ?case using Cons by (fastforce simp: p)
qed simp

lemma map_of_cf_put: "map_of (cf_put k v m) = (map_of m)(k \<mapsto> v)"
  by (induction m) (auto simp: fun_eq_iff)

interpretation cf: column_family cf_ok cf_get cf_put cf_delete "\<lambda>m. m"
proof unfold_locales
  fix m :: "'v cf" and k :: string
  show "cf_get (cf_delete k m) = (cf_get m)(k := None)"
    by (induction m) (auto simp: cf_get_def cf_delete_def fun_eq_iff)
  assume "cf_ok m"
  then show "cf_ok (cf_delete k m)"
    by (auto simp: cf_ok_def cf_delete_def sorted_wrt_map intro: sorted_wrt_filter)
  show "cf_ok (cf_put k v m)" for v by (rule cf_ok_put) fact
qed (auto simp: map_of_cf_put cf_get_def cf_ok_def fun_eq_iff)

subsection \<open>Big-endian numbers in keys\<close>

fun be_bytes :: "nat \<Rightarrow> nat \<Rightarrow> string" where
  "be_bytes 0 n = []"
| "be_bytes (Suc k) n = be_bytes k (n div 256) @ [char_of (n mod 256)]"

lemma length_be_bytes [simp]: "length (be_bytes k n) = k"
  by (induction k arbitrary: n) auto

lemma prefix_less: "length a = length b \<Longrightarrow> a < b \<Longrightarrow> a @ x < b @ (y :: string)"
  by (induction a b rule: list_induct2) auto

lemma prefix_same: "a @ x < a @ y \<longleftrightarrow> x < (y :: string)"
  by (induction a) auto

lemma be_bytes_less:
  "m < n \<Longrightarrow> n < 256 ^ k \<Longrightarrow> be_bytes k m < be_bytes k n"
proof (induction k arbitrary: m n)
  case (Suc k)
  have n: "n div 256 < 256 ^ k" using Suc.prems(2) by (simp add: less_mult_imp_div_less mult.commute)
  consider "m div 256 < n div 256" | "m div 256 = n div 256" "m mod 256 < n mod 256"
    using Suc.prems(1) by (metis div_le_mono div_mult_mod_eq le_neq_implies_less less_imp_le nat_add_left_cancel_less)
  then show ?case
  proof cases
    case 1
    then show ?thesis using prefix_less [OF _ Suc.IH [OF 1 n]] by simp
  next
    case 2
    have "char_of (m mod 256) < (char_of (n mod 256) :: char)"
      using 2(2) by (simp add: less_char_def)
    then show ?thesis using 2(1) by (simp add: prefix_same)
  qed
qed simp

end
