(* ===== verification/KeyRotation.thy ===== *)
theory KeyRotation
  imports Gate Column PayloadTypes
begin

section \<open>Rotation of the coordinator key\<close>

text \<open>
  \<open>coordinator_key_store.rs\<close> and \<open>coordinator_key_storage.rs\<close> (the history kept in a column family),
  \<open>KeyRotationState\<close> of \<open>core_adapter.rs\<close> (its copy in memory), the single-writer gate and the
  \<open>CoordinatorKeyRotate\<close> arm of \<open>persist.rs\<close>. An \<open>i64\<close> is a 64-bit word read by \<open>sint\<close>. The history is
  a chain of hand-overs as long as the clock of the node moves forward; the lemmas at the end show
  what happens when it does not, and when the history cannot be read.
\<close>

type_synonym i64 = "64 word"

record rotation =
  kr_old_pk :: string
  kr_new_pk :: string
  kr_block_id :: string
  kr_ts_ms :: i64
  kr_grace_s :: u64

definition sat_sub_i64 :: "i64 \<Rightarrow> i64 \<Rightarrow> i64" where
  "sat_sub_i64 a b = word_of_int (max (- (2 ^ 63)) (min (2 ^ 63 - 1) (sint a - sint b)))"

definition sat_mul :: "u64 \<Rightarrow> u64 \<Rightarrow> u64" where
  "sat_mul a b = (if unat a * unat b < 2 ^ 64 then a * b else - 1)"

definition old_key_in_grace :: "rotation \<Rightarrow> i64 \<Rightarrow> bool" where
  "old_key_in_grace r now_ms =
     (if kr_grace_s r = 0 then False
      else
        let elapsed_ms = sat_sub_i64 now_ms (kr_ts_ms r);
            grace_ms = sat_mul (kr_grace_s r) 1000
        in 0 \<le> sint elapsed_ms \<and> sint elapsed_ms < sint grace_ms)"

subsection \<open>The history in the store\<close>

definition coord_key_history_key :: "rotation \<Rightarrow> string" where
  "coord_key_history_key r = be_bytes 8 (unat (kr_ts_ms r)) @ CHR 0x00 # kr_block_id r"

definition record_key_rotation :: "faults \<Rightarrow> rotation \<Rightarrow> rotation cf \<Rightarrow> (string + unit) \<times> rotation cf" where
  "record_key_rotation F r db =
     (case F RecordRotation of
        Some e \<Rightarrow> (Inl e, db)
      | None \<Rightarrow>
          let key = coord_key_history_key r in
          if cf_get db key \<noteq> None then (Inr (), db) else (Inr (), cf_put key r db))"

definition list_key_rotations :: "faults \<Rightarrow> rotation cf \<Rightarrow> string + rotation list" where
  "list_key_rotations F db = io F ListRotations (map snd db)"

subsection \<open>The state in memory\<close>

record key_rotation_state =
  ks_bootstrap_pk :: "string option"
  ks_rotations :: "rotation list"

record key_node =
  kn_db :: "rotation cf"
  kn_state :: key_rotation_state

definition current_pk :: "key_rotation_state \<Rightarrow> string option" where
  "current_pk st = (if ks_rotations st = [] then ks_bootstrap_pk st else Some (kr_new_pk (last (ks_rotations st))))"

definition accepted_signer_keys :: "key_rotation_state \<Rightarrow> i64 \<Rightarrow> string list" where
  "accepted_signer_keys st now_ms =
     remdups ((case current_pk st of None \<Rightarrow> [] | Some c \<Rightarrow> [c]) @
       map kr_old_pk (filter (\<lambda>r. old_key_in_grace r now_ms) (ks_rotations st)))"

definition initial_key_rotation_state :: "faults \<Rightarrow> string option \<Rightarrow> rotation cf \<Rightarrow> key_rotation_state" where
  "initial_key_rotation_state F bootstrap_pk db =
     \<lparr>ks_bootstrap_pk = bootstrap_pk,
      ks_rotations = (case list_key_rotations F db of Inl _ \<Rightarrow> [] | Inr rs \<Rightarrow> rs)\<rparr>"

definition refresh_key_rotation_state :: "faults \<Rightarrow> key_node \<Rightarrow> key_node" where
  "refresh_key_rotation_state F nd =
     (case list_key_rotations F (kn_db nd) of
        Inl _ \<Rightarrow> nd
      | Inr rs \<Rightarrow> nd\<lparr>kn_state := (kn_state nd)\<lparr>ks_rotations := rs\<rparr>\<rparr>)"

definition single_writer_gate :: "string list \<Rightarrow> string \<Rightarrow> bool \<Rightarrow> string + unit" where
  "single_writer_gate accepted signer_pk_hex is_dev_mode =
     (if accepted = [] then
        (if is_dev_mode then Inr ()
         else Inl (''no active coordinator key configured '' @ [CHR 0xE2, CHR 0x80, CHR 0x94] @
                   '' all blocks refused (fail-closed)''))
      else if trim signer_pk_hex \<notin> set accepted then
        Inl (''signer '' @ trim signer_pk_hex @ '' is not in the active coordinator key set ('' @
             show_nat (length accepted) @ '' keys)'')
      else Inr ())"

definition rotation_checks :: "string option \<Rightarrow> string \<Rightarrow> string \<Rightarrow> string \<Rightarrow> string gate" where
  "rotation_checks cur signer_pk_hex old_pk new_pk =
     (case cur of
        None \<Rightarrow> Inl (Reject ''CoordinatorKeyRotate: no bootstrap coordinator key configured; rotation requires an initial key'')
      | Some c \<Rightarrow>
          if \<not> eq_ignore_case (trim signer_pk_hex) c then
            Inl (Reject (''CoordinatorKeyRotate: must be signed by the current coordinator key '' @ c @
                         '' (got '' @ trim signer_pk_hex @ '')''))
          else if \<not> eq_ignore_case (trim old_pk) c then
            Inl (Reject (''CoordinatorKeyRotate: old_pk field '' @ trim old_pk @
                         '' does not match current coordinator key '' @ c))
          else if trim new_pk = [] \<or> eq_ignore_case (trim new_pk) c then
            Inl (Reject ''CoordinatorKeyRotate: new_pk must be non-empty and differ from current'')
          else Inr c)"

definition rotation_arm ::
  "faults \<Rightarrow> i64 \<Rightarrow> string \<Rightarrow> string \<Rightarrow> string \<Rightarrow> string \<Rightarrow> u64 \<Rightarrow> key_node \<Rightarrow> unit gate \<times> key_node" where
  "rotation_arm F now_ms block_id signer_pk_hex old_pk new_pk grace nd =
     (case rotation_checks (current_pk (kn_state nd)) signer_pk_hex old_pk new_pk of
        Inl stop \<Rightarrow> (Inl stop, nd)
      | Inr c \<Rightarrow>
          let r = \<lparr>kr_old_pk = c, kr_new_pk = trim new_pk, kr_block_id = block_id, kr_ts_ms = now_ms,
                   kr_grace_s = grace\<rparr>
          in case record_key_rotation F r (kn_db nd) of
               (Inl e, db) \<Rightarrow> (Inl (Reject (''CoordinatorKeyRotate: failed to persist history: '' @ e)), nd\<lparr>kn_db := db\<rparr>)
             | (Inr _, db) \<Rightarrow> (Inr (), refresh_key_rotation_state F (nd\<lparr>kn_db := db\<rparr>)))"

subsection \<open>The grace window\<close>

lemma sint_sat_sub_i64: "sint (sat_sub_i64 a b) = max (- (2 ^ 63)) (min (2 ^ 63 - 1) (sint a - sint b))"
  unfolding sat_sub_i64_def by (simp add: signed_of_int signed_take_bit_int_eq_self)

lemma uint_nat_mult: "int (unat (a :: u64) * unat b) = uint a * uint b"
  by simp

lemma uint_sat_mul: "uint (sat_mul a b) = min (uint a * uint b) (2 ^ 64 - 1)"
proof (cases "unat a * unat b < 2 ^ 64")
  case True
  then have "uint a * uint b < 2 ^ 64"
    unfolding uint_nat_mult [symmetric] by (simp only: of_nat_less_numeral_power_cancel_iff)
  moreover from this have "uint (a * b) = uint a * uint b" by (subst uint_mult_lem [symmetric]) simp
  ultimately show ?thesis using True by (simp add: sat_mul_def)
next
  case False
  then have "2 ^ 64 \<le> uint a * uint b"
    unfolding uint_nat_mult [symmetric] not_less by (simp only: numeral_power_le_of_nat_cancel_iff)
  moreover have "uint (- 1 :: u64) = 2 ^ 64 - 1" by (simp add: unsigned_minus_1_eq_mask mask_eq_exp_minus_1)
  ultimately show ?thesis using False by (simp add: sat_mul_def)
qed

lemma sint_positive: "sint (w :: 64 word) = (if uint w < 2 ^ 63 then uint w else uint w - 2 ^ 64)"
proof -
  have "0 \<le> uint w" "uint w < 2 ^ 64" using uint_lt2p [of w] by simp_all
  moreover have "(uint w + 2 ^ 63) mod 2 ^ 64 = uint w - 2 ^ 63" if "\<not> uint w < 2 ^ 63"
    using that \<open>uint w < 2 ^ 64\<close> mod_add_self2 [of "uint w - 2 ^ 63" "2 ^ 64"] by (simp add: add.commute)
  ultimately show ?thesis
    by (cases "uint w < 2 ^ 63") (simp_all add: sint_uint signed_take_bit_eq_take_bit_shift take_bit_eq_mod)
qed

text \<open>
  The old key of a rotation is accepted from the instant of the rotation up to the end of its
  window and not one millisecond longer, whatever the clock reads; a window of \<open>2^63\<close> milliseconds or
  more is void, since its length in milliseconds is cast to a signed integer.
\<close>

lemma grace_window_exact:
  "old_key_in_grace r now_ms \<longleftrightarrow>
     sint (kr_ts_ms r) \<le> sint now_ms \<and> sint now_ms < sint (kr_ts_ms r) + 1000 * uint (kr_grace_s r) \<and>
     1000 * uint (kr_grace_s r) < 2 ^ 63"
proof -
  let ?g = "1000 * uint (kr_grace_s r)"
  have g: "uint (sat_mul (kr_grace_s r) 1000) = min ?g (2 ^ 64 - 1)" by (simp add: uint_sat_mul mult.commute)
  have "0 \<le> uint (kr_grace_s r)" by simp
  then have sg: "sint (sat_mul (kr_grace_s r) 1000) = (if ?g < 2 ^ 63 then ?g else min ?g (2 ^ 64 - 1) - 2 ^ 64)"
    unfolding sint_positive g by auto
  have range: "- (2 ^ 63) \<le> sint w" "sint w < 2 ^ 63" for w :: i64
    using sint_greater_eq [of w] sint_less [of w] by simp_all
  have zero: "kr_grace_s r = 0 \<longleftrightarrow> uint (kr_grace_s r) = 0" by (simp add: uint_0_iff)
  show ?thesis
    using range [of now_ms] range [of "kr_ts_ms r"] \<open>0 \<le> uint (kr_grace_s r)\<close>
    unfolding old_key_in_grace_def Let_def sint_sat_sub_i64 sg zero by (auto simp: min_def max_def split: if_splits)
qed

subsection \<open>The chain of hand-overs\<close>

fun chained :: "string option \<Rightarrow> rotation list \<Rightarrow> bool" where
  "chained holder [] \<longleftrightarrow> True"
| "chained holder (r # rs) \<longleftrightarrow>
     holder = Some (kr_old_pk r) \<and> kr_new_pk r \<noteq> [] \<and> \<not> eq_ignore_case (kr_new_pk r) (kr_old_pk r) \<and>
     chained (Some (kr_new_pk r)) rs"

definition boot_node :: "faults \<Rightarrow> string option \<Rightarrow> rotation cf \<Rightarrow> key_node" where
  "boot_node F bootstrap_pk db = \<lparr>kn_db = db, kn_state = initial_key_rotation_state F bootstrap_pk db\<rparr>"

text \<open>
  A step of the node: any block with a rotation payload, handled at a later reading of the clock, or a
  restart. The write of the record may fail; the scan of the history does not.
\<close>

inductive kr_step :: "i64 \<times> key_node \<Rightarrow> i64 \<times> key_node \<Rightarrow> bool" where
  rotate: "F ListRotations = None \<Longrightarrow> sint clock < sint now \<Longrightarrow>
     kr_step (clock, nd) (now, snd (rotation_arm F now b signer old_pk new_pk grace nd))"
| restart: "F ListRotations = None \<Longrightarrow>
     kr_step (clock, nd) (clock, boot_node F (ks_bootstrap_pk (kn_state nd)) (kn_db nd))"

inductive_cases kr_stepE: "kr_step s s'"

definition history_ok :: "string option \<Rightarrow> i64 \<times> key_node \<Rightarrow> bool" where
  "history_ok b s \<longleftrightarrow>
     (case s of (clock, nd) \<Rightarrow>
        0 \<le> sint clock \<and> cf_ok (kn_db nd) \<and> ks_bootstrap_pk (kn_state nd) = b \<and>
        ks_rotations (kn_state nd) = map snd (kn_db nd) \<and> chained b (ks_rotations (kn_state nd)) \<and>
        (\<forall>(k, r)\<in>set (kn_db nd). k = coord_key_history_key r \<and> 0 \<le> sint (kr_ts_ms r) \<and> sint (kr_ts_ms r) \<le> sint clock))"

lemma chained_snoc:
  "chained b (rs @ [r]) \<longleftrightarrow> chained b rs \<and> kr_new_pk r \<noteq> [] \<and> \<not> eq_ignore_case (kr_new_pk r) (kr_old_pk r) \<and>
     (if rs = [] then b else Some (kr_new_pk (last rs))) = Some (kr_old_pk r)"
  by (induction rs arbitrary: b) auto

lemma history_key_less:
  assumes "0 \<le> sint (kr_ts_ms r)" and "sint (kr_ts_ms r) < sint (kr_ts_ms r')"
  shows "coord_key_history_key r < coord_key_history_key r'"
proof -
  have "uint (kr_ts_ms r) < uint (kr_ts_ms r')"
    using assms uint_lt2p [of "kr_ts_ms r"] by (auto simp: sint_positive split: if_splits)
  then have "unat (kr_ts_ms r) < unat (kr_ts_ms r')" by (simp flip: word_less_nat_alt add: word_less_def)
  moreover have "unat (kr_ts_ms r') < 256 ^ 8" using unsigned_less [of "kr_ts_ms r'"] by simp
  ultimately show ?thesis
    unfolding coord_key_history_key_def by (intro prefix_less be_bytes_less) auto
qed

lemma rotation_checks_ok:
  "rotation_checks cur signer old_pk new_pk = Inr c \<longleftrightarrow>
     cur = Some c \<and> eq_ignore_case (trim signer) c \<and> eq_ignore_case (trim old_pk) c \<and>
     trim new_pk \<noteq> [] \<and> \<not> eq_ignore_case (trim new_pk) c"
  by (auto simp: rotation_checks_def split: option.splits if_splits)

lemma rotation_accepted:
  assumes ok: "history_ok b (clock, nd)" and F: "F ListRotations = None" and now: "sint clock < sint now"
    and arm: "rotation_arm F now i signer old_pk new_pk grace nd = (Inr (), nd')"
  obtains c r where "current_pk (kn_state nd) = Some c" "eq_ignore_case (trim signer) c"
    "eq_ignore_case (trim old_pk) c" "trim new_pk \<noteq> []" "\<not> eq_ignore_case (trim new_pk) c"
    "r = \<lparr>kr_old_pk = c, kr_new_pk = trim new_pk, kr_block_id = i, kr_ts_ms = now, kr_grace_s = grace\<rparr>"
    "kn_db nd' = kn_db nd @ [(coord_key_history_key r, r)]"
    "kn_state nd' = (kn_state nd)\<lparr>ks_rotations := map snd (kn_db nd')\<rparr>"
proof -
  obtain c where c: "rotation_checks (current_pk (kn_state nd)) signer old_pk new_pk = Inr c"
    using arm by (cases "rotation_checks (current_pk (kn_state nd)) signer old_pk new_pk") (auto simp: rotation_arm_def)
  let ?r = "\<lparr>kr_old_pk = c, kr_new_pk = trim new_pk, kr_block_id = i, kr_ts_ms = now, kr_grace_s = grace\<rparr>"
  let ?k = "coord_key_history_key ?r"
  have db: "cf_ok (kn_db nd)" using ok by (simp add: history_ok_def)
  have "k < ?k" if k: "k \<in> dom (cf_get (kn_db nd))" for k
  proof -
    obtain r where "cf_get (kn_db nd) k = Some r" using domD [OF k] by blast
    then have "(k, r) \<in> set (kn_db nd)" by (simp add: cf.scan_mem [OF db])
    then have "k = coord_key_history_key r" "0 \<le> sint (kr_ts_ms r)" "sint (kr_ts_ms r) \<le> sint clock"
      using ok by (auto simp: history_ok_def)
    then show ?thesis using history_key_less [of r ?r] now by simp
  qed
  then have "cf_put ?k ?r (kn_db nd) = kn_db nd @ [(?k, ?r)]" and "cf_get (kn_db nd) ?k = None"
    using cf.scan_put_last [OF db, of ?k ?r] domIff [of ?k "cf_get (kn_db nd)"] by blast+
  moreover have "F RecordRotation = None"
    using arm c by (cases "F RecordRotation") (auto simp: rotation_arm_def record_key_rotation_def)
  ultimately have "nd' = nd\<lparr>kn_db := kn_db nd @ [(?k, ?r)],
      kn_state := (kn_state nd)\<lparr>ks_rotations := map snd (kn_db nd @ [(?k, ?r)])\<rparr>\<rparr>"
    using arm c F
    by (simp add: rotation_arm_def record_key_rotation_def refresh_key_rotation_state_def list_key_rotations_def io_def
        Let_def)
  then show ?thesis using c that [of c ?r] by (simp add: rotation_checks_ok)
qed

lemma rotation_refused: "rotation_arm F now i signer old_pk new_pk grace nd = (Inl e, nd') \<Longrightarrow> nd' = nd"
  by (auto simp: rotation_arm_def record_key_rotation_def Let_def split: sum.splits option.splits if_splits prod.splits)

lemma history_ok_rotate:
  assumes ok: "history_ok b (clock, nd)" and F: "F ListRotations = None" and now: "sint clock < sint now"
  shows "history_ok b (now, snd (rotation_arm F now i signer old_pk new_pk grace nd))"
proof (cases "rotation_arm F now i signer old_pk new_pk grace nd")
  case (Pair res nd')
  show ?thesis
  proof (cases res)
    case (Inl e)
    then have "nd' = nd" using Pair rotation_refused by simp
    then show ?thesis using ok now Pair by (auto simp: history_ok_def)
  next
    case (Inr u)
    then have arm: "rotation_arm F now i signer old_pk new_pk grace nd = (Inr (), nd')" using Pair by simp
    obtain c r where c: "current_pk (kn_state nd) = Some c" "trim new_pk \<noteq> []" "\<not> eq_ignore_case (trim new_pk) c"
      and r: "r = \<lparr>kr_old_pk = c, kr_new_pk = trim new_pk, kr_block_id = i, kr_ts_ms = now, kr_grace_s = grace\<rparr>"
      and nd': "kn_db nd' = kn_db nd @ [(coord_key_history_key r, r)]"
        "kn_state nd' = (kn_state nd)\<lparr>ks_rotations := map snd (kn_db nd')\<rparr>"
      by (rule rotation_accepted [OF ok F now arm])
    have "chained b (map snd (kn_db nd'))"
      using ok c r by (auto simp: nd' chained_snoc history_ok_def current_pk_def split: if_splits)
    moreover have "cf_ok (kn_db nd')"
    proof -
      have "k < coord_key_history_key r" if "(k, r0) \<in> set (kn_db nd)" for k r0
        using that ok now history_key_less [of r0 r] by (auto simp: history_ok_def r)
      then show ?thesis using ok by (auto simp: nd' cf_ok_def history_ok_def sorted_wrt_append)
    qed
    ultimately show ?thesis using ok now unfolding Pair snd_conv history_ok_def by (auto simp: nd' r)
  qed
qed

lemma history_ok_restart:
  "F ListRotations = None \<Longrightarrow> history_ok b (clock, nd) \<Longrightarrow>
   history_ok b (clock, boot_node F (ks_bootstrap_pk (kn_state nd)) (kn_db nd))"
  by (auto simp: history_ok_def boot_node_def initial_key_rotation_state_def list_key_rotations_def io_def)

lemma history_ok_step: "kr_step s s' \<Longrightarrow> history_ok b s \<Longrightarrow> history_ok b s'"
  by (erule kr_stepE) (simp_all only: history_ok_rotate history_ok_restart)

lemma history_ok_reachable:
  assumes "kr_step\<^sup>*\<^sup>* (clock0, boot_node F0 b []) s" and "0 \<le> sint clock0" and "F0 ListRotations = None"
  shows "history_ok b s"
  using assms(1)
proof induction
  case base
  then show ?case
    using assms(2,3) by (simp add: history_ok_def boot_node_def initial_key_rotation_state_def list_key_rotations_def
        io_def cf_ok_def)
qed (auto intro: history_ok_step)

text \<open>
  Claim C16. As long as the clock of the node moves forward and the history can be read, the recorded
  rotations form a chain from the bootstrap key: every rotation was issued for the key that was current,
  and an accepted rotation is signed by the current key (up to letter case), names it, and makes its new
  key the current one, in this process and after any restart.
\<close>

theorem rotations_form_a_chain:
  assumes run: "kr_step\<^sup>*\<^sup>* (clock0, boot_node F0 b []) (clock, nd)" and "0 \<le> sint clock0" and "F0 ListRotations = None"
    and F: "F ListRotations = None" and now: "sint clock < sint now"
    and arm: "rotation_arm F now i signer old_pk new_pk grace nd = (Inr (), nd')"
  shows "\<exists>c r. current_pk (kn_state nd) = Some c \<and> eq_ignore_case (trim signer) c \<and> eq_ignore_case (trim old_pk) c \<and>
    ks_rotations (kn_state nd') = ks_rotations (kn_state nd) @ [r] \<and> kr_old_pk r = c \<and> kr_new_pk r = trim new_pk \<and>
    chained b (ks_rotations (kn_state nd')) \<and> current_pk (kn_state nd') = Some (trim new_pk) \<and>
    kn_state (boot_node F b (kn_db nd')) = kn_state nd'"
proof -
  have ok: "history_ok b (clock, nd)" by (rule history_ok_reachable [OF assms(1-3)])
  have ok': "history_ok b (now, nd')" using history_ok_rotate [of b clock nd F now i, OF ok F now, of signer old_pk new_pk grace] arm by simp
  obtain c r where c: "current_pk (kn_state nd) = Some c" "eq_ignore_case (trim signer) c"
      "eq_ignore_case (trim old_pk) c"
    and r: "r = \<lparr>kr_old_pk = c, kr_new_pk = trim new_pk, kr_block_id = i, kr_ts_ms = now, kr_grace_s = grace\<rparr>"
    and nd': "kn_db nd' = kn_db nd @ [(coord_key_history_key r, r)]"
      "kn_state nd' = (kn_state nd)\<lparr>ks_rotations := map snd (kn_db nd')\<rparr>"
    by (rule rotation_accepted [OF ok F now arm])
  have "ks_rotations (kn_state nd') = ks_rotations (kn_state nd) @ [r]" "ks_bootstrap_pk (kn_state nd') = b"
    "chained b (ks_rotations (kn_state nd'))"
    using ok ok' nd' by (simp_all add: history_ok_def)
  moreover have "kn_state (boot_node F b (kn_db nd')) = kn_state nd'"
    using ok F nd'
    by (simp add: history_ok_def boot_node_def initial_key_rotation_state_def list_key_rotations_def io_def)
  ultimately show ?thesis using c r by (intro exI [of _ c] exI [of _ r]) (simp add: current_pk_def)
qed

lemmas rotation_eval = rotation_arm_def rotation_checks_def record_key_rotation_def refresh_key_rotation_state_def
  list_key_rotations_def boot_node_def initial_key_rotation_state_def current_pk_def io_def no_faults_def cf_get_def
  eq_ignore_case_def to_lower_def lower_char_def trim_def is_ascii_ws_def Let_def coord_key_history_key_def

lemma first_rotation:
  "rotation_arm no_faults 1000 ''b1'' ''k1'' ''k1'' ''k2'' 60 (boot_node no_faults (Some ''k1'') []) =
     (Inr (), boot_node no_faults (Some ''k1'')
        [(coord_key_history_key \<lparr>kr_old_pk = ''k1'', kr_new_pk = ''k2'', kr_block_id = ''b1'', kr_ts_ms = 1000, kr_grace_s = 60\<rparr>,
          \<lparr>kr_old_pk = ''k1'', kr_new_pk = ''k2'', kr_block_id = ''b1'', kr_ts_ms = 1000, kr_grace_s = 60\<rparr>)])"
  by (simp add: rotation_eval)

theorem rotations_form_a_chain_witness:
  "\<exists>nd. rotation_arm no_faults 1000 ''b1'' ''k1'' ''k1'' ''k2'' 60 (boot_node no_faults (Some ''k1'') []) = (Inr (), nd) \<and>
     current_pk (kn_state nd) = Some ''k2''"
proof -
  have t: "trim ''k2'' = ''k2''" by code_simp
  have z: "sint (0::i64) = 0" "sint (1000 :: i64) = 1000" by simp_all
  obtain nd where nd: "rotation_arm no_faults 1000 ''b1'' ''k1'' ''k1'' ''k2'' 60 (boot_node no_faults (Some ''k1'') []) = (Inr (), nd)"
    using first_rotation by blast
  show ?thesis
    using rotations_form_a_chain [OF rtranclp.rtrancl_refl [of kr_step "(0, boot_node no_faults (Some ''k1'') [])"] _ _ _ _ nd] nd
    by (auto simp: t z no_faults_def)
qed

subsection \<open>Where the chain breaks\<close>

text \<open>
  The history is ordered by the clock, not by the chain. If the clock steps back between two
  rotations, the older one stays the last: the key it installed is current again.
\<close>

lemma clock_step_back_keeps_the_replaced_key:
  "map_option kr_new_pk (Some (last (ks_rotations (kn_state (snd (rotation_arm no_faults 9 ''b2'' ''k2'' ''k2'' ''k3'' 60
     (snd (rotation_arm no_faults 10 ''b1'' ''k1'' ''k1'' ''k2'' 60 (boot_node no_faults (Some ''k1'') []))))))))) = Some ''k2''"
  by code_simp

text \<open>A read error at boot leaves the history empty: the bootstrap key, replaced or not, is current.\<close>

lemma unreadable_history_restores_the_bootstrap_key:
  assumes "F ListRotations = Some e"
  shows "current_pk (kn_state (boot_node F (Some k) db)) = Some k"
    and "single_writer_gate (accepted_signer_keys (kn_state (boot_node F (Some k) db)) now) k dev = Inr () \<longleftrightarrow> trim k = k"
  using assms
  by (auto simp: boot_node_def initial_key_rotation_state_def list_key_rotations_def io_def current_pk_def
      single_writer_gate_def accepted_signer_keys_def)

text \<open>
  The single-writer gate compares keys as texts, the rotation compares them up to letter case: a
  key announced in another case than its signer uses is current and yet refused by the gate.
\<close>

lemma gate_is_case_sensitive:
  "is_ok (fst (rotation_arm no_faults 10 ''b1'' ''k1'' ''k1'' ''AB'' 0 (boot_node no_faults (Some ''k1'') [])))"
  "\<not> is_ok (single_writer_gate (accepted_signer_keys (kn_state (snd (rotation_arm no_faults 10 ''b1'' ''k1'' ''k1'' ''AB'' 0
      (boot_node no_faults (Some ''k1'') [])))) 20) ''ab'' False)"
  by code_simp+

end
