(* ===== verification/Nft.thy ===== *)
theory Nft
  imports Gate PayloadTypes
begin

section \<open>Non-fungible tokens\<close>

text \<open>
  \<open>validations/nft.rs\<close>, the trait \<open>NftStorage\<close> of \<open>nft_store.rs\<close> with its default methods and its two
  implementations (\<open>nft_storage.rs\<close> over RocksDB, the \<open>InMemoryNftStore\<close>), and the NFT arm of
  \<open>persist.rs\<close>. The trait is the record \<open>nft_ops\<close> of its methods; the default methods and the arm are
  written over that record, as the code writes them over \<open>self\<close>. The locale \<open>nft_store\<close> states what
  the methods promise and proves the arm against the abstract ledger once; both stores interpret it.
\<close>

subsection \<open>The trait\<close>

record 's nft_ops =
  op_get_owner :: "string \<Rightarrow> 's \<Rightarrow> string + string option"
  op_set_owner :: "string \<Rightarrow> string \<Rightarrow> 's \<Rightarrow> (string + unit) \<times> 's"
  op_delete :: "string \<Rightarrow> 's \<Rightarrow> (string + unit) \<times> 's"
  op_get_by_owner :: "string \<Rightarrow> 's \<Rightarrow> string + string list"
  op_get_block_id :: "string \<Rightarrow> 's \<Rightarrow> string + string option"
  op_set_block_id :: "string \<Rightarrow> string \<Rightarrow> 's \<Rightarrow> (string + unit) \<times> 's"
  op_delete_block_id :: "string \<Rightarrow> 's \<Rightarrow> (string + unit) \<times> 's"

text \<open>\<open>a?; b\<close> for operations that change the store.\<close>

definition and_then :: "('s \<Rightarrow> ('e + unit) \<times> 's) \<Rightarrow> ('s \<Rightarrow> ('e + 'a) \<times> 's) \<Rightarrow> 's \<Rightarrow> ('e + 'a) \<times> 's" where
  "and_then f g s = (case f s of (Inl e, s') \<Rightarrow> (Inl e, s') | (Inr _, s') \<Rightarrow> g s')"

lemma and_then_Inr [simp]: "f s = (Inr u, s') \<Longrightarrow> and_then f g s = g s'"
  by (simp add: and_then_def)

lemma and_then_Inl [simp]: "f s = (Inl e, s') \<Longrightarrow> and_then f g s = (Inl e, s')"
  by (simp add: and_then_def)

definition nft_exists :: "'s nft_ops \<Rightarrow> string \<Rightarrow> 's \<Rightarrow> string + bool" where
  "nft_exists N token_id s = rbind (op_get_owner N token_id s) (\<lambda>w. Inr (w \<noteq> None))"

definition burn_token :: "'s nft_ops \<Rightarrow> string \<Rightarrow> 's \<Rightarrow> (string + unit) \<times> 's" where
  "burn_token N token_id = and_then (op_delete_block_id N token_id) (op_delete N token_id)"

fun burn_tokens :: "'s nft_ops \<Rightarrow> string list \<Rightarrow> 's \<Rightarrow> (string + unit) \<times> 's" where
  "burn_tokens N [] s = (Inr (), s)"
| "burn_tokens N (t # ts) s = and_then (burn_token N t) (burn_tokens N ts) s"

fun apply_action :: "'s nft_ops \<Rightarrow> nft_action \<Rightarrow> 's \<Rightarrow> (string + unit) \<times> 's" where
  "apply_action N (NftMint _ _ _) s = (Inl ''Use apply_mint() for Mint actions - block_id is required'', s)"
| "apply_action N (NftTransfer token_id _ receiver _ _) s = op_set_owner N token_id receiver s"
| "apply_action N (NftUse _ _ _ _) s = (Inr (), s)"
| "apply_action N (NftBurn token_id _) s = burn_token N token_id s"
| "apply_action N (NftBatchBurn token_ids _) s = burn_tokens N token_ids s"

definition apply_mint :: "'s nft_ops \<Rightarrow> string \<Rightarrow> string \<Rightarrow> string \<Rightarrow> 's \<Rightarrow> (string + unit) \<times> 's" where
  "apply_mint N token_id creator block_id s =
     (case op_get_owner N token_id s of
        Inl e \<Rightarrow> (Inl e, s)
      | Inr (Some _) \<Rightarrow>
          (Inl (''NFT '' @ token_id @ '' already exists '' @ [CHR 0xE2, CHR 0x80, CHR 0x94] @
                '' mint is create-only (refusing to overwrite owner)''), s)
      | Inr None \<Rightarrow> and_then (op_set_owner N token_id creator) (op_set_block_id N token_id block_id) s)"

definition apply_transfer :: "'s nft_ops \<Rightarrow> string \<Rightarrow> string \<Rightarrow> string \<Rightarrow> 's \<Rightarrow> (string + unit) \<times> 's" where
  "apply_transfer N token_id new_owner new_block_id =
     and_then (op_set_owner N token_id new_owner) (op_set_block_id N token_id new_block_id)"

subsection \<open>Validation\<close>

datatype nft_error =
    NftAlreadyExists string
  | NftNotFound string
  | NftUnauthorized string string string
  | NftStoreError string

fun show_nft_error :: "nft_error \<Rightarrow> string" where
  "show_nft_error (NftAlreadyExists token_id) = ''NFT already exists: '' @ token_id"
| "show_nft_error (NftNotFound token_id) = ''NFT not found: '' @ token_id"
| "show_nft_error (NftUnauthorized token_id expected got) =
     ''Unauthorized: token='' @ token_id @ '', expected owner='' @ expected @ '', got signer='' @ got"
| "show_nft_error (NftStoreError e) = e"

definition store_result :: "string + 'a \<Rightarrow> nft_error + 'a" where
  "store_result r = (case r of Inl e \<Rightarrow> Inl (NftStoreError e) | Inr x \<Rightarrow> Inr x)"

definition owned_by :: "'s nft_ops \<Rightarrow> string \<Rightarrow> string \<Rightarrow> 's \<Rightarrow> nft_error + unit" where
  "owned_by N token_id claimant s =
     rbind (store_result (op_get_owner N token_id s)) (\<lambda>w.
     rbind (ok_or w (NftNotFound token_id)) (\<lambda>owner.
     require (eq_ignore_case owner claimant) (NftUnauthorized token_id owner claimant)))"

definition is_coordinator :: "string \<Rightarrow> string option \<Rightarrow> bool" where
  "is_coordinator signer_pk_hex coordinator_pk =
     (case coordinator_pk of None \<Rightarrow> False | Some c \<Rightarrow> eq_ignore_case signer_pk_hex c)"

definition signed_for :: "string \<Rightarrow> string \<Rightarrow> string \<Rightarrow> string option \<Rightarrow> nft_error + unit" where
  "signed_for token_id claimant signer_pk_hex coordinator_pk =
     require (eq_ignore_case claimant signer_pk_hex \<or> is_coordinator signer_pk_hex coordinator_pk)
       (NftUnauthorized token_id claimant signer_pk_hex)"

fun validate_nft_action :: "'s nft_ops \<Rightarrow> nft_action \<Rightarrow> string \<Rightarrow> string option \<Rightarrow> 's \<Rightarrow> nft_error + unit" where
  "validate_nft_action N (NftMint token_id creator _) signer coordinator_pk s =
     rbind (store_result (nft_exists N token_id s)) (\<lambda>ex.
     rbind (require (\<not> ex) (NftAlreadyExists token_id)) (\<lambda>_.
     rbind (case coordinator_pk of
              Some coord_key \<Rightarrow>
                require (eq_ignore_case signer coord_key) (NftUnauthorized token_id (''Coordinator('' @ coord_key @ '')'') signer)
            | None \<Rightarrow> Inr ()) (\<lambda>_.
     require (eq_ignore_case creator signer) (NftUnauthorized token_id creator signer))))"
| "validate_nft_action N (NftTransfer token_id sender _ _ _) signer coordinator_pk s =
     rbind (owned_by N token_id sender s) (\<lambda>_. signed_for token_id sender signer coordinator_pk)"
| "validate_nft_action N (NftUse token_id user _ _) signer coordinator_pk s =
     rbind (owned_by N token_id user s) (\<lambda>_. signed_for token_id user signer coordinator_pk)"
| "validate_nft_action N (NftBurn token_id burner) signer coordinator_pk s =
     rbind (owned_by N token_id burner s) (\<lambda>_. signed_for token_id burner signer coordinator_pk)"
| "validate_nft_action N (NftBatchBurn token_ids burner) signer coordinator_pk s =
     rbind (signed_for (case token_ids of [] \<Rightarrow> [] | t # _ \<Rightarrow> t) burner signer coordinator_pk) (\<lambda>_.
     try_each (\<lambda>t. owned_by N t burner s) token_ids)"

subsection \<open>The arm of the hot path\<close>

fun nft_apply :: "'s nft_ops \<Rightarrow> nft_action \<Rightarrow> string \<Rightarrow> 's \<Rightarrow> (string + unit) \<times> 's" where
  "nft_apply N (NftMint token_id creator _) block_id s = apply_mint N token_id creator block_id s"
| "nft_apply N (NftTransfer token_id _ receiver new_owner_x25519_pubkey _) block_id s =
     (if new_owner_x25519_pubkey \<noteq> None then apply_transfer N token_id receiver block_id s
      else op_set_owner N token_id receiver s)"
| "nft_apply N action block_id s = apply_action N action s"

definition nft_arm :: "'s nft_ops \<Rightarrow> nft_action \<Rightarrow> string \<Rightarrow> string option \<Rightarrow> string \<Rightarrow> 's \<Rightarrow> unit gate \<times> 's" where
  "nft_arm N action signer coordinator_pk block_id s =
     (case validate_nft_action N action signer coordinator_pk s of
        Inl e \<Rightarrow> (Inl (Reject (''NFT validation: '' @ show_nft_error e)), s)
      | Inr _ \<Rightarrow>
          (case nft_apply N action block_id s of
             (Inl e, s') \<Rightarrow> (Inl (Reject (''NFT apply failed: '' @ e)), s')
           | (Inr _, s') \<Rightarrow> (Inr (), s')))"

subsection \<open>The store over RocksDB\<close>

text \<open>
  Three column families: the owner of a token, the tokens of an owner (a JSON array, decoded), the block of
  a token. Every access may fail on its own, so that an operation can stop half way. The values the
  store wrote itself are read back: decoding errors are not modelled.
\<close>

record nft_cfs =
  nc_ownership :: "string \<Rightarrow> string option"
  nc_by_owner :: "string \<Rightarrow> string list option"
  nc_block_ids :: "string \<Rightarrow> string option"

definition db_put :: "faults \<Rightarrow> string \<Rightarrow> string \<Rightarrow> ('s \<Rightarrow> 's) \<Rightarrow> 's \<Rightarrow> (string + unit) \<times> 's" where
  "db_put F cf k write s = (case F (DbPut cf k) of Some e \<Rightarrow> (Inl e, s) | None \<Rightarrow> (Inr (), write s))"

definition db_delete :: "faults \<Rightarrow> string \<Rightarrow> string \<Rightarrow> ('s \<Rightarrow> 's) \<Rightarrow> 's \<Rightarrow> (string + unit) \<times> 's" where
  "db_delete F cf k write s = (case F (DbDelete cf k) of Some e \<Rightarrow> (Inl e, s) | None \<Rightarrow> (Inr (), write s))"

definition rocks_get_owner :: "faults \<Rightarrow> string \<Rightarrow> nft_cfs \<Rightarrow> string + string option" where
  "rocks_get_owner F token_id s = io F (DbGet ''nft_ownership'' token_id) (nc_ownership s token_id)"

definition owner_list :: "faults \<Rightarrow> string \<Rightarrow> nft_cfs \<Rightarrow> string + string list" where
  "owner_list F w s =
     io F (DbGet ''nfts_by_owner'' w) (case nc_by_owner s w of None \<Rightarrow> [] | Some tokens \<Rightarrow> tokens)"

definition add_token_to_owner_list :: "faults \<Rightarrow> string \<Rightarrow> string \<Rightarrow> nft_cfs \<Rightarrow> (string + unit) \<times> nft_cfs" where
  "add_token_to_owner_list F w token_id s =
     (case owner_list F w s of
        Inl e \<Rightarrow> (Inl e, s)
      | Inr tokens \<Rightarrow>
          let tokens' = (if token_id \<in> set tokens then tokens else tokens @ [token_id]) in
          db_put F ''nfts_by_owner'' w (\<lambda>s. s\<lparr>nc_by_owner := (nc_by_owner s)(w \<mapsto> tokens')\<rparr>) s)"

definition remove_token_from_owner_list :: "faults \<Rightarrow> string \<Rightarrow> string \<Rightarrow> nft_cfs \<Rightarrow> (string + unit) \<times> nft_cfs" where
  "remove_token_from_owner_list F w token_id s =
     (case io F (DbGet ''nfts_by_owner'' w) (nc_by_owner s w) of
        Inl e \<Rightarrow> (Inl e, s)
      | Inr None \<Rightarrow> (Inr (), s)
      | Inr (Some tokens) \<Rightarrow>
          let tokens' = filter (\<lambda>t. t \<noteq> token_id) tokens in
          if tokens' = [] then
            db_delete F ''nfts_by_owner'' w (\<lambda>s. s\<lparr>nc_by_owner := (nc_by_owner s)(w := None)\<rparr>) s
          else db_put F ''nfts_by_owner'' w (\<lambda>s. s\<lparr>nc_by_owner := (nc_by_owner s)(w \<mapsto> tokens')\<rparr>) s)"

definition rocks_set_owner :: "faults \<Rightarrow> string \<Rightarrow> string \<Rightarrow> nft_cfs \<Rightarrow> (string + unit) \<times> nft_cfs" where
  "rocks_set_owner F token_id new_owner s =
     (case rocks_get_owner F token_id s of
        Inl e \<Rightarrow> (Inl e, s)
      | Inr old_owner \<Rightarrow>
          and_then (db_put F ''nft_ownership'' token_id
              (\<lambda>s. s\<lparr>nc_ownership := (nc_ownership s)(token_id \<mapsto> new_owner)\<rparr>))
            (and_then (case old_owner of
                 Some prev \<Rightarrow> if prev \<noteq> new_owner then remove_token_from_owner_list F prev token_id else (\<lambda>s. (Inr (), s))
               | None \<Rightarrow> (\<lambda>s. (Inr (), s)))
              (if old_owner \<noteq> Some new_owner then add_token_to_owner_list F new_owner token_id
               else (\<lambda>s. (Inr (), s)))) s)"

definition rocks_delete :: "faults \<Rightarrow> string \<Rightarrow> nft_cfs \<Rightarrow> (string + unit) \<times> nft_cfs" where
  "rocks_delete F token_id s =
     (case rocks_get_owner F token_id s of
        Inl e \<Rightarrow> (Inl e, s)
      | Inr w \<Rightarrow>
          and_then (case w of Some owner \<Rightarrow> remove_token_from_owner_list F owner token_id | None \<Rightarrow> (\<lambda>s. (Inr (), s)))
            (db_delete F ''nft_ownership'' token_id (\<lambda>s. s\<lparr>nc_ownership := (nc_ownership s)(token_id := None)\<rparr>)) s)"

definition rocks_nft :: "faults \<Rightarrow> nft_cfs nft_ops" where
  "rocks_nft F =
     \<lparr>op_get_owner = rocks_get_owner F,
      op_set_owner = rocks_set_owner F,
      op_delete = rocks_delete F,
      op_get_by_owner = owner_list F,
      op_get_block_id = (\<lambda>token_id s. io F (DbGet ''nft_block_ids'' token_id) (nc_block_ids s token_id)),
      op_set_block_id = (\<lambda>token_id block_id.
        db_put F ''nft_block_ids'' token_id (\<lambda>s. s\<lparr>nc_block_ids := (nc_block_ids s)(token_id \<mapsto> block_id)\<rparr>)),
      op_delete_block_id = (\<lambda>token_id.
        db_delete F ''nft_block_ids'' token_id (\<lambda>s. s\<lparr>nc_block_ids := (nc_block_ids s)(token_id := None)\<rparr>))\<rparr>"

subsection \<open>The store in memory\<close>

text \<open>\<open>get_by_owner\<close> collects the tokens in the arbitrary order of the hash map: here that of the list.\<close>

record memory_nft =
  mn_owners :: "(string \<times> string) list"
  mn_block_ids :: "string \<Rightarrow> string option"

definition memory_nft_ops :: "memory_nft nft_ops" where
  "memory_nft_ops =
     \<lparr>op_get_owner = (\<lambda>token_id s. Inr (map_of (mn_owners s) token_id)),
      op_set_owner = (\<lambda>token_id owner s. (Inr (), s\<lparr>mn_owners := AList.update token_id owner (mn_owners s)\<rparr>)),
      op_delete = (\<lambda>token_id s. (Inr (), s\<lparr>mn_owners := AList.delete token_id (mn_owners s)\<rparr>)),
      op_get_by_owner = (\<lambda>owner s. Inr (map fst (filter (\<lambda>(_, w). w = owner) (mn_owners s)))),
      op_get_block_id = (\<lambda>token_id s. Inr (mn_block_ids s token_id)),
      op_set_block_id = (\<lambda>token_id block_id s. (Inr (), s\<lparr>mn_block_ids := (mn_block_ids s)(token_id \<mapsto> block_id)\<rparr>)),
      op_delete_block_id = (\<lambda>token_id s. (Inr (), s\<lparr>mn_block_ids := (mn_block_ids s)(token_id := None)\<rparr>))\<rparr>"

subsection \<open>The abstract ledger and the contract of a store\<close>

type_synonym nft_ledger = "(string \<Rightarrow> string option) \<times> (string \<Rightarrow> string option)"

fun nft_allowed :: "nft_action \<Rightarrow> string \<Rightarrow> string option \<Rightarrow> (string \<Rightarrow> string option) \<Rightarrow> bool" where
  "nft_allowed (NftMint t c _) signer coord W \<longleftrightarrow>
     W t = None \<and> (\<forall>k. coord = Some k \<longrightarrow> eq_ignore_case signer k) \<and> eq_ignore_case c signer"
| "nft_allowed (NftTransfer t w _ _ _) signer coord W \<longleftrightarrow>
     (\<exists>u. W t = Some u \<and> eq_ignore_case u w) \<and> (eq_ignore_case w signer \<or> is_coordinator signer coord)"
| "nft_allowed (NftUse t w _ _) signer coord W \<longleftrightarrow>
     (\<exists>u. W t = Some u \<and> eq_ignore_case u w) \<and> (eq_ignore_case w signer \<or> is_coordinator signer coord)"
| "nft_allowed (NftBurn t w) signer coord W \<longleftrightarrow>
     (\<exists>u. W t = Some u \<and> eq_ignore_case u w) \<and> (eq_ignore_case w signer \<or> is_coordinator signer coord)"
| "nft_allowed (NftBatchBurn ts w) signer coord W \<longleftrightarrow>
     (\<forall>t\<in>set ts. \<exists>u. W t = Some u \<and> eq_ignore_case u w) \<and> (eq_ignore_case w signer \<or> is_coordinator signer coord)"

fun nft_effect :: "nft_action \<Rightarrow> string \<Rightarrow> nft_ledger \<Rightarrow> nft_ledger" where
  "nft_effect (NftMint t c _) b (W, B) = (W(t \<mapsto> c), B(t \<mapsto> b))"
| "nft_effect (NftTransfer t _ w pk _) b (W, B) = (W(t \<mapsto> w), if pk = None then B else B(t \<mapsto> b))"
| "nft_effect (NftUse _ _ _ _) b (W, B) = (W, B)"
| "nft_effect (NftBurn t _) b (W, B) = (W(t := None), B(t := None))"
| "nft_effect (NftBatchBurn ts _) b (W, B) = (W |` (- set ts), B |` (- set ts))"

lemma store_result_Inr [simp]: "store_result r = Inr x \<longleftrightarrow> r = Inr x"
  by (auto simp: store_result_def split: sum.splits)

lemma owned_by_ok:
  "owned_by N t w s = Inr () \<longleftrightarrow> (\<exists>u. op_get_owner N t s = Inr (Some u) \<and> eq_ignore_case u w)"
  by (auto simp: owned_by_def)

lemma signed_for_ok: "signed_for t w signer coord = Inr () \<longleftrightarrow> eq_ignore_case w signer \<or> is_coordinator signer coord"
  by (simp add: signed_for_def)

locale nft_store =
  fixes N :: "'s nft_ops"
    and ok :: "'s \<Rightarrow> bool"
    and owners :: "'s \<Rightarrow> string \<Rightarrow> string option"
    and blocks :: "'s \<Rightarrow> string \<Rightarrow> string option"
  assumes get_owner: "ok s \<Longrightarrow> op_get_owner N t s = Inr (owners s t)"
    and set_owner: "ok s \<Longrightarrow> \<exists>s'. op_set_owner N t w s = (Inr (), s') \<and> ok s' \<and>
      owners s' = (owners s)(t \<mapsto> w) \<and> blocks s' = blocks s"
    and delete: "ok s \<Longrightarrow> \<exists>s'. op_delete N t s = (Inr (), s') \<and> ok s' \<and>
      owners s' = (owners s)(t := None) \<and> blocks s' = blocks s"
    and get_by_owner: "ok s \<Longrightarrow> \<exists>ts. op_get_by_owner N w s = Inr ts \<and> distinct ts \<and>
      set ts = {t. owners s t = Some w}"
    and get_block_id: "ok s \<Longrightarrow> op_get_block_id N t s = Inr (blocks s t)"
    and set_block_id: "ok s \<Longrightarrow> \<exists>s'. op_set_block_id N t b s = (Inr (), s') \<and> ok s' \<and>
      owners s' = owners s \<and> blocks s' = (blocks s)(t \<mapsto> b)"
    and delete_block_id: "ok s \<Longrightarrow> \<exists>s'. op_delete_block_id N t s = (Inr (), s') \<and> ok s' \<and>
      owners s' = owners s \<and> blocks s' = (blocks s)(t := None)"
begin

lemma validate_iff:
  "ok s \<Longrightarrow> validate_nft_action N action signer coord s = Inr () \<longleftrightarrow> nft_allowed action signer coord (owners s)"
  by (cases action)
    (auto simp: nft_exists_def owned_by_ok signed_for_ok get_owner try_each_eq_Inr split: option.splits)

lemma burn_token_effect:
  assumes "ok s"
  shows "\<exists>s'. burn_token N t s = (Inr (), s') \<and> ok s' \<and> owners s' = (owners s)(t := None) \<and>
    blocks s' = (blocks s)(t := None)"
proof -
  obtain s1 where s1: "op_delete_block_id N t s = (Inr (), s1)" "ok s1" "owners s1 = owners s"
      "blocks s1 = (blocks s)(t := None)"
    using delete_block_id [OF assms] by blast
  then show ?thesis using delete [OF s1(2), of t] by (auto simp: burn_token_def)
qed

lemma burn_tokens_effect:
  "ok s \<Longrightarrow> \<exists>s'. burn_tokens N ts s = (Inr (), s') \<and> ok s' \<and> owners s' = owners s |` (- set ts) \<and>
    blocks s' = blocks s |` (- set ts)"
proof (induction ts arbitrary: s)
  case Nil
  then show ?case by (simp add: restrict_map_def)
next
  case (Cons t ts)
  obtain s1 where s1: "burn_token N t s = (Inr (), s1)" "ok s1" "owners s1 = (owners s)(t := None)"
      "blocks s1 = (blocks s)(t := None)"
    using burn_token_effect [OF Cons.prems] by blast
  show ?case using Cons.IH [OF s1(2)] s1 by (auto simp: restrict_map_def fun_eq_iff)
qed

lemma apply_effect:
  assumes ok: "ok s" and new: "\<forall>t c m. action = NftMint t c m \<longrightarrow> owners s t = None"
  shows "\<exists>s'. nft_apply N action b s = (Inr (), s') \<and> ok s' \<and>
    (owners s', blocks s') = nft_effect action b (owners s, blocks s)"
proof -
  have both: "\<exists>s'. and_then (op_set_owner N t w) (op_set_block_id N t b) s = (Inr (), s') \<and> ok s' \<and>
      owners s' = (owners s)(t \<mapsto> w) \<and> blocks s' = (blocks s)(t \<mapsto> b)" for t w
  proof -
    obtain s1 where s1: "op_set_owner N t w s = (Inr (), s1)" "ok s1" "owners s1 = (owners s)(t \<mapsto> w)" "blocks s1 = blocks s"
      using set_owner [OF ok] by blast
    then show ?thesis using set_block_id [OF s1(2), of t b] by auto
  qed
  show ?thesis
    using ok new both set_owner [OF ok] burn_token_effect [OF ok] burn_tokens_effect [OF ok]
    by (cases action) (auto simp: apply_mint_def apply_transfer_def get_owner)
qed

lemma arm_implements_ledger:
  assumes ok: "ok s"
  shows "if nft_allowed action signer coord (owners s)
    then \<exists>s'. nft_arm N action signer coord b s = (Inr (), s') \<and> ok s' \<and>
           (owners s', blocks s') = nft_effect action b (owners s, blocks s)
    else \<exists>e. nft_arm N action signer coord b s = (Inl (Reject e), s)"
proof (cases "nft_allowed action signer coord (owners s)")
  case True
  then have v: "validate_nft_action N action signer coord s = Inr ()" using validate_iff [OF ok] by blast
  have "\<forall>t c m. action = NftMint t c m \<longrightarrow> owners s t = None" using True by auto
  then obtain s' where "nft_apply N action b s = (Inr (), s')" "ok s'"
      "(owners s', blocks s') = nft_effect action b (owners s, blocks s)"
    using apply_effect [OF ok] by blast
  then show ?thesis using True v by (simp add: nft_arm_def)
next
  case False
  then have "validate_nft_action N action signer coord s \<noteq> Inr ()" using validate_iff [OF ok] by blast
  then obtain e where "validate_nft_action N action signer coord s = Inl e"
    by (cases "validate_nft_action N action signer coord s") auto
  then show ?thesis using False by (simp add: nft_arm_def)
qed

end

subsection \<open>Both stores keep the contract\<close>

definition tokens_of :: "(string \<Rightarrow> string list option) \<Rightarrow> string \<Rightarrow> string list" where
  "tokens_of m w = (case m w of None \<Rightarrow> [] | Some ts \<Rightarrow> ts)"

definition lists_ok :: "(string \<Rightarrow> string list option) \<Rightarrow> bool" where
  "lists_ok m \<longleftrightarrow> (\<forall>w ts. m w = Some ts \<longrightarrow> ts \<noteq> [] \<and> distinct ts)"

definition nft_index_ok :: "nft_cfs \<Rightarrow> bool" where
  "nft_index_ok s \<longleftrightarrow> lists_ok (nc_by_owner s) \<and>
     (\<forall>t w. nc_ownership s t = Some w \<longleftrightarrow> t \<in> set (tokens_of (nc_by_owner s) w))"

lemma db_no_faults [simp]: "db_put no_faults cf k write s = (Inr (), write s)" "db_delete no_faults cf k write s = (Inr (), write s)"
  by (simp_all add: db_put_def db_delete_def no_faults_def)

lemma rocks_get_owner_no_faults [simp]: "rocks_get_owner no_faults t s = Inr (nc_ownership s t)"
  by (simp add: rocks_get_owner_def)

lemma tokens_of_distinct: "lists_ok m \<Longrightarrow> distinct (tokens_of m w)"
  by (auto simp: lists_ok_def tokens_of_def split: option.split)

lemma add_token_no_faults:
  assumes "lists_ok (nc_by_owner s)"
  shows "\<exists>m. add_token_to_owner_list no_faults w t s = (Inr (), s\<lparr>nc_by_owner := m\<rparr>) \<and> lists_ok m \<and>
    (\<forall>u x. x \<in> set (tokens_of m u) \<longleftrightarrow> x \<in> set (tokens_of (nc_by_owner s) u) \<or> u = w \<and> x = t)"
proof (intro exI conjI)
  let ?ts = "tokens_of (nc_by_owner s) w"
  let ?m = "(nc_by_owner s)(w \<mapsto> if t \<in> set ?ts then ?ts else ?ts @ [t])"
  show "add_token_to_owner_list no_faults w t s = (Inr (), s\<lparr>nc_by_owner := ?m\<rparr>)"
    by (cases "nc_by_owner s w") (simp_all add: add_token_to_owner_list_def owner_list_def tokens_of_def Let_def)
  show "lists_ok ?m" using assms tokens_of_distinct [OF assms, of w] by (auto simp: lists_ok_def)
  show "\<forall>u x. x \<in> set (tokens_of ?m u) \<longleftrightarrow> x \<in> set (tokens_of (nc_by_owner s) u) \<or> u = w \<and> x = t"
    by (auto simp: tokens_of_def)
qed

lemma remove_token_no_faults:
  assumes "lists_ok (nc_by_owner s)"
  shows "\<exists>m. remove_token_from_owner_list no_faults w t s = (Inr (), s\<lparr>nc_by_owner := m\<rparr>) \<and> lists_ok m \<and>
    (\<forall>u x. x \<in> set (tokens_of m u) \<longleftrightarrow> x \<in> set (tokens_of (nc_by_owner s) u) \<and> \<not> (u = w \<and> x = t))"
proof (cases "nc_by_owner s w")
  case None
  then show ?thesis
    using assms by (intro exI [of _ "nc_by_owner s"]) (auto simp: remove_token_from_owner_list_def tokens_of_def)
next
  case (Some ts)
  let ?ts = "filter (\<lambda>x. x \<noteq> t) ts"
  let ?m = "(nc_by_owner s)(w := if ?ts = [] then None else Some ?ts)"
  have "remove_token_from_owner_list no_faults w t s = (Inr (), s\<lparr>nc_by_owner := ?m\<rparr>)"
    using Some by (simp add: remove_token_from_owner_list_def Let_def)
  moreover have "lists_ok ?m" using assms Some by (auto simp: lists_ok_def)
  moreover have "set (tokens_of ?m w) = set ?ts" by (auto simp: tokens_of_def filter_empty_conv)
  then have "\<forall>u x. x \<in> set (tokens_of ?m u) \<longleftrightarrow> x \<in> set (tokens_of (nc_by_owner s) u) \<and> \<not> (u = w \<and> x = t)"
    using Some by (auto simp: tokens_of_def split: if_splits)
  ultimately show ?thesis by blast
qed

lemma rocks_set_owner_no_faults:
  assumes ok: "nft_index_ok s"
  shows "\<exists>s'. rocks_set_owner no_faults t w s = (Inr (), s') \<and> nft_index_ok s' \<and>
    nc_ownership s' = (nc_ownership s)(t \<mapsto> w) \<and> nc_block_ids s' = nc_block_ids s"
proof -
  let ?s = "s\<lparr>nc_ownership := (nc_ownership s)(t \<mapsto> w)\<rparr>"
  have l: "lists_ok (nc_by_owner s)" and i: "\<And>t w. t \<in> set (tokens_of (nc_by_owner s) w) \<longleftrightarrow> nc_ownership s t = Some w"
    using ok by (simp_all add: nft_index_ok_def)
  consider "nc_ownership s t = None" | "nc_ownership s t = Some w" | v where "nc_ownership s t = Some v" "v \<noteq> w"
    by fastforce
  then show ?thesis
  proof cases
    case 1
    obtain m where "add_token_to_owner_list no_faults w t ?s = (Inr (), ?s\<lparr>nc_by_owner := m\<rparr>)" "lists_ok m"
      "\<forall>u x. x \<in> set (tokens_of m u) \<longleftrightarrow> x \<in> set (tokens_of (nc_by_owner s) u) \<or> u = w \<and> x = t"
      using add_token_no_faults [of ?s w t] l by auto
    then show ?thesis using 1 i by (auto simp: rocks_set_owner_def and_then_def nft_index_ok_def)
  next
    case 2
    then show ?thesis using l i by (auto simp: rocks_set_owner_def and_then_def nft_index_ok_def)
  next
    case 3
    obtain m where m: "remove_token_from_owner_list no_faults v t ?s = (Inr (), ?s\<lparr>nc_by_owner := m\<rparr>)" "lists_ok m"
      "\<forall>u x. x \<in> set (tokens_of m u) \<longleftrightarrow> x \<in> set (tokens_of (nc_by_owner s) u) \<and> \<not> (u = v \<and> x = t)"
      using remove_token_no_faults [of ?s v t] l by auto
    obtain m' where "add_token_to_owner_list no_faults w t (?s\<lparr>nc_by_owner := m\<rparr>) = (Inr (), ?s\<lparr>nc_by_owner := m'\<rparr>)" "lists_ok m'"
      "\<forall>u x. x \<in> set (tokens_of m' u) \<longleftrightarrow> x \<in> set (tokens_of m u) \<or> u = w \<and> x = t"
      using add_token_no_faults [of "?s\<lparr>nc_by_owner := m\<rparr>" w t] m(2) by auto
    then show ?thesis using 3 i m by (auto simp: rocks_set_owner_def and_then_def nft_index_ok_def)
  qed
qed

lemma rocks_delete_no_faults:
  assumes ok: "nft_index_ok s"
  shows "\<exists>s'. rocks_delete no_faults t s = (Inr (), s') \<and> nft_index_ok s' \<and>
    nc_ownership s' = (nc_ownership s)(t := None) \<and> nc_block_ids s' = nc_block_ids s"
proof -
  have l: "lists_ok (nc_by_owner s)" and i: "\<And>t w. t \<in> set (tokens_of (nc_by_owner s) w) \<longleftrightarrow> nc_ownership s t = Some w"
    using ok by (simp_all add: nft_index_ok_def)
  show ?thesis
  proof (cases "nc_ownership s t")
    case None
    then show ?thesis using l i by (auto simp: rocks_delete_def and_then_def nft_index_ok_def)
  next
    case (Some v)
    obtain m where "remove_token_from_owner_list no_faults v t s = (Inr (), s\<lparr>nc_by_owner := m\<rparr>)" "lists_ok m"
      "\<forall>u x. x \<in> set (tokens_of m u) \<longleftrightarrow> x \<in> set (tokens_of (nc_by_owner s) u) \<and> \<not> (u = v \<and> x = t)"
      using remove_token_no_faults [OF l] by blast
    then show ?thesis using Some i by (auto simp: rocks_delete_def and_then_def nft_index_ok_def)
  qed
qed

interpretation rocks_store: nft_store "rocks_nft no_faults" nft_index_ok nc_ownership nc_block_ids
proof unfold_locales
  fix s t w b
  assume ok: "nft_index_ok s"
  show "\<exists>ts. op_get_by_owner (rocks_nft no_faults) w s = Inr ts \<and> distinct ts \<and> set ts = {t. nc_ownership s t = Some w}"
    using ok tokens_of_distinct [of "nc_by_owner s" w]
    by (auto simp: rocks_nft_def owner_list_def nft_index_ok_def tokens_of_def split: option.split)
  show "op_get_owner (rocks_nft no_faults) t s = Inr (nc_ownership s t)" by (simp add: rocks_nft_def)
  show "op_get_block_id (rocks_nft no_faults) t s = Inr (nc_block_ids s t)" by (simp add: rocks_nft_def)
  show "\<exists>s'. op_set_owner (rocks_nft no_faults) t w s = (Inr (), s') \<and> nft_index_ok s' \<and>
      nc_ownership s' = (nc_ownership s)(t \<mapsto> w) \<and> nc_block_ids s' = nc_block_ids s"
    using rocks_set_owner_no_faults [OF ok] by (simp add: rocks_nft_def)
  show "\<exists>s'. op_delete (rocks_nft no_faults) t s = (Inr (), s') \<and> nft_index_ok s' \<and>
      nc_ownership s' = (nc_ownership s)(t := None) \<and> nc_block_ids s' = nc_block_ids s"
    using rocks_delete_no_faults [OF ok] by (simp add: rocks_nft_def)
  show "\<exists>s'. op_set_block_id (rocks_nft no_faults) t b s = (Inr (), s') \<and> nft_index_ok s' \<and>
      nc_ownership s' = nc_ownership s \<and> nc_block_ids s' = (nc_block_ids s)(t \<mapsto> b)"
    using ok by (auto simp: rocks_nft_def nft_index_ok_def)
  show "\<exists>s'. op_delete_block_id (rocks_nft no_faults) t s = (Inr (), s') \<and> nft_index_ok s' \<and>
      nc_ownership s' = nc_ownership s \<and> nc_block_ids s' = (nc_block_ids s)(t := None)"
    using ok by (auto simp: rocks_nft_def nft_index_ok_def)
qed

interpretation memory_store: nft_store memory_nft_ops "\<lambda>s. distinct (map fst (mn_owners s))"
  "\<lambda>s. map_of (mn_owners s)" mn_block_ids
proof unfold_locales
  fix s :: memory_nft and t w
  assume ok: "distinct (map fst (mn_owners s))"
  have "distinct (map fst (filter (\<lambda>(_, u). u = w) (mn_owners s)))" using ok by (rule distinct_map_filter)
  moreover have "fst ` set (filter (\<lambda>(_, u). u = w) (mn_owners s)) = {t. map_of (mn_owners s) t = Some w}"
    using ok by (force simp: image_iff)
  ultimately show "\<exists>ts. op_get_by_owner memory_nft_ops w s = Inr ts \<and> distinct ts \<and>
      set ts = {t. map_of (mn_owners s) t = Some w}"
    by (simp add: memory_nft_ops_def)
qed (auto simp: memory_nft_ops_def update_conv' delete_conv' distinct_update distinct_delete)

text \<open>
  Claim C17. The NFT arm over RocksDB implements the abstract ledger: when no access fails, an action is accepted
  exactly when the token is unknown (mint) or owned by the party the action names, and the block
  is signed by that party or by the coordinator (a mint by both); it then has exactly its effect on owners and
  block references and keeps the index of the tokens by owner exact; a refused action changes nothing.
\<close>

theorem nft_arm_implements_ledger:
  assumes "nft_index_ok s"
  shows "if nft_allowed action signer coord (nc_ownership s)
    then \<exists>s'. nft_arm (rocks_nft no_faults) action signer coord b s = (Inr (), s') \<and> nft_index_ok s' \<and>
           (nc_ownership s', nc_block_ids s') = nft_effect action b (nc_ownership s, nc_block_ids s)
    else \<exists>e. nft_arm (rocks_nft no_faults) action signer coord b s = (Inl (Reject e), s)"
  by (rule rocks_store.arm_implements_ledger [OF assms])

theorem nft_arm_implements_ledger_witness:
  "\<exists>s'. nft_arm (rocks_nft no_faults) (NftMint ''t'' ''k1'' \<lparr>nm_name = None, nm_description = None, nm_uri = None,
       nm_nft_type = None, nm_extra = None\<rparr>) ''k1'' None ''b1''
       \<lparr>nc_ownership = Map.empty, nc_by_owner = Map.empty, nc_block_ids = Map.empty\<rparr> = (Inr (), s') \<and>
     nft_index_ok s' \<and> nc_ownership s' = [''t'' \<mapsto> ''k1'']"
proof -
  have "nft_index_ok \<lparr>nc_ownership = Map.empty, nc_by_owner = Map.empty, nc_block_ids = Map.empty\<rparr>"
    by (simp add: nft_index_ok_def lists_ok_def tokens_of_def)
  from nft_arm_implements_ledger [OF this, of "NftMint ''t'' ''k1'' \<lparr>nm_name = None, nm_description = None, nm_uri = None,
       nm_nft_type = None, nm_extra = None\<rparr>" "''k1''" None "''b1''"]
  show ?thesis by auto
qed

subsection \<open>Owners are safe whatever the store does\<close>

fun action_tokens :: "nft_action \<Rightarrow> string set" where
  "action_tokens (NftMint t _ _) = {t}"
| "action_tokens (NftTransfer t _ _ _ _) = {t}"
| "action_tokens (NftUse _ _ _ _) = {}"
| "action_tokens (NftBurn t _) = {t}"
| "action_tokens (NftBatchBurn ts _) = set ts"

lemma rocks_owner:
  "op_get_owner (rocks_nft F) t s = Inr w \<longleftrightarrow> F (DbGet ''nft_ownership'' t) = None \<and> nc_ownership s t = w"
  by (auto simp: rocks_nft_def rocks_get_owner_def)

lemma validated_on_rocks:
  "validate_nft_action (rocks_nft F) action signer coord s = Inr () \<Longrightarrow> nft_allowed action signer coord (nc_ownership s)"
  by (cases action)
    (auto simp: nft_exists_def rocks_owner owned_by_ok signed_for_ok try_each_eq_Inr
      split: option.splits)

lemma lists_keep_owners:
  "nc_ownership (snd (add_token_to_owner_list F w t s)) = nc_ownership s"
  "nc_ownership (snd (remove_token_from_owner_list F w t s)) = nc_ownership s"
  by (auto simp: add_token_to_owner_list_def remove_token_from_owner_list_def db_put_def db_delete_def Let_def
      split: sum.split option.split)

lemma and_then_frame:
  assumes "\<And>s. P (snd (f s)) = P s" and "\<And>s. P (snd (g s)) = P s"
  shows "P (snd (and_then f g s)) = P s"
  using assms(1) [of s] assms(2) by (auto simp: and_then_def split: prod.split sum.split)

lemma set_owner_frame: "x \<noteq> t \<Longrightarrow> nc_ownership (snd (rocks_set_owner F t w s)) x = nc_ownership s x"
  unfolding rocks_set_owner_def
  by (auto intro!: and_then_frame [where P = "\<lambda>s. nc_ownership s x"] simp: lists_keep_owners db_put_def
      split: sum.split option.split)

lemma delete_frame: "x \<noteq> t \<Longrightarrow> nc_ownership (snd (rocks_delete F t s)) x = nc_ownership s x"
  unfolding rocks_delete_def
  by (auto intro!: and_then_frame [where P = "\<lambda>s. nc_ownership s x"] simp: lists_keep_owners db_delete_def
      split: sum.split option.split)

lemma block_id_frame:
  "nc_ownership (snd (op_set_block_id (rocks_nft F) t b s)) = nc_ownership s"
  "nc_ownership (snd (op_delete_block_id (rocks_nft F) t s)) = nc_ownership s"
  by (auto simp: rocks_nft_def db_put_def db_delete_def split: option.split)

lemma burn_token_frame: "x \<noteq> t \<Longrightarrow> nc_ownership (snd (burn_token (rocks_nft F) t s)) x = nc_ownership s x"
  unfolding burn_token_def
  by (rule and_then_frame [where P = "\<lambda>s. nc_ownership s x"]) (simp_all add: block_id_frame, simp add: rocks_nft_def delete_frame)

lemma burn_tokens_frame: "x \<notin> set ts \<Longrightarrow> nc_ownership (snd (burn_tokens (rocks_nft F) ts s)) x = nc_ownership s x"
proof (induction ts arbitrary: s)
  case (Cons t ts)
  then show ?case
    using and_then_frame [where P = "\<lambda>s. nc_ownership s x", of "burn_token (rocks_nft F) t" "burn_tokens (rocks_nft F) ts"]
    by (simp add: burn_token_frame)
qed simp

lemma apply_frame:
  assumes "x \<notin> action_tokens action"
  shows "nc_ownership (snd (nft_apply (rocks_nft F) action b s)) x = nc_ownership s x"
proof -
  have both: "nc_ownership (snd (and_then (op_set_owner (rocks_nft F) t w) (op_set_block_id (rocks_nft F) t b) s)) x =
      nc_ownership s x" if "x \<noteq> t" for t w
    by (rule and_then_frame [where P = "\<lambda>s. nc_ownership s x"])
      (use that in \<open>simp_all add: block_id_frame\<close>, simp add: rocks_nft_def set_owner_frame)
  have set: "op_set_owner (rocks_nft F) = rocks_set_owner F" by (simp add: rocks_nft_def)
  show ?thesis
    using assms both set_owner_frame burn_token_frame burn_tokens_frame
    by (cases action) (auto simp: apply_mint_def apply_transfer_def set split: sum.split option.split)
qed

text \<open>
  Claim C18. Whatever accesses to the store fail and at whatever point, a block changes the owner of a token only if
  its action names the token and either the token had no owner and is minted by a signer who is its
  creator (and the coordinator, if one is configured), or the owner of the token, up to letter case, or
  the coordinator signed the block.
\<close>

theorem nft_owners_safe:
  assumes "nc_ownership (snd (nft_arm (rocks_nft F) action signer coord b s)) t \<noteq> nc_ownership s t"
  shows "t \<in> action_tokens action \<and>
    (case nc_ownership s t of
       None \<Rightarrow> (\<exists>c m. action = NftMint t c m \<and> eq_ignore_case c signer \<and> (coord = None \<or> is_coordinator signer coord))
     | Some u \<Rightarrow> eq_ignore_case u signer \<or> is_coordinator signer coord)"
proof -
  have v: "validate_nft_action (rocks_nft F) action signer coord s = Inr ()"
  proof (rule ccontr)
    assume "\<not> ?thesis"
    then obtain e where "validate_nft_action (rocks_nft F) action signer coord s = Inl e"
      by (cases "validate_nft_action (rocks_nft F) action signer coord s") auto
    then show False using assms by (simp add: nft_arm_def)
  qed
  then have "snd (nft_arm (rocks_nft F) action signer coord b s) = snd (nft_apply (rocks_nft F) action b s)"
    by (auto simp: nft_arm_def split: prod.split sum.split)
  then have t: "t \<in> action_tokens action" using assms apply_frame [of t action F b s] by metis
  then show ?thesis
    using validated_on_rocks [OF v] eq_ignore_case_trans
    by (cases action) (fastforce simp: is_coordinator_def split: option.splits)+
qed

definition one_token :: nft_cfs where
  "one_token = \<lparr>nc_ownership = [''t'' \<mapsto> ''k1''], nc_by_owner = [''k1'' \<mapsto> [''t'']], nc_block_ids = [''t'' \<mapsto> ''b1'']\<rparr>"

theorem nft_owners_safe_witness:
  "nc_ownership (snd (nft_arm (rocks_nft no_faults) (NftTransfer ''t'' ''k1'' ''k2'' None None) ''k1'' None ''b2'' one_token)) ''t''
     = Some ''k2'' \<and> (eq_ignore_case ''k1'' ''k1'' \<or> is_coordinator ''k1'' None)"
proof -
  have run: "nc_ownership (snd (nft_arm (rocks_nft no_faults) (NftTransfer ''t'' ''k1'' ''k2'' None None) ''k1'' None ''b2'' one_token)) ''t''
     = Some ''k2''"
    by (simp add: nft_arm_def one_token_def owned_by_def signed_for_def rocks_nft_def store_result_def rocks_set_owner_def
        add_token_to_owner_list_def remove_token_from_owner_list_def owner_list_def and_then_def)
  then have "nc_ownership (snd (nft_arm (rocks_nft no_faults) (NftTransfer ''t'' ''k1'' ''k2'' None None) ''k1'' None ''b2'' one_token)) ''t''
     \<noteq> nc_ownership one_token ''t''" by (simp add: one_token_def)
  from nft_owners_safe [OF this] run show ?thesis by (simp add: one_token_def)
qed

text \<open>
  The steps of an operation are separate writes. When the block reference cannot be written the mint is
  refused, but the token keeps its owner: a state change without a block, and a retry is refused.
\<close>

lemma refused_mint_keeps_the_token:
  defines "F \<equiv> (\<lambda>c. if c = DbPut ''nft_block_ids'' ''t'' then Some ''io'' else None)"
    and "m \<equiv> NftMint ''t'' ''k1'' \<lparr>nm_name = None, nm_description = None, nm_uri = None, nm_nft_type = None, nm_extra = None\<rparr>"
    and "s0 \<equiv> \<lparr>nc_ownership = Map.empty, nc_by_owner = Map.empty, nc_block_ids = Map.empty\<rparr>"
  shows "\<exists>s'. nft_arm (rocks_nft F) m ''k1'' None ''b1'' s0 = (Inl (Reject ''NFT apply failed: io''), s') \<and>
    nc_ownership s' ''t'' = Some ''k1'' \<and>
    nft_arm (rocks_nft no_faults) m ''k1'' None ''b2'' s' = (Inl (Reject ''NFT validation: NFT already exists: t''), s')"
  by (simp add: assms nft_arm_def nft_exists_def rocks_nft_def store_result_def rocks_get_owner_def rocks_set_owner_def
      apply_mint_def add_token_to_owner_list_def owner_list_def and_then_def io_def db_put_def no_faults_def Let_def)

end
