(* ===== verification/Assets.thy ===== *)
theory Assets
  imports Market Conditions Claims
begin

section \<open>The registries of tokens and semi-fungible classes\<close>

text \<open>
  \<open>token_registry.rs\<close>, \<open>sft_storage.rs\<close>, the resolution of an asset's metadata and the two arms of
  \<open>persist.rs\<close> that write the registries: \<open>SftClassCreate\<close> and \<open>RoyaltyUpdate\<close>. A token is
  registered by the server before its block is forged (\<open>register_token\<close>). \<open>de\<close> is the text of a
  failed parse of a decimal.
\<close>

record asset_store =
  as_tokens :: "string \<Rightarrow> token_metadata option"
  as_classes :: "string \<Rightarrow> sft_class option"
  as_collections :: "string \<Rightarrow> string option"

definition get_token :: "faults \<Rightarrow> asset_store \<Rightarrow> string \<Rightarrow> string + token_metadata option" where
  "get_token F st a = io F (GetToken a) (as_tokens st a)"

definition get_sft_class :: "faults \<Rightarrow> asset_store \<Rightarrow> string \<Rightarrow> string + sft_class option" where
  "get_sft_class F st a = io F (GetSftClass a) (as_classes st a)"

definition resolve_asset_metadata_strict :: "faults \<Rightarrow> asset_store \<Rightarrow> string \<Rightarrow> string + token_metadata option" where
  "resolve_asset_metadata_strict F st a =
     (case get_token F st a of
        Inl e \<Rightarrow> Inl (''token registry read failed: '' @ e)
      | Inr (Some m) \<Rightarrow> Inr (Some m)
      | Inr None \<Rightarrow>
          (case get_sft_class F st a of
             Inl e \<Rightarrow> Inl (''sft registry read failed: '' @ e)
           | Inr c \<Rightarrow> Inr (map_option to_token_metadata c)))"

definition resolve_asset_metadata :: "faults \<Rightarrow> asset_store \<Rightarrow> string \<Rightarrow> token_metadata option" where
  "resolve_asset_metadata F st a = (case resolve_asset_metadata_strict F st a of Inl _ \<Rightarrow> None | Inr m \<Rightarrow> m)"

subsection \<open>The token registry\<close>

definition is_ascii_alphanumeric :: "char \<Rightarrow> bool" where
  "is_ascii_alphanumeric c \<longleftrightarrow> (let n = (of_char c :: nat) in
     48 \<le> n \<and> n \<le> 57 \<or> 65 \<le> n \<and> n \<le> 90 \<or> 97 \<le> n \<and> n \<le> 122)"

definition token_collateral_ok :: "token_metadata \<Rightarrow> string + unit" where
  "token_collateral_ok m =
     (case (tm_collateral_address m, tm_collateral_ratio_bps m) of
        (Some addr, ratio) \<Rightarrow>
          if trim addr = [] then Inl ''collateral_address cannot be empty''
          else if ratio = None \<or> ratio = Some 0 then
            Inl ''collateral_ratio_bps is required (and must be > 0) when collateral_address is set''
          else Inr ()
      | (None, Some _) \<Rightarrow> Inl ''collateral_ratio_bps requires collateral_address''
      | (None, None) \<Rightarrow>
          if tm_collateral_asset_id m \<noteq> None then Inl ''collateral_asset_id requires collateral_address'' else Inr ())"

definition token_max_supply_ok :: "'d dec_lib \<Rightarrow> (string \<Rightarrow> string) \<Rightarrow> string option \<Rightarrow> string + unit" where
  "token_max_supply_ok D de ms =
     (case ms of
        None \<Rightarrow> Inr ()
      | Some s \<Rightarrow>
          (case d_from_str D s of
             Some d \<Rightarrow> require (d_lt D (d_zero D) d) ''max_supply must be positive''
           | None \<Rightarrow> Inl (''max_supply is not a valid decimal: '' @ de s)))"

definition validate_token_metadata :: "'d dec_lib \<Rightarrow> (string \<Rightarrow> string) \<Rightarrow> token_metadata \<Rightarrow> string + unit" where
  "validate_token_metadata D de m =
     rbind (require (tm_asset_id m \<noteq> [] \<and> length (tm_asset_id m) \<le> 64)
       (''asset_id must be 1-64 characters, got '' @ show_nat (length (tm_asset_id m)))) (\<lambda>_.
     rbind (require (list_all (\<lambda>c. is_ascii_alphanumeric c \<or> c = CHR ''_'' \<or> c = CHR ''-'') (tm_asset_id m))
       (''asset_id must be alphanumeric/underscore/hyphen: '' @ tm_asset_id m)) (\<lambda>_.
     rbind (require (tm_symbol m \<noteq> [] \<and> length (tm_symbol m) \<le> 10)
       (''symbol must be 1-10 characters, got '' @ show_nat (length (tm_symbol m)))) (\<lambda>_.
     rbind (require (tm_name m \<noteq> [] \<and> length (tm_name m) \<le> 128)
       (''name must be 1-128 characters, got '' @ show_nat (length (tm_name m)))) (\<lambda>_.
     rbind (require (tm_decimals m \<le> 18) (''decimals must be 0-18, got '' @ show_nat (unat (tm_decimals m)))) (\<lambda>_.
     rbind (token_max_supply_ok D de (tm_max_supply m)) (\<lambda>_.
     rbind (require (trim (tm_creator m) \<noteq> []) ''creator address cannot be empty'') (\<lambda>_.
     rbind (require (trim (tm_mint_authority m) \<noteq> []) ''mint_authority cannot be empty'') (\<lambda>_.
     rbind (case tm_demurrage_bps_per_day m of
              Some bps \<Rightarrow> require (bps \<le> 10000) (''demurrage_bps_per_day must be <= 10000, got '' @ show_nat (unat bps))
            | None \<Rightarrow> Inr ()) (\<lambda>_.
     rbind (validate_royalty_fields (tm_royalty_bps m) (tm_royalty_beneficiary m)) (\<lambda>_.
     token_collateral_ok m))))))))))"

definition register_token ::
  "faults \<Rightarrow> 'd dec_lib \<Rightarrow> (string \<Rightarrow> string) \<Rightarrow> token_metadata \<Rightarrow> asset_store \<Rightarrow> (string + unit) \<times> asset_store" where
  "register_token F D de m st =
     (case validate_token_metadata D de m of
        Inl e \<Rightarrow> (Inl e, st)
      | Inr _ \<Rightarrow>
          (case get_token F st (tm_asset_id m) of
             Inl e \<Rightarrow> (Inl e, st)
           | Inr (Some _) \<Rightarrow> (Inl (''token already exists: '' @ tm_asset_id m), st)
           | Inr None \<Rightarrow>
               (case F (PutToken (tm_asset_id m)) of
                  Some e \<Rightarrow> (Inl e, st)
                | None \<Rightarrow> (Inr (), st\<lparr>as_tokens := (as_tokens st)(tm_asset_id m \<mapsto> m)\<rparr>))))"

definition put_token ::
  "faults \<Rightarrow> 'd dec_lib \<Rightarrow> (string \<Rightarrow> string) \<Rightarrow> token_metadata \<Rightarrow> asset_store \<Rightarrow> (string + unit) \<times> asset_store" where
  "put_token F D de m st =
     (case validate_token_metadata D de m of
        Inl e \<Rightarrow> (Inl e, st)
      | Inr _ \<Rightarrow>
          (case F (PutToken (tm_asset_id m)) of
             Some e \<Rightarrow> (Inl e, st)
           | None \<Rightarrow> (Inr (), st\<lparr>as_tokens := (as_tokens st)(tm_asset_id m \<mapsto> m)\<rparr>)))"

definition put_sft_class :: "faults \<Rightarrow> sft_class \<Rightarrow> asset_store \<Rightarrow> (string + unit) \<times> asset_store" where
  "put_sft_class F c st =
     (case F (PutSftClass (sc_asset_id c)) of
        Some e \<Rightarrow> (Inl e, st)
      | None \<Rightarrow> (Inr (), st\<lparr>as_classes := (as_classes st)(sc_asset_id c \<mapsto> c)\<rparr>))"

definition put_collection_owner :: "faults \<Rightarrow> string \<Rightarrow> string \<Rightarrow> asset_store \<Rightarrow> (string + unit) \<times> asset_store" where
  "put_collection_owner F collection_id w st =
     (case F (PutCollectionOwner collection_id) of
        Some e \<Rightarrow> (Inl e, st)
      | None \<Rightarrow> (Inr (), st\<lparr>as_collections := (as_collections st)(collection_id \<mapsto> w)\<rparr>))"

definition get_collection_owner :: "faults \<Rightarrow> asset_store \<Rightarrow> string \<Rightarrow> string + string option" where
  "get_collection_owner F st collection_id = io F (GetCollectionOwner collection_id) (as_collections st collection_id)"

subsection \<open>Semi-fungible classes\<close>

definition valid_seg :: "string \<Rightarrow> bool" where
  "valid_seg s \<longleftrightarrow> s \<noteq> [] \<and> length s \<le> 32 \<and>
     list_all (\<lambda>b. let n = (of_char b :: nat) in 97 \<le> n \<and> n \<le> 122 \<or> 48 \<le> n \<and> n \<le> 57 \<or> b = CHR ''-'') s"

definition sft_class_checks :: "'d dec_lib \<Rightarrow> sft_class \<Rightarrow> string + unit" where
  "sft_class_checks D c =
     rbind (require (valid_seg (sc_collection_id c) \<and> valid_seg (sc_class_id c))
       ''sft class: collection_id/class_id must be [a-z0-9-]{1,32}'') (\<lambda>_.
     let expected = sc_collection_id c @ '':'' @ sc_class_id c in
     rbind (require (sc_asset_id c = expected)
       (''sft class: asset_id must equal '' @ CHR 0x22 # expected @ CHR 0x22 # '' (got '' @ CHR 0x22 # sc_asset_id c @ CHR 0x22 # '')'')) (\<lambda>_.
     rbind (require (trim (sc_name c) \<noteq> [] \<and> length (sc_name c) \<le> 128) ''sft class: name required (1..=128 chars)'') (\<lambda>_.
     rbind (require (sc_decimals c \<le> 18) ''sft class: decimals must be <= 18'') (\<lambda>_.
     rbind (require (case sc_max_supply c of
              None \<Rightarrow> True
            | Some ms \<Rightarrow> (case d_from_str D ms of Some d \<Rightarrow> d_lt D (d_zero D) d | None \<Rightarrow> False))
       ''sft class: max_supply must be a positive decimal'') (\<lambda>_.
     rbind (require (trim (sc_creator c) \<noteq> [] \<and> trim (sc_mint_authority c) \<noteq> [])
       ''sft class: creator and mint_authority required'') (\<lambda>_.
     rbind (require (case sc_demurrage_bps_per_day c of None \<Rightarrow> True | Some bps \<Rightarrow> bps \<le> 10000)
       ''sft class: demurrage_bps_per_day must be <= 10000'') (\<lambda>_.
     (case validate_royalty_fields (sc_royalty_bps c) (sc_royalty_beneficiary c) of
        Inl e \<Rightarrow> Inl (''sft class: '' @ e)
      | Inr _ \<Rightarrow> Inr ()))))))))"

definition claim_collection ::
  "faults \<Rightarrow> sft_class \<Rightarrow> asset_store \<times> conc_dag \<Rightarrow> (string + unit) \<times> asset_store \<times> conc_dag" where
  "claim_collection F c = (\<lambda>(st, d).
     let creator = trim (sc_creator c); coll = sc_collection_id c in
     case get_collection_owner F st coll of
       Inr (Some existing) \<Rightarrow>
         (if \<not> eq_ignore_case existing creator then
            (Inl (''sft collection '' @ quoted coll @ '' is owned by another creator''), st, d)
          else (Inr (), st, d))
     | Inr None \<Rightarrow>
         (case try_claim_collection coll creator d of
            (Inl _, d') \<Rightarrow> (Inl (''sft collection '' @ quoted coll @ '' is being claimed by another creator''), st, d')
          | (Inr _, d') \<Rightarrow>
              (case put_collection_owner F coll creator st of
                 (Inl e, st') \<Rightarrow> (Inl (''sft collection owner store failed: '' @ e), st', d')
               | (Inr _, st') \<Rightarrow> (Inr (), st', d')))
     | Inl e \<Rightarrow> (Inl (''sft collection owner lookup failed: '' @ e), st, d))"

definition sft_arm ::
  "faults \<Rightarrow> 'd dec_lib \<Rightarrow> sft_class \<Rightarrow> asset_store \<times> conc_dag \<Rightarrow> unit gate \<times> asset_store \<times> conc_dag" where
  "sft_arm F D c s =
     (case sft_class_checks D c of
        Inl e \<Rightarrow> (Inl (Reject e), s)
      | Inr _ \<Rightarrow>
          (case claim_collection F c s of
             (Inl e, s') \<Rightarrow> (Inl (Reject e), s')
           | (Inr _, st, d) \<Rightarrow>
               (case get_sft_class F st (sc_asset_id c) of
                  Inr (Some _) \<Rightarrow> (Inl (Reject (''sft class already exists: '' @ sc_asset_id c)), st, d)
                | Inl e \<Rightarrow> (Inl (Reject (''sft class lookup failed: '' @ e)), st, d)
                | Inr None \<Rightarrow>
                    (case put_sft_class F c st of
                       (Inl e, st') \<Rightarrow> (Inl (Reject (''sft class store failed: '' @ e)), st', d)
                     | (Inr _, st') \<Rightarrow> (Inr (), st', d)))))"

subsection \<open>Updates of the royalty\<close>

definition royalty_update_signing_message ::
  "ext_lib \<Rightarrow> string \<Rightarrow> string \<Rightarrow> u32 option \<Rightarrow> string option \<Rightarrow> u64 \<Rightarrow> string" where
  "royalty_update_signing_message X network_id asset_id royalty_bps royalty_beneficiary current_version =
     x_hex_encode X (x_sha256 X
       (x_json_royalty X ''pms-royalty-update-v1'' network_id asset_id royalty_bps royalty_beneficiary current_version))"

definition royalty_authorizer :: "token_metadata \<Rightarrow> string" where
  "royalty_authorizer m = (case non_blank (tm_royalty_beneficiary m) of Some b \<Rightarrow> b | None \<Rightarrow> tm_creator m)"

definition write_royalty ::
  "faults \<Rightarrow> 'd dec_lib \<Rightarrow> (string \<Rightarrow> string) \<Rightarrow> string \<Rightarrow> u32 option \<Rightarrow> string option \<Rightarrow> u64 \<Rightarrow> asset_store
   \<Rightarrow> unit gate \<times> asset_store" where
  "write_royalty F D de asset_id bps beneficiary next_version st =
     (case get_token F st asset_id of
        Inr (Some m) \<Rightarrow>
          (case put_token F D de (m\<lparr>tm_royalty_bps := bps, tm_royalty_beneficiary := beneficiary,
                                   tm_royalty_version := next_version\<rparr>) st of
             (Inl e, st') \<Rightarrow> (Inl (Reject (''royalty update store: '' @ e)), st')
           | (Inr _, st') \<Rightarrow> (Inr (), st'))
      | Inr None \<Rightarrow>
          (case get_sft_class F st asset_id of
             Inr (Some c) \<Rightarrow>
               (case put_sft_class F (c\<lparr>sc_royalty_bps := bps, sc_royalty_beneficiary := beneficiary,
                                        sc_royalty_version := next_version\<rparr>) st of
                  (Inl e, st') \<Rightarrow> (Inl (Reject (''royalty update store: '' @ e)), st')
                | (Inr _, st') \<Rightarrow> (Inr (), st'))
           | Inr None \<Rightarrow> (Inl (Reject (''royalty update: asset not found: '' @ asset_id)), st)
           | Inl e \<Rightarrow> (Inl (Reject (''royalty update lookup: '' @ e)), st))
      | Inl e \<Rightarrow> (Inl (Reject (''royalty update lookup: '' @ e)), st))"

definition royalty_gate ::
  "faults \<Rightarrow> ext_lib \<Rightarrow> string \<Rightarrow> string \<Rightarrow> u32 option \<Rightarrow> string option \<Rightarrow> string \<Rightarrow> string \<Rightarrow> asset_store
   \<Rightarrow> token_metadata gate" where
  "royalty_gate F X network_id asset_id bps beneficiary auth_pubkey_hex auth_signature_b64 st =
     (case validate_royalty_fields bps beneficiary of
        Inl e \<Rightarrow> Inl (Reject (''royalty update: '' @ e))
      | Inr _ \<Rightarrow>
          (case resolve_asset_metadata_strict F st asset_id of
             Inl e \<Rightarrow> Inl (Reject (''royalty update lookup: '' @ e))
           | Inr None \<Rightarrow> Inl (Reject (''royalty update: asset not found: '' @ asset_id))
           | Inr (Some m) \<Rightarrow>
               if \<not> is_ok (verify_detached_signature X
                    (royalty_update_signing_message X network_id asset_id bps beneficiary (tm_royalty_version m))
                    auth_pubkey_hex auth_signature_b64) then
                 Inl (Reject ''royalty update: invalid authorization signature'')
               else if \<not> unlock_matches_address X auth_pubkey_hex (royalty_authorizer m) then
                 Inl (Reject ''royalty update: signer is not the current royalty beneficiary'')
               else Inr m))"

definition royalty_arm ::
  "faults \<Rightarrow> 'd dec_lib \<Rightarrow> (string \<Rightarrow> string) \<Rightarrow> ext_lib \<Rightarrow> string \<Rightarrow> string \<Rightarrow> u32 option \<Rightarrow> string option \<Rightarrow> string
   \<Rightarrow> string \<Rightarrow> asset_store \<Rightarrow> unit gate \<times> asset_store" where
  "royalty_arm F D de X network_id asset_id bps beneficiary auth_pubkey_hex auth_signature_b64 st =
     (case royalty_gate F X network_id asset_id bps beneficiary auth_pubkey_hex auth_signature_b64 st of
        Inl stop \<Rightarrow> (Inl stop, st)
      | Inr m \<Rightarrow> write_royalty F D de asset_id bps beneficiary (sat_add (tm_royalty_version m) 1) st)"

subsection \<open>The registries of a running node\<close>

text \<open>
  A step is a registration by the server, a class block or a royalty block, accepted or not, with any
  failures of the store.
\<close>

inductive asset_step ::
  "'d dec_lib \<Rightarrow> (string \<Rightarrow> string) \<Rightarrow> ext_lib \<Rightarrow> asset_store \<times> conc_dag \<Rightarrow> asset_store \<times> conc_dag \<Rightarrow> bool" for D de X where
  register: "asset_step D de X (st, d) (snd (register_token F D de m st), d)"
| create: "asset_step D de X s (snd (sft_arm F D c s))"
| royalty: "asset_step D de X (st, d) (snd (royalty_arm F D de X net a bps b pk sig st), d)"

inductive_cases asset_stepE: "asset_step D de X s s'"

definition asset_meta :: "asset_store \<Rightarrow> string \<Rightarrow> token_metadata option" where
  "asset_meta st a =
     (case as_tokens st a of Some m \<Rightarrow> Some m | None \<Rightarrow> map_option to_token_metadata (as_classes st a))"

definition assets_ok :: "asset_store \<Rightarrow> bool" where
  "assets_ok st \<longleftrightarrow>
     (\<forall>a m. as_tokens st a = Some m \<longrightarrow> tm_asset_id m = a \<and> CHR '':'' \<notin> set a) \<and>
     (\<forall>a c. as_classes st a = Some c \<longrightarrow> sc_asset_id c = a \<and> CHR '':'' \<in> set a \<and>
        (\<exists>w. as_collections st (sc_collection_id c) = Some w \<and> eq_ignore_case w (trim (sc_creator c))))"

definition assets_grow :: "asset_store \<Rightarrow> asset_store \<Rightarrow> bool" where
  "assets_grow st st' \<longleftrightarrow>
     (\<forall>a m. asset_meta st a = Some m \<longrightarrow>
        (\<exists>m'. asset_meta st' a = Some m' \<and> tm_royalty_version m \<le> tm_royalty_version m'))"

lemma resolve_strict_ok: "resolve_asset_metadata_strict F st a = Inr w \<Longrightarrow> w = asset_meta st a"
  by (auto simp: resolve_asset_metadata_strict_def get_token_def get_sft_class_def asset_meta_def io_def
      split: option.splits)

lemma token_id_no_colon: "validate_token_metadata D de m = Inr () \<Longrightarrow> CHR '':'' \<notin> set (tm_asset_id m)"
  by (auto simp: validate_token_metadata_def list_all_iff is_ascii_alphanumeric_def Let_def)

lemma class_id_colon: "sft_class_checks D c = Inr () \<Longrightarrow> CHR '':'' \<in> set (sc_asset_id c)"
  by (auto simp: sft_class_checks_def Let_def)

lemma assets_grow_refl: "assets_grow st st"
  by (auto simp: assets_grow_def)

lemma assets_grow_trans: "assets_grow st st' \<Longrightarrow> assets_grow st' st'' \<Longrightarrow> assets_grow st st''"
  unfolding assets_grow_def by (meson order_trans)

lemma sat_add_ge: "v \<le> sat_add v (1 :: 64 word)"
  using unsigned_less [of v, where ?'a = nat] by (simp add: word_le_nat_alt unat_sat_add min_def)

lemma sat_add_gt: "v \<noteq> - 1 \<Longrightarrow> v < sat_add v (1 :: 64 word)"
  using unat_sat_add [of v 1] word_order.not_eq_extremum [of v]
  by (auto simp: word_less_nat_alt unsigned_minus_1_eq_mask mask_eq_exp_minus_1)

lemma register_step:
  assumes ok: "assets_ok st"
  shows "assets_ok (snd (register_token F D de m st)) \<and> assets_grow st (snd (register_token F D de m st))"
proof (cases "snd (register_token F D de m st) = st")
  case False
  then have eq: "snd (register_token F D de m st) = st\<lparr>as_tokens := (as_tokens st)(tm_asset_id m \<mapsto> m)\<rparr>"
    and v: "validate_token_metadata D de m = Inr ()" and new: "as_tokens st (tm_asset_id m) = None"
    by (auto simp: register_token_def get_token_def io_def split: sum.splits option.splits)
  have "as_classes st (tm_asset_id m) = None"
    using ok token_id_no_colon [OF v] by (cases "as_classes st (tm_asset_id m)") (auto simp: assets_ok_def)
  then show ?thesis
    using ok token_id_no_colon [OF v] new
    by (auto simp: eq assets_ok_def assets_grow_def asset_meta_def split: option.splits)
qed (use ok assets_grow_refl in simp)

lemma claim_collection_result:
  assumes "claim_collection F c (st, d) = (res, st1, d1)"
  shows "as_tokens st1 = as_tokens st" "as_classes st1 = as_classes st"
    "\<And>k w. as_collections st k = Some w \<Longrightarrow> as_collections st1 k = Some w"
    "res = Inr () \<Longrightarrow> \<exists>w. as_collections st1 (sc_collection_id c) = Some w \<and> eq_ignore_case w (trim (sc_creator c))"
  using assms
  by (auto simp: claim_collection_def get_collection_owner_def put_collection_owner_def io_def Let_def
      split: option.splits sum.splits if_splits prod.splits)

lemma sft_step:
  assumes ok: "assets_ok st"
  shows "assets_ok (fst (snd (sft_arm F D c (st, d)))) \<and> assets_grow st (fst (snd (sft_arm F D c (st, d))))"
proof (cases "sft_class_checks D c")
  case (Inl e)
  then show ?thesis using ok assets_grow_refl by (simp add: sft_arm_def)
next
  case (Inr u)
  then have chk: "sft_class_checks D c = Inr ()" by simp
  obtain res st1 d1 where claim: "claim_collection F c (st, d) = (res, st1, d1)" by (metis prod_cases3)
  note r = claim_collection_result [OF claim]
  have ok1: "assets_ok st1" using ok r(1-3) unfolding assets_ok_def by metis
  have grow1: "assets_grow st st1" unfolding assets_grow_def asset_meta_def r(1,2) by blast
  show ?thesis
  proof (cases res)
    case (Inl e)
    then show ?thesis using chk claim ok1 grow1 by (simp add: sft_arm_def)
  next
    case res: (Inr u)
    let ?st = "st1\<lparr>as_classes := (as_classes st1)(sc_asset_id c \<mapsto> c)\<rparr>"
    have cases: "fst (snd (sft_arm F D c (st, d))) = st1 \<or>
        fst (snd (sft_arm F D c (st, d))) = ?st \<and> as_classes st1 (sc_asset_id c) = None"
      using chk claim res
      by (auto simp: sft_arm_def get_sft_class_def put_sft_class_def io_def split: option.splits sum.splits prod.splits)
    have "\<exists>w. as_collections st1 (sc_collection_id c) = Some w \<and> eq_ignore_case w (trim (sc_creator c))"
      using r(4) res by simp
    then have "assets_ok ?st" using ok1 class_id_colon [OF chk] by (auto simp: assets_ok_def)
    moreover have "assets_grow st1 ?st" if "as_classes st1 (sc_asset_id c) = None"
      using that by (auto simp: assets_grow_def asset_meta_def split: option.splits)
    ultimately show ?thesis using cases ok1 grow1 assets_grow_trans [OF grow1] by (elim disjE conjE) simp_all
  qed
qed

abbreviation with_royalty :: "token_metadata \<Rightarrow> u32 option \<Rightarrow> string option \<Rightarrow> u64 \<Rightarrow> token_metadata" where
  "with_royalty m bps b v \<equiv> m\<lparr>tm_royalty_bps := bps, tm_royalty_beneficiary := b, tm_royalty_version := v\<rparr>"

lemma royalty_gate_ok:
  assumes "royalty_gate F X net a bps b pk sig st = Inr m"
  shows "asset_meta st a = Some m \<and>
    sig_valid X (royalty_update_signing_message X net a bps b (tm_royalty_version m)) pk sig \<and>
    unlock_matches_address X pk (royalty_authorizer m)"
proof -
  have "resolve_asset_metadata_strict F st a = Inr (Some m)"
    and rest: "sig_valid X (royalty_update_signing_message X net a bps b (tm_royalty_version m)) pk sig"
      "unlock_matches_address X pk (royalty_authorizer m)"
    using assms
    by (auto simp: royalty_gate_def is_ok_unit verify_detached_signature_def verify_single_ok
        split: sum.splits option.splits if_splits)
  then show ?thesis using resolve_strict_ok by metis
qed

lemma write_royalty_effect:
  assumes ok: "assets_ok st" and meta: "asset_meta st a = Some m" and run: "write_royalty F D de a bps b v st = (res, st')"
  shows "if is_ok res then assets_ok st' \<and> asset_meta st' = (asset_meta st)(a \<mapsto> with_royalty m bps b v)
    else (\<exists>e. res = Inl (Reject e)) \<and> st' = st"
proof (cases "as_tokens st a")
  case (Some t)
  then have "m = t" "tm_asset_id t = a" "CHR '':'' \<notin> set a" using ok meta by (auto simp: assets_ok_def asset_meta_def)
  then have "res = Inr () \<and> st' = st\<lparr>as_tokens := (as_tokens st)(a \<mapsto> with_royalty m bps b v)\<rparr> \<or>
      (\<exists>e. res = Inl (Reject e)) \<and> st' = st"
    using run Some
    by (auto simp: write_royalty_def get_token_def put_token_def io_def split: option.splits sum.splits)
  moreover have "assets_ok (st\<lparr>as_tokens := (as_tokens st)(a \<mapsto> with_royalty m bps b v)\<rparr>)"
    using ok \<open>m = t\<close> \<open>tm_asset_id t = a\<close> \<open>CHR '':'' \<notin> set a\<close> by (auto simp: assets_ok_def)
  moreover have "asset_meta (st\<lparr>as_tokens := (as_tokens st)(a \<mapsto> with_royalty m bps b v)\<rparr>) =
      (asset_meta st)(a \<mapsto> with_royalty m bps b v)"
    by (auto simp: asset_meta_def fun_eq_iff split: option.split)
  ultimately show ?thesis by auto
next
  case None
  then obtain c where c: "as_classes st a = Some c" and m: "m = to_token_metadata c"
    using meta by (auto simp: asset_meta_def)
  let ?c = "c\<lparr>sc_royalty_bps := bps, sc_royalty_beneficiary := b, sc_royalty_version := v\<rparr>"
  have id: "sc_asset_id c = a" using ok c by (simp add: assets_ok_def)
  have "res = Inr () \<and> st' = st\<lparr>as_classes := (as_classes st)(a \<mapsto> ?c)\<rparr> \<or> (\<exists>e. res = Inl (Reject e)) \<and> st' = st"
    using run None c id
    by (auto simp: write_royalty_def get_token_def get_sft_class_def put_sft_class_def io_def split: option.splits sum.splits)
  moreover have "assets_ok (st\<lparr>as_classes := (as_classes st)(a \<mapsto> ?c)\<rparr>)" using ok c id by (auto simp: assets_ok_def)
  moreover have "asset_meta (st\<lparr>as_classes := (as_classes st)(a \<mapsto> ?c)\<rparr>) = (asset_meta st)(a \<mapsto> with_royalty m bps b v)"
    using None m by (auto simp: asset_meta_def to_token_metadata_def fun_eq_iff split: option.split)
  ultimately show ?thesis by auto
qed

lemma royalty_arm_effect:
  assumes ok: "assets_ok st" and run: "royalty_arm F D de X net a bps b pk sig st = (res, st')"
  shows "if is_ok res then \<exists>m. royalty_gate F X net a bps b pk sig st = Inr m \<and> asset_meta st a = Some m \<and> assets_ok st' \<and>
      asset_meta st' = (asset_meta st)(a \<mapsto> with_royalty m bps b (sat_add (tm_royalty_version m) 1))
    else (\<exists>e. res = Inl (Reject e)) \<and> st' = st"
proof (cases "royalty_gate F X net a bps b pk sig st")
  case (Inl stop)
  then have "\<exists>e. stop = Reject e" by (auto simp: royalty_gate_def split: sum.splits option.splits if_splits)
  then show ?thesis using run Inl by (auto simp: royalty_arm_def)
next
  case (Inr m)
  then have meta: "asset_meta st a = Some m" using royalty_gate_ok by blast
  have "write_royalty F D de a bps b (sat_add (tm_royalty_version m) 1) st = (res, st')"
    using run Inr by (simp add: royalty_arm_def)
  from write_royalty_effect [OF ok meta this] show ?thesis using Inr meta by auto
qed

lemma royalty_step:
  assumes ok: "assets_ok st"
  shows "assets_ok (snd (royalty_arm F D de X net a bps b pk sig st)) \<and>
    assets_grow st (snd (royalty_arm F D de X net a bps b pk sig st))"
proof -
  obtain res st' where run: "royalty_arm F D de X net a bps b pk sig st = (res, st')" by force
  show ?thesis
  proof (cases "is_ok res")
    case True
    then obtain m where "asset_meta st a = Some m" "assets_ok st'"
        "asset_meta st' = (asset_meta st)(a \<mapsto> with_royalty m bps b (sat_add (tm_royalty_version m) 1))"
      using royalty_arm_effect [OF ok run] by auto
    then show ?thesis using run sat_add_ge by (auto simp: assets_grow_def)
  next
    case False
    then show ?thesis using royalty_arm_effect [OF ok run] run ok assets_grow_refl by simp
  qed
qed

lemma asset_step_ok:
  assumes "asset_step D de X s s'" and "assets_ok (fst s)"
  shows "assets_ok (fst s') \<and> assets_grow (fst s) (fst s')"
  using assms(1)
proof cases
  case (register st d F m)
  then show ?thesis using register_step [of st F D de m] assms(2) by simp
next
  case (create F c)
  then show ?thesis using sft_step [OF assms(2), of F D c "snd s"] by simp
next
  case (royalty st d F net a bps b pk sig)
  then show ?thesis using royalty_step [of st F D de X net a bps b pk sig] assms(2) by simp
qed

lemma asset_steps_ok:
  assumes "(asset_step D de X)\<^sup>*\<^sup>* s s'" and "assets_ok (fst s)"
  shows "assets_ok (fst s') \<and> assets_grow (fst s) (fst s')"
  using assms(1)
proof induction
  case base
  then show ?case using assms(2) assets_grow_refl by blast
next
  case (step s1 s2)
  then show ?case using asset_step_ok [OF step.hyps(2)] assets_grow_trans by blast
qed

definition empty_assets :: asset_store where
  "empty_assets = \<lparr>as_tokens = Map.empty, as_classes = Map.empty, as_collections = Map.empty\<rparr>"

lemma empty_assets_ok: "assets_ok empty_assets"
  by (simp add: assets_ok_def empty_assets_def)

text \<open>
  Claim C19. In every history of a node, whatever blocks come in which order and whatever accesses fail, all the
  registered classes of a collection have the same creator up to letter case, and no identifier
  is both a token and a class.
\<close>

theorem collections_have_one_creator:
  assumes "(asset_step D de X)\<^sup>*\<^sup>* (empty_assets, d0) (st, d)"
    and "as_classes st a = Some c" and "as_classes st a' = Some c'" and "sc_collection_id c = sc_collection_id c'"
  shows "eq_ignore_case (trim (sc_creator c)) (trim (sc_creator c')) \<and> as_tokens st a = None"
proof -
  have ok: "assets_ok st" using asset_steps_ok [OF assms(1)] empty_assets_ok by simp
  obtain w where "eq_ignore_case w (trim (sc_creator c))" "eq_ignore_case w (trim (sc_creator c'))"
    using ok assms(2-4) unfolding assets_ok_def by (metis option.inject)
  moreover have "as_tokens st a = None"
    using ok assms(2) unfolding assets_ok_def by (cases "as_tokens st a") auto
  ultimately show ?thesis using eq_ignore_case_sym eq_ignore_case_trans by blast
qed

text \<open>
  Claim C20. An accepted royalty update was authorised by the beneficiary of the current policy (the creator, when
  none is named): the signature is valid for exactly this asset, policy, network and version and its key owns
  the beneficiary's address; the update sets the policy, moves the version by one and changes no other
  field of the asset and no other asset.
\<close>

theorem royalty_update_authorised:
  assumes ok: "assets_ok st" and arm: "royalty_arm F D de X net a bps b pk sig st = (Inr (), st')"
  shows "\<exists>m. asset_meta st a = Some m \<and>
    sig_valid X (royalty_update_signing_message X net a bps b (tm_royalty_version m)) pk sig \<and>
    unlock_matches_address X pk (royalty_authorizer m) \<and>
    asset_meta st' = (asset_meta st)(a \<mapsto> with_royalty m bps b (sat_add (tm_royalty_version m) 1))"
  using royalty_arm_effect [OF assms] royalty_gate_ok by auto

text \<open>
  Claim C21. A royalty signature is used once: after an update it authorised, the same payload is refused in every
  later state of the registries, provided the version has not reached the end of its range, a signature
  is valid for at most one message, and the message determines the version.
\<close>

theorem royalty_signature_single_use:
  assumes reach: "(asset_step D de X)\<^sup>*\<^sup>* (empty_assets, d0) (st, d)"
    and arm: "royalty_arm F D de X net a bps b pk sig st = (Inr (), st1)"
    and later: "(asset_step D de X)\<^sup>*\<^sup>* (st1, d1) (st2, d2)"
    and range: "\<And>m. asset_meta st a = Some m \<Longrightarrow> tm_royalty_version m \<noteq> - 1"
    and one_message: "\<And>m m'. sig_valid X m pk sig \<Longrightarrow> sig_valid X m' pk sig \<Longrightarrow> m = m'"
    and binding: "\<And>v v'. royalty_update_signing_message X net a bps b v = royalty_update_signing_message X net a bps b v' \<Longrightarrow> v = v'"
  shows "\<exists>e. royalty_arm F' D de X net a bps b pk sig st2 = (Inl (Reject e), st2)"
proof -
  have ok: "assets_ok st" using asset_steps_ok [OF reach] empty_assets_ok by simp
  obtain m where g: "royalty_gate F X net a bps b pk sig st = Inr m" and meta: "asset_meta st a = Some m"
    and st1: "assets_ok st1" "asset_meta st1 a = Some (with_royalty m bps b (sat_add (tm_royalty_version m) 1))"
    using royalty_arm_effect [OF ok arm] by auto
  have sig: "sig_valid X (royalty_update_signing_message X net a bps b (tm_royalty_version m)) pk sig"
    using royalty_gate_ok [OF g] by blast
  have ok2: "assets_ok st2" and grow: "assets_grow st1 st2" using asset_steps_ok [OF later] st1(1) by simp_all
  obtain m2 where m2: "asset_meta st2 a = Some m2" "sat_add (tm_royalty_version m) 1 \<le> tm_royalty_version m2"
    using grow st1(2) unfolding assets_grow_def by fastforce
  then have less: "tm_royalty_version m < tm_royalty_version m2" using sat_add_gt [OF range [OF meta]] by simp
  obtain res st3 where run: "royalty_arm F' D de X net a bps b pk sig st2 = (res, st3)" by force
  have "\<not> is_ok res"
  proof
    assume "is_ok res"
    then have "royalty_gate F' X net a bps b pk sig st2 = Inr m2" using royalty_arm_effect [OF ok2 run] m2(1) by auto
    then have "sig_valid X (royalty_update_signing_message X net a bps b (tm_royalty_version m2)) pk sig"
      using royalty_gate_ok by blast
    then have "tm_royalty_version m = tm_royalty_version m2" using one_message [OF sig] binding by blast
    then show False using less by simp
  qed
  then show ?thesis using royalty_arm_effect [OF ok2 run] run by auto
qed

subsection \<open>Witnesses\<close>

definition sample_class :: "string \<Rightarrow> string \<Rightarrow> sft_class" where
  "sample_class n creator = \<lparr>sc_asset_id = ''game:'' @ n, sc_collection_id = ''game'', sc_class_id = n, sc_name = n,
     sc_uri = None, sc_attributes = None, sc_decimals = 0, sc_max_supply = None, sc_demurrage_bps_per_day = None,
     sc_creator = creator, sc_mint_authority = ''m'', sc_royalty_bps = None, sc_royalty_beneficiary = None,
     sc_royalty_version = 0\<rparr>"

definition two_classes :: "asset_store \<times> conc_dag" where
  "two_classes = snd (sft_arm no_faults ref_dec (sample_class ''b'' '' AB'')
     (snd (sft_arm no_faults ref_dec (sample_class ''a'' ''ab'') (empty_assets, conc_dag_new 0 0))))"

lemma two_classes_reachable: "(asset_step ref_dec id ref_ext)\<^sup>*\<^sup>* (empty_assets, conc_dag_new 0 0) two_classes"
  unfolding two_classes_def
  by (rule rtranclp.rtrancl_into_rtrancl [OF r_into_rtranclp]) (rule asset_step.create)+

lemma two_classes_stored:
  "as_classes (fst two_classes) ''game:a'' = Some (sample_class ''a'' ''ab'')"
  "as_classes (fst two_classes) ''game:b'' = Some (sample_class ''b'' '' AB'')"
  by code_simp+

theorem collections_have_one_creator_witness:
  "eq_ignore_case (trim (sc_creator (sample_class ''a'' ''ab''))) (trim (sc_creator (sample_class ''b'' '' AB'')))
    \<and> as_tokens (fst two_classes) ''game:a'' = None"
  by (rule collections_have_one_creator [where st = "fst two_classes" and d = "snd two_classes",
        OF _ two_classes_stored(1) two_classes_stored(2), simplified prod.collapse, OF two_classes_reachable])
    (simp add: sample_class_def)

definition royalty_ext :: ext_lib where
  "royalty_ext = ref_ext\<lparr>x_sha256 := (\<lambda>s. s),
     x_json_royalty := (\<lambda>domain net asset bps beneficiary version. replicate (unat version) (CHR ''v''))\<rparr>"

definition sample_token :: token_metadata where
  "sample_token = \<lparr>tm_asset_id = ''eur'', tm_symbol = ''EUR'', tm_name = ''Euro'', tm_decimals = 2,
     tm_max_supply = None, tm_creator = sample_key, tm_mint_authority = sample_key, tm_demurrage_bps_per_day = None,
     tm_collateral_address = None, tm_collateral_asset_id = None, tm_collateral_ratio_bps = None,
     tm_royalty_bps = None, tm_royalty_beneficiary = None, tm_royalty_version = 0\<rparr>"

definition token_store :: asset_store where
  "token_store = snd (register_token no_faults ref_dec id sample_token empty_assets)"

definition sample_royalty :: "asset_store \<Rightarrow> unit gate \<times> asset_store" where
  "sample_royalty = royalty_arm no_faults ref_dec id royalty_ext ''main'' ''eur'' (Some 100) (Some sample_key) sample_key sample_key_bytes"

lemma token_store_reachable:
  "(asset_step ref_dec id royalty_ext)\<^sup>*\<^sup>* (empty_assets, conc_dag_new 0 0) (token_store, conc_dag_new 0 0)"
  unfolding token_store_def by (rule r_into_rtranclp) (rule asset_step.register)

lemma token_store_meta: "asset_meta token_store ''eur'' = Some sample_token"
  by code_simp

lemma sample_version: "sat_add (tm_royalty_version sample_token) 1 = 1"
  by (simp add: sat_add_def sample_token_def)

lemma sample_royalty_accepted: "is_ok (fst (sample_royalty token_store))"
proof -
  have "royalty_gate no_faults royalty_ext ''main'' ''eur'' (Some 100) (Some sample_key) sample_key sample_key_bytes token_store
      = Inr sample_token" by code_simp
  moreover have "is_ok (fst (write_royalty no_faults ref_dec id ''eur'' (Some 100) (Some sample_key) 1 token_store))"
    by code_simp
  ultimately show ?thesis by (simp add: sample_royalty_def royalty_arm_def sample_version)
qed

theorem royalty_update_authorised_witness:
  "asset_meta (snd (sample_royalty token_store)) ''eur'' = Some (with_royalty sample_token (Some 100) (Some sample_key) 1)"
proof -
  obtain st' where run: "sample_royalty token_store = (Inr (), st')"
    using sample_royalty_accepted by (metis is_ok_unit prod.collapse)
  have "assets_ok token_store" using asset_steps_ok [OF token_store_reachable] empty_assets_ok by simp
  from royalty_update_authorised [OF this run [unfolded sample_royalty_def]] token_store_meta
  have "asset_meta st' ''eur'' = Some (with_royalty sample_token (Some 100) (Some sample_key)
      (sat_add (tm_royalty_version sample_token) 1))" by auto
  then show ?thesis by (simp add: run sample_version)
qed

theorem royalty_signature_single_use_witness:
  "\<exists>st' e. sample_royalty token_store = (Inr (), st') \<and> sample_royalty st' = (Inl (Reject e), st')"
proof -
  obtain st' where run: "sample_royalty token_store = (Inr (), st')"
    using sample_royalty_accepted by (metis is_ok_unit prod.collapse)
  have key: "x_hex_decode royalty_ext sample_key = Some sample_key_bytes"
    using sample_key_decodes by (simp add: royalty_ext_def)
  have one: "m = m'" if "sig_valid royalty_ext m sample_key sample_key_bytes"
      "sig_valid royalty_ext m' sample_key sample_key_bytes" for m m'
    using that key by (auto simp: sig_valid_def royalty_ext_def ref_ext_def split: if_splits)
  have hex: "x_hex_encode royalty_ext a = x_hex_encode royalty_ext b \<longleftrightarrow> a = b" for a b
    using hex_encode_inj [OF ref_hex_laws] by (simp add: royalty_ext_def)
  have binding: "v = v'" if "royalty_update_signing_message royalty_ext ''main'' ''eur'' (Some 100) (Some sample_key) v =
      royalty_update_signing_message royalty_ext ''main'' ''eur'' (Some 100) (Some sample_key) v'" for v v'
    using that unfolding royalty_update_signing_message_def hex by (auto simp: royalty_ext_def intro: unsigned_word_eqI)
  have "\<exists>e. royalty_arm no_faults ref_dec id royalty_ext ''main'' ''eur'' (Some 100) (Some sample_key) sample_key
      sample_key_bytes st' = (Inl (Reject e), st')"
    by (rule royalty_signature_single_use [OF token_store_reachable run [unfolded sample_royalty_def]
          rtranclp.rtrancl_refl [of _ "(st', conc_dag_new 0 0)"]])
      (use token_store_meta one binding in \<open>auto simp: sample_token_def\<close>)
  then show ?thesis using run by (auto simp: sample_royalty_def)
qed

end
