(* ===== verification/Compliance.thy ===== *)
theory Compliance
  imports Gate TxTypes
begin

section \<open>Frozen addresses and the compliance log\<close>

text \<open>
  \<open>compliance_registry.rs\<close> and the compliance arms of \<open>persist.rs\<close>. The frozen addresses are kept twice, in a
  column family and in a set in memory that answers \<open>is_frozen\<close>; the trait \<open>ComplianceStorage\<close> lets
  \<open>is_frozen\<close> fail, the implementation never does. The JSON details of a log entry are its fields.
\<close>

record frozen_entry =
  fe_address :: string
  fe_block_id :: string
  fe_reason :: string
  fe_frozen_at_ms :: int

record compliance_log_entry =
  le_action :: string
  le_block_id :: string
  le_target_address :: "string option"
  le_details :: "(string \<times> string) list"
  le_timestamp_ms :: int

record compliance_store =
  co_frozen :: "string \<Rightarrow> frozen_entry option"
  co_frozen_set :: "string set"
  co_log :: "string \<Rightarrow> compliance_log_entry option"

definition is_frozen :: "faults \<Rightarrow> compliance_store \<Rightarrow> string \<Rightarrow> string + bool" where
  "is_frozen F co address = io F (IsFrozen address) (address \<in> co_frozen_set co)"

definition log_compliance_action ::
  "faults \<Rightarrow> int \<Rightarrow> string \<Rightarrow> string \<Rightarrow> string option \<Rightarrow> (string \<times> string) list \<Rightarrow> compliance_store
   \<Rightarrow> (string + unit) \<times> compliance_store" where
  "log_compliance_action F now_ms action block_id target details co =
     (case F (LogCompliance block_id) of
        Some e \<Rightarrow> (Inl e, co)
      | None \<Rightarrow> (Inr (), co\<lparr>co_log := (co_log co)(block_id \<mapsto>
          \<lparr>le_action = action, le_block_id = block_id, le_target_address = target, le_details = details,
           le_timestamp_ms = now_ms\<rparr>)\<rparr>))"

definition freeze_address ::
  "faults \<Rightarrow> int \<Rightarrow> string \<Rightarrow> string \<Rightarrow> string \<Rightarrow> compliance_store \<Rightarrow> (string + unit) \<times> compliance_store" where
  "freeze_address F now_ms address block_id reason co =
     (if address \<in> co_frozen_set co then (Inl (''address already frozen: '' @ address), co)
      else
        (case F (PutFrozen address) of
           Some e \<Rightarrow> (Inl e, co)
         | None \<Rightarrow>
             log_compliance_action F now_ms ''freeze'' block_id (Some address) [(''reason'', reason)]
               (co\<lparr>co_frozen := (co_frozen co)(address \<mapsto>
                    \<lparr>fe_address = address, fe_block_id = block_id, fe_reason = reason, fe_frozen_at_ms = now_ms\<rparr>),
                  co_frozen_set := insert address (co_frozen_set co)\<rparr>)))"

definition unfreeze_address :: "faults \<Rightarrow> string \<Rightarrow> compliance_store \<Rightarrow> (string + unit) \<times> compliance_store" where
  "unfreeze_address F address co =
     (if address \<notin> co_frozen_set co then (Inl (''address is not frozen: '' @ address), co)
      else
        (case F (DeleteFrozen address) of
           Some e \<Rightarrow> (Inl e, co)
         | None \<Rightarrow> (Inr (), co\<lparr>co_frozen := (co_frozen co)(address := None),
             co_frozen_set := co_frozen_set co - {address}\<rparr>)))"

definition freeze_arm ::
  "faults \<Rightarrow> int \<Rightarrow> string \<Rightarrow> string \<Rightarrow> string \<Rightarrow> compliance_store \<Rightarrow> unit gate \<times> compliance_store" where
  "freeze_arm F now_ms block_id address reason co =
     (case freeze_address F now_ms address block_id reason co of
        (Inl e, co') \<Rightarrow> (Inl (Reject (''Freeze failed: '' @ e)), co')
      | (Inr _, co') \<Rightarrow> (Inr (), co'))"

definition unfreeze_arm ::
  "faults \<Rightarrow> int \<Rightarrow> string \<Rightarrow> string \<Rightarrow> string \<Rightarrow> compliance_store \<Rightarrow> unit gate \<times> compliance_store" where
  "unfreeze_arm F now_ms block_id address reason co =
     (case unfreeze_address F address co of
        (Inl e, co') \<Rightarrow> (Inl (Reject (''Unfreeze failed: '' @ e)), co')
      | (Inr _, co') \<Rightarrow>
          (Inr (), snd (log_compliance_action F now_ms ''unfreeze'' block_id (Some address) [(''reason'', reason)] co')))"

definition seize_arm ::
  "faults \<Rightarrow> int \<Rightarrow> string \<Rightarrow> string \<Rightarrow> string \<Rightarrow> compliance_store \<Rightarrow> unit gate \<times> compliance_store" where
  "seize_arm F now_ms block_id from_address reason co =
     (Inr (), snd (log_compliance_action F now_ms ''seize'' block_id (Some from_address) [(''reason'', reason)] co))"

definition reverse_arm ::
  "faults \<Rightarrow> int \<Rightarrow> string \<Rightarrow> string \<Rightarrow> string \<Rightarrow> compliance_store \<Rightarrow> unit gate \<times> compliance_store" where
  "reverse_arm F now_ms block_id original_block_id reason co =
     (Inr (), snd (log_compliance_action F now_ms ''reverse'' block_id None
        [(''reason'', reason), (''original_block_id'', original_block_id)] co))"

subsection \<open>The set in memory is the column family\<close>

definition frozen_exact :: "compliance_store \<Rightarrow> bool" where
  "frozen_exact co \<longleftrightarrow> co_frozen_set co = dom (co_frozen co) \<and> (\<forall>a e. co_frozen co a = Some e \<longrightarrow> fe_address e = a)"

lemma log_frozen [simp]:
  "co_frozen (snd (log_compliance_action F t a b w d co)) = co_frozen co"
  "co_frozen_set (snd (log_compliance_action F t a b w d co)) = co_frozen_set co"
  by (auto simp: log_compliance_action_def split: option.split)

lemma frozen_exact_log [simp]: "frozen_exact (snd (log_compliance_action F t a b w d co)) = frozen_exact co"
  by (simp add: frozen_exact_def)

lemma freeze_arm_store:
  "snd (freeze_arm F t b a r co) = co \<or>
   co_frozen_set (snd (freeze_arm F t b a r co)) = insert a (co_frozen_set co) \<and>
   co_frozen (snd (freeze_arm F t b a r co)) = (co_frozen co)(a \<mapsto>
     \<lparr>fe_address = a, fe_block_id = b, fe_reason = r, fe_frozen_at_ms = t\<rparr>)"
proof -
  have "snd (freeze_arm F t b a r co) = snd (freeze_address F t a b r co)"
    by (auto simp: freeze_arm_def split: prod.split sum.split)
  then show ?thesis by (auto simp: freeze_address_def split: option.split)
qed

lemma unfreeze_arm_store:
  "co_frozen_set (snd (unfreeze_arm F t b a r co)) = co_frozen_set co \<and>
     co_frozen (snd (unfreeze_arm F t b a r co)) = co_frozen co \<or>
   co_frozen_set (snd (unfreeze_arm F t b a r co)) = co_frozen_set co - {a} \<and>
     co_frozen (snd (unfreeze_arm F t b a r co)) = (co_frozen co)(a := None)"
proof (cases "unfreeze_address F a co")
  case (Pair res co')
  then show ?thesis
    by (cases res) (auto simp: unfreeze_arm_def unfreeze_address_def split: option.splits if_splits)
qed

lemma frozen_exact_arms:
  assumes "frozen_exact co"
  shows "frozen_exact (snd (freeze_arm F t b a r co))" "frozen_exact (snd (unfreeze_arm F t b a r co))"
    "frozen_exact (snd (seize_arm F t b a r co))" "frozen_exact (snd (reverse_arm F t b a r co))"
proof -
  show "frozen_exact (snd (freeze_arm F t b a r co))"
    using freeze_arm_store [of F t b a r co] assms by (elim disjE conjE) (auto simp: frozen_exact_def)
  show "frozen_exact (snd (unfreeze_arm F t b a r co))"
    using unfreeze_arm_store [of F t b a r co] assms by (elim disjE conjE) (auto simp: frozen_exact_def)
qed (use assms in \<open>simp_all add: seize_arm_def reverse_arm_def\<close>)

text \<open>
  The freeze is written before its log entry. When the log cannot be written the block is refused and the
  address stays frozen: a state change without a block.
\<close>

lemma refused_freeze_takes_effect:
  assumes "F = (\<lambda>c. if c = LogCompliance ''b'' then Some ''io'' else None)" and "a \<notin> co_frozen_set co"
  shows "\<exists>co'. freeze_arm F t ''b'' a r co = (Inl (Reject ''Freeze failed: io''), co') \<and> is_frozen F co' a = Inr True"
  using assms by (simp add: freeze_arm_def freeze_address_def log_compliance_action_def is_frozen_def io_def)

end
