(* ===== verification/UtxoGate.thy ===== *)
theory UtxoGate
  imports TxValidation Assets Compliance Ledger
begin

section \<open>The gates over unspent outputs\<close>

text \<open>
  The stage of \<open>do_persist_block_internal\<close> between the registry arms and the commit: the validation of a
  transfer with its frozen addresses (\<open>validate_plain_txutxo\<close>), settlements, bridge locks and mints, and
  burns. What the stage reads of the node is the record \<open>node_view\<close>: the lookup of unspent outputs, the
  registries, the replay marks and the resolver of locks on other ledgers.
\<close>

record bridge_lock_info =
  bl_amount :: string
  bl_asset_id :: "string option"
  bl_dest_ledger_id :: string
  bl_dest_address :: string

type_synonym bridge_resolver = "string \<Rightarrow> string \<Rightarrow> string + bridge_lock_info option"

record node_view =
  nv_get :: utxo_lookup
  nv_assets :: asset_store
  nv_compliance :: compliance_store
  nv_dag :: conc_dag
  nv_bridge_stored :: "string \<Rightarrow> bool"
  nv_custodial_stored :: "string \<Rightarrow> bool"
  nv_resolver :: "(bridge_resolver \<times> string) option"

subsection \<open>Transfers\<close>

definition demurrage_rates :: "faults \<Rightarrow> asset_store \<Rightarrow> tx_output list \<Rightarrow> string \<Rightarrow> u32 option" where
  "demurrage_rates F st outs asset =
     (if Some asset \<in> o_asset_id ` set outs then
        (case resolve_asset_metadata F st asset of
           None \<Rightarrow> None
         | Some m \<Rightarrow>
             (case tm_demurrage_bps_per_day m of
                Some bps \<Rightarrow> if 0 < bps then Some bps else None
              | None \<Rightarrow> None))
      else None)"

definition frozen_or_false :: "faults \<Rightarrow> compliance_store \<Rightarrow> string \<Rightarrow> bool" where
  "frozen_or_false F co address = (case is_frozen F co address of Inr b \<Rightarrow> b | Inl _ \<Rightarrow> False)"

definition none_frozen :: "faults \<Rightarrow> compliance_store \<Rightarrow> string \<Rightarrow> tx_output list \<Rightarrow> unit gate" where
  "none_frozen F co who outs =
     try_each (\<lambda>out. reject_if (frozen_or_false F co (o_address out))
       (''compliance: '' @ who @ '' address is frozen: '' @ o_address out)) outs"

definition validate_plain_txutxo ::
  "faults \<Rightarrow> 'd dec_lib \<Rightarrow> ext_lib \<Rightarrow> node_view \<Rightarrow> 'd policy \<Rightarrow> u64 \<Rightarrow> transaction \<Rightarrow> tx_output list gate" where
  "validate_plain_txutxo F D X nv p now_ms tx =
     rbind (guard ''utxo validation failed: ''
       (validate_transaction_full D X (nv_get nv) tx p now_ms (demurrage_rates F (nv_assets nv) (tx_outputs tx)))) (\<lambda>ins.
     rbind (none_frozen F (nv_compliance nv) ''sender'' ins) (\<lambda>_.
     rbind (none_frozen F (nv_compliance nv) ''recipient'' (tx_outputs tx)) (\<lambda>_.
     Inr ins)))"

subsection \<open>Settlements\<close>

definition settlement_resolve :: "faults \<Rightarrow> asset_store \<Rightarrow> string \<Rightarrow> token_metadata option gate" where
  "settlement_resolve F st a =
     (case resolve_asset_metadata_strict F st a of
        Inl e \<Rightarrow> Inl (Reject (''settlement: '' @ e))
      | Inr m \<Rightarrow> Inr m)"

definition settlement_royalty ::
  "faults \<Rightarrow> 'd dec_lib \<Rightarrow> asset_store \<Rightarrow> string \<Rightarrow> string option \<Rightarrow> 'd \<Rightarrow> ('d \<times> string option) gate" where
  "settlement_royalty F D st asset_sold price_asset price =
     rbind (settlement_resolve F st asset_sold) (\<lambda>sold_meta.
     case Option.bind sold_meta effective_royalty of
       Some (bps, b) \<Rightarrow>
         rbind (case price_asset of Some a \<Rightarrow> settlement_resolve F st a | None \<Rightarrow> Inr None) (\<lambda>price_meta.
         case compute_royalty D price bps (price_decimals (map_option tm_decimals price_meta)) of
           Some r \<Rightarrow> Inr (r, Some b)
         | None \<Rightarrow> Inl (Reject ''settlement: royalty computation overflow''))
     | None \<Rightarrow> Inr (d_zero D, None))"

definition prefix_reject :: "string \<Rightarrow> 'a gate \<Rightarrow> 'a gate" where
  "prefix_reject text r = (case r of Inl (Reject e) \<Rightarrow> Inl (Reject (text @ e)) | _ \<Rightarrow> r)"

definition settle_gate ::
  "faults \<Rightarrow> 'd dec_lib \<Rightarrow> ext_lib \<Rightarrow> node_view \<Rightarrow> 'd policy \<Rightarrow> u64 \<Rightarrow> transaction \<Rightarrow> string \<Rightarrow> string
   \<Rightarrow> string option \<Rightarrow> string \<Rightarrow> string \<Rightarrow> string \<Rightarrow> unit gate" where
  "settle_gate F D X nv p now_ms tx asset_sold quantity price_asset price seller buyer =
     rbind (prefix_reject ''settlement tx: '' (validate_plain_txutxo F D X nv p now_ms tx)) (\<lambda>ins.
     rbind (ok_or (d_from_str_exact D quantity) (Reject ''settlement: quantity not a decimal'')) (\<lambda>qty.
     rbind (ok_or (d_from_str_exact D price) (Reject ''settlement: price not a decimal'')) (\<lambda>price_dec.
     rbind (settlement_royalty F D (nv_assets nv) asset_sold price_asset price_dec) (\<lambda>(royalty, beneficiary).
     validate_settlement D X ins (tx_outputs tx)
       \<lparr>sk_asset_sold = asset_sold, sk_quantity = qty, sk_price_asset = price_asset, sk_price = price_dec,
        sk_seller = seller, sk_buyer = buyer, sk_royalty = royalty, sk_beneficiary = beneficiary\<rparr>))))"

subsection \<open>Bridges\<close>

definition bridge_lock_gate ::
  "faults \<Rightarrow> 'd dec_lib \<Rightarrow> node_view \<Rightarrow> tx_input list \<Rightarrow> string \<Rightarrow> string option \<Rightarrow> unit gate" where
  "bridge_lock_gate F D nv inputs amount asset_id =
     rbind (guard ''bridge lock utxo validation failed: '' (validate_bridge_lock_async D (nv_get nv) inputs amount asset_id)) (\<lambda>_.
     try_each (\<lambda>inp.
       rbind (uncaught (nv_get nv (ti_out inp))) (\<lambda>found.
       case found of
         None \<Rightarrow> Inr ()
       | Some out \<Rightarrow> reject_if (frozen_or_false F (nv_compliance nv) (o_address out))
           (''compliance: sender address is frozen: '' @ o_address out))) inputs)"

definition bridge_mint_output ::
  "'d dec_lib \<Rightarrow> (string \<Rightarrow> string) \<Rightarrow> bridge_lock_info \<Rightarrow> 'd \<Rightarrow> tx_output \<Rightarrow> 'd gate" where
  "bridge_mint_output D de lock acc out =
     rbind (reject_if (o_asset_id out \<noteq> bl_asset_id lock)
       (''bridge mint asset '' @ show_debug_string (o_asset_id out) @ '' != locked asset '' @ show_debug_string (bl_asset_id lock))) (\<lambda>_.
     rbind (reject_if (o_address out \<noteq> bl_dest_address lock)
       (''bridge mint output address '' @ o_address out @ '' != locked dest_address '' @ bl_dest_address lock)) (\<lambda>_.
     rbind (ok_or (d_from_str D (o_amount out))
       (Reject (''bridge mint output amount '' @ quoted (o_amount out) @ '' unparseable: '' @ de (o_amount out)))) (\<lambda>amt.
     rbind (reject_if (d_lt D amt (d_zero D)) ''bridge mint output amount is negative'') (\<lambda>_.
     uncaught (dec_add D acc amt)))))"

definition reconcile_bridge_mint ::
  "'d dec_lib \<Rightarrow> (string \<Rightarrow> string) \<Rightarrow> tx_output list \<Rightarrow> bridge_lock_info \<Rightarrow> string \<Rightarrow> unit gate" where
  "reconcile_bridge_mint D de outputs lock dest_ledger =
     rbind (reject_if (bl_dest_ledger_id lock \<noteq> dest_ledger)
       (''bridge mint applied on ledger '' @ dest_ledger @ '' but lock is destined for '' @ bl_dest_ledger_id lock)) (\<lambda>_.
     rbind (reject_if (outputs = []) ''bridge mint has no outputs'') (\<lambda>_.
     rbind (ok_or (d_from_str D (bl_amount lock))
       (Reject (''bridge lock amount '' @ quoted (bl_amount lock) @ '' unparseable: '' @ de (bl_amount lock)))) (\<lambda>lock_amount.
     rbind (try_fold (bridge_mint_output D de lock) (d_zero D) outputs) (\<lambda>sum.
     reject_if (\<not> d_eq D sum lock_amount)
       (''bridge mint total '' @ d_show D sum @ '' != locked amount '' @ d_show D lock_amount @ '' (inflation guard)'')))))"

definition bridge_mint_gate ::
  "faults \<Rightarrow> 'd dec_lib \<Rightarrow> (string \<Rightarrow> string) \<Rightarrow> node_view \<Rightarrow> tx_output list \<Rightarrow> string \<Rightarrow> string \<Rightarrow> unit gate" where
  "bridge_mint_gate F D de nv outputs lock_block_id source_ledger_id =
     (case io F (IsBridgeConsumed lock_block_id) (nv_bridge_stored nv lock_block_id) of
        Inl e \<Rightarrow> Inl (Reject (''bridge_consumed lookup failed: '' @ e))
      | Inr stored \<Rightarrow>
          if stored \<or> lock_block_id \<in> cd_bridge_locks (nv_dag nv) then
            Inl (Reject (''bridge lock already consumed (replay): '' @ lock_block_id))
          else
            (case nv_resolver nv of
               None \<Rightarrow> Inl (Reject ''bridge mint reconciliation unavailable: no resolver wired'')
             | Some (resolver, my_ledger_id) \<Rightarrow>
                 (case resolver source_ledger_id lock_block_id of
                    Inr (Some lock) \<Rightarrow> reconcile_bridge_mint D de outputs lock my_ledger_id
                  | Inr None \<Rightarrow> Inl (Reject (''bridge mint references unknown lock '' @ lock_block_id @
                      '' on source ledger '' @ source_ledger_id))
                  | Inl e \<Rightarrow> Inl (Reject (''bridge lock resolution failed: '' @ e)))))"

subsection \<open>Burns, and the stage as a whole\<close>

definition burn_gate ::
  "faults \<Rightarrow> 'd dec_lib \<Rightarrow> ext_lib \<Rightarrow> node_view \<Rightarrow> 'd policy \<Rightarrow> u64 \<Rightarrow> transaction \<Rightarrow> string option \<Rightarrow> string
   \<Rightarrow> string \<Rightarrow> unit gate" where
  "burn_gate F D X nv p now_ms tx asset_id amount owner =
     rbind (guard ''token burn validation failed: ''
       (validate_token_burn_async D X (nv_get nv) tx asset_id amount owner p now_ms)) (\<lambda>ins.
     none_frozen F (nv_compliance nv) ''burner'' ins)"

fun utxo_gate ::
  "faults \<Rightarrow> 'd dec_lib \<Rightarrow> (string \<Rightarrow> string) \<Rightarrow> ext_lib \<Rightarrow> node_view \<Rightarrow> 'd policy \<Rightarrow> u64 \<Rightarrow> plain_payload \<Rightarrow> unit gate" where
  "utxo_gate F D de X nv p now_ms (TxUtxo tx) = rbind (validate_plain_txutxo F D X nv p now_ms tx) (\<lambda>_. Inr ())"
| "utxo_gate F D de X nv p now_ms (MarketSettle tx asset_sold quantity price_asset price seller buyer) =
     settle_gate F D X nv p now_ms tx asset_sold quantity price_asset price seller buyer"
| "utxo_gate F D de X nv p now_ms (BridgeLock inputs amount asset_id _ _) = bridge_lock_gate F D nv inputs amount asset_id"
| "utxo_gate F D de X nv p now_ms (BridgeMint outputs lock_block_id source_ledger_id) =
     bridge_mint_gate F D de nv outputs lock_block_id source_ledger_id"
| "utxo_gate F D de X nv p now_ms (TokenBurn tx asset_id amount owner) =
     burn_gate F D X nv p now_ms tx asset_id amount owner"
| "utxo_gate F D de X nv p now_ms _ = Inr ()"

subsection \<open>Frozen addresses\<close>

fun owner_inputs :: "plain_payload \<Rightarrow> tx_input list" where
  "owner_inputs (TxUtxo tx) = tx_inputs tx"
| "owner_inputs (MarketSettle tx _ _ _ _ _ _) = tx_inputs tx"
| "owner_inputs (TokenBurn tx _ _ _) = tx_inputs tx"
| "owner_inputs (BridgeLock inputs _ _ _ _) = inputs"
| "owner_inputs _ = []"

fun transfer_outputs :: "plain_payload \<Rightarrow> tx_output list" where
  "transfer_outputs (TxUtxo tx) = tx_outputs tx"
| "transfer_outputs (MarketSettle tx _ _ _ _ _ _) = tx_outputs tx"
| "transfer_outputs _ = []"

lemma none_frozen_ok: "none_frozen F co who outs = Inr () \<longleftrightarrow> (\<forall>out\<in>set outs. \<not> frozen_or_false F co (o_address out))"
  by (simp add: none_frozen_def try_each_eq_Inr)

lemma plain_txutxo_ok:
  "validate_plain_txutxo F D X nv p now tx = Inr ins \<longleftrightarrow>
     validate_transaction_full D X (nv_get nv) tx p now (demurrage_rates F (nv_assets nv) (tx_outputs tx)) = Inr ins \<and>
     (\<forall>out\<in>set ins \<union> set (tx_outputs tx). \<not> frozen_or_false F (nv_compliance nv) (o_address out))"
  by (auto simp: validate_plain_txutxo_def none_frozen_ok)

lemma fetched_owner:
  assumes "fetch_input_outputs get tx = Inr ins" and "inp \<in> set (tx_inputs tx)" and "get (ti_out inp) = Inr (Some out)"
  shows "out \<in> set ins"
proof -
  have "list_all2 (\<lambda>inp out. get (ti_out inp) = Inr (Some out)) (tx_inputs tx) ins"
    using assms(1) by (simp add: fetch_input_outputs_ok)
  then show ?thesis using assms(2,3)
    by (induction rule: list_all2_induct) auto
qed

lemma plain_txutxo_frozen:
  assumes "validate_plain_txutxo F D X nv p now tx = Inr ins"
  shows "(\<forall>inp\<in>set (tx_inputs tx). \<forall>out. nv_get nv (ti_out inp) = Inr (Some out) \<longrightarrow>
      \<not> frozen_or_false F (nv_compliance nv) (o_address out)) \<and>
    (\<forall>out\<in>set (tx_outputs tx). \<not> frozen_or_false F (nv_compliance nv) (o_address out))"
  using assms fetched_owner [of "nv_get nv" tx ins] by (auto simp: plain_txutxo_ok full_ok)


text \<open>
  The freeze is of a text. The same key, addressed in upper case, is credited to the same identity and
  spent with the same signature, and is not frozen.
\<close>

lemma freeze_is_of_a_spelling:
  assumes "co_frozen_set (nv_compliance nv) = {''0x'' @ sample_key}" and "F = no_faults"
  shows "\<not> frozen_or_false F (nv_compliance nv) sample_key"
    and "address_identity ref_ext (''0x'' @ sample_key) = address_identity ref_ext sample_key"
    and "unlock_matches_address ref_ext sample_key sample_key"
proof -
  have "sample_key \<noteq> ''0x'' @ sample_key" by (simp add: sample_key_def)
  then show "\<not> frozen_or_false F (nv_compliance nv) sample_key"
    using assms by (simp add: frozen_or_false_def is_frozen_def)
  show "address_identity ref_ext (''0x'' @ sample_key) = address_identity ref_ext sample_key"
    "unlock_matches_address ref_ext sample_key sample_key" by code_simp+
qed

text \<open>
  Seizures and reversals pass the stage unread: nothing relates their outputs to their inputs, which need
  not exist, and the commit creates the outputs.
\<close>

lemma seizures_are_not_balanced:
  "utxo_gate F D de X nv p now (Seize a inputs outputs r) = Inr ()"
  "utxo_gate F D de X nv p now (Reverse b inputs outputs r) = Inr ()"
  "map snd (delta_creates (plain_delta now i (Seize a inputs outputs r))) = map (stamp now) outputs"
  by (simp_all add: delta_creates_def stamped_outputs)

subsection \<open>A bridge mint is backed by its lock\<close>

definition bridge_output_ok :: "'d dec_lib \<Rightarrow> ('d \<Rightarrow> rat) \<Rightarrow> bridge_lock_info \<Rightarrow> tx_output \<Rightarrow> bool" where
  "bridge_output_ok D v lock out \<longleftrightarrow>
     o_asset_id out = bl_asset_id lock \<and> o_address out = bl_dest_address lock \<and> 0 \<le> nominal_val D v out"

definition parsed_at_8 :: "'d dec_lib \<Rightarrow> ('d \<Rightarrow> rat) \<Rightarrow> tx_output \<Rightarrow> bool" where
  "parsed_at_8 D v out \<longleftrightarrow> d_from_str D (o_amount out) \<noteq> None \<and> at_scale 8 (nominal_val D v out)"

lemma bridge_mint_output_step:
  assumes L: "dec_laws D v" and out: "parsed_at_8 D v out" and acc: "at_scale 8 (v acc)" "0 \<le> v acc"
    and bound: "v acc + \<bar>nominal_val D v out\<bar> \<le> 10 ^ 16"
  shows "if bridge_output_ok D v lock out
    then \<exists>s. bridge_mint_output D de lock acc out = Inr s \<and> v s = v acc + nominal_val D v out
    else \<exists>e. bridge_mint_output D de lock acc out = Inl e"
proof -
  obtain d where d: "d_from_str D (o_amount out) = Some d" "v d = nominal_val D v out"
    using out by (auto simp: parsed_at_8_def nominal_val_def)
  have neg: "d_lt D d (d_zero D) \<longleftrightarrow> nominal_val D v out < 0" by (simp add: dec_laws_lt [OF L] dec_laws_zero [OF L] d(2))
  have "at_scale 8 (v acc + v d)" using acc(1) out d(2) by (auto simp: parsed_at_8_def intro: at_scale_add)
  moreover have "\<bar>v acc + v d\<bar> \<le> 10 ^ 19" using bound acc(2) d(2) by (auto simp: abs_if split: if_splits)
  ultimately have "dec_repr (v acc + v d)" by (rule small_repr)
  then obtain s where "d_checked_add D acc d = Some s" "v s = v acc + nominal_val D v out"
    using dec_laws_add [OF L] d(2) by metis
  then show ?thesis
    using d(1) neg by (auto simp: bridge_mint_output_def bridge_output_ok_def reject_if_def dec_add_def uncaught_def)
qed

lemma bridge_mint_fold:
  assumes L: "dec_laws D v" and "\<forall>out\<in>set outs. parsed_at_8 D v out" and "at_scale 8 (v acc)" "0 \<le> v acc"
    and "v acc + sum_list (map (\<lambda>out. \<bar>nominal_val D v out\<bar>) outs) \<le> 10 ^ 16"
  shows "if \<forall>out\<in>set outs. bridge_output_ok D v lock out
    then \<exists>s. try_fold (bridge_mint_output D de lock) acc outs = Inr s \<and> v s = v acc + sum_list (map (nominal_val D v) outs)
    else \<exists>e. try_fold (bridge_mint_output D de lock) acc outs = Inl e"
  using assms(2-)
proof (induction outs arbitrary: acc)
  case (Cons out outs)
  have nn: "0 \<le> sum_list (map (\<lambda>out. \<bar>nominal_val D v out\<bar>) outs)" by (rule sum_list_nonneg) auto
  have p: "parsed_at_8 D v out" and b: "v acc + \<bar>nominal_val D v out\<bar> \<le> 10 ^ 16"
    using Cons.prems nn by (auto simp: algebra_simps)
  note step = bridge_mint_output_step [OF L p Cons.prems(2,3) b, of lock de]
  show ?case
  proof (cases "bridge_output_ok D v lock out")
    case False
    then show ?thesis using step by auto
  next
    case True
    then obtain s where s: "bridge_mint_output D de lock acc out = Inr s" "v s = v acc + nominal_val D v out"
      using step by auto
    have "0 \<le> nominal_val D v out" using True by (simp add: bridge_output_ok_def)
    then have "at_scale 8 (v s)" "0 \<le> v s" "v s + sum_list (map (\<lambda>out. \<bar>nominal_val D v out\<bar>) outs) \<le> 10 ^ 16"
      using s(2) p Cons.prems by (auto simp: parsed_at_8_def intro: at_scale_add)
    from Cons.IH [OF _ this] Cons.prems(1) show ?thesis using s True by (auto simp: add.assoc)
  qed
qed simp

text \<open>
  Claim C23. The reconciliation of a bridge mint accepts exactly the mints that the lock backs: this ledger is the
  lock's destination, there is an output, every output has the asset and the recipient of the lock and no
  negative amount, and the amounts add up to the locked amount.
\<close>

theorem bridge_mint_backed:
  assumes L: "dec_laws D v" and outs: "\<forall>out\<in>set outputs. parsed_at_8 D v out"
    and bound: "sum_list (map (\<lambda>out. \<bar>nominal_val D v out\<bar>) outputs) \<le> 10 ^ 16"
    and amount: "d_from_str D (bl_amount lock) = Some a"
  shows "reconcile_bridge_mint D de outputs lock dest = Inr () \<longleftrightarrow>
    bl_dest_ledger_id lock = dest \<and> outputs \<noteq> [] \<and> (\<forall>out\<in>set outputs. bridge_output_ok D v lock out) \<and>
    sum_list (map (nominal_val D v) outputs) = v a"
proof -
  have z: "v (d_zero D) = 0" by (rule dec_laws_zero [OF L])
  show ?thesis
    using bridge_mint_fold [OF L outs, of "d_zero D" lock de] bound amount
    by (auto simp: reconcile_bridge_mint_def reject_if_def z at_scale_0 dec_laws_eq [OF L] split: if_splits)
qed

subsection \<open>A settlement pays the royalty of the registry\<close>

lemma settlement_resolve_ok: "settlement_resolve F st a = Inr w \<Longrightarrow> w = asset_meta st a"
  by (auto simp: settlement_resolve_def resolve_strict_ok split: sum.splits)

definition price_scale :: "asset_store \<Rightarrow> string option \<Rightarrow> nat" where
  "price_scale st price_asset = price_decimals (map_option tm_decimals (Option.bind price_asset (asset_meta st)))"

lemma settlement_royalty_ok:
  assumes "settlement_royalty F D st sold pa pd = Inr (r, ben)" and "asset_meta st sold = Some m"
    and "effective_royalty m = Some (bps, b)"
  shows "compute_royalty D pd bps (price_scale st pa) = Some r \<and> ben = Some b"
proof -
  obtain sm where sm: "settlement_resolve F st sold = Inr sm" using assms(1) by (auto simp: settlement_royalty_def)
  then have "sm = Some m" using settlement_resolve_ok assms(2) by metis
  then obtain pm where pm: "(case pa of Some a \<Rightarrow> settlement_resolve F st a | None \<Rightarrow> Inr None) = Inr pm"
    "compute_royalty D pd bps (price_decimals (map_option tm_decimals pm)) = Some r" "ben = Some b"
    using assms(1,3) sm by (auto simp: settlement_royalty_def split: option.splits)
  have "pm = Option.bind pa (asset_meta st)"
    using pm(1) settlement_resolve_ok by (cases pa) fastforce+
  then show ?thesis using pm by (simp add: price_scale_def)
qed

text \<open>
  Claim C24. An accepted settlement pays the royalty: when the asset sold has a royalty in the registry, its
  beneficiary gains at least the floored share of the price, in the price asset and over the whole
  transaction, whatever the builder of the transaction declares.
\<close>

theorem settlement_pays_registered_royalty:
  assumes L: "dec_laws D v" and gate: "settle_gate F D X nv p now tx sold q pa price seller buyer = Inr ()"
    and ins: "fetch_input_outputs (nv_get nv) tx = Inr ins"
    and meta: "asset_meta (nv_assets nv) sold = Some m" "effective_royalty m = Some (bps, b)" "unat bps \<le> 10000"
    and decimals: "price_scale (nv_assets nv) pa \<le> 8"
    and amounts: "\<forall>x\<in>set (tx_outputs tx). exact_amount D v x" "\<forall>x\<in>set ins. exact_amount D v x"
    and bounds: "sum_list (map (exact_val D v) (tx_outputs tx)) \<le> 10 ^ 16" "sum_list (map (exact_val D v) ins) \<le> 10 ^ 16"
    and pd: "d_from_str_exact D price = Some pd" "at_scale 8 (v pd)" "v pd \<le> 10 ^ 16"
    and qd: "d_from_str_exact D q = Some qd" "at_scale 8 (v qd)"
  shows "of_int \<lfloor>v pd * of_nat (unat bps) / 10000 * 10 ^ price_scale (nv_assets nv) pa\<rfloor> / 10 ^ price_scale (nv_assets nv) pa
    \<le> max 0 (net_flow D v X ins (tx_outputs tx) (address_identity X b, pa))"
proof -
  obtain ins' r ben where plain: "validate_plain_txutxo F D X nv p now tx = Inr ins'"
    and roy: "settlement_royalty F D (nv_assets nv) sold pa pd = Inr (r, ben)"
    and val: "validate_settlement D X ins' (tx_outputs tx) \<lparr>sk_asset_sold = sold, sk_quantity = qd, sk_price_asset = pa,
        sk_price = pd, sk_seller = seller, sk_buyer = buyer, sk_royalty = r, sk_beneficiary = ben\<rparr> = Inr ()"
    using gate pd(1) qd(1) by (auto simp: settle_gate_def prefix_reject_def split: sum.splits stop.splits)
  have "ins' = ins" using plain ins by (auto simp: plain_txutxo_ok full_ok)
  let ?c = "\<lparr>sk_asset_sold = sold, sk_quantity = qd, sk_price_asset = pa, sk_price = pd, sk_seller = seller,
    sk_buyer = buyer, sk_royalty = r, sk_beneficiary = Some b\<rparr>" and ?n = "price_scale (nv_assets nv) pa"
  have r: "compute_royalty D pd bps ?n = Some r" "ben = Some b" using settlement_royalty_ok [OF roy meta(1,2)] by blast+
  have val': "validate_settlement D X ins (tx_outputs tx) ?c = Inr ()" using val \<open>ins' = ins\<close> r(2) by simp
  have wd: "well_declared v ?c" using settlement_shape_ok [OF L, of ?c] val' by (auto simp: validate_settlement_def)
  then have "0 \<le> v pd" by (simp add: well_declared_def)
  from compute_royalty_value [OF L pd(2) this pd(3) meta(3), of ?n]
  have vr: "v r = of_int \<lfloor>v pd * of_nat (unat bps) / 10000 * 10 ^ ?n\<rfloor> / 10 ^ ?n" "0 \<le> v r" "v r \<le> v pd"
    using r(1) by auto
  have "at_scale ?n (v r)" unfolding vr(1) at_scale_def by blast
  then have scale: "at_scale 8 (v r)" using decimals by (rule at_scale_weaken)
  have "max 0 (net_flow D v X ins (tx_outputs tx) (address_identity X b, pa)) = declared_gain D v X ?c (address_identity X b, pa)"
    using settlement_decides [OF L amounts bounds, of ?c X] qd(2) pd(2) scale val' by simp
  moreover have "v r \<le> declared_gain D v X ?c (address_identity X b, pa)"
    using wd vr(2,3) by (auto simp: declared_gain_def well_declared_def)
  ultimately show ?thesis using vr(1) by simp
qed

subsection \<open>Examples\<close>

definition sample_view :: node_view where
  "sample_view = \<lparr>nv_get = sample_utxos, nv_assets = empty_assets,
     nv_compliance = \<lparr>co_frozen = (\<lambda>_. None), co_frozen_set = {''x''}, co_log = (\<lambda>_. None)\<rparr>,
     nv_dag = conc_dag_new 0 0, nv_bridge_stored = (\<lambda>_. False), nv_custodial_stored = (\<lambda>_. False), nv_resolver = None\<rparr>"

lemma no_demurrage:
  "(\<And>a m. asset_meta st a = Some m \<Longrightarrow> tm_demurrage_bps_per_day m = None) \<Longrightarrow> demurrage_rates no_faults st outs = (\<lambda>_. None)"
  using resolve_strict_ok [of no_faults st]
  by (auto simp: demurrage_rates_def fun_eq_iff resolve_asset_metadata_def split: option.split sum.split)
    fastforce+


theorem bridge_mint_backed_witness:
  "reconcile_bridge_mint ref_dec id [txoutput_new ''bob'' ''3'' None, txoutput_new ''bob'' ''1'' None]
     \<lparr>bl_amount = ''4'', bl_asset_id = None, bl_dest_ledger_id = ''B'', bl_dest_address = ''bob''\<rparr> ''B'' = Inr ()"
proof -
  have p: "d_from_str ref_dec ''3'' = Some (3, 0)" "d_from_str ref_dec ''1'' = Some (1, 0)"
    "d_from_str ref_dec ''4'' = Some (4, 0)" by code_simp+
  show ?thesis
    by (subst bridge_mint_backed [OF ref_dec_laws, where a = "(4, 0)"])
      (simp_all add: parsed_at_8_def bridge_output_ok_def nominal_val_def txoutput_new_def p ref_val_def at_scale_numeral)
qed
definition sale_tx :: transaction where
  "sale_tx = \<lparr>tx_inputs = [\<lparr>ti_out = \<lparr>op_txid = ''g'', op_index = 0\<rparr>\<rparr>, \<lparr>ti_out = \<lparr>op_txid = ''g'', op_index = 1\<rparr>\<rparr>],
     tx_outputs = [txoutput_new sample_key2 ''2'' (Some ''I''), txoutput_new sample_key ''4'' None,
       txoutput_new ''c'' ''1'' None],
     tx_fee = ''0'', tx_unlocks = [sample_unlock,
       unlock_new sample_key2 (sample_key2_bytes @ ref_hex_encode (take 32 (''net0'' @ replicate 32 (CHR ''.''))))]\<rparr>"

definition sale_spent :: "tx_output list" where
  "sale_spent = [txoutput_new sample_key ''2'' (Some ''I''), txoutput_new sample_key2 ''5'' None]"

definition sale_view :: node_view where
  "sale_view = sample_view\<lparr>
     nv_get := (\<lambda>op. Inr (if op_txid op = ''g'' then
       (if op_index op = 0 then Some (sale_spent ! 0) else if op_index op = 1 then Some (sale_spent ! 1) else None) else None)),
     nv_assets := empty_assets\<lparr>as_tokens := [''I'' \<mapsto> sample_token\<lparr>tm_asset_id := ''I'', tm_royalty_bps := Some 2000,
       tm_royalty_beneficiary := Some ''c''\<rparr>]\<rparr>\<rparr>"

lemma sale_fields:
  "tx_inputs sale_tx = [\<lparr>ti_out = \<lparr>op_txid = ''g'', op_index = 0\<rparr>\<rparr>, \<lparr>ti_out = \<lparr>op_txid = ''g'', op_index = 1\<rparr>\<rparr>]"
  "tx_unlocks sale_tx = [sample_unlock,
     unlock_new sample_key2 (sample_key2_bytes @ ref_hex_encode (take 32 (''net0'' @ replicate 32 (CHR ''.''))))]"
  "tx_outputs sale_tx = [txoutput_new sample_key2 ''2'' (Some ''I''), txoutput_new sample_key ''4'' None, txoutput_new ''c'' ''1'' None]"
  by (simp_all add: sale_tx_def)

lemma sale_meta: "asset_meta (nv_assets sale_view) a = (if a = ''I'' then
    Some (sample_token\<lparr>tm_asset_id := ''I'', tm_royalty_bps := Some 2000, tm_royalty_beneficiary := Some ''c''\<rparr>) else None)"
  by (simp add: sale_view_def asset_meta_def empty_assets_def)

lemma sale_plain: "validate_plain_txutxo no_faults ref_dec ref_ext sale_view sample_policy_net 7 sale_tx = Inr sale_spent"
proof -
  have rates: "demurrage_rates no_faults (nv_assets sale_view) (tx_outputs sale_tx) = (\<lambda>_. None)"
    by (rule no_demurrage) (auto simp: sale_meta sample_token_def split: if_splits)
  have fee: "amount_parse_non_neg_dec ref_dec (tx_fee sale_tx) = Inr (0, 0) \<and>
      \<not> d_lt ref_dec (p_max_fee_per_tx sample_policy_net) (0, 0)"
    by (simp add: sale_tx_def sample_policy_net_def policy_default_def) code_simp
  have msg: "signing_message ref_ext sale_tx ''net'' = signing_message ref_ext sample_tx ''net''"
    by (simp add: signing_message_def ref_ext_def sample_tx_def sale_tx_def)
  have key2: "sig_valid ref_ext m sample_key2 (sample_key2_bytes @ m)" for m
    using sample_key2_decodes by (simp add: sig_valid_def ref_ext_def sample_key2_bytes_def)
  have sigs: "verify_tx_signatures ref_ext sale_tx (p_network_id sample_policy_net) = Inr ()"
    unfolding verify_tx_signatures_ok using msg sample_message sample_sig_valid key2
    by (simp add: sale_fields sample_policy_net_def sample_unlock_def unlock_new_def)
  have conds: "validate_output_conditions ref_ext (tx_outputs sale_tx) = Inr ()"
    by (simp add: validate_output_conditions_def sale_fields validate_output_condition_def txoutput_new_def)
  have fetch: "fetch_input_outputs (nv_get sale_view) sale_tx = Inr sale_spent"
    by (simp add: fetch_input_outputs_ok sale_fields sale_view_def sale_spent_def)
  have auth: "check_spend_authorization ref_ext (tx_unlocks sale_tx) sale_spent = Inr ()"
    by (simp add: check_spend_authorization_ok sale_fields check_input_spend_condition_def less_Suc_eq
        txoutput_new_def sample_unlock_def unlock_new_def unlock_matches_address_def sale_spent_def
        key_text [OF ref_hex_laws sample_key_decodes] key_text [OF ref_hex_laws sample_key2_decodes])
  have locks: "check_input_time_locks sale_spent 7 = Inr ()"
    by (simp add: time_locks_ok txoutput_new_def sale_spent_def)
  have cons: "check_asset_conservation_with_demurrage ref_dec sale_tx sale_spent (\<lambda>_. None) 7 = Inr ()"
    by (subst conservation_exact [OF ref_dec_laws])
      (simp_all add: sale_fields sale_spent_def tame_amount_def tame_decay_def sample_values sample_values' at_scale_numeral
        conserves_def asset_total_def effective_val_def demurrage_value_def)
  have "validate_transaction_full ref_dec ref_ext (nv_get sale_view) sale_tx sample_policy_net 7 (\<lambda>_. None) = Inr sale_spent"
    unfolding full_ok using fee sigs conds fetch auth locks cons by (simp add: sale_fields)
  moreover have "\<forall>out\<in>set sale_spent \<union> set (tx_outputs sale_tx). \<not> frozen_or_false no_faults (nv_compliance sale_view) (o_address out)"
    by (simp add: sale_fields sale_spent_def frozen_or_false_def is_frozen_def sale_view_def sample_view_def txoutput_new_def
        sample_key_def sample_key2_def)
  ultimately show ?thesis unfolding plain_txutxo_ok rates by blast
qed


lemma sale_royalty:
  "settlement_royalty no_faults ref_dec (nv_assets sale_view) ''I'' None (5, 0) = Inr (r, Some ''c'') \<longleftrightarrow>
     compute_royalty ref_dec (5, 0) 2000 8 = Some r"
proof -
  have "trim ''c'' = ''c''" by code_simp
  moreover have "settlement_resolve no_faults (nv_assets sale_view) ''I'' = Inr (asset_meta (nv_assets sale_view) ''I'')"
    by (simp add: settlement_resolve_def resolve_asset_metadata_strict_def get_token_def sale_meta)
      (simp add: sale_view_def empty_assets_def)
  ultimately show ?thesis
    by (auto simp: settlement_royalty_def sale_meta effective_royalty_def non_blank_def price_decimals_def
        pms_native_decimals_def split: option.splits)
qed

lemma sale_parties:
  "address_identity ref_ext sample_key \<noteq> address_identity ref_ext sample_key2"
  "address_identity ref_ext sample_key \<noteq> address_identity ref_ext ''c''"
  "address_identity ref_ext sample_key2 \<noteq> address_identity ref_ext ''c''"
proof -
  have key: "address_identity ref_ext k = x_hex_encode ref_ext (pubkey_hash20 ref_ext b)"
    if "x_hex_decode ref_ext k = Some b" "length b = 33" for k b
    using that key_text [OF ref_hex_laws that(1)] by (simp add: address_identity_def Let_def)
  have k: "address_identity ref_ext sample_key = x_hex_encode ref_ext (take 20 sample_key_bytes)"
    "address_identity ref_ext sample_key2 = x_hex_encode ref_ext (take 20 sample_key2_bytes)"
    using key [OF sample_key_decodes sample_key_length] key [OF sample_key2_decodes]
    by (simp_all add: sample_key2_bytes_def sample_key_length pubkey_hash20_def) (simp_all add: ref_ext_def sample_key_length)
  have c: "address_identity ref_ext ''c'' = CHR ''n'' # ''onkey:c''" by code_simp
  have n: "x_hex_encode ref_ext s \<noteq> CHR ''n'' # r" for s r
    using ref_hex_decode_digits [OF ref_hex_inverse, of s] by (auto simp: ref_ext_def is_hex_digit_def)
  have "ref_hex_encode (take 20 sample_key_bytes) \<noteq> ref_hex_encode (take 20 sample_key2_bytes)"
    using ref_hex_inverse [of "take 20 sample_key_bytes"] ref_hex_inverse [of "take 20 sample_key2_bytes"]
    by (auto simp: sample_key_bytes_def sample_key2_bytes_def)
  then show "address_identity ref_ext sample_key \<noteq> address_identity ref_ext sample_key2"
    unfolding k by (simp add: ref_ext_def)
  show "address_identity ref_ext sample_key \<noteq> address_identity ref_ext ''c''"
    "address_identity ref_ext sample_key2 \<noteq> address_identity ref_ext ''c''"
    unfolding k c by (rule n)+
qed

lemma ref_val_int: "ref_val (n, 0) = of_int n"
  by (simp add: ref_val_def)

lemma sale_settles:
  "settle_gate no_faults ref_dec ref_ext sale_view sample_policy_net 7 sale_tx ''I'' ''2'' None ''5'' sample_key sample_key2 = Inr ()"
proof -
  note ident = sale_parties
  have trims: "trim ''I'' \<noteq> []" "trim sample_key \<noteq> []" "trim sample_key2 \<noteq> []" by code_simp+
  have parse: "d_from_str_exact ref_dec ''1'' = Some (1, 0)" "d_from_str_exact ref_dec ''2'' = Some (2, 0)"
    "d_from_str_exact ref_dec ''4'' = Some (4, 0)" "d_from_str_exact ref_dec ''5'' = Some (5, 0)" by code_simp+
  have five: "ref_val (5, 0) = 5" by (simp add: ref_val_int)
  have "\<lfloor>5 * of_nat (unat (2000 :: u32)) / 10000 * 10 ^ 8 :: rat\<rfloor> = 100000000" by (rule floor_unique) simp_all
  then obtain r where r: "compute_royalty ref_dec (5, 0) 2000 8 = Some r" "ref_val r = 1"
    using compute_royalty_value [OF ref_dec_laws, of "(5, 0)" 2000 8] by (auto simp: five at_scale_numeral)
  let ?c = "\<lparr>sk_asset_sold = ''I'', sk_quantity = (2, 0), sk_price_asset = None, sk_price = (5, 0),
     sk_seller = sample_key, sk_buyer = sample_key2, sk_royalty = r, sk_beneficiary = Some ''c''\<rparr>"
  have amounts: "\<forall>x\<in>set (tx_outputs sale_tx). exact_amount ref_dec ref_val x" "\<forall>x\<in>set sale_spent. exact_amount ref_dec ref_val x"
    by (simp_all add: sale_fields sale_spent_def exact_amount_def exact_val_def txoutput_new_def parse ref_val_int at_scale_numeral)
  have bounds: "sum_list (map (exact_val ref_dec ref_val) (tx_outputs sale_tx)) \<le> 10 ^ 16"
    "sum_list (map (exact_val ref_dec ref_val) sale_spent) \<le> 10 ^ 16"
    by (simp_all add: sale_fields sale_spent_def exact_val_def txoutput_new_def parse ref_val_int)
  have scale: "at_scale 8 (ref_val (sk_quantity ?c))" "at_scale 8 (ref_val (sk_price ?c))" "at_scale 8 (ref_val (sk_royalty ?c))"
    by (simp_all add: r five ref_val_int at_scale_numeral)
  have wd: "well_declared ref_val ?c" using trims sale_parties
    by (auto simp: well_declared_def r ref_val_int)
  have gains: "max 0 (net_flow ref_dec ref_val ref_ext sale_spent (tx_outputs sale_tx) k) =
      declared_gain ref_dec ref_val ref_ext ?c k" for k
    using ident by (auto simp: net_flow_def flow_def sale_fields sale_spent_def exact_val_def txoutput_new_def parse r
        declared_gain_def ref_val_int)
  have item: "net_flow ref_dec ref_val ref_ext sale_spent (tx_outputs sale_tx)
      (address_identity ref_ext (sk_seller ?c), Some (sk_asset_sold ?c)) = - ref_val (sk_quantity ?c)"
    using ident by (simp add: net_flow_def flow_def sale_fields sale_spent_def exact_val_def txoutput_new_def parse ref_val_int)
  have "validate_settlement ref_dec ref_ext sale_spent (tx_outputs sale_tx) ?c = Inr ()"
    using settlement_decides [OF ref_dec_laws amounts bounds scale, of ref_ext] wd gains item by blast
  moreover have "settlement_royalty no_faults ref_dec (nv_assets sale_view) ''I'' None (5, 0) = Inr (r, Some ''c'')"
    using r(1) sale_royalty by blast
  ultimately show ?thesis
    by (simp add: settle_gate_def sale_plain prefix_reject_def parse)
qed

theorem settlement_pays_registered_royalty_witness:
  "1 \<le> net_flow ref_dec ref_val ref_ext sale_spent (tx_outputs sale_tx) (address_identity ref_ext ''c'', None)"
proof -
  let ?m = "sample_token\<lparr>tm_asset_id := ''I'', tm_royalty_bps := Some 2000, tm_royalty_beneficiary := Some ''c''\<rparr>"
  have parse: "d_from_str_exact ref_dec ''1'' = Some (1, 0)" "d_from_str_exact ref_dec ''2'' = Some (2, 0)"
    "d_from_str_exact ref_dec ''4'' = Some (4, 0)" "d_from_str_exact ref_dec ''5'' = Some (5, 0)" by code_simp+
  have ins: "fetch_input_outputs (nv_get sale_view) sale_tx = Inr sale_spent"
    using sale_plain by (simp add: plain_txutxo_ok full_ok)
  have meta: "asset_meta (nv_assets sale_view) ''I'' = Some ?m" by (simp add: sale_meta)
  have "trim ''c'' = ''c''" by code_simp
  then have eff: "effective_royalty ?m = Some (2000, ''c'')" by (simp add: effective_royalty_def non_blank_def)
  have scale: "price_scale (nv_assets sale_view) None = 8"
    by (simp add: price_scale_def price_decimals_def pms_native_decimals_def)
  have fl: "\<lfloor>5 * of_nat (unat (2000 :: u32)) / 10000 * 10 ^ 8 :: rat\<rfloor> = 100000000" by (rule floor_unique) simp_all
  have vals: "ref_val (5, 0) = 5" "ref_val (2, 0) = 2" "ref_val (4, 0) = 4" "ref_val (1, 0) = 1" by (simp_all add: ref_val_int)
  show ?thesis
    using settlement_pays_registered_royalty [OF ref_dec_laws sale_settles ins meta eff, of "(5, 0)" "(2, 0)"]
    by (simp add: scale fl sale_fields sale_spent_def exact_amount_def exact_val_def txoutput_new_def parse vals at_scale_numeral)
qed

end
