(* ===== verification/ContractEngine.thy ===== *)
theory ContractEngine
  imports Gate Column Amount Conservation PayloadTypes "HOL-Library.AList"
begin

section \<open>The engine of declarative contracts\<close>

text \<open>
  \<open>pms-storage/src/contract_store.rs\<close>, \<open>rocks_store/contract_storage.rs\<close> and the evaluation half of
  \<open>pms-contracts/src/engine.rs\<close>. The trait \<open>ContractStorage\<close> is the record \<open>contract_ops\<close> of its
  methods, with its two implementations; the locale \<open>contract_storage\<close> is what the engine relies on.
  A \<open>serde_json::Value\<close> is the datatype \<open>json\<close>; parsing a text into one, and a floating-point
  literal into a decimal, are an argument. The operators on decimals panic where the checked
  operation has no result.
\<close>

subsection \<open>The store of contracts\<close>

record 's contract_ops =
  cx_get :: "string \<Rightarrow> 's \<Rightarrow> string + contract option"
  cx_put :: "contract \<Rightarrow> 's \<Rightarrow> (string + unit) \<times> 's"
  cx_list :: "'s \<Rightarrow> string + contract list"
  cx_find_nft_burn :: "string option \<Rightarrow> string \<Rightarrow> 's \<Rightarrow> string + contract list"
  cx_find_transfer :: "string option \<Rightarrow> string \<Rightarrow> 's \<Rightarrow> string + contract list"
  cx_find_token_burn :: "string \<Rightarrow> string \<Rightarrow> 's \<Rightarrow> string + contract list"
  cx_update :: "string \<Rightarrow> contract \<Rightarrow> 's \<Rightarrow> (string + unit) \<times> 's"
  cx_set_enabled :: "string \<Rightarrow> bool \<Rightarrow> 's \<Rightarrow> (string + unit) \<times> 's"

definition nft_burn_matches :: "string option \<Rightarrow> string \<Rightarrow> contract \<Rightarrow> bool" where
  "nft_burn_matches nft_type ledger_id c \<longleftrightarrow>
     ct_enabled c \<and> scope_matches (ct_scope c) ledger_id \<and>
     (case ct_trigger c of OnNftBurn flt \<Rightarrow> (case flt of None \<Rightarrow> True | Some f \<Rightarrow> nft_type = Some f) | _ \<Rightarrow> False)"

definition transfer_matches :: "string option \<Rightarrow> string \<Rightarrow> contract \<Rightarrow> bool" where
  "transfer_matches asset_id ledger_id c \<longleftrightarrow>
     ct_enabled c \<and> scope_matches (ct_scope c) ledger_id \<and>
     (case ct_trigger c of OnTransfer flt \<Rightarrow> (case flt of None \<Rightarrow> True | Some f \<Rightarrow> asset_id = Some f) | _ \<Rightarrow> False)"

definition token_burn_matches :: "string \<Rightarrow> string \<Rightarrow> contract \<Rightarrow> bool" where
  "token_burn_matches asset_id ledger_id c \<longleftrightarrow>
     ct_enabled c \<and> scope_matches (ct_scope c) ledger_id \<and>
     (case ct_trigger c of OnTokenBurn f \<Rightarrow> f = asset_id | _ \<Rightarrow> False)"

definition contract_scan :: "faults \<Rightarrow> contract cf \<Rightarrow> string + contract list" where
  "contract_scan F s = io F (DbScan ''contracts'') (map snd s)"

definition rocks_put_contract :: "faults \<Rightarrow> string \<Rightarrow> contract \<Rightarrow> contract cf \<Rightarrow> (string + unit) \<times> contract cf" where
  "rocks_put_contract F key c s =
     (case F (DbPut ''contracts'' key) of Some e \<Rightarrow> (Inl e, s) | None \<Rightarrow> (Inr (), cf_put key c s))"

definition rocks_update_contract :: "faults \<Rightarrow> string \<Rightarrow> contract \<Rightarrow> contract cf \<Rightarrow> (string + unit) \<times> contract cf" where
  "rocks_update_contract F contract_id c s =
     (case io F (DbGet ''contracts'' contract_id) (cf_get s contract_id) of
        Inl e \<Rightarrow> (Inl e, s)
      | Inr None \<Rightarrow> (Inl (''Contract '' @ quoted contract_id @ '' not found''), s)
      | Inr (Some _) \<Rightarrow> rocks_put_contract F contract_id c s)"

definition rocks_set_enabled :: "faults \<Rightarrow> string \<Rightarrow> bool \<Rightarrow> contract cf \<Rightarrow> (string + unit) \<times> contract cf" where
  "rocks_set_enabled F contract_id enabled s =
     (case io F (DbGet ''contracts'' contract_id) (cf_get s contract_id) of
        Inl e \<Rightarrow> (Inl e, s)
      | Inr None \<Rightarrow> (Inr (), s)
      | Inr (Some c) \<Rightarrow> rocks_put_contract F contract_id (c\<lparr>ct_enabled := enabled\<rparr>) s)"

definition rocks_contracts :: "faults \<Rightarrow> contract cf contract_ops" where
  "rocks_contracts F = \<lparr>
     cx_get = (\<lambda>i s. io F (DbGet ''contracts'' i) (cf_get s i)),
     cx_put = (\<lambda>c. rocks_put_contract F (ct_contract_id c) c),
     cx_list = contract_scan F,
     cx_find_nft_burn = (\<lambda>t l s. rbind (contract_scan F s) (\<lambda>cs. Inr (filter (nft_burn_matches t l) cs))),
     cx_find_transfer = (\<lambda>a l s. rbind (contract_scan F s) (\<lambda>cs. Inr (filter (transfer_matches a l) cs))),
     cx_find_token_burn = (\<lambda>a l s. rbind (contract_scan F s) (\<lambda>cs. Inr (filter (token_burn_matches a l) cs))),
     cx_update = rocks_update_contract F,
     cx_set_enabled = rocks_set_enabled F\<rparr>"

text \<open>The map in memory: an association list without duplicate keys, in some order of iteration.\<close>

type_synonym contract_map = "(string \<times> contract) list"

definition memory_contracts :: "contract_map contract_ops" where
  "memory_contracts = \<lparr>
     cx_get = (\<lambda>i s. Inr (map_of s i)),
     cx_put = (\<lambda>c s. (Inr (), AList.update (ct_contract_id c) c s)),
     cx_list = (\<lambda>s. Inr (map snd s)),
     cx_find_nft_burn = (\<lambda>t l s. Inr (filter (nft_burn_matches t l) (map snd s))),
     cx_find_transfer = (\<lambda>a l s. Inr (filter (transfer_matches a l) (map snd s))),
     cx_find_token_burn = (\<lambda>a l s. Inr (filter (token_burn_matches a l) (map snd s))),
     cx_update = (\<lambda>i c s. if map_of s i = None then (Inl (''Contract '' @ quoted i @ '' not found''), s)
       else (Inr (), AList.update i c s)),
     cx_set_enabled = (\<lambda>i b s. (Inr (), case map_of s i of None \<Rightarrow> s | Some c \<Rightarrow> AList.update i (c\<lparr>ct_enabled := b\<rparr>) s))\<rparr>"

text \<open>
  What the engine relies on: the contracts of a store are a map from identifiers, a contract is stored
  under its own identifier, writing changes that entry only, and each search is the listing,
  filtered.
\<close>

definition by_id :: "contract list \<Rightarrow> string \<Rightarrow> contract option" where
  "by_id cs = map_of (map (\<lambda>c. (ct_contract_id c, c)) cs)"

lemma by_id_filter:
  "distinct (map ct_contract_id cs) \<Longrightarrow>
     filter (\<lambda>c. ct_contract_id c = i) cs = (case by_id cs i of Some c \<Rightarrow> [c] | None \<Rightarrow> [])"
proof (induction cs)
  case (Cons c cs)
  have none: "by_id cs (ct_contract_id c) = None" using Cons.prems by (auto simp: by_id_def map_of_eq_None_iff)
  have "filter (\<lambda>x. ct_contract_id x = ct_contract_id c) cs = []" using Cons.prems by (simp add: filter_empty_conv) (metis imageI)
  then show ?case using Cons none by (auto simp: by_id_def)
qed (simp add: by_id_def)

locale contract_storage =
  fixes ops :: "'s contract_ops" and ok :: "'s \<Rightarrow> bool" and entries :: "'s \<Rightarrow> string \<Rightarrow> contract option"
  assumes list_entries: "ok s \<Longrightarrow> \<exists>cs. cx_list ops s = Inr cs \<and> distinct (map ct_contract_id cs) \<and> by_id cs = entries s"
    and put_entries: "ok s \<Longrightarrow> \<exists>s'. cx_put ops c s = (Inr (), s') \<and> ok s' \<and> entries s' = (entries s)(ct_contract_id c \<mapsto> c)"
    and find_nft_burn: "cx_find_nft_burn ops t l s = rbind (cx_list ops s) (\<lambda>cs. Inr (filter (nft_burn_matches t l) cs))"
    and find_transfer: "cx_find_transfer ops a l s = rbind (cx_list ops s) (\<lambda>cs. Inr (filter (transfer_matches a l) cs))"
    and find_token_burn: "cx_find_token_burn ops b l s = rbind (cx_list ops s) (\<lambda>cs. Inr (filter (token_burn_matches b l) cs))"
begin

lemma found_under_id:
  assumes "ok s" and "cx_list ops s = Inr cs"
  shows "filter (\<lambda>c. ct_contract_id c = i) (filter P cs) =
    (case entries s i of Some c \<Rightarrow> if P c then [c] else [] | None \<Rightarrow> [])"
proof -
  have "filter (\<lambda>c. ct_contract_id c = i) (filter P cs) = filter P (filter (\<lambda>c. ct_contract_id c = i) cs)"
    by (simp add: conj_commute)
  also have "\<dots> = filter P (case entries s i of Some c \<Rightarrow> [c] | None \<Rightarrow> [])"
    using list_entries [OF assms(1)] assms(2) by_id_filter by auto
  finally show ?thesis by (auto split: option.split)
qed

lemma put_then_found:
  assumes "ok s"
  shows "\<exists>s' cs. cx_put ops c s = (Inr (), s') \<and> ok s' \<and> cx_list ops s' = Inr cs \<and>
    filter (\<lambda>x. ct_contract_id x = ct_contract_id c) (filter P cs) = (if P c then [c] else [])"
proof -
  obtain s' where s': "cx_put ops c s = (Inr (), s')" "ok s'" "entries s' = (entries s)(ct_contract_id c \<mapsto> c)"
    using put_entries [OF assms] by blast
  obtain cs where "cx_list ops s' = Inr cs" using list_entries [OF s'(2)] by blast
  then show ?thesis using s' found_under_id [OF s'(2), of cs "ct_contract_id c" P] by auto
qed

end

definition contracts_keyed :: "(string \<times> contract) list \<Rightarrow> bool" where
  "contracts_keyed s \<longleftrightarrow> distinct (map fst s) \<and> (\<forall>(k, c)\<in>set s. ct_contract_id c = k)"

lemma keyed_listing:
  assumes "contracts_keyed s"
  shows "distinct (map (ct_contract_id \<circ> snd) s)" "by_id (map snd s) = map_of s"
proof -
  have k: "\<And>p. p \<in> set s \<Longrightarrow> ct_contract_id (snd p) = fst p" using assms by (auto simp: contracts_keyed_def)
  then have "map (ct_contract_id \<circ> snd) s = map fst s" by simp
  then show "distinct (map (ct_contract_id \<circ> snd) s)" using assms by (simp only: contracts_keyed_def)
  have "map (\<lambda>c. (ct_contract_id c, c)) (map snd s) = s" using k by (simp add: map_idI)
  then show "by_id (map snd s) = map_of s" by (simp add: by_id_def)
qed

lemma keyed_cf_put: "cf_ok s \<Longrightarrow> contracts_keyed s \<Longrightarrow> contracts_keyed (cf_put (ct_contract_id c) c s)"
proof -
  assume ok: "cf_ok s" and k: "contracts_keyed s"
  have "distinct (map fst (cf_put (ct_contract_id c) c s))"
    using cf_ok_put [OF ok] by (auto simp: cf_ok_def strict_sorted_iff)
  moreover have "set (cf_put i c s) \<subseteq> insert (i, c) (set s)" for i
    by (induction i c s rule: cf_put.induct) auto
  ultimately show ?thesis using k by (fastforce simp: contracts_keyed_def)
qed

interpretation rocks: contract_storage "rocks_contracts no_faults" "\<lambda>s. cf_ok s \<and> contracts_keyed s" cf_get
proof unfold_locales
  fix s c
  assume ok: "cf_ok s \<and> contracts_keyed s"
  then show "\<exists>cs. cx_list (rocks_contracts no_faults) s = Inr cs \<and> distinct (map ct_contract_id cs) \<and> by_id cs = cf_get s"
    using keyed_listing [of s] by (auto simp: rocks_contracts_def contract_scan_def contracts_keyed_def cf_get_def fun_eq_iff)
  show "\<exists>s'. cx_put (rocks_contracts no_faults) c s = (Inr (), s') \<and> (cf_ok s' \<and> contracts_keyed s') \<and>
      cf_get s' = (cf_get s)(ct_contract_id c \<mapsto> c)"
    using ok cf_ok_put keyed_cf_put
    by (auto simp: rocks_contracts_def rocks_put_contract_def no_faults_def cf_get_def map_of_cf_put fun_eq_iff)
qed (simp_all add: rocks_contracts_def)

lemma keyed_update: "contracts_keyed s \<Longrightarrow> contracts_keyed (AList.update (ct_contract_id c) c s)"
proof -
  assume k: "contracts_keyed s"
  have "set (AList.update i c s) \<subseteq> insert (i, c) (set s)" for i
    by (induction s) (auto split: if_splits)
  then show ?thesis using k distinct_update [of s] by (fastforce simp: contracts_keyed_def)
qed

interpretation memory: contract_storage memory_contracts contracts_keyed map_of
proof unfold_locales
  fix s c
  assume ok: "contracts_keyed s"
  then show "\<exists>cs. cx_list memory_contracts s = Inr cs \<and> distinct (map ct_contract_id cs) \<and> by_id cs = map_of s"
    using keyed_listing [of s] by (auto simp: memory_contracts_def contracts_keyed_def)
  show "\<exists>s'. cx_put memory_contracts c s = (Inr (), s') \<and> contracts_keyed s' \<and> map_of s' = (map_of s)(ct_contract_id c \<mapsto> c)"
    using keyed_update [OF ok] by (auto simp: memory_contracts_def update_conv')
qed (simp_all add: memory_contracts_def)

subsection \<open>Formulas\<close>

fun try_concat :: "('a \<Rightarrow> 'e + 'b list) \<Rightarrow> 'a list \<Rightarrow> 'e + 'b list" where
  "try_concat f [] = Inr []"
| "try_concat f (x # xs) = rbind (f x) (\<lambda>ys. rbind (try_concat f xs) (\<lambda>zs. Inr (ys @ zs)))"

datatype json =
    JNull | JBool bool | JNumber "int option" string | JText string | JArray "json list" | JObject "(string \<times> json) list"

record 'd json_lib =
  jl_parse :: "string \<Rightarrow> json option"
  jl_f64 :: "string \<Rightarrow> 'd option"
  jl_i64 :: "int \<Rightarrow> 'd"

fun split_on :: "char \<Rightarrow> string \<Rightarrow> string list" where
  "split_on sep [] = [[]]"
| "split_on sep (c # s) = (if c = sep then [] # split_on sep s else (c # hd (split_on sep s)) # tl (split_on sep s))"

fun json_get :: "string \<Rightarrow> json \<Rightarrow> json option" where
  "json_get k (JObject kvs) = map_of kvs k"
| "json_get k _ = None"

definition find_attribute :: "'d dec_lib \<Rightarrow> 'd json_lib \<Rightarrow> json \<Rightarrow> string \<Rightarrow> 'd option" where
  "find_attribute D J j path =
     (case fold (\<lambda>part cur. Option.bind cur (json_get part)) (split_on (CHR ''.'') path) (Some j) of
        Some (JNumber (Some i) _) \<Rightarrow> Some (jl_i64 J i)
      | Some (JNumber None literal) \<Rightarrow> jl_f64 J literal
      | Some (JText t) \<Rightarrow> d_from_str D t
      | _ \<Rightarrow> None)"

definition extra_json :: "'d json_lib \<Rightarrow> nft_metadata option \<Rightarrow> json" where
  "extra_json J metadata =
     (let text = (case Option.bind metadata nm_extra of None \<Rightarrow> ''{}'' | Some t \<Rightarrow> t) in
      case jl_parse J text of Some j \<Rightarrow> j | None \<Rightarrow> JObject [])"

definition attribute_product :: "'d dec_lib \<Rightarrow> 'd json_lib \<Rightarrow> json \<Rightarrow> 'd \<Rightarrow> string \<Rightarrow> 'd gate" where
  "attribute_product D J extra product name =
     rbind (ok_or (find_attribute D J extra name)
       (Fail (''Attribute '' @ quoted name @ '' not found in NFT metadata extra''))) (\<lambda>val.
     uncaught (dec_mul D product val))"

text \<open>\<open>a * n / d\<close> with the operators of the crate.\<close>

definition scale_by :: "'d dec_lib \<Rightarrow> 'd \<Rightarrow> nat \<Rightarrow> nat \<Rightarrow> 'd gate" where
  "scale_by D a n d = rbind (uncaught (dec_mul D a (d_of_nat D n))) (\<lambda>x. uncaught (dec_div D x (d_of_nat D d)))"

fun evaluate_formula ::
  "'d dec_lib \<Rightarrow> (string \<Rightarrow> string) \<Rightarrow> 'd json_lib \<Rightarrow> mint_formula \<Rightarrow> u64 \<Rightarrow> nft_metadata option \<Rightarrow> 'd gate" where
  "evaluate_formula D de J (FixedRate num den) count metadata =
     (if den = 0 then Inl (Fail ''FixedRate: rate_denominator is zero'')
      else rbind (scale_by D (d_of_nat D (unat count)) (unat num) (unat den)) (\<lambda>r. Inr (d_round_dp D r 8)))"
| "evaluate_formula D de J (AttributeFormula names divisor) count metadata =
     (if divisor = 0 then Inl (Fail ''AttributeFormula: divisor is zero'')
      else
        rbind (try_fold (attribute_product D J (extra_json J metadata)) (d_of_nat D 1) names) (\<lambda>product.
        rbind (scale_by D product (unat count) (unat divisor)) (\<lambda>r. Inr (d_round_dp D r 8))))"
| "evaluate_formula D de J (MintFixedAmount amount) count metadata =
     rbind (ok_or (d_from_str D amount) (Fail (''FixedAmount: invalid amount '' @ quoted amount @ '': '' @ de amount))) (\<lambda>per_item.
     rbind (uncaught (dec_mul D per_item (d_of_nat D (unat count)))) (\<lambda>r. Inr (d_round_dp D r 8)))"

fun evaluate_transfer_formula ::
  "'d dec_lib \<Rightarrow> (string \<Rightarrow> string) \<Rightarrow> transfer_fee_formula \<Rightarrow> 'd \<Rightarrow> 'd gate" where
  "evaluate_transfer_formula D de (PercentageBps rate_bps) amount =
     (if 10000 < rate_bps then Inl (Fail (''PercentageBps: rate_bps '' @ show_nat (unat rate_bps) @ '' exceeds 100%''))
      else rbind (scale_by D amount (unat rate_bps) 10000) (\<lambda>fee. Inr (d_round_dp D fee 8)))"
| "evaluate_transfer_formula D de (FeeFixedAmount fixed) amount =
     rbind (ok_or (d_from_str D fixed) (Fail (''FixedAmount: invalid amount '' @ quoted fixed @ '': '' @ de fixed))) (\<lambda>fee.
     if d_lt D fee (d_zero D) then Inl (Fail (''FixedAmount: negative fee '' @ quoted fixed))
     else Inr (d_round_dp D fee 8))"

text \<open>A formula that fails is logged and yields nothing; a panic is not caught.\<close>

definition or_nothing :: "'a list gate \<Rightarrow> 'a list gate" where
  "or_nothing r = (case r of Inl (Crash p) \<Rightarrow> Inl (Crash p) | Inl _ \<Rightarrow> Inr [] | Inr xs \<Rightarrow> Inr xs)"

subsection \<open>Transfers\<close>

record 'd transfer_fee_result =
  tr_contract_id :: string
  tr_contract_name :: string
  tr_beneficiary_address :: string
  tr_fee_amount :: 'd

definition split_result :: "'d dec_lib \<Rightarrow> contract \<Rightarrow> transfer_fee_split \<Rightarrow> 'd \<Rightarrow> 'd transfer_fee_result list" where
  "split_result D c split amount =
     (if d_lt D (d_zero D) amount then
        [\<lparr>tr_contract_id = ct_contract_id c, tr_contract_name = ct_name c,
          tr_beneficiary_address = sp_address split, tr_fee_amount = amount\<rparr>]
      else [])"

fun split_fee ::
  "'d dec_lib \<Rightarrow> contract \<Rightarrow> 'd \<Rightarrow> 'd \<Rightarrow> transfer_fee_split list \<Rightarrow> 'd transfer_fee_result list gate" where
  "split_fee D c total_fee distributed [] = Inr []"
| "split_fee D c total_fee distributed [split] =
     rbind (uncaught (dec_sub D total_fee distributed)) (\<lambda>r. Inr (split_result D c split (d_round_dp D r 8)))"
| "split_fee D c total_fee distributed (split # next_split # splits) =
     rbind (scale_by D total_fee (unat (sp_share_bps split)) 10000) (\<lambda>x.
     let a = d_round_dp D x 8 in
     rbind (uncaught (dec_add D distributed a)) (\<lambda>distributed'.
     rbind (split_fee D c total_fee distributed' (next_split # splits)) (\<lambda>rest.
     Inr (split_result D c split a @ rest))))"

fun transfer_action ::
  "'d dec_lib \<Rightarrow> (string \<Rightarrow> string) \<Rightarrow> 'd \<Rightarrow> contract \<Rightarrow> contract_action \<Rightarrow> 'd transfer_fee_result list gate" where
  "transfer_action D de amount c (TransferFee formula splits) =
     or_nothing (rbind (evaluate_transfer_formula D de formula amount) (\<lambda>total_fee.
       if d_lt D (d_zero D) total_fee \<and> splits \<noteq> [] then split_fee D c total_fee (d_zero D) splits else Inr []))"
| "transfer_action D de amount c _ = Inr []"

definition over_contracts :: "(contract \<Rightarrow> contract_action \<Rightarrow> 'a list gate) \<Rightarrow> string + contract list \<Rightarrow> 'a list gate" where
  "over_contracts f found =
     (case found of Inl _ \<Rightarrow> Inr [] | Inr cs \<Rightarrow> try_concat (\<lambda>c. try_concat (f c) (ct_actions c)) cs)"

definition evaluate_transfer ::
  "'d dec_lib \<Rightarrow> (string \<Rightarrow> string) \<Rightarrow> 's contract_ops \<Rightarrow> 's \<Rightarrow> string \<Rightarrow> string option \<Rightarrow> 'd
   \<Rightarrow> 'd transfer_fee_result list gate" where
  "evaluate_transfer D de ops s ledger_id asset_id transfer_amount =
     over_contracts (transfer_action D de transfer_amount) (cx_find_transfer ops asset_id ledger_id s)"

subsection \<open>Burns\<close>

definition arrow :: string where
  "arrow = [CHR 0xE2, CHR 0x86, CHR 0x92]"

definition asset_name :: "string option \<Rightarrow> string" where
  "asset_name asset_id = (case asset_id of None \<Rightarrow> ''PMS'' | Some a \<Rightarrow> a)"

definition contract_label :: "contract \<Rightarrow> string" where
  "contract_label c = ''Contract '' @ quoted (ct_name c) @ '' v'' @ show_nat (unat (ct_version c)) @ '': ''"

record 'd contract_result =
  cr_contract_id :: string
  cr_contract_name :: string
  cr_refund_address :: string
  cr_refund_amount :: 'd
  cr_asset_id :: "string option"
  cr_details :: string

definition refund_result ::
  "'d dec_lib \<Rightarrow> contract \<Rightarrow> string \<Rightarrow> u64 \<Rightarrow> string option \<Rightarrow> 'd \<Rightarrow> 'd contract_result list" where
  "refund_result D c burner count asset_id amount =
     (if d_lt D (d_zero D) amount then
        [\<lparr>cr_contract_id = ct_contract_id c, cr_contract_name = ct_name c, cr_refund_address = burner,
          cr_refund_amount = amount, cr_asset_id = asset_id,
          cr_details = contract_label c @ show_nat (unat count) @ '' NFT(s) burned '' @ arrow @ '' '' @ d_show D amount @
            '' '' @ asset_name asset_id @ '' refund''\<rparr>]
      else [])"

fun burn_action ::
  "'d dec_lib \<Rightarrow> (string \<Rightarrow> string) \<Rightarrow> 'd json_lib \<Rightarrow> string \<Rightarrow> nft_metadata option \<Rightarrow> u64
   \<Rightarrow> contract \<Rightarrow> contract_action \<Rightarrow> 'd contract_result list gate" where
  "burn_action D de J burner metadata count c (AccumulateRefund asset_id formula) =
     or_nothing (rbind (evaluate_formula D de J formula count metadata) (\<lambda>amount.
       Inr (refund_result D c burner count asset_id amount)))"
| "burn_action D de J burner metadata count c _ = Inr []"

definition evaluate_nft_burn ::
  "'d dec_lib \<Rightarrow> (string \<Rightarrow> string) \<Rightarrow> 'd json_lib \<Rightarrow> 's contract_ops \<Rightarrow> 's \<Rightarrow> string \<Rightarrow> string \<Rightarrow> string option
   \<Rightarrow> nft_metadata option \<Rightarrow> u64 \<Rightarrow> 'd contract_result list gate" where
  "evaluate_nft_burn D de J ops s ledger_id burner nft_type metadata token_count =
     over_contracts (burn_action D de J burner metadata token_count) (cx_find_nft_burn ops nft_type ledger_id s)"

record 'd mint_native_result =
  mr_contract_id :: string
  mr_contract_name :: string
  mr_recipient :: string
  mr_amount :: 'd
  mr_details :: string

definition mint_native_result ::
  "'d dec_lib \<Rightarrow> contract \<Rightarrow> string \<Rightarrow> string \<Rightarrow> 'd \<Rightarrow> u64 \<Rightarrow> u64 \<Rightarrow> 'd \<Rightarrow> 'd mint_native_result list" where
  "mint_native_result D c burner asset_id burn_amount num den amount =
     (if d_lt D (d_zero D) amount then
        [\<lparr>mr_contract_id = ct_contract_id c, mr_contract_name = ct_name c, mr_recipient = burner, mr_amount = amount,
          mr_details = contract_label c @ d_show D burn_amount @ '' '' @ asset_id @ '' burned '' @ arrow @ '' '' @
            d_show D amount @ '' PMS mint (R='' @ show_nat (unat num) @ ''/'' @ show_nat (unat den) @ '')''\<rparr>]
      else [])"

fun token_burn_action ::
  "'d dec_lib \<Rightarrow> string \<Rightarrow> string \<Rightarrow> 'd \<Rightarrow> contract \<Rightarrow> contract_action \<Rightarrow> 'd mint_native_result list gate" where
  "token_burn_action D burner asset_id burn_amount c (MintNative num den) =
     (if den = 0 then Inr []
      else rbind (scale_by D burn_amount (unat num) (unat den)) (\<lambda>r.
        Inr (mint_native_result D c burner asset_id burn_amount num den (d_round_dp D r 8))))"
| "token_burn_action D burner asset_id burn_amount c _ = Inr []"

definition evaluate_token_burn ::
  "'d dec_lib \<Rightarrow> 's contract_ops \<Rightarrow> 's \<Rightarrow> string \<Rightarrow> string \<Rightarrow> string \<Rightarrow> 'd \<Rightarrow> 'd mint_native_result list gate" where
  "evaluate_token_burn D ops s ledger_id burner asset_id burn_amount =
     over_contracts (token_burn_action D burner asset_id burn_amount) (cx_find_token_burn ops asset_id ledger_id s)"

subsection \<open>What a transfer is charged\<close>

definition share_of :: "rat \<Rightarrow> transfer_fee_split \<Rightarrow> rat" where
  "share_of tf split = round8 (tf * of_nat (unat (sp_share_bps split)) / 10000)"

definition collected :: "('d \<Rightarrow> rat) \<Rightarrow> 'd transfer_fee_result list \<Rightarrow> rat" where
  "collected v rs = sum_list (map (v \<circ> tr_fee_amount) rs)"

lemma round_dp_8: "dec_laws D v \<Longrightarrow> v (d_round_dp D x 8) = round8 (v x)"
  by (simp add: dec_laws_round round8_def)

lemma scale_by_bps:
  assumes L: "dec_laws D v" and a: "at_scale 8 (v a)" "0 \<le> v a" "v a \<le> 10 ^ 16" and n: "n \<le> 10000"
  obtains x where "scale_by D a n 10000 = Inr x" "v x = v a * of_nat n / 10000"
proof -
  have le: "(of_nat n :: rat) \<le> 10000" using of_nat_mono [OF n, where 'a = rat] by simp
  have p: "v a * of_nat n \<le> 10 ^ 16 * 10000" by (rule mult_mono [OF a(3) le]) simp_all
  have z: "0 \<le> v a * of_nat n" using a(2) by simp
  have sp: "at_scale 8 (v a * of_nat n)" by (rule at_scale_nat_mult [OF a(1)])
  then obtain k where k: "v a * of_nat n = of_int k / 10 ^ 8" by (auto simp: at_scale_def)
  have "v a * of_nat n / 10000 = of_int k / 10 ^ 12" unfolding k by simp
  then have sq: "at_scale 12 (v a * of_nat n / 10000)" unfolding at_scale_def by blast
  have "v a * of_nat n / 10000 \<le> 10 ^ 16" "0 \<le> v a * of_nat n / 10000" using p z by simp_all
  then have "\<bar>v a * of_nat n / 10000\<bar> < 2 ^ 96 / 10 ^ 12" by (subst abs_of_nonneg) (simp_all add: mult.commute)
  then have rq: "dec_repr (v a * of_nat n / 10000)" by (intro dec_repr_at_scale [OF sq]) simp_all
  have vals: "v (d_of_nat D n) = of_nat n" "v (d_of_nat D 10000) = 10000"
    using dec_laws_of_nat [OF L, of n] dec_laws_of_nat [OF L, of 10000] n by simp_all
  obtain y where y: "d_checked_mul D a (d_of_nat D n) = Some y" "v y = v a * of_nat n"
    using dec_laws_mul [OF L, of a "d_of_nat D n"] dec_repr_at_scale [OF sp] p z vals by auto
  obtain x where "d_checked_div D y (d_of_nat D 10000) = Some x" "v x = v a * of_nat n / 10000"
    using dec_laws_div [OF L, of "d_of_nat D 10000" y] rq vals y(2) by auto
  then show thesis using y(1) by (intro that [of x]) (simp_all add: scale_by_def dec_mul_def dec_div_def)
qed

lemma collected_split_result:
  "dec_laws D v \<Longrightarrow> collected v (split_result D c split a) = max 0 (v a)"
  by (auto simp: collected_def split_result_def dec_laws_lt dec_laws_zero)

lemma collected_append: "collected v (rs @ rs') = collected v rs + collected v rs'"
  by (simp add: collected_def)

lemma split_result_pos: "dec_laws D v \<Longrightarrow> r \<in> set (split_result D c split a) \<Longrightarrow> 0 < v (tr_fee_amount r)"
  by (auto simp: split_result_def dec_laws_lt dec_laws_zero split: if_splits)

lemma share_of_nonneg: "0 \<le> tf \<Longrightarrow> 0 \<le> share_of tf split"
  by (simp add: share_of_def round8_nonneg del: of_nat_unat)

lemma share_of_0: "sum_list (map (share_of 0) splits) = 0"
  by (induction splits) (simp_all add: share_of_def)

lemma split_fee_Cons:
  "splits \<noteq> [] \<Longrightarrow> split_fee D c tf given (split # splits) =
     rbind (scale_by D tf (unat (sp_share_bps split)) 10000) (\<lambda>x.
     let a = d_round_dp D x 8 in
     rbind (uncaught (dec_add D given a)) (\<lambda>given'.
     rbind (split_fee D c tf given' splits) (\<lambda>rest. Inr (split_result D c split a @ rest))))"
  by (cases splits) simp_all

lemma split_fee_sum:
  assumes L: "dec_laws D v" and T: "at_scale 8 (v tf)" "0 \<le> v tf" "v tf \<le> 10 ^ 16"
    and "at_scale 8 (v given)" "0 \<le> v given" and "splits \<noteq> []" and "\<forall>s\<in>set splits. unat (sp_share_bps s) \<le> 10000"
    and "v given + sum_list (map (share_of (v tf)) (butlast splits)) \<le> 10 ^ 18"
  shows "\<exists>rs. split_fee D c tf given splits = Inr rs \<and> (\<forall>r\<in>set rs. 0 < v (tr_fee_amount r)) \<and>
    collected v rs = max (v tf - v given) (sum_list (map (share_of (v tf)) (butlast splits)))"
  using assms(5-)
proof (induction splits arbitrary: given)
  case (Cons split splits)
  show ?case
  proof (cases "splits = []")
    case True
    have s: "at_scale 8 (v tf - v given)" by (rule at_scale_diff [OF T(1) Cons.prems(1)])
    have "\<bar>v tf - v given\<bar> < 2 ^ 96 / 10 ^ 8" using T Cons.prems by (auto simp: True abs_if)
    then obtain r where r: "dec_sub D tf given = Inr r" "v r = v tf - v given"
      using dec_sub_exact [OF L T(1) Cons.prems(1)] by metis
    then have "v (d_round_dp D r 8) = v tf - v given" using s by (simp add: round_dp_8 [OF L] round8_id)
    then show ?thesis using r(1) split_result_pos [OF L] by (auto simp: True collected_split_result [OF L])
  next
    case False
    have n: "unat (sp_share_bps split) \<le> 10000" using Cons.prems by simp
    obtain x where x: "scale_by D tf (unat (sp_share_bps split)) 10000 = Inr x"
      "v x = v tf * of_nat (unat (sp_share_bps split)) / 10000" using scale_by_bps [OF L T n] .
    define a where "a = d_round_dp D x 8"
    have va: "v a = share_of (v tf) split" by (simp add: a_def round_dp_8 [OF L] x(2) share_of_def)
    have a0: "0 \<le> v a" using share_of_nonneg [OF T(2)] by (simp add: va)
    have sa: "at_scale 8 (v a)" by (simp add: va share_of_def)
    have rest0: "0 \<le> sum_list (map (share_of (v tf)) (butlast splits))"
      by (rule sum_list_nonneg) (use share_of_nonneg [OF T(2)] in auto)
    have bound: "v given + v a + sum_list (map (share_of (v tf)) (butlast splits)) \<le> 10 ^ 18"
      using Cons.prems(5) False by (simp add: va)
    have sd: "at_scale 8 (v given + v a)" by (rule at_scale_add [OF Cons.prems(1) sa])
    have "\<bar>v given + v a\<bar> < 2 ^ 96 / 10 ^ 8" using bound rest0 a0 Cons.prems(2) by (auto simp: abs_if)
    then obtain d where d: "dec_add D given a = Inr d" "v d = v given + v a"
      using dec_laws_add [OF L repr8 [OF sd]] by (auto simp: dec_add_def)
    have "\<exists>rs. split_fee D c tf d splits = Inr rs \<and> (\<forall>r\<in>set rs. 0 < v (tr_fee_amount r)) \<and>
        collected v rs = max (v tf - v d) (sum_list (map (share_of (v tf)) (butlast splits)))"
      by (rule Cons.IH) (use Cons.prems False bound a0 sd d(2) in auto)
    then obtain rs where rs: "split_fee D c tf d splits = Inr rs" "\<forall>r\<in>set rs. 0 < v (tr_fee_amount r)"
      "collected v rs = max (v tf - v d) (sum_list (map (share_of (v tf)) (butlast splits)))" by blast
    have "split_fee D c tf given (split # splits) = Inr (split_result D c split a @ rs)"
      using x(1) d(1) rs(1) by (simp add: split_fee_Cons [OF False] Let_def flip: a_def)
    moreover have "collected v (split_result D c split a @ rs) =
        max (v tf - v given) (sum_list (map (share_of (v tf)) (butlast (split # splits))))"
      using False a0 rs(3) d(2) va by (simp add: collected_append collected_split_result [OF L])
    ultimately show ?thesis using rs(2) split_result_pos [OF L] by auto
  qed
qed simp

lemma shares_bound:
  assumes "splits \<noteq> []" and "0 \<le> tf"
  shows "sum_list (map (share_of tf) (butlast splits)) \<le>
    tf * of_nat (sum_list (map (unat \<circ> sp_share_bps) splits)) / 10000 + of_nat (length splits - 1) / (2 * 10 ^ 8)"
  using assms(1)
proof (induction splits)
  case (Cons s splits)
  show ?case
  proof (cases "splits = []")
    case True
    then show ?thesis using assms(2) by (simp del: of_nat_unat)
  next
    case False
    have "share_of tf s \<le> tf * of_nat (unat (sp_share_bps s)) / 10000 + 1 / (2 * 10 ^ 8)"
      unfolding share_of_def using round8_error [of "tf * of_nat (unat (sp_share_bps s)) / 10000"] by linarith
    moreover have "(of_nat (length (s # splits) - 1) :: rat) = of_nat (length splits - 1) + 1" using False by (cases splits) simp_all
    moreover have "tf * of_nat (sum_list (map (unat \<circ> sp_share_bps) (s # splits))) / 10000 =
        tf * of_nat (unat (sp_share_bps s)) / 10000 + tf * of_nat (sum_list (map (unat \<circ> sp_share_bps) splits)) / 10000"
      by (simp add: algebra_simps add_divide_distrib)
    moreover have "sum_list (map (share_of tf) (butlast (s # splits))) = share_of tf s + sum_list (map (share_of tf) (butlast splits))"
      using False by simp
    ultimately show ?thesis using Cons.IH [OF False] by (simp only: add_divide_distrib)
  qed
qed simp

lemma few_splits:
  "\<forall>s\<in>set splits. 0 < sp_share_bps s \<Longrightarrow> length splits \<le> sum_list (map (unat \<circ> sp_share_bps) splits)"
proof (induction splits)
  case (Cons s splits)
  then have "0 < unat (sp_share_bps s)" by (auto simp: unat_gt_0)
  with Cons show ?case by simp
qed simp

lemma transfer_fee_parts:
  assumes L: "dec_laws D v" and A: "at_scale 8 (v amount)" "0 \<le> v amount" "v amount \<le> 10 ^ 16" and rate: "unat rate \<le> 10000"
    and splits: "splits \<noteq> []" "\<forall>s\<in>set splits. 0 < sp_share_bps s" "sum_list (map (unat \<circ> sp_share_bps) splits) = 10000"
  defines "fee \<equiv> round8 (v amount * of_nat (unat rate) / 10000)"
  shows "\<exists>rs. transfer_action D de amount c (TransferFee (PercentageBps rate) splits) = Inr rs \<and>
    (\<forall>r\<in>set rs. 0 < v (tr_fee_amount r)) \<and>
    collected v rs = max fee (sum_list (map (share_of fee) (butlast splits))) \<and>
    fee \<le> collected v rs \<and> collected v rs \<le> fee + of_nat (length splits - 1) / (2 * 10 ^ 8)"
proof -
  obtain x where x: "scale_by D amount (unat rate) 10000 = Inr x" "v x = v amount * of_nat (unat rate) / 10000"
    using scale_by_bps [OF L A rate] .
  define tf where "tf = d_round_dp D x 8"
  have vt: "v tf = fee" by (simp add: tf_def round_dp_8 [OF L] x(2) fee_def)
  have r: "\<not> 10000 < rate" using rate by (simp add: word_less_nat_alt)
  have f0: "0 \<le> fee" unfolding fee_def using A(2) by (simp add: round8_nonneg del: of_nat_unat)
  have "v amount * of_nat (unat rate) / 10000 \<le> v amount"
    using mult_left_mono [OF of_nat_mono [OF rate, where 'a = rat] A(2)] by simp
  then have "fee \<le> round8 (v amount)" unfolding fee_def by (rule round8_mono)
  then have f1: "fee \<le> 10 ^ 16" using A by (simp add: round8_id)
  have S: "sum_list (map (share_of fee) (butlast splits)) \<le> fee + of_nat (length splits - 1) / (2 * 10 ^ 8)"
    using shares_bound [OF splits(1) f0] splits(3) by simp
  have few: "length splits - 1 \<le> 10000" using few_splits [OF splits(2)] splits(3) by simp
  have each: "unat (sp_share_bps s) \<le> 10000" if "s \<in> set splits" for s
    using member_le_sum_list [of "unat (sp_share_bps s)" "map (unat \<circ> sp_share_bps) splits"] that splits(3) by force
  have action: "transfer_action D de amount c (TransferFee (PercentageBps rate) splits) =
      (if 0 < fee then or_nothing (split_fee D c tf (d_zero D) splits) else Inr [])"
    using x(1) r splits(1) vt by (simp add: dec_laws_lt [OF L] dec_laws_zero [OF L] or_nothing_def flip: tf_def)
  show ?thesis
  proof (cases "0 < fee")
    case True
    have "of_nat (length splits - 1) / (2 * 10 ^ 8 :: rat) \<le> 1" using of_nat_mono [OF few, where 'a = rat] by simp
    then have "\<exists>rs. split_fee D c tf (d_zero D) splits = Inr rs \<and> (\<forall>r\<in>set rs. 0 < v (tr_fee_amount r)) \<and>
        collected v rs = max (v tf - v (d_zero D)) (sum_list (map (share_of (v tf)) (butlast splits)))"
      by (intro split_fee_sum [OF L]) (use splits(1) each f0 f1 S in \<open>auto simp: vt dec_laws_zero [OF L] fee_def\<close>)
    then obtain rs where rs: "split_fee D c tf (d_zero D) splits = Inr rs" "\<forall>r\<in>set rs. 0 < v (tr_fee_amount r)"
      "collected v rs = max fee (sum_list (map (share_of fee) (butlast splits)))" by (auto simp: vt dec_laws_zero [OF L])
    then show ?thesis using True S unfolding action by (intro exI [of _ rs]) (simp add: or_nothing_def)
  next
    case False
    then have "fee = 0" using f0 by simp
    then show ?thesis unfolding action by (simp add: collected_def share_of_0)
  qed
qed


definition sample_contract :: contract where
  "sample_contract = \<lparr>ct_contract_id = ''i'', ct_name = ''n'', ct_scope = Global, ct_trigger = OnTransfer None,
     ct_actions = [], ct_enabled = True, ct_version = 1\<rparr>"


text \<open>The excess is real: a fee of three units in six shares is charged five.\<close>

definition six_shares :: "transfer_fee_split list" where
  "six_shares = replicate 5 \<lparr>sp_address = ''a'', sp_share_bps = 1667\<rparr> @ [\<lparr>sp_address = ''b'', sp_share_bps = 1665\<rparr>]"

lemma six_shares_overcharge:
  "\<exists>rs. transfer_action ref_dec id (3, 8) c (TransferFee (PercentageBps 10000) six_shares) = Inr rs \<and>
     collected ref_val rs = 5 / 10 ^ 8"
proof -
  have v: "ref_val (3, 8) = 3 / 10 ^ 8" by (simp add: ref_val_def)
  have "at_scale 8 (3 / 10 ^ 8)" unfolding at_scale_def by (rule exI [of _ 3]) simp
  then have r: "round8 (3 / 10 ^ 8 * of_nat (unat (10000 :: u32)) / 10000) = 3 / 10 ^ 8" by (simp add: round8_id)
  have "\<lfloor>5001 / 10000 :: rat\<rfloor> = 0" by (rule floor_unique) simp_all
  then have "half_even (5001 / 10000) = 1" by (simp add: half_even_def)
  then have "share_of (3 / 10 ^ 8) \<lparr>sp_address = ''a'', sp_share_bps = 1667\<rparr> = 1 / 10 ^ 8" by (simp add: share_of_def round8_def)
  then have S: "sum_list (map (share_of (3 / 10 ^ 8)) (butlast six_shares)) = 5 / 10 ^ 8" by (simp add: six_shares_def sum_list_replicate)
  have ok: "six_shares \<noteq> []" "\<forall>s\<in>set six_shares. 0 < sp_share_bps s" "sum_list (map (unat \<circ> sp_share_bps) six_shares) = 10000"
    by (simp_all add: six_shares_def sum_list_replicate)
  have A: "at_scale 8 (ref_val (3, 8))" "0 \<le> ref_val (3, 8)" "ref_val (3, 8) \<le> 10 ^ 16" "unat (10000 :: u32) \<le> 10000"
    using \<open>at_scale 8 (3 / 10 ^ 8)\<close> by (simp_all add: v)
  from transfer_fee_parts [OF ref_dec_laws A ok, of id c]
  obtain rs where rs: "transfer_action ref_dec id (3, 8) c (TransferFee (PercentageBps 10000) six_shares) = Inr rs"
    "collected ref_val rs = max (3 / 10 ^ 8) (5 / 10 ^ 8)" unfolding v r S by (elim exE conjE) (rule that)
  then show ?thesis by (intro exI [of _ rs]) simp
qed

end
