(* ===== verification/ContractAdmin.thy ===== *)
theory ContractAdmin
  imports ContractEngine ExtLib
begin

section \<open>Administration and dry runs of contracts\<close>

text \<open>
  The handlers of \<open>pms-server/src/api_fn/contracts.rs\<close>, \<open>ContractAction::validate\<close> of
  \<open>pms-types-contract\<close> and \<open>simulate_contract\<close> of \<open>pms-contracts/src/engine.rs\<close>. A handler answers with a
  status and, on success, the contract it stored; the fee of a deployment and the JSON of the answer are
  left out. Sums of \<open>u32\<close> wrap, as in a release build.
\<close>

subsection \<open>Validation\<close>

fun check_splits :: "nat \<Rightarrow> transfer_fee_split list \<Rightarrow> string + unit" where
  "check_splits i [] = Inr ()"
| "check_splits i (split # splits) =
     (if sp_share_bps split = 0 then Inl (''TransferFee: split['' @ show_nat i @ ''] has zero share_bps'')
      else if trim (sp_address split) = [] then Inl (''TransferFee: split['' @ show_nat i @ ''] has empty address'')
      else check_splits (i + 1) splits)"

fun validate_action :: "contract_action \<Rightarrow> string + unit" where
  "validate_action (TransferFee formula splits) =
     (if splits = [] then Inl ''TransferFee: splits cannot be empty''
      else let t = sum_list (map sp_share_bps splits) in
        if t \<noteq> 10000 then Inl (''TransferFee: splits share_bps must sum to 10000, got '' @ show_nat (unat t))
        else check_splits 0 splits)"
| "validate_action (MintNative num den) =
     (if den = 0 then Inl ''MintNative: rate_denominator must be non-zero''
      else if num = 0 then Inl ''MintNative: rate_numerator must be > 0''
      else Inr ())"
| "validate_action (AccumulateRefund asset_id formula) =
     (if asset_id = None then
        Inl (''AccumulateRefund: native PMS (asset_id=None) refunds are not allowed '' @ [CHR 0xE2, CHR 0x80, CHR 0x94] @
          '' native issuance is gated by EmissionGate; use a custom asset'')
      else Inr ())"
| "validate_action (EmitEvent event_type) = Inr ()"

fun validate_actions :: "nat \<Rightarrow> contract_action list \<Rightarrow> string + unit" where
  "validate_actions i [] = Inr ()"
| "validate_actions i (a # as) =
     (case validate_action a of
        Inl e \<Rightarrow> Inl (''action['' @ show_nat i @ '']: '' @ e)
      | Inr _ \<Rightarrow> validate_actions (i + 1) as)"

subsection \<open>Handlers\<close>

type_synonym 'a reply = "(nat \<times> string) + 'a"

record register_request =
  rq_name :: string
  rq_scope :: contract_scope
  rq_trigger :: contract_trigger
  rq_actions :: "contract_action list"
  rq_enabled :: bool

record update_request =
  uq_scope :: "contract_scope option"
  uq_actions :: "contract_action list option"
  uq_enabled :: "bool option"

type_synonym contract_text = "string \<Rightarrow> contract_trigger \<Rightarrow> contract_action list \<Rightarrow> string"

definition contract_id_of :: "ext_lib \<Rightarrow> contract_text \<Rightarrow> register_request \<Rightarrow> string" where
  "contract_id_of X J req = x_hex_encode X (x_sha256 X (J (rq_name req) (rq_trigger req) (rq_actions req)))"

definition check_request :: "register_request \<Rightarrow> unit reply" where
  "check_request req =
     (if trim (rq_name req) = [] then Inl (400, ''name cannot be empty'')
      else if rq_actions req = [] then Inl (400, ''at least one action required'')
      else (case validate_actions 0 (rq_actions req) of Inl e \<Rightarrow> Inl (400, e) | Inr _ \<Rightarrow> Inr ()))"

definition requested_contract :: "ext_lib \<Rightarrow> contract_text \<Rightarrow> register_request \<Rightarrow> bool \<Rightarrow> contract" where
  "requested_contract X J req enabled =
     \<lparr>ct_contract_id = contract_id_of X J req, ct_name = rq_name req, ct_scope = rq_scope req, ct_trigger = rq_trigger req,
      ct_actions = rq_actions req, ct_enabled = enabled, ct_version = 1\<rparr>"

definition register_contract ::
  "ext_lib \<Rightarrow> contract_text \<Rightarrow> 's contract_ops \<Rightarrow> register_request \<Rightarrow> 's \<Rightarrow> contract reply \<times> 's" where
  "register_contract X J ops req s =
     (case check_request req of
        Inl e \<Rightarrow> (Inl e, s)
      | Inr _ \<Rightarrow>
          let c = requested_contract X J req (rq_enabled req) in
          (case cx_put ops c s of
             (Inl e, s') \<Rightarrow> (Inl (500, ''Failed to store contract: '' @ e), s')
           | (Inr _, s') \<Rightarrow> (Inr c, s')))"

definition stored_contract :: "'s contract_ops \<Rightarrow> string \<Rightarrow> 's \<Rightarrow> contract reply" where
  "stored_contract ops contract_id s =
     (case cx_get ops contract_id s of
        Inl e \<Rightarrow> Inl (500, e)
      | Inr None \<Rightarrow> Inl (404, ''Contract not found'')
      | Inr (Some c) \<Rightarrow> Inr c)"

definition toggle_contract :: "'s contract_ops \<Rightarrow> string \<Rightarrow> bool \<Rightarrow> 's \<Rightarrow> unit reply \<times> 's" where
  "toggle_contract ops contract_id enabled s =
     (case stored_contract ops contract_id s of
        Inl e \<Rightarrow> (Inl e, s)
      | Inr _ \<Rightarrow>
          (case cx_set_enabled ops contract_id enabled s of
             (Inl e, s') \<Rightarrow> (Inl (500, ''Failed to toggle: '' @ e), s')
           | (Inr _, s') \<Rightarrow> (Inr (), s')))"

definition check_new_actions :: "contract_action list option \<Rightarrow> unit reply" where
  "check_new_actions new =
     (case new of
        None \<Rightarrow> Inr ()
      | Some actions \<Rightarrow>
          if actions = [] then Inl (400, ''actions cannot be empty'')
          else (case validate_actions 0 actions of Inl e \<Rightarrow> Inl (400, e) | Inr _ \<Rightarrow> Inr ()))"

definition or_else :: "'a option \<Rightarrow> 'a \<Rightarrow> 'a" where
  "or_else a b = (case a of Some x \<Rightarrow> x | None \<Rightarrow> b)"

definition update_contract :: "'s contract_ops \<Rightarrow> string \<Rightarrow> update_request \<Rightarrow> 's \<Rightarrow> contract reply \<times> 's" where
  "update_contract ops contract_id req s =
     (case stored_contract ops contract_id s of
        Inl e \<Rightarrow> (Inl e, s)
      | Inr old \<Rightarrow>
          (case check_new_actions (uq_actions req) of
             Inl e \<Rightarrow> (Inl e, s)
           | Inr _ \<Rightarrow>
               let c = old\<lparr>ct_scope := or_else (uq_scope req) (ct_scope old),
                           ct_actions := or_else (uq_actions req) (ct_actions old),
                           ct_enabled := or_else (uq_enabled req) (ct_enabled old),
                           ct_version := ct_version old + 1\<rparr> in
               (case cx_update ops contract_id c s of
                  (Inl e, s') \<Rightarrow> (Inl (500, ''Failed to update contract: '' @ e), s')
                | (Inr _, s') \<Rightarrow> (Inr c, s'))))"

subsection \<open>Dry runs\<close>

datatype simulation_event =
    SimNftBurn string string "string option" "nft_metadata option" u64
  | SimTransfer string "string option" string
  | SimTokenBurn string string string

fun event_ledger_id :: "simulation_event \<Rightarrow> string" where
  "event_ledger_id (SimNftBurn ledger_id _ _ _ _) = ledger_id"
| "event_ledger_id (SimTransfer ledger_id _ _) = ledger_id"
| "event_ledger_id (SimTokenBurn ledger_id _ _) = ledger_id"

record existing_match =
  em_contract_id :: string
  em_contract_name :: string
  em_version :: u32

record 'd simulation_result =
  sr_matched :: bool
  sr_match_reason :: "string option"
  sr_burn_results :: "'d contract_result list"
  sr_transfer_fee_results :: "'d transfer_fee_result list"
  sr_warnings :: "string list"
  sr_existing :: "existing_match list"

definition no_match :: "string \<Rightarrow> 'd simulation_result" where
  "no_match reason = \<lparr>sr_matched = False, sr_match_reason = Some reason, sr_burn_results = [],
     sr_transfer_fee_results = [], sr_warnings = [], sr_existing = []\<rparr>"

definition debug_text :: "string \<Rightarrow> string" where
  "debug_text s = CHR 0x22 # s @ [CHR 0x22]"

fun debug_list :: "string list \<Rightarrow> string" where
  "debug_list [] = []"
| "debug_list [s] = debug_text s"
| "debug_list (s # t # ss) = debug_text s @ '', '' @ debug_list (t # ss)"

fun debug_scope :: "contract_scope \<Rightarrow> string" where
  "debug_scope Global = ''Global''"
| "debug_scope (LedgerScope ids) = ''Ledger(['' @ debug_list ids @ ''])''"

fun debug_trigger :: "contract_trigger \<Rightarrow> string" where
  "debug_trigger (OnNftBurn t) = ''OnNftBurn { nft_type: '' @ show_debug_string t @ '' }''"
| "debug_trigger (OnTokenBurn a) = ''OnTokenBurn { asset_id: '' @ debug_text a @ '' }''"
| "debug_trigger (OnTransfer a) = ''OnTransfer { asset_id: '' @ show_debug_string a @ '' }''"

fun event_kind :: "simulation_event \<Rightarrow> string" where
  "event_kind (SimNftBurn _ _ _ _ _) = ''NftBurn''"
| "event_kind (SimTransfer _ _ _) = ''Transfer''"
| "event_kind (SimTokenBurn _ _ _) = ''TokenBurn''"

fun trigger_fits :: "contract_trigger \<Rightarrow> simulation_event \<Rightarrow> bool" where
  "trigger_fits (OnNftBurn _) (SimNftBurn _ _ _ _ _) = True"
| "trigger_fits (OnTransfer _) (SimTransfer _ _ _) = True"
| "trigger_fits (OnTokenBurn _) (SimTokenBurn _ _ _) = True"
| "trigger_fits _ _ = False"

definition mint_as_refund :: "'d mint_native_result \<Rightarrow> 'd contract_result" where
  "mint_as_refund r = \<lparr>cr_contract_id = mr_contract_id r, cr_contract_name = mr_contract_name r,
     cr_refund_address = mr_recipient r, cr_refund_amount = mr_amount r, cr_asset_id = None, cr_details = mr_details r\<rparr>"

definition event_amount :: "'d dec_lib \<Rightarrow> (string \<Rightarrow> string) \<Rightarrow> string \<Rightarrow> string \<Rightarrow> 'd gate" where
  "event_amount D de label s =
     ok_or (d_from_str D s) (Fail (''Invalid '' @ label @ '' '' @ quoted s @ '': '' @ de s))"

text \<open>The results of an event on a store: refunds (or mints, shown as refunds) and transfer fees.\<close>

fun run_event ::
  "'d dec_lib \<Rightarrow> (string \<Rightarrow> string) \<Rightarrow> 'd json_lib \<Rightarrow> 's contract_ops \<Rightarrow> 's \<Rightarrow> simulation_event
   \<Rightarrow> ('d contract_result list \<times> 'd transfer_fee_result list) gate" where
  "run_event D de J ops s (SimNftBurn ledger_id burner nft_type metadata token_count) =
     rbind (evaluate_nft_burn D de J ops s ledger_id burner nft_type metadata token_count) (\<lambda>rs. Inr (rs, []))"
| "run_event D de J ops s (SimTransfer ledger_id asset_id transfer_amount) =
     rbind (event_amount D de ''transfer_amount'' transfer_amount) (\<lambda>amount.
     rbind (evaluate_transfer D de ops s ledger_id asset_id amount) (\<lambda>rs. Inr ([], rs)))"
| "run_event D de J ops s (SimTokenBurn ledger_id asset_id burn_amount) =
     rbind (event_amount D de ''burn_amount'' burn_amount) (\<lambda>amount.
     rbind (evaluate_token_burn D ops s ledger_id ''simulation'' asset_id amount) (\<lambda>rs. Inr (map mint_as_refund rs, [])))"

definition own_results ::
  "string \<Rightarrow> 'd contract_result list \<times> 'd transfer_fee_result list \<Rightarrow> 'd contract_result list \<times> 'd transfer_fee_result list" where
  "own_results i = (\<lambda>(burns, fees). (filter (\<lambda>r. cr_contract_id r = i) burns, filter (\<lambda>r. tr_contract_id r = i) fees))"

definition result_ids :: "'d contract_result list \<times> 'd transfer_fee_result list \<Rightarrow> string list" where
  "result_ids = (\<lambda>(burns, fees). map cr_contract_id burns @ map tr_contract_id fees)"

fun dedup_existing_matches :: "string set \<Rightarrow> contract list \<Rightarrow> string list \<Rightarrow> existing_match list" where
  "dedup_existing_matches seen existing [] = []"
| "dedup_existing_matches seen existing (i # ids) =
     (if i \<in> seen then dedup_existing_matches seen existing ids
      else (case find (\<lambda>c. ct_contract_id c = i) existing of
              Some c \<Rightarrow> [\<lparr>em_contract_id = ct_contract_id c, em_contract_name = ct_name c, em_version = ct_version c\<rparr>]
            | None \<Rightarrow> []) @ dedup_existing_matches (insert i seen) existing ids)"

definition ephemeral_store :: "contract list \<Rightarrow> contract \<Rightarrow> contract_map" where
  "ephemeral_store existing candidate =
     snd (cx_put memory_contracts (candidate\<lparr>ct_enabled := True\<rparr>) (fold (\<lambda>c s. snd (cx_put memory_contracts c s)) existing []))"

definition simulate_contract ::
  "'d dec_lib \<Rightarrow> (string \<Rightarrow> string) \<Rightarrow> 'd json_lib \<Rightarrow> 's contract_ops \<Rightarrow> 's \<Rightarrow> contract \<Rightarrow> simulation_event
   \<Rightarrow> 'd simulation_result gate" where
  "simulate_contract D de J ops s candidate event =
     (if \<not> scope_matches (ct_scope candidate) (event_ledger_id event) then
        Inr (no_match (''Contract scope '' @ debug_scope (ct_scope candidate) @ '' does not match event ledger '' @
          debug_text (event_ledger_id event)))
      else if \<not> trigger_fits (ct_trigger candidate) event then
        Inr (no_match (''Contract trigger '' @ debug_trigger (ct_trigger candidate) @ '' does not match event type '' @
          event_kind event))
      else
        (case cx_list ops s of
           Inl e \<Rightarrow> Inl (Fail e)
         | Inr existing \<Rightarrow>
             rbind (run_event D de J memory_contracts (ephemeral_store existing candidate) event) (\<lambda>all.
             rbind (run_event D de J ops s event) (\<lambda>orig.
             let (burns, fees) = own_results (ct_contract_id candidate) all in
             Inr \<lparr>sr_matched = True, sr_match_reason = None, sr_burn_results = burns, sr_transfer_fee_results = fees,
                  sr_warnings = [], sr_existing = dedup_existing_matches {} existing (result_ids orig)\<rparr>))))"

definition simulate_contract_handler ::
  "'d dec_lib \<Rightarrow> (string \<Rightarrow> string) \<Rightarrow> 'd json_lib \<Rightarrow> ext_lib \<Rightarrow> contract_text \<Rightarrow> 's contract_ops \<Rightarrow> 's
   \<Rightarrow> register_request \<Rightarrow> simulation_event \<Rightarrow> 'd simulation_result reply gate" where
  "simulate_contract_handler D de J X T ops s req event =
     (case check_request req of
        Inl e \<Rightarrow> Inr (Inl e)
      | Inr _ \<Rightarrow>
          (case simulate_contract D de J ops s (requested_contract X T req True) event of
             Inr result \<Rightarrow> Inr (Inr result)
           | Inl (Crash p) \<Rightarrow> Inl (Crash p)
           | Inl (Fail e) \<Rightarrow> Inr (Inl (500, ''Simulation failed: '' @ e))
           | Inl (Reject e) \<Rightarrow> Inr (Inl (500, ''Simulation failed: '' @ e))))"

subsection \<open>Validated contracts\<close>

lemma check_splits_ok:
  "check_splits i splits = Inr () \<longleftrightarrow> (\<forall>s\<in>set splits. 0 < sp_share_bps s \<and> trim (sp_address s) \<noteq> [])"
  by (induction i splits rule: check_splits.induct) (auto simp: word_gt_0)

lemma validate_actions_ok: "validate_actions i as = Inr () \<longleftrightarrow> (\<forall>a\<in>set as. validate_action a = Inr ())"
  by (induction i as rule: validate_actions.induct) (auto split: sum.split)

lemma word_sum_unat:
  "sum_list (map (unat \<circ> f) xs) < 2 ^ LENGTH('a) \<Longrightarrow> unat (sum_list (map f xs) :: 'a::len word) = sum_list (map (unat \<circ> f) xs)"
  by (induction xs) (auto simp: unat_word_ariths)

lemma validated_shares:
  assumes "validate_action (TransferFee formula splits) = Inr ()" and "sum_list (map (unat \<circ> sp_share_bps) splits) < 2 ^ 32"
  shows "splits \<noteq> [] \<and> (\<forall>s\<in>set splits. 0 < sp_share_bps s) \<and> sum_list (map (unat \<circ> sp_share_bps) splits) = 10000"
proof -
  have t: "sum_list (map sp_share_bps splits) = (10000 :: u32)" and c: "check_splits 0 splits = Inr ()" "splits \<noteq> []"
    using assms(1) by (auto simp: Let_def split: if_splits)
  have "unat (sum_list (map sp_share_bps splits)) = sum_list (map (unat \<circ> sp_share_bps) splits)"
    by (rule word_sum_unat) (use assms(2) in simp)
  then show ?thesis using t c by (simp add: check_splits_ok)
qed

lemma wrapped_shares_accepted:
  fixes formula :: transfer_fee_formula
  defines "splits \<equiv> [\<lparr>sp_address = ''a'', sp_share_bps = 4294967295\<rparr>, \<lparr>sp_address = ''b'', sp_share_bps = 10001\<rparr>]"
  shows "validate_action (TransferFee formula splits) = Inr ()"
    and "sum_list (map (unat \<circ> sp_share_bps) splits) = 4294977296"
proof -
  have "trim ''a'' \<noteq> []" "trim ''b'' \<noteq> []" by code_simp+
  then show "validate_action (TransferFee formula splits) = Inr ()" by (simp add: splits_def)
  show "sum_list (map (unat \<circ> sp_share_bps) splits) = 4294977296" by (simp add: splits_def)
qed

inductive admin_step :: "ext_lib \<Rightarrow> contract_text \<Rightarrow> contract cf \<Rightarrow> contract cf \<Rightarrow> bool" for X J where
  register: "admin_step X J s (snd (register_contract X J (rocks_contracts F) req s))"
| toggle: "admin_step X J s (snd (toggle_contract (rocks_contracts F) i b s))"
| update: "admin_step X J s (snd (update_contract (rocks_contracts F) i uq s))"

definition validated :: "contract \<Rightarrow> bool" where
  "validated c \<longleftrightarrow> (\<forall>a\<in>set (ct_actions c). validate_action a = Inr ())"

definition contracts_ok :: "contract cf \<Rightarrow> bool" where
  "contracts_ok s \<longleftrightarrow> cf_ok s \<and> (\<forall>i c. cf_get s i = Some c \<longrightarrow> ct_contract_id c = i \<and> validated c)"

lemma contracts_ok_put:
  "contracts_ok s \<Longrightarrow> ct_contract_id c = i \<Longrightarrow> validated c \<Longrightarrow> contracts_ok (snd (rocks_put_contract F i c s))"
  by (auto simp: contracts_ok_def rocks_put_contract_def cf_ok_put cf_get_def map_of_cf_put split: option.split)

lemma register_store:
  "snd (register_contract X J ops req s) =
     (if check_request req = Inr () then snd (cx_put ops (requested_contract X J req (rq_enabled req)) s) else s)"
  by (cases "check_request req"; cases "cx_put ops (requested_contract X J req (rq_enabled req)) s")
    (auto simp: register_contract_def Let_def split: sum.split)

lemma toggle_store:
  "snd (toggle_contract ops i b s) =
     (case stored_contract ops i s of Inl e \<Rightarrow> s | Inr c \<Rightarrow> snd (cx_set_enabled ops i b s))"
  by (cases "cx_set_enabled ops i b s") (auto simp: toggle_contract_def split: sum.split)

definition updated_contract :: "update_request \<Rightarrow> contract \<Rightarrow> contract" where
  "updated_contract req old = old\<lparr>ct_scope := or_else (uq_scope req) (ct_scope old),
     ct_actions := or_else (uq_actions req) (ct_actions old), ct_enabled := or_else (uq_enabled req) (ct_enabled old),
     ct_version := ct_version old + 1\<rparr>"

lemma update_store:
  "snd (update_contract ops i req s) =
     (case stored_contract ops i s of Inl e \<Rightarrow> s
      | Inr old \<Rightarrow> if check_new_actions (uq_actions req) = Inr () then snd (cx_update ops i (updated_contract req old) s) else s)"
proof (cases "stored_contract ops i s")
  case (Inr old)
  then show ?thesis
    by (cases "check_new_actions (uq_actions req)"; cases "cx_update ops i (updated_contract req old) s")
      (auto simp: update_contract_def updated_contract_def Let_def split: sum.split)
qed (simp add: update_contract_def)

lemma stored_under_id:
  "stored_contract (rocks_contracts F) i s = Inr c \<Longrightarrow> cf_get s i = Some c"
  by (auto simp: stored_contract_def rocks_contracts_def split: sum.splits option.splits)

lemma contracts_ok_step:
  assumes ok: "contracts_ok s" and step: "admin_step X J s s'"
  shows "contracts_ok s'"
  using step
proof cases
  case (register F req)
  have "contracts_ok (snd (rocks_put_contract F (contract_id_of X J req) (requested_contract X J req b) s))"
    if "check_request req = Inr ()" for b
    by (rule contracts_ok_put [OF ok])
      (use that in \<open>auto simp: requested_contract_def validated_def validate_actions_ok check_request_def
        split: if_splits sum.splits\<close>)
  then show ?thesis using ok by (simp add: register register_store) (simp add: rocks_contracts_def requested_contract_def)
next
  case (toggle F i b)
  have "contracts_ok (snd (rocks_put_contract F i (c\<lparr>ct_enabled := b\<rparr>) s))" if "cf_get s i = Some c" for c
    by (rule contracts_ok_put [OF ok]) (use ok that in \<open>auto simp: contracts_ok_def validated_def\<close>)
  then have "contracts_ok (snd (rocks_set_enabled F i b s))"
    using ok by (auto simp: rocks_set_enabled_def split: option.split sum.split)
  then show ?thesis using ok by (auto simp: toggle toggle_store rocks_contracts_def split: sum.split)
next
  case (update F i uq)
  have "contracts_ok (snd (rocks_update_contract F i (updated_contract uq old) s))"
    if "cf_get s i = Some old" "check_new_actions (uq_actions uq) = Inr ()" for old
  proof -
    have "ct_contract_id (updated_contract uq old) = i" "validated (updated_contract uq old)"
      using ok that by (auto simp: contracts_ok_def updated_contract_def validated_def or_else_def check_new_actions_def
          validate_actions_ok split: option.splits if_splits sum.splits)
    from contracts_ok_put [OF ok this] show ?thesis
      using ok by (auto simp: rocks_update_contract_def split: sum.split option.split)
  qed
  then show ?thesis using ok stored_under_id
    by (auto simp: update update_store split: sum.split) (auto simp: rocks_contracts_def)
qed

lemma contracts_ok_steps: "(admin_step X J)\<^sup>*\<^sup>* s s' \<Longrightarrow> contracts_ok s \<Longrightarrow> contracts_ok s'"
  by (induction rule: rtranclp_induct) (auto intro: contracts_ok_step)

subsection \<open>No refund in the native coin\<close>

lemma try_concat_ok: "try_concat f xs = Inr ys \<longleftrightarrow> (\<forall>x\<in>set xs. is_ok (f x)) \<and> ys = concat (map (\<lambda>x. projr (f x)) xs)"
  by (induction xs arbitrary: ys) (auto simp: is_ok_iff)

lemma over_contracts_ok:
  "over_contracts f (Inr cs) = Inr rs \<longleftrightarrow> (\<forall>c\<in>set cs. \<forall>a\<in>set (ct_actions c). is_ok (f c a)) \<and>
     rs = concat (map (\<lambda>c. concat (map (\<lambda>a. projr (f c a)) (ct_actions c))) cs)"
proof -
  have "projr (try_concat (f c) as) = concat (map (\<lambda>a. projr (f c a)) as)" if "\<forall>a\<in>set as. is_ok (f c a)" for c as
    using that try_concat_ok [of "f c" as "concat (map (\<lambda>a. projr (f c a)) as)"] by simp
  moreover have "is_ok (try_concat (f c) as) \<longleftrightarrow> (\<forall>a\<in>set as. is_ok (f c a))" for c as
    using try_concat_ok [of "f c" as] by (auto simp: is_ok_iff)
  ultimately show ?thesis by (auto simp: over_contracts_def try_concat_ok cong: map_cong)
qed

lemma burn_action_asset:
  assumes "validate_action a = Inr ()" and "burn_action D de J burner metadata n c a = Inr rs" and "r \<in> set rs"
  shows "cr_asset_id r \<noteq> None"
  using assms by (cases a) (auto simp: or_nothing_def refund_result_def split: sum.splits stop.splits if_splits)


subsection \<open>A dry run shows what registration would do\<close>

lemma by_id_Cons: "by_id (c # cs) = (by_id cs)(ct_contract_id c \<mapsto> c)"
  by (simp add: by_id_def)

lemma by_id_mem: "distinct (map ct_contract_id cs) \<Longrightarrow> c \<in> set cs \<longleftrightarrow> by_id cs (ct_contract_id c) = Some c"
proof -
  assume "distinct (map ct_contract_id cs)"
  then have "distinct (map fst (map (\<lambda>c. (ct_contract_id c, c)) cs))" by (simp add: comp_def)
  from map_of_eq_Some_iff [OF this] show ?thesis by (auto simp: by_id_def)
qed

lemma same_contracts:
  assumes "distinct (map ct_contract_id cs)" "distinct (map ct_contract_id cs')" "by_id cs = by_id cs'"
  shows "set cs = set cs'" and "filter (\<lambda>c. ct_contract_id c = i) cs = filter (\<lambda>c. ct_contract_id c = i) cs'"
  using by_id_mem [OF assms(1)] by_id_mem [OF assms(2)] by_id_filter [OF assms(1)] by_id_filter [OF assms(2)] assms(3) by auto

lemma memory_put: "snd (cx_put memory_contracts c s) = AList.update (ct_contract_id c) c s"
  by (simp add: memory_contracts_def)

lemma ephemeral_entries:
  assumes "distinct (map ct_contract_id cs)"
  shows "contracts_keyed (ephemeral_store cs c) \<and>
    map_of (ephemeral_store cs c) = (by_id cs)(ct_contract_id c \<mapsto> c\<lparr>ct_enabled := True\<rparr>)"
proof -
  have "contracts_keyed (fold (\<lambda>c s. snd (cx_put memory_contracts c s)) cs s) \<and>
      map_of (fold (\<lambda>c s. snd (cx_put memory_contracts c s)) cs s) = map_of s ++ by_id cs"
    if "contracts_keyed s" for s
    using assms that
  proof (induction cs arbitrary: s)
    case (Cons c cs)
    have "by_id cs (ct_contract_id c) = None" using Cons.prems(1) by (auto simp: by_id_def map_of_eq_None_iff)
    then show ?case using Cons keyed_update [OF Cons.prems(2)]
      by (auto simp: memory_put update_conv' by_id_Cons map_add_def fun_eq_iff split: option.split)
  qed (simp add: by_id_def)
  from this [of "[]"] have "contracts_keyed (fold (\<lambda>c s. snd (cx_put memory_contracts c s)) cs [])"
    "map_of (fold (\<lambda>c s. snd (cx_put memory_contracts c s)) cs []) = by_id cs" by (simp_all add: contracts_keyed_def)
  then show ?thesis
    using keyed_update [of "fold (\<lambda>c s. snd (cx_put memory_contracts c s)) cs []" "c\<lparr>ct_enabled := True\<rparr>"]
    by (simp add: ephemeral_store_def memory_put update_conv')
qed

lemma over_contracts_same:
  assumes ids: "\<And>c a r rs. f c a = Inr rs \<Longrightarrow> r \<in> set rs \<Longrightarrow> rid r = ct_contract_id c"
    and same: "set cs = set cs'" "filter (\<lambda>c. ct_contract_id c = i) cs = filter (\<lambda>c. ct_contract_id c = i) cs'"
    and run: "over_contracts f (Inr cs) = Inr rs"
  obtains rs' where "over_contracts f (Inr cs') = Inr rs'" "filter (\<lambda>r. rid r = i) rs' = filter (\<lambda>r. rid r = i) rs"
proof -
  let ?g = "\<lambda>c. concat (map (\<lambda>a. projr (f c a)) (ct_actions c))"
  have ok: "\<forall>c\<in>set cs. \<forall>a\<in>set (ct_actions c). is_ok (f c a)" and rs: "rs = concat (map ?g cs)"
    using run by (simp_all add: over_contracts_ok)
  have own: "rid r = ct_contract_id c" if "c \<in> set cs" "r \<in> set (?g c)" for c r
    using that ok ids by (fastforce simp: is_ok_iff)
  have pick: "filter (\<lambda>r. rid r = i) (concat (map ?g xs)) = concat (map ?g (filter (\<lambda>c. ct_contract_id c = i) xs))"
    if "set xs \<subseteq> set cs" for xs
    using that
  proof (induction xs)
    case (Cons x xs)
    have "filter (\<lambda>r. rid r = i) (?g x) = (if ct_contract_id x = i then ?g x else [])"
      using own [of x] Cons.prems by (auto simp only: filter_id_conv filter_empty_conv split: if_splits) auto
    then show ?case using Cons by simp
  qed simp
  have "over_contracts f (Inr cs') = Inr (concat (map ?g cs'))" using ok same(1) by (simp add: over_contracts_ok)
  moreover have "filter (\<lambda>r. rid r = i) (concat (map ?g cs')) = filter (\<lambda>r. rid r = i) rs"
    using pick [of cs] pick [of cs'] same rs by simp
  ultimately show thesis by (rule that)
qed

lemma result_contract:
  "transfer_action D de amount c a = Inr ts \<Longrightarrow> t \<in> set ts \<Longrightarrow> tr_contract_id t = ct_contract_id c"
  "burn_action D de J burner metadata n c a = Inr rs \<Longrightarrow> r \<in> set rs \<Longrightarrow> cr_contract_id r = ct_contract_id c"
  "token_burn_action D burner b amount c a = Inr ms \<Longrightarrow> m \<in> set ms \<Longrightarrow> mr_contract_id m = ct_contract_id c"
proof -
  have split: "split_fee D c tf given splits = Inr ts \<Longrightarrow> t \<in> set ts \<Longrightarrow> tr_contract_id t = ct_contract_id c" for tf given splits ts
    by (induction D c tf given splits arbitrary: ts rule: split_fee.induct)
      (auto simp: split_result_def Let_def split: if_splits)
  then show "transfer_action D de amount c a = Inr ts \<Longrightarrow> t \<in> set ts \<Longrightarrow> tr_contract_id t = ct_contract_id c"
    by (cases a) (auto simp: or_nothing_def split: sum.splits stop.splits if_splits)
  show "burn_action D de J burner metadata n c a = Inr rs \<Longrightarrow> r \<in> set rs \<Longrightarrow> cr_contract_id r = ct_contract_id c"
    by (cases a) (auto simp: or_nothing_def refund_result_def split: sum.splits stop.splits if_splits)
  show "token_burn_action D burner b amount c a = Inr ms \<Longrightarrow> m \<in> set ms \<Longrightarrow> mr_contract_id m = ct_contract_id c"
    by (cases a) (auto simp: mint_native_result_def split: if_splits)
qed

lemma filter_mints: "filter (\<lambda>r. cr_contract_id r = i) (map mint_as_refund ms) = map mint_as_refund (filter (\<lambda>m. mr_contract_id m = i) ms)"
  by (induction ms) (simp_all add: mint_as_refund_def)

context contract_storage
begin

lemma run_event_agrees:
  assumes a: "ok s" and b: "contracts_keyed m" and same: "map_of m = entries s"
    and run: "run_event D de J memory_contracts m event = Inr all"
  shows "\<exists>res. run_event D de J ops s event = Inr res \<and> own_results i res = own_results i all"
proof -
  obtain cs where cs: "cx_list ops s = Inr cs" "distinct (map ct_contract_id cs)" "by_id cs = entries s"
    using list_entries [OF a] by blast
  obtain ms where ms: "cx_list memory_contracts m = Inr ms" "distinct (map ct_contract_id ms)" "by_id ms = map_of m"
    using memory.list_entries [OF b] by blast
  have eq: "set (filter P ms) = set (filter P cs)" "filter (\<lambda>c. ct_contract_id c = i) (filter P ms) = filter (\<lambda>c. ct_contract_id c = i) (filter P cs)"
    for P
    using same_contracts [OF ms(2) cs(2)] ms(3) cs(3) same found_under_id [OF a cs(1), of i P] memory.found_under_id [OF b ms(1), of i P]
    by simp_all
  show ?thesis
  proof (cases event)
    case (SimNftBurn ledger_id burner nft_type metadata n)
    then obtain rs where rs: "over_contracts (burn_action D de J burner metadata n) (Inr (filter (nft_burn_matches nft_type ledger_id) ms)) = Inr rs"
      "all = (rs, [])" using run ms(1) by (auto simp: evaluate_nft_burn_def memory.find_nft_burn)
    obtain rs' where "over_contracts (burn_action D de J burner metadata n) (Inr (filter (nft_burn_matches nft_type ledger_id) cs)) = Inr rs'"
      "filter (\<lambda>r. cr_contract_id r = i) rs' = filter (\<lambda>r. cr_contract_id r = i) rs"
      by (rule over_contracts_same [where rid = cr_contract_id, OF result_contract(2) eq rs(1)])
    then show ?thesis using rs(2) cs(1) by (simp add: SimNftBurn evaluate_nft_burn_def find_nft_burn own_results_def)
  next
    case (SimTransfer ledger_id asset_id amount)
    then obtain d rs where d: "event_amount D de ''transfer_amount'' amount = Inr d"
      and rs: "over_contracts (transfer_action D de d) (Inr (filter (transfer_matches asset_id ledger_id) ms)) = Inr rs" "all = ([], rs)"
      using run ms(1) by (auto simp: evaluate_transfer_def memory.find_transfer)
    obtain rs' where "over_contracts (transfer_action D de d) (Inr (filter (transfer_matches asset_id ledger_id) cs)) = Inr rs'"
      "filter (\<lambda>r. tr_contract_id r = i) rs' = filter (\<lambda>r. tr_contract_id r = i) rs"
      by (rule over_contracts_same [where rid = tr_contract_id, OF result_contract(1) eq rs(1)])
    then show ?thesis using rs(2) cs(1) d by (simp add: SimTransfer evaluate_transfer_def find_transfer own_results_def)
  next
    case (SimTokenBurn ledger_id asset_id amount)
    then obtain d rs where d: "event_amount D de ''burn_amount'' amount = Inr d"
      and rs: "over_contracts (token_burn_action D ''simulation'' asset_id d) (Inr (filter (token_burn_matches asset_id ledger_id) ms)) = Inr rs"
        "all = (map mint_as_refund rs, [])"
      using run ms(1) by (auto simp: evaluate_token_burn_def memory.find_token_burn)
    obtain rs' where "over_contracts (token_burn_action D ''simulation'' asset_id d) (Inr (filter (token_burn_matches asset_id ledger_id) cs)) = Inr rs'"
      "filter (\<lambda>r. mr_contract_id r = i) rs' = filter (\<lambda>r. mr_contract_id r = i) rs"
      by (rule over_contracts_same [where rid = mr_contract_id, OF result_contract(3) eq rs(1)])
    then show ?thesis using rs(2) cs(1) d by (simp add: SimTokenBurn evaluate_token_burn_def find_token_burn own_results_def filter_mints)
  qed
qed

lemma simulation_agrees:
  assumes a: "ok s" and sim: "simulate_contract D de J ops s c event = Inr r" "sr_matched r"
  shows "\<exists>s' res. cx_put ops (c\<lparr>ct_enabled := True\<rparr>) s = (Inr (), s') \<and> run_event D de J ops s' event = Inr res \<and>
    own_results (ct_contract_id c) res = (sr_burn_results r, sr_transfer_fee_results r)"
proof -
  obtain cs where cs: "cx_list ops s = Inr cs" "distinct (map ct_contract_id cs)" "by_id cs = entries s"
    using list_entries [OF a] by blast
  obtain s' where s': "cx_put ops (c\<lparr>ct_enabled := True\<rparr>) s = (Inr (), s')" "ok s'"
    "entries s' = (entries s)(ct_contract_id c \<mapsto> c\<lparr>ct_enabled := True\<rparr>)"
    using put_entries [OF a, of "c\<lparr>ct_enabled := True\<rparr>"] by auto
  obtain all where run: "run_event D de J memory_contracts (ephemeral_store cs c) event = Inr all"
    using sim cs(1) by (auto simp: simulate_contract_def no_match_def split: if_splits)
  have own: "own_results (ct_contract_id c) all = (sr_burn_results r, sr_transfer_fee_results r)"
    using sim cs(1) run
    by (cases "own_results (ct_contract_id c) all") (auto simp: simulate_contract_def no_match_def split: if_splits)
  have m: "contracts_keyed (ephemeral_store cs c)" "map_of (ephemeral_store cs c) = entries s'"
    using ephemeral_entries [OF cs(2), of c] cs(3) s'(3) by simp_all
  from run_event_agrees [OF s'(2) m run, of "ct_contract_id c"] own s'(1) show ?thesis by auto
qed

end

text \<open>
  Claim C27. A dry run predicts registration: when the simulation of a contract matches an event, registering the
  contract, enabled, in the same store and running the event there yields, for that contract,
  exactly the refunds, mints and fees the simulation shows, and does not panic.
\<close>

theorem simulation_predicts_registration:
  assumes "cf_ok s" "contracts_keyed s"
    and "simulate_contract D de J (rocks_contracts no_faults) s c event = Inr r" "sr_matched r"
  shows "\<exists>s' res. cx_put (rocks_contracts no_faults) (c\<lparr>ct_enabled := True\<rparr>) s = (Inr (), s') \<and>
    run_event D de J (rocks_contracts no_faults) s' event = Inr res \<and>
    own_results (ct_contract_id c) res = (sr_burn_results r, sr_transfer_fee_results r)"
  by (rule rocks.simulation_agrees) (use assms in auto)

subsection \<open>Examples\<close>

definition plain_ext :: ext_lib where
  "plain_ext = ref_ext\<lparr>x_hex_encode := (\<lambda>s. s), x_sha256 := (\<lambda>s. s)\<rparr>"

definition refund_request :: register_request where
  "refund_request = \<lparr>rq_name = ''r'', rq_scope = Global, rq_trigger = OnNftBurn None,
     rq_actions = [AccumulateRefund (Some ''e'') (MintFixedAmount ''2'')], rq_enabled = True\<rparr>"

definition refund_store :: "contract cf" where
  "refund_store = snd (register_contract plain_ext (\<lambda>n _ _. n) (rocks_contracts no_faults) refund_request [])"

definition no_json :: "rdec json_lib" where
  "no_json = \<lparr>jl_parse = (\<lambda>_. None), jl_f64 = (\<lambda>_. None), jl_i64 = (\<lambda>i. (i, 0))\<rparr>"

lemma refund_run:
  "evaluate_nft_burn ref_dec id no_json (rocks_contracts no_faults) refund_store ''main'' ''b'' None None 3 =
   Inr [\<lparr>cr_contract_id = ''r'', cr_contract_name = ''r'', cr_refund_address = ''b'', cr_refund_amount = (6, 0),
     cr_asset_id = Some ''e'', cr_details = ''Contract '' @ quoted ''r'' @ '' v1: 3 NFT(s) burned '' @ arrow @ '' 6 e refund''\<rparr>]"
  by code_simp


definition fee_contract :: contract where
  "fee_contract = sample_contract\<lparr>ct_actions := [TransferFee (FeeFixedAmount ''2'') [\<lparr>sp_address = ''a'', sp_share_bps = 10000\<rparr>]],
     ct_enabled := False\<rparr>"

lemma fee_simulation:
  "simulate_contract ref_dec id no_json (rocks_contracts no_faults) refund_store fee_contract (SimTransfer ''main'' None ''9'') =
   Inr \<lparr>sr_matched = True, sr_match_reason = None, sr_burn_results = [],
     sr_transfer_fee_results = [\<lparr>tr_contract_id = ''i'', tr_contract_name = ''n'', tr_beneficiary_address = ''a'', tr_fee_amount = (2, 0)\<rparr>],
     sr_warnings = [], sr_existing = []\<rparr>"
  by code_simp

lemma refund_store_keyed: "cf_ok refund_store" "contracts_keyed refund_store"
  by code_simp+

theorem simulation_predicts_registration_witness:
  "\<exists>s' res. cx_put (rocks_contracts no_faults) (fee_contract\<lparr>ct_enabled := True\<rparr>) refund_store = (Inr (), s') \<and>
    run_event ref_dec id no_json (rocks_contracts no_faults) s' (SimTransfer ''main'' None ''9'') = Inr res \<and>
    map tr_fee_amount (snd (own_results (ct_contract_id fee_contract) res)) = [(2, 0)]"
proof -
  note sim = simulation_predicts_registration [OF refund_store_keyed fee_simulation, unfolded simulation_result.simps, OF TrueI]
  then show ?thesis by (elim exE conjE, intro exI conjI) (assumption, assumption, simp)
qed

text \<open>
  The identifier of a contract does not cover its scope: registering the same rule for another ledger
  replaces the first registration, its state and its version.
\<close>

lemma reregistration_replaces:
  assumes "rq_name req' = rq_name req" "rq_trigger req' = rq_trigger req" "rq_actions req' = rq_actions req"
    and "check_request req = Inr ()"
  shows "cf_get (snd (register_contract X J (rocks_contracts no_faults) req' (snd (register_contract X J (rocks_contracts no_faults) req s))))
    (contract_id_of X J req) = Some (requested_contract X J req' (rq_enabled req'))"
proof -
  have "check_request req' = check_request req" unfolding check_request_def assms(1,3) by (rule refl)
  moreover have "contract_id_of X J req' = contract_id_of X J req" using assms(1-3) by (simp add: contract_id_of_def)
  ultimately show ?thesis using assms(4)
    by (simp add: register_store) (simp add: rocks_contracts_def rocks_put_contract_def no_faults_def requested_contract_def cf_get_def map_of_cf_put)
qed

end
