(* ===== verification/Emission.thy ===== *)
theory Emission
  imports Amount Gate Config HotPath
begin

section \<open>The emission budget of the native coin\<close>

text \<open>
  \<open>pms-server/src/emission.rs\<close>, \<open>emission_mint.rs\<close>, \<open>fee_distribution/inflation.rs\<close> and
  \<open>rocks_store/emission_storage.rs\<close>. Every mint of the native coin reserves its amount from one budget per
  period. The gate's state in memory is the record \<open>epoch_state\<close>; the state written to the store is its
  text form, \<open>persisted_emission\<close>. A call of the gate holds its mutex, so it is one step. A rate is an
  \<open>f64\<close>: it is the rational it denotes (minimum, maximum and clamp are exact); a NaN and an
  infinity are not modelled. \<open>from_f64\<close> is the conversion of \<open>rust_decimal\<close>.
\<close>

definition seconds_per_year :: nat where
  "seconds_per_year = 365 * 86400"

record 'd epoch_state =
  es_epoch_id :: u64
  es_supply_ref :: 'd
  es_budget :: 'd
  es_emitted :: 'd

record persisted_emission =
  pe_epoch_id :: u64
  pe_supply_ref :: string
  pe_budget :: string
  pe_emitted :: string

record emission_params =
  ep_target_pct :: rat
  ep_ceiling_pct :: rat
  ep_floor_pct :: rat
  ep_epoch_duration_sec :: u64

datatype voie = Baseline | OnRamp | TokenConversion | Faucet

datatype 'd emission_error = BudgetExhausted voie 'd 'd 'd | Persist string | MintDisabled

definition epoch_default :: "'d dec_lib \<Rightarrow> 'd epoch_state" where
  "epoch_default D = \<lparr>es_epoch_id = 0, es_supply_ref = d_zero D, es_budget = d_zero D, es_emitted = d_zero D\<rparr>"

definition to_json :: "'d dec_lib \<Rightarrow> 'd epoch_state \<Rightarrow> persisted_emission" where
  "to_json D st = \<lparr>pe_epoch_id = es_epoch_id st, pe_supply_ref = d_show D (es_supply_ref st),
     pe_budget = d_show D (es_budget st), pe_emitted = d_show D (es_emitted st)\<rparr>"

definition from_json :: "'d dec_lib \<Rightarrow> persisted_emission \<Rightarrow> 'd epoch_state option" where
  "from_json D p =
     Option.bind (d_from_str_exact D (pe_supply_ref p)) (\<lambda>s.
     Option.bind (d_from_str_exact D (pe_budget p)) (\<lambda>b.
     Option.bind (d_from_str_exact D (pe_emitted p)) (\<lambda>e.
     Some \<lparr>es_epoch_id = pe_epoch_id p, es_supply_ref = s, es_budget = b, es_emitted = e\<rparr>)))"

definition remaining :: "'d dec_lib \<Rightarrow> 'd epoch_state \<Rightarrow> panic + 'd" where
  "remaining D st = rbind (dec_sub D (es_budget st) (es_emitted st)) (\<lambda>r. Inr (d_max D r (d_zero D)))"

definition effective_rate_pct :: "rat \<Rightarrow> rat \<Rightarrow> rat \<Rightarrow> rat" where
  "effective_rate_pct target_pct ceiling_pct floor_pct =
     (let lo = max (min floor_pct ceiling_pct) 0; hi = max (max ceiling_pct floor_pct) 0 in
      if target_pct < lo then lo else if hi < target_pct then hi else target_pct)"

definition compute_epoch_budget :: "'d dec_lib \<Rightarrow> (rat \<Rightarrow> 'd option) \<Rightarrow> 'd \<Rightarrow> emission_params \<Rightarrow> panic + 'd" where
  "compute_epoch_budget D from_f64 supply_ref p =
     (if ep_epoch_duration_sec p = 0 then Inr (d_zero D)
      else
        let eff = effective_rate_pct (ep_target_pct p) (ep_ceiling_pct p) (ep_floor_pct p) in
        rbind (dec_div D (case from_f64 eff of Some r \<Rightarrow> r | None \<Rightarrow> d_zero D) (d_of_nat D 100)) (\<lambda>rate.
        rbind (dec_div D (d_of_nat D (unat (ep_epoch_duration_sec p))) (d_of_nat D seconds_per_year)) (\<lambda>frac_year.
        rbind (dec_mul D (d_max D supply_ref (d_zero D)) rate) (\<lambda>a.
        rbind (dec_mul D a frac_year) (\<lambda>b.
        Inr (d_round_dp D b 8))))))"

subsection \<open>The gate\<close>

text \<open>The state of the gate and the durable copy behind it.\<close>

record 'd emission_gate =
  eg_state :: "'d epoch_state"
  eg_durable :: "persisted_emission option"

definition emission_key :: string where
  "emission_key = ''emission_epoch_state''"

definition persist_locked :: "faults \<Rightarrow> 'd dec_lib \<Rightarrow> 'd emission_gate \<Rightarrow> (string + unit) \<times> 'd emission_gate" where
  "persist_locked F D g =
     (case F (DbPut ''node_fee_pool'' emission_key) of
        Some e \<Rightarrow> (Inl e, g)
      | None \<Rightarrow> (Inr (), g\<lparr>eg_durable := Some (to_json D (eg_state g))\<rparr>))"

definition load_gate :: "faults \<Rightarrow> 'd dec_lib \<Rightarrow> 'd emission_gate \<Rightarrow> 'd emission_gate" where
  "load_gate F D g =
     g\<lparr>eg_state := (case io F (DbGet ''node_fee_pool'' emission_key) (eg_durable g) of
        Inr (Some p) \<Rightarrow> (case from_json D p of Some st \<Rightarrow> st | None \<Rightarrow> epoch_default D)
      | _ \<Rightarrow> epoch_default D)\<rparr>"

definition current_epoch :: "emission_params \<Rightarrow> u64 \<Rightarrow> u64" where
  "current_epoch p now_ms =
     now_ms div max (if unat (ep_epoch_duration_sec p) * 1000 < 2 ^ 64 then ep_epoch_duration_sec p * 1000 else - 1) 1"

definition rollover ::
  "'d dec_lib \<Rightarrow> (rat \<Rightarrow> 'd option) \<Rightarrow> u64 \<Rightarrow> 'd \<Rightarrow> emission_params \<Rightarrow> 'd epoch_state \<Rightarrow> panic + 'd epoch_state" where
  "rollover D from_f64 now_ms current_supply p st =
     (if es_epoch_id st < current_epoch p now_ms then
        let s = d_max D current_supply (d_zero D) in
        rbind (compute_epoch_budget D from_f64 s p) (\<lambda>b.
        Inr \<lparr>es_epoch_id = current_epoch p now_ms, es_supply_ref = s, es_budget = b, es_emitted = d_zero D\<rparr>)
      else Inr st)"

definition wanted :: "voie \<Rightarrow> 'd option \<Rightarrow> 'd \<Rightarrow> 'd" where
  "wanted voie requested rest =
     (case voie of Baseline \<Rightarrow> rest | _ \<Rightarrow> (case requested of Some req \<Rightarrow> req | None \<Rightarrow> rest))"

definition reserve ::
  "faults \<Rightarrow> 'd dec_lib \<Rightarrow> (rat \<Rightarrow> 'd option) \<Rightarrow> string + runtime_config \<Rightarrow> u64 \<Rightarrow> 'd \<Rightarrow> emission_params \<Rightarrow> voie \<Rightarrow> 'd option
   \<Rightarrow> 'd emission_gate \<Rightarrow> panic + ('d emission_error + 'd) \<times> 'd emission_gate" where
  "reserve F D from_f64 config now_ms current_supply p voie requested g =
     (if (case config of Inr cfg \<Rightarrow> \<not> rc_mint_enabled cfg | Inl _ \<Rightarrow> False) then Inr (Inl MintDisabled, g)
      else
        rbind (rollover D from_f64 now_ms current_supply p (eg_state g)) (\<lambda>st.
        let g1 = g\<lparr>eg_state := st\<rparr> in
        rbind (remaining D st) (\<lambda>rest.
        let amount = wanted voie requested rest in
        if d_le D amount (d_zero D) then Inr (Inr (d_zero D), g1)
        else if d_lt D rest amount then Inr (Inl (BudgetExhausted voie amount rest (es_budget st)), g1)
        else
          rbind (dec_add D (es_emitted st) amount) (\<lambda>e.
          case persist_locked F D (g1\<lparr>eg_state := st\<lparr>es_emitted := e\<rparr>\<rparr>) of
            (Inl err, g2) \<Rightarrow> rbind (dec_sub D e amount) (\<lambda>e'. Inr (Inl (Persist err), g2\<lparr>eg_state := st\<lparr>es_emitted := e'\<rparr>\<rparr>))
          | (Inr _, g2) \<Rightarrow> Inr (Inr amount, g2)))))"

definition release :: "faults \<Rightarrow> 'd dec_lib \<Rightarrow> 'd \<Rightarrow> 'd emission_gate \<Rightarrow> panic + 'd emission_gate" where
  "release F D amount g =
     (if d_le D amount (d_zero D) then Inr g
      else
        rbind (dec_sub D (es_emitted (eg_state g)) amount) (\<lambda>e.
        Inr (snd (persist_locked F D (g\<lparr>eg_state := (eg_state g)\<lparr>es_emitted := d_max D e (d_zero D)\<rparr>\<rparr>)))))"

subsection \<open>A gated mint\<close>

text \<open>
  \<open>emit_native_gated\<close>: reserve, build the outputs, resolve the parents, forge, persist; every failure after the
  reservation releases it. The results of the parents, the forge and the persistence are arguments; a
  panic of the gate is the outcome \<open>Inl\<close>.
\<close>

datatype 'd emit_outcome = Minted 'd string nat | Nothing


definition released ::
  "faults \<Rightarrow> 'd dec_lib \<Rightarrow> 'd \<Rightarrow> 'r \<Rightarrow> 'd emission_gate \<Rightarrow> panic + 'r \<times> 'd emission_gate" where
  "released F D amount result g = rbind (release F D amount g) (\<lambda>g'. Inr (result, g'))"

definition emit_native_gated ::
  "faults \<Rightarrow> 'd dec_lib \<Rightarrow> (rat \<Rightarrow> 'd option) \<Rightarrow> string + runtime_config \<Rightarrow> u64 \<Rightarrow> 'd \<Rightarrow> emission_params \<Rightarrow> voie \<Rightarrow> 'd option
   \<Rightarrow> ('d \<Rightarrow> panic + tx_output list) \<Rightarrow> string + string list \<Rightarrow> (tx_output list \<Rightarrow> string list \<Rightarrow> string + string)
   \<Rightarrow> (string \<Rightarrow> string + put_result)
   \<Rightarrow> 'd emission_gate \<Rightarrow> panic + ('d emission_error + 'd emit_outcome) \<times> 'd emission_gate" where
  "emit_native_gated F D from_f64 config now_ms supply_now p voie requested build_outputs parents forge persist g =
     rbind (reserve F D from_f64 config now_ms supply_now p voie requested g) (\<lambda>(res, g1).
     case res of
       Inl e \<Rightarrow> Inr (Inl e, g1)
     | Inr amount \<Rightarrow>
         if d_le D amount (d_zero D) then Inr (Inr Nothing, g1)
         else
           rbind (build_outputs amount) (\<lambda>outputs.
           if outputs = [] then released F D amount (Inr Nothing) g1
           else
             (case parents of
                Inl e \<Rightarrow> released F D amount (Inl (Persist (''parent resolution: '' @ e))) g1
              | Inr ps \<Rightarrow>
                  (case forge outputs ps of
                     Inl e \<Rightarrow> released F D amount (Inl (Persist (''forge: '' @ e))) g1
                   | Inr block_id \<Rightarrow>
                       (case persist block_id of
                          Inr Inserted \<Rightarrow> Inr (Inr (Minted amount block_id (length outputs)), g1)
                        | _ \<Rightarrow> released F D amount (Inl (Persist ''persist not inserted'')) g1)))))"

text \<open>The outputs of the daily mint: the creator's share, rounded, and the rest to the treasury.\<close>

definition baseline_outputs :: "'d dec_lib \<Rightarrow> 'd \<Rightarrow> 'd \<Rightarrow> string \<Rightarrow> string \<Rightarrow> 'd \<Rightarrow> panic + tx_output list" where
  "baseline_outputs D creator_pct treasury_pct coordinator_address treasury_addr amount =
     rbind (dec_add D creator_pct treasury_pct) (\<lambda>denom.
     rbind (if d_lt D (d_zero D) denom then
              rbind (dec_mul D amount creator_pct) (\<lambda>x.
              rbind (dec_div D x denom) (\<lambda>y. Inr (d_round_dp D y 8)))
            else Inr amount) (\<lambda>coord.
     rbind (dec_sub D amount coord) (\<lambda>treasury.
     Inr ((if d_lt D (d_zero D) coord then [txoutput_new coordinator_address (d_show D (d_normalize D coord)) None] else []) @
          (if d_lt D (d_zero D) treasury then [txoutput_new treasury_addr (d_show D (d_normalize D treasury)) None] else [])))))"

subsection \<open>The budget is never exceeded\<close>

text \<open>
  Two documented facts on the texts and scales of decimals are needed beside \<open>dec_laws\<close>: a decimal has a
  scale of at most 28 and its text parses back, exactly, to the same number.
\<close>

definition scale_laws :: "'d dec_lib \<Rightarrow> ('d \<Rightarrow> rat) \<Rightarrow> bool" where
  "scale_laws D v \<longleftrightarrow>
     d_scale D (d_zero D) \<le> 28 \<and>
     (\<forall>d. d_scale D d \<le> 28 \<longrightarrow> (\<exists>d'. d_from_str_exact D (d_show D d) = Some d' \<and> v d' = v d \<and> d_scale D d' \<le> 28)) \<and>
     (\<forall>a b c. d_scale D a \<le> 28 \<longrightarrow> d_scale D b \<le> 28 \<longrightarrow> d_checked_add D a b = Some c \<longrightarrow> d_scale D c \<le> 28) \<and>
     (\<forall>a b c. d_scale D a \<le> 28 \<longrightarrow> d_scale D b \<le> 28 \<longrightarrow> d_checked_sub D a b = Some c \<longrightarrow> d_scale D c \<le> 28)"

definition epoch_ok :: "'d dec_lib \<Rightarrow> ('d \<Rightarrow> rat) \<Rightarrow> 'd epoch_state \<Rightarrow> bool" where
  "epoch_ok D v st \<longleftrightarrow>
     d_scale D (es_supply_ref st) \<le> 28 \<and> d_scale D (es_budget st) \<le> 28 \<and> d_scale D (es_emitted st) \<le> 28 \<and>
     at_scale 8 (v (es_budget st)) \<and> \<bar>v (es_budget st)\<bar> \<le> 10 ^ 16 \<and>
     at_scale 8 (v (es_emitted st)) \<and> 0 \<le> v (es_emitted st) \<and> v (es_emitted st) \<le> max 0 (v (es_budget st))"

definition same_epoch :: "('d \<Rightarrow> rat) \<Rightarrow> 'd epoch_state \<Rightarrow> 'd epoch_state \<Rightarrow> bool" where
  "same_epoch v st st' \<longleftrightarrow> es_epoch_id st' = es_epoch_id st \<and> v (es_budget st') = v (es_budget st) \<and>
     v (es_emitted st') = v (es_emitted st)"

lemma json_roundtrip:
  assumes "scale_laws D v" and "epoch_ok D v st"
  shows "\<exists>st'. from_json D (to_json D st) = Some st' \<and> same_epoch v st st' \<and> epoch_ok D v st' \<and>
    v (es_supply_ref st') = v (es_supply_ref st)"
proof -
  have parse: "\<exists>d'. d_from_str_exact D (d_show D d) = Some d' \<and> v d' = v d \<and> d_scale D d' \<le> 28" if "d_scale D d \<le> 28" for d
    using assms(1) that unfolding scale_laws_def by blast
  have sc: "d_scale D (es_supply_ref st) \<le> 28" "d_scale D (es_budget st) \<le> 28" "d_scale D (es_emitted st) \<le> 28"
    using assms(2) by (simp_all add: epoch_ok_def)
  obtain s where s: "d_from_str_exact D (d_show D (es_supply_ref st)) = Some s" "v s = v (es_supply_ref st)" "d_scale D s \<le> 28"
    using parse [OF sc(1)] by blast
  obtain b where b: "d_from_str_exact D (d_show D (es_budget st)) = Some b" "v b = v (es_budget st)" "d_scale D b \<le> 28"
    using parse [OF sc(2)] by blast
  obtain e where e: "d_from_str_exact D (d_show D (es_emitted st)) = Some e" "v e = v (es_emitted st)" "d_scale D e \<le> 28"
    using parse [OF sc(3)] by blast
  have "from_json D (to_json D st) = Some \<lparr>es_epoch_id = es_epoch_id st, es_supply_ref = s, es_budget = b, es_emitted = e\<rparr>"
    by (simp only: from_json_def to_json_def persisted_emission.simps s(1) b(1) e(1) Option.bind.bind_lunit)
  moreover have "epoch_ok D v \<lparr>es_epoch_id = es_epoch_id st, es_supply_ref = s, es_budget = b, es_emitted = e\<rparr>"
    using assms(2) s(3) b(3) e(3) unfolding epoch_ok_def epoch_state.simps s(2) b(2) e(2) by blast
  ultimately show ?thesis using s(2) b(2) e(2) by (simp add: same_epoch_def)
qed

lemma remaining_val:
  assumes L: "dec_laws D v" and ok: "epoch_ok D v st" and r: "remaining D st = Inr r"
  shows "v r = max 0 (v (es_budget st) - v (es_emitted st))" "at_scale 8 (v r)"
proof -
  have s: "at_scale 8 (v (es_budget st))" "at_scale 8 (v (es_emitted st))" using ok by (simp_all add: epoch_ok_def)
  have bnd: "\<bar>v (es_budget st)\<bar> \<le> 10 ^ 16" "0 \<le> v (es_emitted st)" "v (es_emitted st) \<le> max 0 (v (es_budget st))"
    using ok by (simp_all add: epoch_ok_def)
  then have "\<bar>v (es_budget st) - v (es_emitted st)\<bar> \<le> 2 * 10 ^ 16" by (simp add: max_def abs_le_iff split: if_splits)
  then have "\<bar>v (es_budget st) - v (es_emitted st)\<bar> < 2 ^ 96 / 10 ^ 8" by (rule le_less_trans) simp
  then obtain c where c: "dec_sub D (es_budget st) (es_emitted st) = Inr c" "v c = v (es_budget st) - v (es_emitted st)"
    using dec_sub_exact [OF L s] by metis
  then have "r = d_max D c (d_zero D)" using r by (simp add: remaining_def)
  then show "v r = max 0 (v (es_budget st) - v (es_emitted st))"
    using c(2) by (simp add: dec_laws_max [OF L] dec_laws_zero [OF L] max.commute)
  then show "at_scale 8 (v r)" using at_scale_diff [OF s] by (simp add: max_def)
qed

lemma remaining_scale:
  assumes "scale_laws D v" "epoch_ok D v st" "remaining D st = Inr r"
  shows "d_scale D r \<le> 28"
proof -
  obtain c where c: "d_checked_sub D (es_budget st) (es_emitted st) = Some c" "r = d_max D c (d_zero D)"
    using assms(3) by (cases "d_checked_sub D (es_budget st) (es_emitted st)") (simp_all add: remaining_def dec_sub_def)
  have "d_scale D c \<le> 28" "d_scale D (d_zero D) \<le> 28" using assms(1,2) c(1) unfolding scale_laws_def epoch_ok_def by blast+
  then show ?thesis using c(2) by (simp add: d_max_def)
qed

text \<open>The requests considered have at most eight decimals, and the budgets drawn are at most \<open>10^16\<close>.\<close>

definition fair_request :: "'d dec_lib \<Rightarrow> ('d \<Rightarrow> rat) \<Rightarrow> 'd option \<Rightarrow> bool" where
  "fair_request D v requested \<longleftrightarrow> (\<forall>r. requested = Some r \<longrightarrow> at_scale 8 (v r) \<and> d_scale D r \<le> 28)"

definition fair_rollover ::
  "'d dec_lib \<Rightarrow> ('d \<Rightarrow> rat) \<Rightarrow> (rat \<Rightarrow> 'd option) \<Rightarrow> u64 \<Rightarrow> 'd \<Rightarrow> emission_params \<Rightarrow> 'd epoch_state \<Rightarrow> bool" where
  "fair_rollover D v from_f64 now_ms s p st \<longleftrightarrow> d_scale D s \<le> 28 \<and>
     (\<forall>st'. rollover D from_f64 now_ms s p st = Inr st' \<longrightarrow> \<bar>v (es_budget st')\<bar> \<le> 10 ^ 16)"

lemma rollover_ok:
  assumes L: "dec_laws D v" "scale_laws D v" and ok: "epoch_ok D v st"
    and fair: "fair_rollover D v from_f64 now_ms s p st" and r: "rollover D from_f64 now_ms s p st = Inr st'"
  shows "epoch_ok D v st' \<and> (st' = st \<or> es_epoch_id st < es_epoch_id st' \<and> v (es_emitted st') = 0)"
proof (cases "es_epoch_id st < current_epoch p now_ms")
  case True
  then obtain b where b: "compute_epoch_budget D from_f64 (d_max D s (d_zero D)) p = Inr b"
    "st' = \<lparr>es_epoch_id = current_epoch p now_ms, es_supply_ref = d_max D s (d_zero D), es_budget = b, es_emitted = d_zero D\<rparr>"
    using r by (auto simp: rollover_def Let_def)
  have z: "d_scale D (d_zero D) \<le> 28" "v (d_zero D) = 0" using L by (simp_all add: scale_laws_def dec_laws_zero)
  have "at_scale 8 (v b) \<and> d_scale D b \<le> 28"
    using b(1) z order_trans [OF dec_laws_round_scale [OF L(1)], of 8 28] at_scale_round [OF L(1)]
    by (auto simp: compute_epoch_budget_def Let_def split: if_splits)
  moreover have "\<bar>v b\<bar> \<le> 10 ^ 16" "d_scale D s \<le> 28" using fair r b(2) by (auto simp: fair_rollover_def)
  ultimately show ?thesis using b(2) z True by (simp add: epoch_ok_def d_max_def)
next
  case False
  then show ?thesis using r ok by (simp add: rollover_def)
qed

lemma persist_locked_cases:
  obtains (failed) err where "persist_locked F D g = (Inl err, g)"
    | (written) "persist_locked F D g = (Inr (), g\<lparr>eg_durable := Some (to_json D (eg_state g))\<rparr>)"
  by (cases "F (DbPut ''node_fee_pool'' emission_key)") (auto simp: persist_locked_def)

lemma remaining_defined:
  assumes L: "dec_laws D v" and ok: "epoch_ok D v st"
  obtains r where "remaining D st = Inr r"
proof -
  have s: "at_scale 8 (v (es_budget st))" "at_scale 8 (v (es_emitted st))" "\<bar>v (es_budget st)\<bar> \<le> 10 ^ 16"
    "0 \<le> v (es_emitted st)" "v (es_emitted st) \<le> max 0 (v (es_budget st))"
    using ok by (simp_all add: epoch_ok_def)
  then have "\<bar>v (es_budget st) - v (es_emitted st)\<bar> \<le> 2 * 10 ^ 16" by (simp add: max_def abs_le_iff split: if_splits)
  then have "\<bar>v (es_budget st) - v (es_emitted st)\<bar> < 2 ^ 96 / 10 ^ 8" by (rule le_less_trans) simp
  then obtain c where "dec_sub D (es_budget st) (es_emitted st) = Inr c" using dec_sub_exact [OF L s(1,2)] by blast
  then show thesis by (intro that) (simp add: remaining_def)
qed

lemma counter_fits:
  assumes L: "dec_laws D v" and ok: "epoch_ok D v st" and a: "at_scale 8 (v a)" "0 < v a" "v a \<le> v (es_budget st) - v (es_emitted st)"
  obtains e where "d_checked_add D (es_emitted st) a = Some e" "v e = v (es_emitted st) + v a"
proof -
  have em: "at_scale 8 (v (es_emitted st))" "0 \<le> v (es_emitted st)" "\<bar>v (es_budget st)\<bar> \<le> 10 ^ 16" using ok by (simp_all add: epoch_ok_def)
  have sum: "at_scale 8 (v (es_emitted st) + v a)" by (rule at_scale_add [OF em(1) a(1)])
  have "\<bar>v (es_emitted st) + v a\<bar> < 2 ^ 96 / 10 ^ 8" using em(2,3) a(2,3) by (simp add: abs_less_iff abs_le_iff)
  then show thesis using dec_laws_add [OF L repr8 [OF sum]] that by blast
qed

text \<open>What a call of \<open>reserve\<close> that returns has done.\<close>

lemma reserve_result:
  assumes L: "dec_laws D v" "scale_laws D v" and ok: "epoch_ok D v (eg_state g)" and req: "fair_request D v requested"
    and fair: "fair_rollover D v from_f64 now_ms s p (eg_state g)"
    and r: "reserve F D from_f64 config now_ms s p voie requested g = Inr (res, g')"
  obtains (off) "res = Inl MintDisabled" "g' = g"
    | (granted) a st where "res = Inr a" "0 < v a" "at_scale 8 (v a)" "d_scale D a \<le> 28" "rollover D from_f64 now_ms s p (eg_state g) = Inr st"
      "es_epoch_id (eg_state g') = es_epoch_id st" "epoch_ok D v (eg_state g')" "es_budget (eg_state g') = es_budget st"
      "v (es_emitted (eg_state g')) = v (es_emitted st) + v a" "eg_durable g' = Some (to_json D (eg_state g'))"
    | (nothing) st where "rollover D from_f64 now_ms s p (eg_state g) = Inr st" "\<not> (\<exists>a. res = Inr a \<and> 0 < v a)"
      "eg_durable g' = eg_durable g" "epoch_ok D v (eg_state g')" "same_epoch v st (eg_state g')"
proof (cases "case config of Inr cfg \<Rightarrow> \<not> rc_mint_enabled cfg | Inl _ \<Rightarrow> False")
  case True
  then show thesis using r off by (simp add: reserve_def)
next
  case False
  note on = False
  then obtain st rest where st: "rollover D from_f64 now_ms s p (eg_state g) = Inr st" and rest: "remaining D st = Inr rest"
    using r unfolding reserve_def if_not_P [OF on] by (auto simp: Let_def)
  have ok': "epoch_ok D v st" using rollover_ok [OF L ok fair st] by blast
  note rem = remaining_val [OF L(1) ok' rest] remaining_scale [OF L(2) ok' rest]
  define a where "a = wanted voie requested rest"
  have a: "at_scale 8 (v a)" "d_scale D a \<le> 28"
    using req rem by (auto simp: a_def wanted_def fair_request_def split: voie.split option.split)
  show thesis
  proof (cases "d_le D a (d_zero D) \<or> d_lt D rest a")
    case True
    then have n: "g' = g\<lparr>eg_state := st\<rparr>" "\<not> (\<exists>a. res = Inr a \<and> 0 < v a)"
      using r st rest unfolding reserve_def if_not_P [OF on] by (auto simp: Let_def dec_order [OF L(1)] simp flip: a_def split: if_splits)
    show thesis by (rule nothing) (use n(1) ok' in \<open>simp_all add: same_epoch_def st n(2)\<close>)
  next
    case grant: False
    then have le: "0 < v a" "v a \<le> v rest" by (auto simp: dec_order [OF L(1)])
    have em: "at_scale 8 (v (es_emitted st))" "0 \<le> v (es_emitted st)" "\<bar>v (es_budget st)\<bar> \<le> 10 ^ 16" using ok' by (simp_all add: epoch_ok_def)
    have cap: "v (es_emitted st) + v a \<le> max 0 (v (es_budget st))" using le rem(1) by auto
    have sum: "at_scale 8 (v (es_emitted st) + v a)" by (rule at_scale_add [OF em(1) a(1)])
    have "\<bar>v (es_emitted st) + v a\<bar> < 2 ^ 96 / 10 ^ 8" using cap em le by (auto simp: abs_le_iff abs_less_iff)
    then obtain e where e: "d_checked_add D (es_emitted st) a = Some e" "v e = v (es_emitted st) + v a"
      using dec_laws_add [OF L(1) repr8 [OF sum]] by blast
    have se: "d_scale D e \<le> 28" using e(1) a(2) ok' L(2) unfolding scale_laws_def epoch_ok_def by blast
    let ?g = "g\<lparr>eg_state := st\<lparr>es_emitted := e\<rparr>\<rparr>"
    have run: "reserve F D from_f64 config now_ms s p voie requested g =
        (case persist_locked F D ?g of
            (Inl err, g2) \<Rightarrow> rbind (dec_sub D e a) (\<lambda>e'. Inr (Inl (Persist err), g2\<lparr>eg_state := st\<lparr>es_emitted := e'\<rparr>\<rparr>))
          | (Inr _, g2) \<Rightarrow> Inr (Inr a, g2))"
      using grant st rest e(1) unfolding reserve_def if_not_P [OF on] a_def by (simp add: Let_def dec_add_def)
    have full: "epoch_ok D v (st\<lparr>es_emitted := e\<rparr>)"
      using ok' se sum e(2) cap le em by (simp add: epoch_ok_def)
    show thesis
    proof (cases rule: persist_locked_cases [of F D ?g])
      case (failed err)
      have ve: "at_scale 8 (v e)" "v e - v a = v (es_emitted st)" using sum by (simp_all add: e(2))
      have "v (es_emitted st) \<le> 10 ^ 16" using ok' em(3) by (simp add: epoch_ok_def max_def abs_le_iff split: if_splits)
      then have "\<bar>v e - v a\<bar> < 2 ^ 96 / 10 ^ 8" using em(2) unfolding ve(2) by simp
      then obtain e' where e': "dec_sub D e a = Inr e'" "v e' = v (es_emitted st)"
        using dec_sub_exact [OF L(1) ve(1) a(1)] unfolding ve(2) by blast
      have "d_checked_sub D e a = Some e'" using e'(1) by (cases "d_checked_sub D e a") (simp_all add: dec_sub_def)
      then have "d_scale D e' \<le> 28" using se a(2) L(2) unfolding scale_laws_def by blast
      then have ok2: "epoch_ok D v (st\<lparr>es_emitted := e'\<rparr>)" using ok' e'(2) by (simp add: epoch_ok_def)
      have g': "res = Inl (Persist err)" "g' = g\<lparr>eg_state := st\<lparr>es_emitted := e'\<rparr>\<rparr>" using r run failed e'(1) by simp_all
      show thesis by (rule nothing) (use st g' ok2 e'(2) in \<open>simp_all add: same_epoch_def\<close>)
    next
      case written
      then have "res = Inr a" "g' = ?g\<lparr>eg_durable := Some (to_json D (st\<lparr>es_emitted := e\<rparr>))\<rparr>" using r run by auto
      then show thesis using granted [OF _ le(1) a st] full e(2) by simp
    qed
  qed
qed

subsection \<open>Runs of the gate\<close>

text \<open>
  A run of the gate beside the list of the reservations that stand, each with the epoch it was granted in.
  A reservation is released in the epoch it was granted in; a restart reads the durable state back.
\<close>

type_synonym reservations = "(u64 \<times> rat) list"

definition live_sum :: "u64 \<Rightarrow> reservations \<Rightarrow> rat" where
  "live_sum k live = sum_list (map snd (filter (\<lambda>x. fst x = k) live))"

inductive emission_step ::
  "'d dec_lib \<Rightarrow> ('d \<Rightarrow> rat) \<Rightarrow> (rat \<Rightarrow> 'd option) \<Rightarrow> 'd emission_gate \<times> reservations \<Rightarrow> 'd emission_gate \<times> reservations \<Rightarrow> bool"
  for D v from_f64 where
  granted: "reserve F D from_f64 config now_ms s p voie requested g = Inr (Inr a, g') \<Longrightarrow> 0 < v a \<Longrightarrow>
     fair_request D v requested \<Longrightarrow> fair_rollover D v from_f64 now_ms s p (eg_state g) \<Longrightarrow>
     emission_step D v from_f64 (g, live) (g', (es_epoch_id (eg_state g'), v a) # live)"
| refused: "reserve F D from_f64 config now_ms s p voie requested g = Inr (res, g') \<Longrightarrow> \<not> (\<exists>a. res = Inr a \<and> 0 < v a) \<Longrightarrow>
     fair_request D v requested \<Longrightarrow> fair_rollover D v from_f64 now_ms s p (eg_state g) \<Longrightarrow>
     emission_step D v from_f64 (g, live) (g', live)"
| gave_back: "release F D a g = Inr g' \<Longrightarrow> d_scale D a \<le> 28 \<Longrightarrow>
     emission_step D v from_f64 (g, l1 @ (es_epoch_id (eg_state g), v a) # l2) (g', l1 @ l2)"
| restarted: "g' = load_gate F D g \<Longrightarrow> F (DbGet ''node_fee_pool'' emission_key) = None \<Longrightarrow>
     emission_step D v from_f64 (g, live) (g', live)"

inductive_cases emission_stepE: "emission_step D v from_f64 x y"

text \<open>Why the budget holds: what stands is counted, in memory and in the durable copy.\<close>

definition durable_ok :: "'d dec_lib \<Rightarrow> ('d \<Rightarrow> rat) \<Rightarrow> u64 \<Rightarrow> reservations \<Rightarrow> persisted_emission option \<Rightarrow> bool" where
  "durable_ok D v k live durable \<longleftrightarrow> (case durable of None \<Rightarrow> live = []
      | Some p \<Rightarrow> (\<exists>st. from_json D p = Some st \<and> epoch_ok D v st \<and> live_sum (es_epoch_id st) live \<le> v (es_emitted st) \<and>
           es_epoch_id st \<le> k \<and> (\<forall>x \<in> set live. fst x \<le> es_epoch_id st)))"

definition standing :: "('d \<Rightarrow> rat) \<Rightarrow> 'd epoch_state \<Rightarrow> reservations \<Rightarrow> bool" where
  "standing v st live \<longleftrightarrow> live_sum (es_epoch_id st) live \<le> v (es_emitted st) \<and>
     (\<forall>x \<in> set live. 0 < snd x \<and> fst x \<le> es_epoch_id st)"

definition emission_inv :: "'d dec_lib \<Rightarrow> ('d \<Rightarrow> rat) \<Rightarrow> 'd emission_gate \<times> reservations \<Rightarrow> bool" where
  "emission_inv D v x \<longleftrightarrow> epoch_ok D v (eg_state (fst x)) \<and> standing v (eg_state (fst x)) (snd x) \<and>
     (\<forall>x \<in> set (snd x). at_scale 8 (snd x)) \<and> durable_ok D v (es_epoch_id (eg_state (fst x))) (snd x) (eg_durable (fst x))"

lemma live_sum_simps [simp]:
  "live_sum k [] = 0"
  "live_sum k ((j, a) # live) = (if j = k then a else 0) + live_sum k live"
  "live_sum k (l1 @ l2) = live_sum k l1 + live_sum k l2"
  by (simp_all add: live_sum_def)

lemma live_sum_later: "\<forall>x \<in> set live. fst x < k \<Longrightarrow> live_sum k live = 0"
  by (induction live) (auto simp: live_sum_def)

lemma live_sum_nonneg: "\<forall>x \<in> set live. 0 < snd x \<Longrightarrow> 0 \<le> live_sum k live"
  by (induction live) (auto simp: live_sum_def less_imp_le)

lemma durable_written:
  assumes "scale_laws D v" "epoch_ok D v st" "standing v st live"
  shows "durable_ok D v (es_epoch_id st) live (Some (to_json D st))"
proof -
  obtain st' where "from_json D (to_json D st) = Some st'" "same_epoch v st st'" "epoch_ok D v st'"
    using json_roundtrip [OF assms(1,2)] by blast
  then show ?thesis using assms(3) by (simp add: durable_ok_def same_epoch_def standing_def)
qed

lemma durable_fewer:
  assumes "durable_ok D v k (l1 @ x # l2) durable" "\<forall>x \<in> set (l1 @ x # l2). 0 < snd x"
  shows "durable_ok D v k (l1 @ l2) durable"
proof (cases durable)
  case None
  then show ?thesis using assms(1) by (simp add: durable_ok_def)
next
  case (Some p)
  then obtain st where st: "from_json D p = Some st" "epoch_ok D v st" "live_sum (es_epoch_id st) (l1 @ x # l2) \<le> v (es_emitted st)"
    "es_epoch_id st \<le> k" "\<forall>x \<in> set (l1 @ x # l2). fst x \<le> es_epoch_id st"
    using assms(1) by (auto simp: durable_ok_def)
  have "live_sum (es_epoch_id st) (l1 @ l2) \<le> live_sum (es_epoch_id st) (l1 @ x # l2)" using assms(2) by (cases x) simp
  then have "live_sum (es_epoch_id st) (l1 @ l2) \<le> v (es_emitted st)" using st(3) by linarith
  then show ?thesis using Some st by (simp add: durable_ok_def)
qed

lemma durable_later: "durable_ok D v k live durable \<Longrightarrow> k \<le> k' \<Longrightarrow> durable_ok D v k' live durable"
  unfolding durable_ok_def by (auto split: option.splits intro: order_trans)

lemma rollover_live:
  assumes L: "dec_laws D v" "scale_laws D v" and ok: "epoch_ok D v st" and fair: "fair_rollover D v from_f64 now_ms s p st"
    and r: "rollover D from_f64 now_ms s p st = Inr st'" and live: "standing v st live"
  shows "standing v st' live \<and> es_epoch_id st \<le> es_epoch_id st'"
proof -
  consider "st' = st" | "es_epoch_id st < es_epoch_id st'" "v (es_emitted st') = 0" using rollover_ok [OF L ok fair r] by blast
  then show ?thesis
  proof cases
    case 2
    then have "\<forall>x \<in> set live. fst x < es_epoch_id st'" using live by (meson le_less_trans standing_def)
    then show ?thesis using 2 live by (simp add: live_sum_later standing_def less_imp_le)
  qed (use live in simp)
qed

lemma release_result:
  assumes L: "dec_laws D v" "scale_laws D v" and ok: "epoch_ok D v (eg_state g)" and a: "0 < v a" "at_scale 8 (v a)" "d_scale D a \<le> 28"
    "v a \<le> v (es_emitted (eg_state g))" and r: "release F D a g = Inr g'"
  shows "epoch_ok D v (eg_state g') \<and> es_epoch_id (eg_state g') = es_epoch_id (eg_state g) \<and>
    es_budget (eg_state g') = es_budget (eg_state g) \<and>
    v (es_emitted (eg_state g')) = v (es_emitted (eg_state g)) - v a \<and>
    (eg_durable g' = eg_durable g \<or> eg_durable g' = Some (to_json D (eg_state g')))"
proof -
  let ?st = "eg_state g"
  have em: "at_scale 8 (v (es_emitted ?st))" "v (es_emitted ?st) \<le> 10 ^ 16" "d_scale D (es_emitted ?st) \<le> 28"
    using ok by (simp_all add: epoch_ok_def max_def abs_le_iff split: if_splits)
  then have "\<bar>v (es_emitted ?st) - v a\<bar> < 2 ^ 96 / 10 ^ 8" using a by simp
  then obtain e where e: "dec_sub D (es_emitted ?st) a = Inr e" "v e = v (es_emitted ?st) - v a"
    using dec_sub_exact [OF L(1) em(1) a(2)] by blast
  have "d_checked_sub D (es_emitted ?st) a = Some e" using e(1) by (cases "d_checked_sub D (es_emitted ?st) a") (simp_all add: dec_sub_def)
  then have se: "d_scale D e \<le> 28" using em(3) a(3) L(2) unfolding scale_laws_def by blast
  have z: "d_scale D (d_zero D) \<le> 28" using L(2) unfolding scale_laws_def by blast
  define m where "m = d_max D e (d_zero D)"
  have m: "v m = v (es_emitted ?st) - v a" "d_scale D m \<le> 28"
    using a(4) e(2) dec_laws_max [OF L(1), of e "d_zero D"] dec_laws_zero [OF L(1)] se z
    unfolding m_def by (simp, simp add: d_max_def)
  have "epoch_ok D v (?st\<lparr>es_emitted := m\<rparr>)"
    using ok m a(1,4) at_scale_diff [OF em(1) a(2)] by (simp add: epoch_ok_def)
  moreover have "g' = snd (persist_locked F D (g\<lparr>eg_state := ?st\<lparr>es_emitted := m\<rparr>\<rparr>))"
    using r e(1) a(1) by (simp add: release_def dec_order [OF L(1)] m_def)
  ultimately show ?thesis
    using m by (cases rule: persist_locked_cases [of F D "g\<lparr>eg_state := ?st\<lparr>es_emitted := m\<rparr>\<rparr>"]) auto
qed

lemma emission_inv_step:
  assumes L: "dec_laws D v" "scale_laws D v" and st: "emission_step D v from_f64 x y" and inv: "emission_inv D v x"
  shows "emission_inv D v y"
  using st
proof cases
  case (granted F config now_ms s p voie requested g a g' live)
  have I: "epoch_ok D v (eg_state g)" "standing v (eg_state g) live" "\<forall>x \<in> set live. at_scale 8 (snd x)"
    using inv granted(1) by (simp_all add: emission_inv_def)
  obtain st where st: "at_scale 8 (v a)" "rollover D from_f64 now_ms s p (eg_state g) = Inr st" "es_epoch_id (eg_state g') = es_epoch_id st"
    "epoch_ok D v (eg_state g')" "v (es_emitted (eg_state g')) = v (es_emitted st) + v a" "eg_durable g' = Some (to_json D (eg_state g'))"
  proof (rule reserve_result [OF L I(1) granted(5,6,3)])
    fix a' st assume "(Inr a :: 'a emission_error + 'a) = Inr a'" "0 < v a'" "at_scale 8 (v a')" "d_scale D a' \<le> 28" "rollover D from_f64 now_ms s p (eg_state g) = Inr st"
      "es_epoch_id (eg_state g') = es_epoch_id st" "epoch_ok D v (eg_state g')" "es_budget (eg_state g') = es_budget st"
      "v (es_emitted (eg_state g')) = v (es_emitted st) + v a'" "eg_durable g' = Some (to_json D (eg_state g'))"
    then show thesis by (intro that) simp_all
  qed (use granted(4) in blast)+
  let ?live = "(es_epoch_id (eg_state g'), v a) # live"
  have now: "standing v (eg_state g') ?live"
    using rollover_live [OF L I(1) granted(6) st(2) I(2)] st(3,5) granted(4) by (simp add: standing_def)
  show ?thesis
    using durable_written [OF L(2) st(4) now] now I(3) st(1,4,6) unfolding granted(2) emission_inv_def by simp
next
  case (refused F config now_ms s p voie requested g res g' live)
  have I: "epoch_ok D v (eg_state g)" "standing v (eg_state g) live" "\<forall>x \<in> set live. at_scale 8 (snd x)"
    "durable_ok D v (es_epoch_id (eg_state g)) live (eg_durable g)"
    using inv refused(1) by (simp_all add: emission_inv_def)
  show ?thesis
  proof (rule reserve_result [OF L I(1) refused(5,6,3)])
    assume "g' = g"
    then show ?thesis using inv refused(1,2) by simp
  next
    fix a st assume "res = Inr a" "0 < v a"
    then show ?thesis using refused(4) by blast
  next
    fix st assume st: "rollover D from_f64 now_ms s p (eg_state g) = Inr st" "eg_durable g' = eg_durable g"
      "epoch_ok D v (eg_state g')" "same_epoch v st (eg_state g')"
    have R: "standing v st live" "es_epoch_id (eg_state g) \<le> es_epoch_id st"
      using rollover_live [OF L I(1) refused(6) st(1) I(2)] by blast+
    have "standing v (eg_state g') live" using R(1) st(4) by (simp add: standing_def same_epoch_def)
    moreover have "durable_ok D v (es_epoch_id (eg_state g')) live (eg_durable g')"
      using durable_later [OF I(4) R(2)] st(2,4) by (simp add: same_epoch_def)
    ultimately show ?thesis using st(3) I(3) unfolding refused(2) emission_inv_def by simp
  qed
next
  case (gave_back F a g g' l1 l2)
  let ?st = "eg_state g" and ?live = "l1 @ (es_epoch_id (eg_state g), v a) # l2"
  have I: "epoch_ok D v ?st" "standing v ?st ?live" "\<forall>x \<in> set ?live. at_scale 8 (snd x)"
    "durable_ok D v (es_epoch_id ?st) ?live (eg_durable g)"
    using inv gave_back(1) by (simp_all add: emission_inv_def)
  have pos: "\<forall>x \<in> set ?live. 0 < snd x" using I(2) by (simp add: standing_def)
  have a: "0 < v a" "at_scale 8 (v a)" using pos I(3) by simp_all
  have nn: "0 \<le> live_sum k l1" "0 \<le> live_sum k l2" for k using pos by (auto intro: live_sum_nonneg)
  have "v a \<le> v (es_emitted ?st)" using I(2) nn [of "es_epoch_id ?st"] by (simp add: standing_def)
  note R = release_result [OF L I(1) a gave_back(4) this gave_back(3)]
  have now: "standing v (eg_state g') (l1 @ l2)" using R I(2) by (simp add: standing_def)
  have "durable_ok D v (es_epoch_id (eg_state g')) (l1 @ l2) (eg_durable g')"
    using durable_written [OF L(2) _ now] durable_fewer [OF I(4) pos] R by metis
  then show ?thesis using R now I(3) unfolding gave_back(2) emission_inv_def by simp
next
  case (restarted g' F g live)
  have def: "epoch_ok D v (epoch_default D)" "v (es_emitted (epoch_default D)) = 0" "es_epoch_id (epoch_default D) = 0"
    using L by (simp_all add: epoch_ok_def epoch_default_def dec_laws_zero scale_laws_def at_scale_def)
  have I: "standing v (eg_state g) live" "\<forall>x \<in> set live. at_scale 8 (snd x)" "durable_ok D v (es_epoch_id (eg_state g)) live (eg_durable g)"
    using inv restarted(1) by (simp_all add: emission_inv_def)
  show ?thesis
  proof (cases "eg_durable g")
    case None
    then have "live = []" using I(3) by (simp add: durable_ok_def)
    then show ?thesis using def None restarted(4) unfolding restarted(2,3) 
      by (simp add: emission_inv_def load_gate_def io_def standing_def durable_ok_def)
  next
    case (Some p)
    then obtain st where st: "from_json D p = Some st" "epoch_ok D v st" "live_sum (es_epoch_id st) live \<le> v (es_emitted st)"
      "\<forall>x \<in> set live. fst x \<le> es_epoch_id st"
      using I(3) by (auto simp: durable_ok_def)
    then show ?thesis using Some I(1,2) restarted(4) unfolding restarted(2,3)
      by (simp add: emission_inv_def load_gate_def io_def standing_def durable_ok_def)
  qed
qed

lemma emission_inv_run:
  assumes "(emission_step D v from_f64)\<^sup>*\<^sup>* x y" "dec_laws D v" "scale_laws D v" "emission_inv D v x"
  shows "emission_inv D v y"
  using assms(1,4) by (induction rule: rtranclp_induct) (auto intro: emission_inv_step [OF assms(2,3)])

lemma released_result:
  assumes L: "dec_laws D v" "scale_laws D v" and ok: "epoch_ok D v (eg_state g1)" and a: "0 < v a" "at_scale 8 (v a)" "d_scale D a \<le> 28"
    and em: "v (es_emitted (eg_state g1)) = v (es_emitted st) + v a" "es_budget (eg_state g1) = es_budget st"
      "es_epoch_id (eg_state g1) = es_epoch_id st" "0 \<le> v (es_emitted st)"
    and r: "released F D a res g1 = Inr (out, g')"
  shows "out = res \<and> same_epoch v st (eg_state g') \<and> epoch_ok D v (eg_state g')"
proof -
  have g': "release F D a g1 = Inr g'" "out = res" using r by (auto simp: released_def)
  have "v a \<le> v (es_emitted (eg_state g1))" using em(1,4) by simp
  then show ?thesis using release_result [OF L ok a _ g'(1)] em g'(2) by (simp add: same_epoch_def)
qed

text \<open>A gated mint counts exactly what it mints: the amount once when the block is in, nothing otherwise.\<close>

lemma emit_accounts:
  assumes L: "dec_laws D v" "scale_laws D v" and ok: "epoch_ok D v (eg_state g)" and req: "fair_request D v requested"
    and fair: "fair_rollover D v from_f64 now_ms s p (eg_state g)"
    and r: "emit_native_gated F D from_f64 config now_ms s p voie requested build_outputs parents forge persist g = Inr (out, g')"
  shows "epoch_ok D v (eg_state g') \<and>
    (out = Inl MintDisabled \<and> g' = g \<or>
     (\<exists>st. rollover D from_f64 now_ms s p (eg_state g) = Inr st \<and>
        (case out of
           Inr (Minted a block_id n) \<Rightarrow> persist block_id = Inr Inserted \<and> 0 < v a \<and> es_epoch_id (eg_state g') = es_epoch_id st \<and>
             es_budget (eg_state g') = es_budget st \<and> v (es_emitted (eg_state g')) = v (es_emitted st) + v a
         | _ \<Rightarrow> same_epoch v st (eg_state g'))))"
proof -
  obtain res g1 where r1: "reserve F D from_f64 config now_ms s p voie requested g = Inr (res, g1)"
    using r by (auto simp: emit_native_gated_def)
  show ?thesis
  proof (rule reserve_result [OF L ok req fair r1])
    assume "res = Inl MintDisabled" "g1 = g"
    then show ?thesis using r r1 ok by (simp add: emit_native_gated_def)
  next
    fix st assume st: "rollover D from_f64 now_ms s p (eg_state g) = Inr st" "\<not> (\<exists>a. res = Inr a \<and> 0 < v a)"
      "epoch_ok D v (eg_state g1)" "same_epoch v st (eg_state g1)"
    have "g' = g1 \<and> (out = Inr Nothing \<or> (\<exists>e. out = Inl e))"
    proof (cases res)
      case (Inr a)
      then have "d_le D a (d_zero D)" using st(2) by (simp add: dec_order [OF L(1)])
      then show ?thesis using r r1 Inr by (simp add: emit_native_gated_def)
    qed (use r r1 in \<open>auto simp: emit_native_gated_def\<close>)
    then show ?thesis using st by auto
  next
    fix a st assume st: "res = Inr a" "0 < v a" "at_scale 8 (v a)" "d_scale D a \<le> 28"
      "rollover D from_f64 now_ms s p (eg_state g) = Inr st" "es_epoch_id (eg_state g1) = es_epoch_id st"
      "epoch_ok D v (eg_state g1)" "es_budget (eg_state g1) = es_budget st"
      "v (es_emitted (eg_state g1)) = v (es_emitted st) + v a"
    have nn: "0 \<le> v (es_emitted st)" using rollover_ok [OF L ok fair st(5)] by (simp add: epoch_ok_def)
    note rel = released_result [OF L st(7,2,3,4,9,8,6) nn]
    have pos: "\<not> d_le D a (d_zero D)" using st(2) by (simp add: dec_order [OF L(1)])
    obtain outputs where outs: "build_outputs a = Inr outputs"
      using r r1 st(1) pos by (auto simp: emit_native_gated_def)
    have body: "(if outputs = [] then released F D a (Inr Nothing) g1
           else (case parents of
                Inl e \<Rightarrow> released F D a (Inl (Persist (''parent resolution: '' @ e))) g1
              | Inr ps \<Rightarrow>
                  (case forge outputs ps of
                     Inl e \<Rightarrow> released F D a (Inl (Persist (''forge: '' @ e))) g1
                   | Inr block_id \<Rightarrow>
                       (case persist block_id of
                          Inr Inserted \<Rightarrow> Inr (Inr (Minted a block_id (length outputs)), g1)
                        | _ \<Rightarrow> released F D a (Inl (Persist ''persist not inserted'')) g1)))) = Inr (out, g')"
      using r r1 st(1) pos outs by (simp add: emit_native_gated_def)
    consider (out) o' where "released F D a o' g1 = Inr (out, g')" "o' = Inr Nothing \<or> (\<exists>e. o' = Inl e)"
      | (minted) block_id where "persist block_id = Inr Inserted" "out = Inr (Minted a block_id (length outputs))" "g' = g1"
      using body by (auto split: if_splits sum.splits put_result.splits)
    then show ?thesis
    proof cases
      case out
      then show ?thesis using rel [OF out(1)] st(5) by auto
    next
      case minted
      then show ?thesis using st by simp
    qed
  qed
qed

subsection \<open>Properties of the emission budget\<close>

definition fresh_gate :: "'d dec_lib \<Rightarrow> 'd emission_gate" where
  "fresh_gate D = \<lparr>eg_state = epoch_default D, eg_durable = None\<rparr>"

lemma fresh_gate_inv: "dec_laws D v \<Longrightarrow> scale_laws D v \<Longrightarrow> emission_inv D v (fresh_gate D, [])"
  by (simp add: emission_inv_def fresh_gate_def epoch_ok_def epoch_default_def dec_laws_zero scale_laws_def at_scale_def
      standing_def durable_ok_def)

lemma ref_scale_laws: "scale_laws ref_dec ref_val"
proof -
  have fit: "c = d" if "ref_fit d = Some c" for c d using that by (auto simp: ref_fit_def split: if_splits)
  show ?thesis
    unfolding scale_laws_def
    by (auto simp: ref_dec_def ref_show_parses Let_def split: prod.splits dest!: fit)
qed

definition two_percent :: emission_params where
  "two_percent = \<lparr>ep_target_pct = 2, ep_ceiling_pct = 10, ep_floor_pct = 0, ep_epoch_duration_sec = 86400\<rparr>"

definition example_epoch :: "rdec epoch_state" where
  "example_epoch = \<lparr>es_epoch_id = 3, es_supply_ref = (1000, 0), es_budget = (5479452, 8), es_emitted = (0, 0)\<rparr>"

lemma example_budget: "compute_epoch_budget ref_dec (\<lambda>_. Some (2, 0)) (1000, 0) two_percent = Inr (5479452, 8)"
proof -
  have "dec_div ref_dec (2, 0) (d_of_nat ref_dec 100) = Inr (200000000000000000000000000, 28)" by code_simp
  moreover have "dec_div ref_dec (d_of_nat ref_dec 86400) (d_of_nat ref_dec seconds_per_year) = Inr (27397260273972602739726027, 28)"
    by (simp add: seconds_per_year_def dec_div_def ref_dec_def ref_fit_def)
  moreover have "d_max ref_dec (1000, 0) (d_zero ref_dec) = (1000, 0)" by code_simp
  moreover have "dec_mul ref_dec (1000, 0) (200000000000000000000000000, 28) = Inr (200000000000000000000000000000, 28)" by code_simp
  moreover have "dec_mul ref_dec (200000000000000000000000000000, 28) (27397260273972602739726027, 28) = Inr (5479452054794520547945205400000000000000000000000000000, 56)"
    by (simp add: dec_mul_def ref_dec_def ref_fit_def)
  moreover have "d_round_dp ref_dec (5479452054794520547945205400000000000000000000000000000, 56) 8 = (5479452, 8)" by (simp add: ref_dec_def half_even_div_def)
  ultimately show ?thesis by (simp add: compute_epoch_budget_def two_percent_def)
qed

lemma example_rollover_at:
  assumes "es_epoch_id st < current_epoch two_percent now_ms"
  shows "rollover ref_dec (\<lambda>_. Some (2, 0)) now_ms (1000, 0) two_percent st =
    Inr (example_epoch\<lparr>es_epoch_id := current_epoch two_percent now_ms\<rparr>)"
proof -
  have "d_max ref_dec (1000, 0) (d_zero ref_dec) = (1000, 0)" by code_simp
  then show ?thesis using assms example_budget
    by (simp add: rollover_def example_epoch_def Let_def) (simp add: ref_dec_def)
qed

lemma example_epochs: "current_epoch two_percent 259200000 = 3" "current_epoch two_percent 345600000 = 4"
  by (simp_all add: current_epoch_def two_percent_def)

lemma example_rollover:
  "rollover ref_dec (\<lambda>_. Some (2, 0)) 259200000 (1000, 0) two_percent (epoch_default ref_dec) = Inr example_epoch"
  using example_rollover_at [of "epoch_default ref_dec" 259200000] unfolding example_epochs
  by (simp add: epoch_default_def example_epoch_def)

lemma example_fair:
  "fair_rollover ref_dec ref_val (\<lambda>_. Some (2, 0)) 259200000 (1000, 0) two_percent (epoch_default ref_dec)"
  "fair_request ref_dec ref_val (Some (5479452, 8))"
  unfolding fair_rollover_def example_rollover fair_request_def
  by (simp_all add: example_epoch_def ref_val_def ref_dec_def at_scale_def)

definition example_gate :: "rdec emission_gate" where
  "example_gate = \<lparr>eg_state = example_epoch\<lparr>es_emitted := (5479452, 8)\<rparr>,
     eg_durable = Some (to_json ref_dec (example_epoch\<lparr>es_emitted := (5479452, 8)\<rparr>))\<rparr>"

lemma example_grant:
  assumes "rollover ref_dec (\<lambda>_. Some (2, 0)) now_ms (1000, 0) two_percent (eg_state g) = Inr st"
    and "es_budget st = (5479452, 8)" "es_emitted st = (0, k)" "k \<le> 8"
  shows "reserve no_faults ref_dec (\<lambda>_. Some (2, 0)) (Inl []) now_ms (1000, 0) two_percent OnRamp (Some (5479452, 8)) g =
    Inr (Inr (5479452, 8), g\<lparr>eg_state := st\<lparr>es_emitted := (5479452, 8)\<rparr>, eg_durable := Some (to_json ref_dec (st\<lparr>es_emitted := (5479452, 8)\<rparr>))\<rparr>)"
proof -
  have "remaining ref_dec st = Inr (5479452, 8)" using assms(2-4)
    by (simp add: remaining_def dec_sub_def d_max_def d_lt_def ref_dec_def ref_fit_def max_def)
  moreover have "dec_add ref_dec (0, k) (5479452, 8) = Inr (5479452, 8)" 
    using assms(4) by (simp add: dec_add_def ref_dec_def ref_fit_def max_def)
  moreover have "\<not> d_le ref_dec (5479452, 8) (d_zero ref_dec)" "\<not> d_lt ref_dec (5479452, 8) (5479452, 8)"
    by (simp_all add: ref_dec_def d_lt_def)
  ultimately show ?thesis
    by (simp add: reserve_def assms wanted_def persist_locked_def no_faults_def Let_def)
qed

lemma example_reserve:
  "reserve no_faults ref_dec (\<lambda>_. Some (2, 0)) (Inl []) 259200000 (1000, 0) two_percent OnRamp (Some (5479452, 8))
     (fresh_gate ref_dec) = Inr (Inr (5479452, 8), example_gate)"
  using example_grant [of 259200000 "fresh_gate ref_dec" example_epoch 0] example_rollover
  by (simp add: fresh_gate_def example_epoch_def example_gate_def)


lemma example_step:
  "emission_step ref_dec ref_val (\<lambda>_. Some (2, 0)) (fresh_gate ref_dec, []) (example_gate, [(3, ref_val (5479452, 8))])"
proof -
  have "0 < ref_val (5479452, 8)" "es_epoch_id (eg_state example_gate) = 3"
    by (simp_all add: ref_val_def example_gate_def example_epoch_def)
  moreover have "eg_state (fresh_gate ref_dec) = epoch_default ref_dec" by (simp add: fresh_gate_def)
  ultimately show ?thesis
    using emission_step.granted [where D = ref_dec and v = ref_val and live = "[]", OF example_reserve _ example_fair(2)] example_fair(1)
    by simp
qed


text \<open>A gated mint counts what it mints and nothing else: when \<open>emit_native_gated\<close> returns, either the mint is disabled and the gate is untouched, or the block was inserted and the counter grew by its amount, or nothing was minted (empty outputs, failed parents, forge or persistence, exhausted budget, failed write of the counter) and the counter is what the rollover left.\<close>

lemma gated_mint_counts_once:
  assumes "dec_laws D v" "scale_laws D v" "epoch_ok D v (eg_state g)" "fair_request D v requested"
    and "fair_rollover D v from_f64 now_ms s p (eg_state g)"
    and "emit_native_gated F D from_f64 config now_ms s p voie requested build_outputs parents forge persist g = Inr (out, g')"
  shows "out = Inl MintDisabled \<and> g' = g \<or>
     (\<exists>st. rollover D from_f64 now_ms s p (eg_state g) = Inr st \<and>
        (case out of
           Inr (Minted a block_id n) \<Rightarrow> persist block_id = Inr Inserted \<and> 0 < v a \<and> es_epoch_id (eg_state g') = es_epoch_id st \<and>
             es_budget (eg_state g') = es_budget st \<and> v (es_emitted (eg_state g')) = v (es_emitted st) + v a
         | _ \<Rightarrow> same_epoch v st (eg_state g')))"
  using emit_accounts [OF assms] by blast

lemma example_emit:
  "emit_native_gated no_faults ref_dec (\<lambda>_. Some (2, 0)) (Inl []) 259200000 (1000, 0) two_percent OnRamp (Some (5479452, 8))
     (\<lambda>a. Inr [txoutput_new ''8eaa'' (ref_show a) None]) (Inr []) (\<lambda>_ _. Inr ''b1'') (\<lambda>_. Inr Inserted) (fresh_gate ref_dec) =
   Inr (Inr (Minted (5479452, 8) ''b1'' 1), example_gate)"
proof -
  have "\<not> d_le ref_dec (5479452, 8) (d_zero ref_dec)" by (simp add: ref_dec_def)
  then show ?thesis unfolding emit_native_gated_def example_reserve by simp
qed





lemma effective_rate_in_corridor:
  "max (min f c) 0 \<le> effective_rate_pct t c f \<and> effective_rate_pct t c f \<le> max (max c f) 0"
  by (auto simp: effective_rate_pct_def Let_def)

lemma baseline_outputs_go_to:
  "baseline_outputs D creator_pct treasury_pct coord treasury amount = Inr outs \<Longrightarrow>
   set (map o_address outs) \<subseteq> {coord, treasury}"
  by (auto simp: baseline_outputs_def txoutput_new_def split: if_splits)

subsection \<open>What the budget does not catch\<close>

text \<open>
  A reservation carries no epoch. When it is released after the epoch has rolled over, it lowers the counter
  of the new epoch: here the whole budget of the epoch is reserved, an earlier reservation is
  released, and the whole budget is granted again.
\<close>

definition gate_of_4 :: "rdec emission_gate" where
  "gate_of_4 = \<lparr>eg_state = example_epoch\<lparr>es_epoch_id := 4, es_emitted := (5479452, 8)\<rparr>,
     eg_durable = Some (to_json ref_dec (example_epoch\<lparr>es_epoch_id := 4, es_emitted := (5479452, 8)\<rparr>))\<rparr>"

lemma late_release_grants_the_budget_twice:
  defines "grant \<equiv> reserve no_faults ref_dec (\<lambda>_. Some (2, 0)) (Inl []) 345600000 (1000, 0) two_percent OnRamp (Some (5479452, 8))"
  shows "grant example_gate = Inr (Inr (5479452, 8), gate_of_4) \<and>
    rbind (release no_faults ref_dec (5479452, 8) gate_of_4) grant = Inr (Inr (5479452, 8), gate_of_4)"
proof
  show "grant example_gate = Inr (Inr (5479452, 8), gate_of_4)"
    using example_grant [OF example_rollover_at, of example_gate 345600000 0]
    by (simp add: grant_def example_epochs example_gate_def gate_of_4_def example_epoch_def)
  let ?st = "example_epoch\<lparr>es_epoch_id := 4, es_emitted := (0, 8)\<rparr>"
  have "dec_sub ref_dec (5479452, 8) (5479452, 8) = Inr (0, 8)" by code_simp
  moreover have "\<not> d_le ref_dec (5479452, 8) (d_zero ref_dec)" "d_max ref_dec (0, 8) (d_zero ref_dec) = (0, 0)"
    by (simp_all add: ref_dec_def d_lt_def d_max_def)
  ultimately have "release no_faults ref_dec (5479452, 8) gate_of_4 =
    Inr \<lparr>eg_state = example_epoch\<lparr>es_epoch_id := 4\<rparr>, eg_durable = Some (to_json ref_dec (example_epoch\<lparr>es_epoch_id := 4\<rparr>))\<rparr>"
    by (simp add: release_def gate_of_4_def persist_locked_def no_faults_def example_epoch_def)
  moreover have "rollover ref_dec (\<lambda>_. Some (2, 0)) 345600000 (1000, 0) two_percent (example_epoch\<lparr>es_epoch_id := 4\<rparr>) =
    Inr (example_epoch\<lparr>es_epoch_id := 4\<rparr>)"
    by (simp add: rollover_def example_epochs)
  ultimately show "rbind (release no_faults ref_dec (5479452, 8) gate_of_4) grant = Inr (Inr (5479452, 8), gate_of_4)"
    using example_grant [of 345600000 _ "example_epoch\<lparr>es_epoch_id := 4\<rparr>" 0]
    by (simp add: grant_def gate_of_4_def example_epoch_def)
qed

text \<open>A failed read at boot is taken for an empty store: the budget of the running epoch is granted again.\<close>

lemma failed_read_at_boot_resets_the_counter:
  assumes "F (DbGet ''node_fee_pool'' emission_key) = Some e"
  shows "es_emitted (eg_state (load_gate F D g)) = d_zero D \<and> es_epoch_id (eg_state (load_gate F D g)) = 0"
  using assms by (simp add: load_gate_def io_def epoch_default_def)

lemma budget_granted_again_after_failed_read:
  assumes "F (DbGet ''node_fee_pool'' emission_key) = Some e"
  shows "\<exists>g'. reserve no_faults ref_dec (\<lambda>_. Some (2, 0)) (Inl []) 259200000 (1000, 0) two_percent OnRamp (Some (5479452, 8))
     (load_gate F ref_dec example_gate) = Inr (Inr (5479452, 8), g')"
proof -
  have "eg_state (load_gate F ref_dec example_gate) = epoch_default ref_dec" using assms by (simp add: load_gate_def io_def)
  then show ?thesis
    using example_grant [of 259200000 "load_gate F ref_dec example_gate" example_epoch 0] example_rollover
    by (simp add: example_epoch_def)
qed

text \<open>A configuration that cannot be read lets the emission through, as an enabled one does.\<close>

lemma unread_config_lets_emission_through:
  "rc_mint_enabled cfg \<Longrightarrow> reserve F D from_f64 (Inl e) now_ms s p voie requested g =
     reserve F D from_f64 (Inr cfg) now_ms s p voie requested g"
  by (simp add: reserve_def)

end
