(* ===== verification/LegacyDag.thy ===== *)
theory LegacyDag
  imports ConcDag TxValidation Authority
begin

section \<open>The sequential DAG: validation of a block, application, tips, weights\<close>

text \<open>
  \<open>pms-core\<close> dag.rs, tips.rs, weights.rs, validations/check.rs, parents.rs, apply.rs and impls.rs:
  the structure behind one lock, used by the synchronous path. The block map is an association list in
  the order of insertion (the iteration order of the hash map is not observed by the theorems), the counters
  of children a map, the index of children the \<open>child_index\<close> of the search. The draws of the random generator and the
  answers of the store are arguments.
\<close>

record legacy_dag =
  ld_blocks :: "(string \<times> block) list"
  ld_children :: "string \<Rightarrow> u64 option"
  ld_children_idx :: child_index
  ld_finality :: finality_state
  ld_spent :: "output_id set"

definition tip_children_threshold :: u64 where
  "tip_children_threshold = 4"

definition new_empty :: legacy_dag where
  "new_empty = \<lparr>ld_blocks = [], ld_children = Map.empty, ld_children_idx = [], ld_finality = finality_new 0, ld_spent = {}\<rparr>"

definition new_with_genesis :: "block \<Rightarrow> legacy_dag" where
  "new_with_genesis g = new_empty\<lparr>ld_children := [b_id g \<mapsto> 0], ld_blocks := [(b_id g, g)]\<rparr>"

definition children_count :: "legacy_dag \<Rightarrow> string \<Rightarrow> u64" where
  "children_count d x = (case ld_children d x of None \<Rightarrow> 0 | Some n \<Rightarrow> n)"

definition bump_children :: "string \<Rightarrow> legacy_dag \<Rightarrow> legacy_dag" where
  "bump_children p d = d\<lparr>ld_children := (ld_children d)(p \<mapsto> children_count d p + 1)\<rparr>"

definition add_child_edge_mem :: "string \<Rightarrow> string list \<Rightarrow> legacy_dag \<Rightarrow> legacy_dag" where
  "add_child_edge_mem child parents d =
     d\<lparr>ld_children_idx := fold (\<lambda>p idx. upsert p [] (\<lambda>cs. cs @ [child]) idx) parents (ld_children_idx d)\<rparr>"

definition mark_spent_ram :: "output_id \<Rightarrow> legacy_dag \<Rightarrow> legacy_dag" where
  "mark_spent_ram out d = d\<lparr>ld_spent := insert out (ld_spent d)\<rparr>"

definition add_block_mem :: "block \<Rightarrow> legacy_dag \<Rightarrow> legacy_dag" where
  "add_block_mem b d = d\<lparr>ld_blocks := AList.update (b_id b) b (ld_blocks d)\<rparr>"

subsection \<open>Finality\<close>

definition has_k_confirmations :: "legacy_dag \<Rightarrow> string \<Rightarrow> nat \<Rightarrow> bool" where
  "has_k_confirmations d b k \<longleftrightarrow> k = 0 \<or> k \<le> length (descend (ld_children_idx d) b k)"

definition is_milestone :: "block \<Rightarrow> bool" where
  "is_milestone b = (case b_payload b of Some (Plain (Milestone _ _)) \<Rightarrow> True | _ \<Rightarrow> False)"

definition update_finality_after_insert :: "string \<Rightarrow> legacy_dag \<Rightarrow> legacy_dag" where
  "update_finality_after_insert new_block_id d =
     (let k = fs_depth_k (ld_finality d);
          d1 = (case map_of (ld_blocks d) new_block_id of
                  Some b \<Rightarrow> if is_milestone b then d\<lparr>ld_finality := set_milestone new_block_id (ld_finality d)\<rparr> else d
                | None \<Rightarrow> d)
      in if k = 0 then d1
         else d1\<lparr>ld_finality := fold (\<lambda>x f. if x \<notin> fs_finalized f \<and> has_k_confirmations d1 x k then mark_final x f else f)
                (map fst (ld_blocks d1)) (ld_finality d1)\<rparr>)"

function mark_cone :: "(string \<times> block) list \<Rightarrow> string list \<Rightarrow> string set \<Rightarrow> string set" where
  "mark_cone bs [] final = final"
| "mark_cone bs (p # q) final =
     (if p \<in> final then mark_cone bs q final
      else case map_of bs p of
             None \<Rightarrow> mark_cone bs q (insert p final)
           | Some b \<Rightarrow> mark_cone bs (q @ b_parents b) (insert p final))"
  by pat_completeness auto
termination
proof (relation "measures [\<lambda>(bs, q, final). card (fst ` set bs - final), \<lambda>(bs, q, final). length q]")
  fix bs :: "(string \<times> block) list" and p q and final :: "string set" and b :: block
  assume p: "p \<notin> final" "map_of bs p = Some b"
  then have mem: "p \<in> fst ` set bs - final" by (force dest: map_of_SomeD)
  have "fst ` set bs - insert p final = (fst ` set bs - final) - {p}" by blast
  then have "card (fst ` set bs - insert p final) < card (fst ` set bs - final)"
    using card_Diff1_less [OF _ mem] by simp
  then show "((bs, q @ b_parents b, insert p final), bs, p # q, final)
      \<in> measures [\<lambda>(bs, q, final). card (fst ` set bs - final), \<lambda>(bs, q, final). length q]"
    by simp
next
  fix bs :: "(string \<times> block) list" and p q and final :: "string set"
  assume "p \<notin> final" "map_of bs p = None"
  then have "fst ` set bs - insert p final = fst ` set bs - final" by (auto simp: map_of_eq_None_iff)
  then show "((bs, q, insert p final), bs, p # q, final)
      \<in> measures [\<lambda>(bs, q, final). card (fst ` set bs - final), \<lambda>(bs, q, final). length q]"
    by simp
qed auto

definition maybe_update_finality_with :: "block \<Rightarrow> legacy_dag \<Rightarrow> legacy_dag" where
  "maybe_update_finality_with b d =
     (case b_payload b of
        Some (Plain (Milestone approved _)) \<Rightarrow>
          d\<lparr>ld_finality := \<lparr>fs_finalized = insert (b_id b) (mark_cone (ld_blocks d) approved (fs_finalized (ld_finality d))),
             fs_last_milestone = Some (b_id b), fs_depth_k = fs_depth_k (ld_finality d)\<rparr>\<rparr>
      | _ \<Rightarrow> d)"

subsection \<open>Application of a block\<close>

definition marked_inputs :: "block \<Rightarrow> output_id list" where
  "marked_inputs b =
     (case b_payload b of
        Some (Plain (TxUtxo tx)) \<Rightarrow> map ti_out (tx_inputs tx)
      | Some (Plain (MarketSettle tx _ _ _ _ _ _)) \<Rightarrow> map ti_out (tx_inputs tx)
      | Some (Plain (BridgeLock inputs _ _ _ _)) \<Rightarrow> map ti_out inputs
      | Some (Plain (Seize _ inputs _ _)) \<Rightarrow> map ti_out inputs
      | Some (Plain (Reverse _ inputs _ _)) \<Rightarrow> map ti_out inputs
      | _ \<Rightarrow> [])"

definition apply_block_mem :: "block \<Rightarrow> legacy_dag \<Rightarrow> legacy_dag" where
  "apply_block_mem b d =
     (let uniq = remdups_adj (sort (b_parents b));
          d1 = add_child_edge_mem (b_id b) uniq (fold bump_children uniq d);
          d2 = fold mark_spent_ram (marked_inputs b) d1
      in update_finality_after_insert (b_id b) (add_block_mem b d2))"

definition legacy_commit_block :: "block \<Rightarrow> legacy_dag \<Rightarrow> legacy_dag" where
  "legacy_commit_block b d = update_finality_after_insert (b_id b) (add_block_mem b (fold bump_children (b_parents b) d))"

definition add_block_unchecked :: "block \<Rightarrow> legacy_dag \<Rightarrow> string + legacy_dag" where
  "add_block_unchecked b d =
     (if map_of (ld_blocks d) (b_id b) \<noteq> None then Inl ''Block deja existant''
      else rbind (try_each (\<lambda>p. require (map_of (ld_blocks d) p \<noteq> None) (''Parent manquant: '' @ p)) (b_parents b)) (\<lambda>_.
      Inr (add_block_mem b d)))"

subsection \<open>Validation of a block\<close>

definition no_cycle :: "block \<Rightarrow> 'd policy \<Rightarrow> unit vresult" where
  "no_cycle b p = require (\<not> (p_forbid_self_parent p \<and> b_id b \<in> set (b_parents b))) SelfParent"

definition tip_count :: "legacy_dag \<Rightarrow> nat" where
  "tip_count d = length (filter (\<lambda>x. children_count d (fst x) = 0) (ld_blocks d))"

definition parent_count :: "legacy_dag \<Rightarrow> block \<Rightarrow> 'd policy \<Rightarrow> unit vresult" where
  "parent_count d b p =
     (let n_existing = length (ld_blocks d) in
      if b_payload b = Some (Plain Genesis) then
        require (n_existing = 0 \<and> b_parents b = []) (InvalidGenesis ''genesis doit etre premier et sans parents'')
      else if n_existing = 0 then Inl (InvalidGenesis ''genesis manquant'')
      else
        let target = if n_existing \<le> 1 then 1 else min (p_min_parents_after_boot p) (max (tip_count d) 1)
        in require (target \<le> length (b_parents b)) NotEnoughParents)"

definition payload_size_limit :: "ext_lib \<Rightarrow> block \<Rightarrow> 'd policy \<Rightarrow> unit vresult" where
  "payload_size_limit X b p =
     (case b_payload b of
        None \<Rightarrow> Inr ()
      | Some pe \<Rightarrow>
          let est = (case x_json_payload X pe of Some v \<Rightarrow> length v | None \<Rightarrow> p_max_payload_bytes p + 1)
          in require (est \<le> p_max_payload_bytes p) PayloadTooLarge)"

definition genesis_rules :: "block \<Rightarrow> unit vresult" where
  "genesis_rules b = require (b_parents b = []) (InvalidGenesis ''genesis sans parents'')"

fun no_double_spend_from :: "output_id set \<Rightarrow> output_id list \<Rightarrow> tx_input list \<Rightarrow> unit vresult" where
  "no_double_spend_from spent seen [] = Inr ()"
| "no_double_spend_from spent seen (inp # inps) =
     (if ti_out inp \<in> set seen then Inl DoubleSpend
      else if ti_out inp \<in> spent then Inl DoubleSpend
      else no_double_spend_from spent (ti_out inp # seen) inps)"

definition utxo_no_double_spend :: "legacy_dag \<Rightarrow> transaction \<Rightarrow> unit vresult" where
  "utxo_no_double_spend d tx = no_double_spend_from (ld_spent d) [] (tx_inputs tx)"

definition nth_output :: "tx_output list \<Rightarrow> u32 \<Rightarrow> tx_output vresult" where
  "nth_output outs i = (if unat i < length outs then Inr (outs ! unat i) else Inl MissingOutput)"

definition previous_output :: "legacy_dag \<Rightarrow> output_id \<Rightarrow> tx_output vresult" where
  "previous_output d out =
     (case map_of (ld_blocks d) (op_txid out) of
        None \<Rightarrow> Inl MissingInput
      | Some b \<Rightarrow>
          (case b_payload b of
             Some (Plain (Mint outputs)) \<Rightarrow> nth_output outputs (op_index out)
           | Some (Plain (TxUtxo txp)) \<Rightarrow> nth_output (tx_outputs txp) (op_index out)
           | _ \<Rightarrow> Inl MissingOutput))"

definition sum_inputs :: "'d dec_lib \<Rightarrow> legacy_dag \<Rightarrow> 'd \<times> tx_output list \<Rightarrow> tx_input \<Rightarrow> ('d \<times> tx_output list) vresult" where
  "sum_inputs D d acc inp =
     rbind (previous_output d (ti_out inp)) (\<lambda>prev.
     rbind (amount_parse_pos_dec D (o_amount prev)) (\<lambda>a.
     rbind (checked_sum D (fst acc) a) (\<lambda>s.
     Inr (s, snd acc @ [prev]))))"

definition utxo_sufficient_funds :: "'d dec_lib \<Rightarrow> ext_lib \<Rightarrow> u64 \<Rightarrow> legacy_dag \<Rightarrow> transaction \<Rightarrow> unit vresult" where
  "utxo_sufficient_funds D X now_ms d tx =
     rbind (amount_parse_non_neg_dec D (tx_fee tx)) (\<lambda>fee.
     rbind (try_fold (\<lambda>s out. rbind (amount_parse_pos_dec D (o_amount out)) (checked_sum D s)) (d_zero D) (tx_outputs tx)) (\<lambda>out_sum.
     rbind (checked_sum D out_sum fee) (\<lambda>need.
     if length (tx_inputs tx) \<noteq> length (tx_unlocks tx) then Inl (count_mismatch tx)
     else
       rbind (try_fold (sum_inputs D d) (d_zero D, []) (tx_inputs tx)) (\<lambda>(in_sum, prev_outs).
       rbind (check_input_time_locks prev_outs now_ms) (\<lambda>_.
       rbind (check_spend_authorization X (tx_unlocks tx) prev_outs) (\<lambda>_.
       require (\<not> d_lt D in_sum need) InsufficientFunds))))))"

definition ram_checks :: "'d dec_lib \<Rightarrow> ext_lib \<Rightarrow> u64 \<Rightarrow> legacy_dag \<Rightarrow> transaction \<Rightarrow> 'd policy \<Rightarrow> unit vresult" where
  "ram_checks D X now_ms d tx p =
     (if p_skip_utxo_checks p then Inr ()
      else rbind (utxo_no_double_spend d tx) (\<lambda>_. utxo_sufficient_funds D X now_ms d tx))"

definition payload_rules :: "'d dec_lib \<Rightarrow> ext_lib \<Rightarrow> u64 \<Rightarrow> legacy_dag \<Rightarrow> block \<Rightarrow> 'd policy \<Rightarrow> plain_payload \<Rightarrow> unit vresult" where
  "payload_rules D X now_ms d b p pp =
     (case pp of
        Genesis \<Rightarrow> genesis_rules b
      | Mint outputs \<Rightarrow>
          rbind (amounts_positive_outputs D outputs) (\<lambda>_. validate_output_conditions X outputs)
      | CustodialMint _ outputs _ _ _ \<Rightarrow>
          rbind (amounts_positive_outputs D outputs) (\<lambda>_. validate_output_conditions X outputs)
      | TxUtxo tx \<Rightarrow>
          rbind (verify_tx_signatures X tx (p_network_id p)) (\<lambda>_.
          rbind (validate_fee_recipient_output D tx p) (\<lambda>_.
          rbind (tx_amounts_valid D X tx p) (\<lambda>_.
          rbind (validate_output_conditions X (tx_outputs tx)) (\<lambda>_.
          ram_checks D X now_ms d tx p))))
      | TokenBurn tx _ _ _ \<Rightarrow>
          rbind (verify_tx_signatures X tx (p_network_id p)) (\<lambda>_.
          rbind (validate_output_conditions X (tx_outputs tx)) (\<lambda>_.
          ram_checks D X now_ms d tx p))
      | MarketSettle tx _ _ _ _ _ _ \<Rightarrow>
          rbind (verify_tx_signatures X tx (p_network_id p)) (\<lambda>_.
          rbind (validate_output_conditions X (tx_outputs tx)) (\<lambda>_.
          ram_checks D X now_ms d tx p))
      | NftPayload _ \<Rightarrow> require (b_signer_pk b \<noteq> None) (InvalidSignature ''NFT action block must be signed'')
      | _ \<Rightarrow> Inr ())"

definition validate_block :: "'d dec_lib \<Rightarrow> ext_lib \<Rightarrow> u64 \<Rightarrow> legacy_dag \<Rightarrow> block \<Rightarrow> 'd policy \<Rightarrow> unit vresult" where
  "validate_block D X now_ms d b p =
     rbind (payload_size_limit X b p) (\<lambda>_.
     rbind (no_cycle b p) (\<lambda>_.
     rbind (parent_count d b p) (\<lambda>_.
     rbind (validate_payload_authority D X (b_signer_pk b) (b_payload b) p) (\<lambda>_.
     case b_payload b of
       Some (Plain pp) \<Rightarrow> payload_rules D X now_ms d b p pp
     | _ \<Rightarrow> Inr ()))))"

datatype add_error = BlockExists | ParentUnknown string | Refused validation_error

definition add_block :: "'d dec_lib \<Rightarrow> ext_lib \<Rightarrow> u64 \<Rightarrow> block \<Rightarrow> legacy_dag \<Rightarrow> add_error + legacy_dag" where
  "add_block D X now_ms b d =
     (if map_of (ld_blocks d) (b_id b) \<noteq> None then Inl BlockExists
      else
        rbind (try_each (\<lambda>p. require (map_of (ld_blocks d) p \<noteq> None) (ParentUnknown p)) (b_parents b)) (\<lambda>_.
        rbind (map_sum Refused id (validate_block D X now_ms d b (policy_default D))) (\<lambda>_.
        Inr (apply_block_mem b d))))"

text \<open>The rules of the parents against the store, and of a linear chain.\<close>

definition parents_exist_in_store :: "(string \<Rightarrow> string + 'b option) \<Rightarrow> block \<Rightarrow> unit vresult" where
  "parents_exist_in_store get_block b =
     try_each (\<lambda>p. case get_block p of Inr (Some _) \<Rightarrow> Inr () | _ \<Rightarrow> Inl (ParentMissing p)) (b_parents b)"

definition enforce_single_parent :: "block \<Rightarrow> bool \<Rightarrow> unit vresult" where
  "enforce_single_parent b is_genesis =
     (if is_genesis then require (b_parents b = []) (InvalidGenesis ''genesis ne doit pas avoir de parents'')
      else require (length (b_parents b) = 1)
        (TooManyParents (''single_writer: bloc doit avoir exactement 1 parent, got '' @ show_nat (length (b_parents b)))))"

subsection \<open>Cumulative weights\<close>

text \<open>
  One round of the loop pops a block and credits its weight to each of its parents; a parent whose last
  child was popped joins the queue. A counter below zero wraps, as in a release build. The loop is fuelled;
  \<open>cumulative_weights\<close> gives it one round per block, and the theorems show that this is enough.
\<close>

type_synonym weight_state = "(string \<Rightarrow> u64 option) \<times> (string \<Rightarrow> u32 option) \<times> string list"

definition credit_parent :: "u64 \<Rightarrow> string \<Rightarrow> weight_state \<Rightarrow> weight_state" where
  "credit_parent w_b parent s =
     (case s of (weight, od, q) \<Rightarrow>
        let weight' = (case weight parent of None \<Rightarrow> weight | Some wp \<Rightarrow> weight(parent \<mapsto> sat_add wp w_b)) in
        case od parent of
          None \<Rightarrow> (weight', od, q)
        | Some n \<Rightarrow> (weight', od(parent \<mapsto> n - 1), if n - 1 = 0 then q @ [parent] else q))"

fun weights_loop :: "(string \<times> block) list \<Rightarrow> nat \<Rightarrow> weight_state \<Rightarrow> (string \<Rightarrow> u64 option) option" where
  "weights_loop bs fuel (weight, od, []) = Some weight"
| "weights_loop bs 0 (weight, od, bid # q) = None"
| "weights_loop bs (Suc fuel) (weight, od, bid # q) =
     (let w_b = (case weight bid of Some w \<Rightarrow> w | None \<Rightarrow> 0);
          parents = (case map_of bs bid of Some b \<Rightarrow> b_parents b | None \<Rightarrow> [])
      in weights_loop bs fuel (fold (credit_parent w_b) parents (weight, od, q)))"

definition references :: "(string \<times> block) list \<Rightarrow> string \<Rightarrow> nat" where
  "references bs x = sum_list (map (\<lambda>b. count_list (b_parents (snd b)) x) bs)"

definition initial_weights :: "legacy_dag \<Rightarrow> weight_state" where
  "initial_weights d =
     (let bs = ld_blocks d;
          od = (\<lambda>x. if map_of bs x = None then None else Some (of_nat (references bs x) :: u32))
      in (\<lambda>x. if map_of bs x = None then None else Some 1, od, filter (\<lambda>x. od x = Some 0) (map fst bs)))"

definition cumulative_weights :: "legacy_dag \<Rightarrow> (string \<Rightarrow> u64 option) option" where
  "cumulative_weights d = weights_loop (ld_blocks d) (length (ld_blocks d)) (initial_weights d)"

subsection \<open>Tips and the choice of parents\<close>

definition weight_of :: "(string \<Rightarrow> u64 option) \<Rightarrow> string \<Rightarrow> u64" where
  "weight_of cw x = (case cw x of Some w \<Rightarrow> w | None \<Rightarrow> 1)"

definition find_tips :: "legacy_dag \<Rightarrow> string list option" where
  "find_tips d =
     (let tips = filter (\<lambda>x. children_count d x < tip_children_threshold) (map fst (ld_blocks d)) in
      if length tips \<le> max_tips_cap then Some tips
      else map_option (\<lambda>cw. take max_tips_cap (sort_key (\<lambda>x. - int (unat (weight_of cw x))) tips)) (cumulative_weights d))"

definition genesis_id :: "legacy_dag \<Rightarrow> string option" where
  "genesis_id d = map_option fst (find (\<lambda>x. b_parents (snd x) = []) (ld_blocks d))"

definition swap_remove :: "nat \<Rightarrow> 'a list \<Rightarrow> 'a \<times> 'a list" where
  "swap_remove i xs = (xs ! i, butlast (xs[i := last xs]))"

fun draw_parents :: "(nat \<Rightarrow> u64 list \<Rightarrow> nat) \<Rightarrow> nat \<Rightarrow> (string \<times> u64) list \<Rightarrow> panic + string list" where
  "draw_parents pick 0 pool = Inr []"
| "draw_parents pick (Suc k) [] = Inr []"
| "draw_parents pick (Suc k) [x] = Inr [fst x]"
| "draw_parents pick (Suc k) pool =
     (let ws = map snd pool in
      if \<not> list_all (\<lambda>w. w = hd ws) ws \<and> 2 ^ 64 \<le> sum_list (map unat ws) then Inl (Panic ''poids invalides'')
      else let r = swap_remove (pick k ws) pool in
        rbind (draw_parents pick k (snd r)) (\<lambda>rest. Inr (fst (fst r) # rest)))"

definition select_parents ::
  "(nat \<Rightarrow> nat) \<Rightarrow> (nat \<Rightarrow> u64 list \<Rightarrow> nat) \<Rightarrow> legacy_dag \<Rightarrow> nat \<Rightarrow> nat \<Rightarrow> (panic + string list) option" where
  "select_parents random_upto pick d min_parents max_parents =
     (case (if length (ld_blocks d) = 1 then genesis_id d else None) of
        Some gid \<Rightarrow> Some (Inr [gid])
      | None \<Rightarrow>
          Option.bind (find_tips d) (\<lambda>tips.
          if tips = [] then
            Some (Inr (case genesis_id d of Some gid \<Rightarrow> [gid]
                       | None \<Rightarrow> (case ld_blocks d of [] \<Rightarrow> [] | x # _ \<Rightarrow> [fst x])))
          else
            let span = max_parents - min_parents;
                k = min (min_parents + (if span = 0 then 0 else random_upto span)) (length tips)
            in map_option (\<lambda>cw. draw_parents pick k
                 (map (\<lambda>x. (x, if weight_of cw x = 0 then 1 else weight_of cw x)) tips)) (cumulative_weights d)))"

definition select_parents_deterministic ::
  "ext_lib \<Rightarrow> legacy_dag \<Rightarrow> (nat \<Rightarrow> string + string list) \<Rightarrow> (nat \<Rightarrow> string + string list) \<Rightarrow> nat \<Rightarrow> nat \<Rightarrow> bool
   \<Rightarrow> string + string list" where
  "select_parents_deterministic X d recent_ids top_tips k window enforce_single_writer =
     rbind (if enforce_single_writer then recent_ids 1 else Inr []) (\<lambda>recents.
     if recents \<noteq> [] then Inr [hd recents]
     else
       let seed = (case fs_last_milestone (ld_finality d) of Some m \<Rightarrow> m | None \<Rightarrow> ''genesis'') in
       rbind (top_tips window) (\<lambda>tips0.
       let tips1 = filter (\<lambda>x. map_of (ld_blocks d) x \<noteq> None \<and> x \<notin> fs_finalized (ld_finality d)) tips0;
           tips2 = take k (remdups_adj (sort_key (\<lambda>x. x_sha256 X (seed @ x)) tips1));
           min_needed = (if length (ld_blocks d) \<le> 1 then 1 else min 2 k);
           tips3 = (if length tips2 < min_needed then
                      (case genesis_id d of Some gid \<Rightarrow> if gid \<in> set tips2 then tips2 else tips2 @ [gid] | None \<Rightarrow> tips2)
                    else tips2);
           tips4 = (if tips3 = [] then (case genesis_id d of Some gid \<Rightarrow> [gid] | None \<Rightarrow> []) else tips3)
       in Inr tips4))"

subsection \<open>Mining and reloading\<close>

definition ok_pow :: "string \<Rightarrow> u8 \<Rightarrow> bool" where
  "ok_pow hex_id diff \<longleftrightarrow> diff = 0 \<or>
     diff \<le> (of_nat (length (takeWhile (\<lambda>c. c = CHR ''0'') hex_id)) :: u8) * 4"

fun mine_from :: "(u64 \<Rightarrow> string) \<Rightarrow> (string \<Rightarrow> bool) \<Rightarrow> u8 \<Rightarrow> nat \<Rightarrow> u64 \<Rightarrow> (u64 \<times> string) option" where
  "mine_from compute_id id_exists diff 0 nonce = None"
| "mine_from compute_id id_exists diff (Suc n) nonce =
     (let x = compute_id nonce in
      if \<not> id_exists x \<and> ok_pow x diff then Some (nonce, x)
      else mine_from compute_id id_exists diff n (nonce + 1))"

definition mine ::
  "(string list \<Rightarrow> payload_envelope option \<Rightarrow> u64 \<Rightarrow> string) \<Rightarrow> (string \<Rightarrow> bool) \<Rightarrow> u8 \<Rightarrow> bool \<Rightarrow> (nat \<Rightarrow> u64)
   \<Rightarrow> string list \<Rightarrow> payload_envelope option \<Rightarrow> u64 \<times> string" where
  "mine compute_id id_exists diff canonicalize rand parents payload =
     (let hash = compute_id (if canonicalize then sort parents else parents) payload in
      case mine_from hash id_exists diff 1000000 (rand 0) of
        Some r \<Rightarrow> r
      | None \<Rightarrow>
          (case find (\<lambda>i. \<not> id_exists (hash (rand (Suc i))) \<and> ok_pow (hash (rand (Suc i))) diff) [0..<10000000] of
             Some i \<Rightarrow> (rand (Suc i), hash (rand (Suc i)))
           | None \<Rightarrow> (rand 10000001, hash (rand 10000001))))"

definition build_block ::
  "(string list \<Rightarrow> payload_envelope option \<Rightarrow> u64 \<Rightarrow> string) \<Rightarrow> (string \<Rightarrow> bool) \<Rightarrow> u8 \<Rightarrow> bool \<Rightarrow> (nat \<Rightarrow> u64)
   \<Rightarrow> string list \<Rightarrow> payload_envelope option \<Rightarrow> block" where
  "build_block compute_id id_exists diff canonicalize rand parents payload =
     (case mine compute_id id_exists diff canonicalize rand parents payload of (nonce, x) \<Rightarrow>
        \<lparr>b_id = x, b_parents = (if canonicalize then sort parents else parents), b_payload = payload, b_nonce = nonce,
         b_signer_pk = None, b_signature = None, b_metadata = None\<rparr>)"

record stored_block =
  sb_id :: string
  sb_parents :: "string list"
  sb_payload_json :: "string option"
  sb_nonce :: u64
  sb_network_id :: string
  sb_protocol_version :: "16 word"
  sb_signer_pk_hex :: string
  sb_signature_hex :: string
  sb_metadata :: "block_metadata option"

definition parse_payload :: "(string \<Rightarrow> string + payload_envelope) \<Rightarrow> string option \<Rightarrow> string + payload_envelope option" where
  "parse_payload from_json payload_json =
     (case payload_json of
        None \<Rightarrow> Inr None
      | Some s \<Rightarrow> let t = trim s in
          if t = [] \<or> t = ''null'' then Inr None else rbind (from_json t) (\<lambda>pe. Inr (Some pe)))"

definition block_of_stored :: "stored_block \<Rightarrow> payload_envelope option \<Rightarrow> block" where
  "block_of_stored sb payload =
     \<lparr>b_id = sb_id sb, b_parents = sb_parents sb, b_payload = payload, b_nonce = sb_nonce sb,
      b_signer_pk = (if sb_signer_pk_hex sb = [] then None else Some (sb_signer_pk_hex sb)),
      b_signature = (if sb_signature_hex sb = [] then None else Some (sb_signature_hex sb)), b_metadata = None\<rparr>"

definition reload_block ::
  "(string \<Rightarrow> string + payload_envelope) \<Rightarrow> (string \<Rightarrow> string + stored_block option) \<Rightarrow> legacy_dag \<Rightarrow> string \<Rightarrow> string + legacy_dag" where
  "reload_block from_json get_block d x =
     rbind (get_block x) (\<lambda>found.
     case found of
       None \<Rightarrow> Inr d
     | Some sb \<Rightarrow>
         rbind (parse_payload from_json (sb_payload_json sb)) (\<lambda>payload.
         Inr (add_block_mem (block_of_stored sb payload) (fold bump_children (sb_parents sb) d))))"

definition legacy_bootstrap ::
  "(string \<Rightarrow> string + payload_envelope) \<Rightarrow> string + string list \<Rightarrow> (string \<Rightarrow> string + stored_block option)
   \<Rightarrow> string + string list \<Rightarrow> string + string option \<Rightarrow> string + legacy_dag" where
  "legacy_bootstrap from_json all_block_ids get_block load_final load_last_milestone =
     rbind all_block_ids (\<lambda>ids.
     rbind (try_fold (reload_block from_json get_block) new_empty (sort ids)) (\<lambda>d.
     Inr (d\<lparr>ld_finality := \<lparr>fs_finalized = (case load_final of Inr fs \<Rightarrow> set fs | Inl _ \<Rightarrow> {}),
              fs_last_milestone = (case load_last_milestone of Inr m \<Rightarrow> m | Inl _ \<Rightarrow> None), fs_depth_k = 0\<rparr>,
            ld_children_idx := fold (\<lambda>b idx. fold (\<lambda>p idx. upsert p [] (\<lambda>cs. cs @ [b_id b]) idx) (b_parents b) idx)
              (map snd (ld_blocks d)) []\<rparr>)))"

subsection \<open>The structure of the DAG\<close>

text \<open>
  In every history of insertions from a genesis: the identifiers are distinct, the parents of a block came
  before it, the index and the counters of children are exact, the spent outpoints are those the blocks
  marked, and no transfer or settlement spends what an earlier block had marked.
\<close>

definition child_ids :: "(string \<times> block) list \<Rightarrow> string \<Rightarrow> string list" where
  "child_ids bs x = map fst (filter (\<lambda>y. x \<in> set (b_parents (snd y))) bs)"

definition all_marked :: "(string \<times> block) list \<Rightarrow> output_id set" where
  "all_marked bs = (\<Union>y \<in> set bs. set (marked_inputs (snd y)))"

fun spends_utxos :: "block \<Rightarrow> bool" where
  "spends_utxos b = (case b_payload b of
     Some (Plain (TxUtxo _)) \<Rightarrow> True | Some (Plain (MarketSettle _ _ _ _ _ _ _)) \<Rightarrow> True | _ \<Rightarrow> False)"

inductive grown :: "(string \<times> block) list \<Rightarrow> bool" where
  start: "b_parents g = [] \<Longrightarrow> \<not> spends_utxos g \<Longrightarrow> grown [(b_id g, g)]"
| grow: "grown bs \<Longrightarrow> b_id b \<notin> fst ` set bs \<Longrightarrow> set (b_parents b) \<subseteq> fst ` set bs \<Longrightarrow>
    (spends_utxos b \<Longrightarrow> distinct (marked_inputs b) \<and> set (marked_inputs b) \<inter> all_marked bs = {}) \<Longrightarrow> grown (bs @ [(b_id b, b)])"

definition legacy_ok :: "legacy_dag \<Rightarrow> bool" where
  "legacy_ok d \<longleftrightarrow> grown (ld_blocks d) \<and>
     (\<forall>x. children_of (ld_children_idx d) x = child_ids (ld_blocks d) x \<and>
          children_count d x = of_nat (length (child_ids (ld_blocks d) x))) \<and>
     ld_spent d = all_marked (ld_blocks d)"

lemma child_ids_snoc [simp]:
  "child_ids (bs @ [(k, b)]) x = child_ids bs x @ (if x \<in> set (b_parents b) then [k] else [])"
  by (simp add: child_ids_def)

lemma all_marked_snoc [simp]: "all_marked (bs @ [(k, b)]) = all_marked bs \<union> set (marked_inputs b)"
  by (auto simp: all_marked_def)

lemma finality_fields [simp]:
  "ld_blocks (update_finality_after_insert x d) = ld_blocks d"
  "ld_children (update_finality_after_insert x d) = ld_children d"
  "ld_children_idx (update_finality_after_insert x d) = ld_children_idx d"
  "ld_spent (update_finality_after_insert x d) = ld_spent d"
  by (simp_all add: update_finality_after_insert_def Let_def split: option.split)

lemma bump_fields [simp]:
  "ld_blocks (fold bump_children ps d) = ld_blocks d"
  "ld_children_idx (fold bump_children ps d) = ld_children_idx d"
  "ld_spent (fold bump_children ps d) = ld_spent d"
  by (induction ps arbitrary: d) (simp_all add: bump_children_def)

lemma bump_counts:
  "distinct ps \<Longrightarrow> children_count (fold bump_children ps d) x = children_count d x + (if x \<in> set ps then 1 else 0)"
  by (induction ps arbitrary: d) (auto simp: bump_children_def children_count_def)

lemma mark_fields [simp]:
  "ld_blocks (fold mark_spent_ram os d) = ld_blocks d"
  "ld_children (fold mark_spent_ram os d) = ld_children d"
  "ld_children_idx (fold mark_spent_ram os d) = ld_children_idx d"
  "ld_spent (fold mark_spent_ram os d) = ld_spent d \<union> set os"
  by (induction os arbitrary: d) (auto simp: mark_spent_ram_def)

lemma edges_children:
  "distinct ps \<Longrightarrow> children_of (fold (\<lambda>p idx. upsert p [] (\<lambda>cs. cs @ [c]) idx) ps idx) x =
     children_of idx x @ (if x \<in> set ps then [c] else [])"
  by (induction ps arbitrary: idx) (auto simp: children_of_def map_of_upsert)

lemma update_new: "map_of bs k = None \<Longrightarrow> AList.update k b bs = bs @ [(k, b)]"
  by (induction bs) (auto split: if_splits)

lemma sorted_dedup: "sorted xs \<Longrightarrow> distinct (remdups_adj xs)"
  by (induction xs rule: remdups_adj.induct) (auto simp: le_less)

lemma applied_fields:
  assumes "map_of (ld_blocks d) (b_id b) = None"
  shows "ld_blocks (apply_block_mem b d) = ld_blocks d @ [(b_id b, b)]"
    "ld_spent (apply_block_mem b d) = ld_spent d \<union> set (marked_inputs b)"
    "children_of (ld_children_idx (apply_block_mem b d)) x =
       children_of (ld_children_idx d) x @ (if x \<in> set (b_parents b) then [b_id b] else [])"
    "children_count (apply_block_mem b d) x = children_count d x + (if x \<in> set (b_parents b) then 1 else 0)"
proof -
  let ?u = "remdups_adj (sort (b_parents b))"
  have u: "distinct ?u" "set ?u = set (b_parents b)" by (simp_all add: sorted_dedup)
  show "ld_blocks (apply_block_mem b d) = ld_blocks d @ [(b_id b, b)]"
    "ld_spent (apply_block_mem b d) = ld_spent d \<union> set (marked_inputs b)"
    using assms by (simp_all add: apply_block_mem_def Let_def add_block_mem_def add_child_edge_mem_def update_new)
  show "children_of (ld_children_idx (apply_block_mem b d)) x =
       children_of (ld_children_idx d) x @ (if x \<in> set (b_parents b) then [b_id b] else [])"
    using edges_children [OF u(1), of "b_id b" "ld_children_idx d" x] u(2)
    by (simp add: apply_block_mem_def Let_def add_block_mem_def add_child_edge_mem_def)
  show "children_count (apply_block_mem b d) x = children_count d x + (if x \<in> set (b_parents b) then 1 else 0)"
    using bump_counts [OF u(1), of d x] u(2)
    by (simp add: apply_block_mem_def Let_def add_block_mem_def add_child_edge_mem_def children_count_def)
qed

lemma no_double_spend_ok:
  "no_double_spend_from spent seen inps = Inr () \<longleftrightarrow>
     distinct (map ti_out inps) \<and> ti_out ` set inps \<inter> (set seen \<union> spent) = {}"
  by (induction inps arbitrary: seen) auto

lemma try_each_require: "try_each (\<lambda>p. require (P p) (e p)) ps = Inr () \<longleftrightarrow> (\<forall>p \<in> set ps. P p)"
  by (induction ps) (auto simp: require_def)

lemma add_block_ok:
  assumes a: "add_block D X now_ms b d = Inr d'" and ok: "legacy_ok d"
  shows "legacy_ok d'"
proof -
  have new: "map_of (ld_blocks d) (b_id b) = None" and ps: "set (b_parents b) \<subseteq> fst ` set (ld_blocks d)"
    and v: "validate_block D X now_ms d b (policy_default D) = Inr ()" and d': "d' = apply_block_mem b d"
    using a by (auto simp: add_block_def try_each_require map_of_eq_None_iff map_sum_def split: if_splits sum.splits)
  have "distinct (marked_inputs b) \<and> set (marked_inputs b) \<inter> all_marked (ld_blocks d) = {}" if sp: "spends_utxos b"
  proof -
    obtain tx where "utxo_no_double_spend d tx = Inr ()" "marked_inputs b = map ti_out (tx_inputs tx)"
      using v sp by (auto simp: validate_block_def payload_rules_def ram_checks_def policy_default_def marked_inputs_def
          split: option.splits payload_envelope.splits plain_payload.splits)
    then show ?thesis using ok by (auto simp: utxo_no_double_spend_def no_double_spend_ok legacy_ok_def)
  qed
  then have "grown (ld_blocks d @ [(b_id b, b)])"
    using ok new ps by (intro grown.grow) (auto simp: legacy_ok_def map_of_eq_None_iff)
  then show ?thesis using ok applied_fields [OF new] by (simp add: legacy_ok_def d')
qed

definition add_all :: "'d dec_lib \<Rightarrow> ext_lib \<Rightarrow> (u64 \<times> block) list \<Rightarrow> legacy_dag \<Rightarrow> legacy_dag" where
  "add_all D X = fold (\<lambda>(now_ms, b) d. case add_block D X now_ms b d of Inr d' \<Rightarrow> d' | Inl _ \<Rightarrow> d)"

lemma add_all_ok: "legacy_ok d \<Longrightarrow> legacy_ok (add_all D X bs d)"
proof (induction bs arbitrary: d)
  case (Cons x bs)
  have "legacy_ok (case add_block D X (fst x) (snd x) d of Inr d' \<Rightarrow> d' | Inl _ \<Rightarrow> d)"
    using add_block_ok [OF _ Cons.prems] Cons.prems by (cases "add_block D X (fst x) (snd x) d") auto
  from Cons.IH [OF this] show ?case by (simp add: add_all_def case_prod_beta)
qed (simp add: add_all_def)

lemma legacy_ok_genesis:
  assumes "b_parents g = []" "b_payload g = Some (Plain Genesis)"
  shows "legacy_ok (new_with_genesis g)"
  using grown.start [OF assms(1)] assms
  by (simp add: legacy_ok_def new_with_genesis_def new_empty_def children_of_def child_ids_def children_count_def
      all_marked_def marked_inputs_def)

subsection \<open>The cone of a milestone\<close>

definition parent_edges :: "(string \<times> block) list \<Rightarrow> (string \<times> string) set" where
  "parent_edges bs = {(c, p). \<exists>b. map_of bs c = Some b \<and> p \<in> set (b_parents b)}"

definition cone :: "(string \<times> block) list \<Rightarrow> string set \<Rightarrow> string set" where
  "cone bs S = (parent_edges bs)\<^sup>* `` S"

lemma cone_least: "S \<subseteq> T \<Longrightarrow> parent_edges bs `` T \<subseteq> T \<Longrightarrow> cone bs S \<subseteq> T"
proof
  fix x assume S: "S \<subseteq> T" and T: "parent_edges bs `` T \<subseteq> T" and "x \<in> cone bs S"
  then obtain a where "a \<in> S" "(a, x) \<in> (parent_edges bs)\<^sup>*" by (auto simp: cone_def)
  from this(2) show "x \<in> T" by induction (use \<open>a \<in> S\<close> S T in auto)
qed

lemma cone_self: "S \<subseteq> cone bs S" "parent_edges bs `` cone bs S \<subseteq> cone bs S"
  by (auto simp: cone_def intro: rtrancl_into_rtrancl)

lemma cone_union_closed:
  assumes "parent_edges bs `` A \<subseteq> A \<union> S"
  shows "parent_edges bs `` (A \<union> cone bs S) \<subseteq> A \<union> cone bs S"
proof -
  have "A \<union> S \<subseteq> A \<union> cone bs S" using cone_self(1) [of S bs] by blast
  then show ?thesis using assms cone_self(2) [of bs S] unfolding Image_Un by blast
qed

lemma mark_cone_exact:
  assumes "parent_edges bs `` final \<subseteq> final \<union> set q"
  shows "mark_cone bs q final = final \<union> cone bs (set q)"
  using assms
proof (induction bs q final rule: mark_cone.induct)
  case (1 bs final)
  then show ?case by (simp add: cone_def)
next
  case (2 bs p q final)
  show ?case
  proof (cases "p \<in> final")
    case True
    have closed: "parent_edges bs `` final \<subseteq> final \<union> set q" using 2(4) True by auto
    have "cone bs (set (p # q)) \<subseteq> final \<union> cone bs (set q)"
      by (rule cone_least [OF _ cone_union_closed [OF closed]]) (use True cone_self(1) [of "set q" bs] in auto)
    moreover have "cone bs (set q) \<subseteq> cone bs (set (p # q))" by (auto simp: cone_def)
    ultimately show ?thesis using 2(1) [OF True closed] True by auto
  next
    case False
    let ?new = "case map_of bs p of None \<Rightarrow> [] | Some b \<Rightarrow> b_parents b"
    have edges: "parent_edges bs `` {p} = set ?new" by (cases "map_of bs p") (auto simp: parent_edges_def)
    have closed: "parent_edges bs `` insert p final \<subseteq> insert p final \<union> set (q @ ?new)" using 2(4) edges by auto
    have "mark_cone bs (p # q) final = insert p final \<union> cone bs (set (q @ ?new))"
      using 2(2,3) False closed by (cases "map_of bs p") auto
    moreover have "cone bs (set (p # q)) \<subseteq> insert p final \<union> cone bs (set (q @ ?new))"
      by (rule cone_least [OF _ cone_union_closed [OF closed]]) (use cone_self(1) [of "set (q @ ?new)" bs] in auto)
    moreover have "cone bs (set (q @ ?new)) \<subseteq> cone bs (set (p # q))"
    proof (rule cone_least)
      show "set (q @ ?new) \<subseteq> cone bs (set (p # q))"
      proof -
        have "set ?new \<subseteq> parent_edges bs `` cone bs (set (p # q))"
          using edges cone_self(1) [of "set (p # q)" bs] by auto
        then show ?thesis using cone_self(2) [of bs "set (p # q)"] cone_self(1) [of "set (p # q)" bs] by auto
      qed
    qed (rule cone_self)
    moreover have "p \<in> cone bs (set (p # q))" using cone_self(1) [of "set (p # q)" bs] by auto
    ultimately show ?thesis by auto
  qed
qed

subsection \<open>The weights\<close>

text \<open>
  \<open>cites bs y x\<close> is how many times \<open>y\<close> names \<open>x\<close> among its parents. The state after the blocks
  \<open>popped\<close>: the counter of a block is the number of references to it that remain, a block is in the queue or
  popped when none remains, and its weight is one plus the weights of the popped blocks that cite it.
\<close>

definition ids :: "(string \<times> block) list \<Rightarrow> string set" where
  "ids bs = fst ` set bs"

definition cites :: "(string \<times> block) list \<Rightarrow> string \<Rightarrow> string \<Rightarrow> nat" where
  "cites bs y x = (case map_of bs y of Some b \<Rightarrow> count_list (b_parents b) x | None \<Rightarrow> 0)"

definition left :: "(string \<times> block) list \<Rightarrow> string set \<Rightarrow> string \<Rightarrow> nat" where
  "left bs popped x = (\<Sum>y \<in> ids bs - popped. cites bs y x)"

definition weight_nat :: "(string \<Rightarrow> u64 option) \<Rightarrow> string \<Rightarrow> nat" where
  "weight_nat w x = (case w x of Some n \<Rightarrow> unat n | None \<Rightarrow> 0)"

definition max_weight :: nat where
  "max_weight = 2 ^ 64 - 1"

definition weights_inv ::
  "(string \<times> block) list \<Rightarrow> string set \<Rightarrow> string set \<Rightarrow> (string \<Rightarrow> nat) \<Rightarrow> weight_state \<Rightarrow> bool" where
  "weights_inv bs popped cur c s \<longleftrightarrow> (case s of (weight, od, q) \<Rightarrow>
     distinct q \<and> set q \<subseteq> ids bs \<and> set q \<inter> (popped \<union> cur) = {} \<and> popped \<union> cur \<subseteq> ids bs \<and>
     (\<forall>x. od x = (if x \<in> ids bs then Some (of_nat (left bs popped x - c x)) else None)) \<and>
     (\<forall>x \<in> ids bs. c x \<le> left bs popped x \<and> (x \<in> popped \<union> cur \<union> set q \<longleftrightarrow> left bs popped x = c x)) \<and>
     (\<forall>x. weight x = None \<longleftrightarrow> x \<notin> ids bs) \<and>
     (\<forall>x \<in> ids bs. weight_nat weight x =
        min max_weight (1 + (\<Sum>y \<in> popped. cites bs y x * weight_nat weight y) + (\<Sum>y \<in> cur. c x * weight_nat weight y))))"

lemma left_popped: "y \<in> ids bs \<Longrightarrow> y \<notin> popped \<Longrightarrow> left bs popped x = cites bs y x + left bs (insert y popped) x"
  unfolding left_def by (subst Diff_insert, rule sum.remove) (simp_all add: ids_def)

lemma sat_add_nat: "unat (sat_add a b) = min max_weight (unat a + unat (b :: u64))"
  by (simp add: unat_sat_add max_weight_def min.commute)

lemma weights_inv_cong:
  assumes "\<And>x. x \<in> ids bs \<Longrightarrow> c x = c' x"
  shows "weights_inv bs popped cur c s = weights_inv bs popped cur c' s"
  by (simp add: weights_inv_def assms cong: ball_cong if_cong sum.cong)

lemma credit_step:
  assumes inv: "weights_inv bs popped {bid} c (weight, od, q)" and w: "weight bid = Some w"
    and more: "p \<in> ids bs \<Longrightarrow> c p < left bs popped p" and small: "\<And>x. left bs popped x < 2 ^ 32"
  shows "weights_inv bs popped {bid} (c(p := c p + 1)) (credit_parent w p (weight, od, q)) \<and>
    fst (credit_parent w p (weight, od, q)) bid = Some w"
proof (cases "p \<in> ids bs")
  case False
  then have "od p = None" "weight p = None" using inv by (auto simp: weights_inv_def)
  then have same: "credit_parent w p (weight, od, q) = (weight, od, q)" by (simp add: credit_parent_def)
  have "weights_inv bs popped {bid} c s = weights_inv bs popped {bid} (c(p := c p + 1)) s" for s
    by (rule weights_inv_cong) (use False in auto)
  then show ?thesis using inv w unfolding same by (simp only: fst_conv simp_thms)
next
  case True
  let ?n = "left bs popped p - c p"
  note J = inv [unfolded weights_inv_def prod.case]
  note q = J [THEN conjunct1] J [THEN conjunct2, THEN conjunct1] J [THEN conjunct2, THEN conjunct2, THEN conjunct1]
    J [THEN conjunct2, THEN conjunct2, THEN conjunct2, THEN conjunct1]
  note J' = J [THEN conjunct2, THEN conjunct2, THEN conjunct2, THEN conjunct2]
  note J1 = J' [THEN conjunct1] and J2 = J' [THEN conjunct2, THEN conjunct1]
    and J3 = J' [THEN conjunct2, THEN conjunct2, THEN conjunct1] and J4 = J' [THEN conjunct2, THEN conjunct2, THEN conjunct2]
  have od: "od x = (if x \<in> ids bs then Some (of_nat (left bs popped x - c x)) else None)" for x using J1 by (rule spec)
  have zeros: "c x \<le> left bs popped x \<and> (x \<in> popped \<union> {bid} \<union> set q \<longleftrightarrow> left bs popped x = c x)" if "x \<in> ids bs" for x
    using J2 that by (rule bspec)
  have known: "weight x = None \<longleftrightarrow> x \<notin> ids bs" for x using J3 by (rule spec)
  have val: "weight_nat weight x = min max_weight (1 + (\<Sum>y \<in> popped. cites bs y x * weight_nat weight y) + c x * weight_nat weight bid)"
    if "x \<in> ids bs" for x
  proof -
    have "weight_nat weight x = min max_weight (1 + (\<Sum>y \<in> popped. cites bs y x * weight_nat weight y) + (\<Sum>y \<in> {bid}. c x * weight_nat weight y))"
      using J4 that by (rule bspec)
    then show ?thesis by simp
  qed
  have c: "c p < left bs popped p" by (rule more [OF True])
  then have out: "p \<notin> popped \<union> {bid} \<union> set q" using zeros [OF True] by auto
  obtain wp where wp: "weight p = Some wp" using known True by (cases "weight p") auto
  have n: "of_nat ?n - 1 = (of_nat (?n - 1) :: u32)" using c by (simp add: of_nat_diff)
  have zero: "(of_nat (?n - 1) :: u32) = 0 \<longleftrightarrow> ?n = 1"
  proof -
    have lt: "?n - 1 < 2 ^ 32" using small [of p] by linarith
    have "(of_nat (?n - 1) :: u32) = 0 \<longleftrightarrow> 2 ^ 32 dvd ?n - 1" by (simp add: word_of_nat_eq_0_iff)
    also have "\<dots> \<longleftrightarrow> ?n - 1 = 0" using lt by (metis dvd_0_right dvd_imp_le le_zero_eq linorder_not_le neq0_conv)
    finally show ?thesis using c by linarith
  qed
  have run: "credit_parent w p (weight, od, q) =
      (weight(p \<mapsto> sat_add wp w), od(p \<mapsto> of_nat (?n - 1)), if ?n = 1 then q @ [p] else q)"
    using True wp unfolding credit_parent_def Let_def prod.case od if_P [OF True] option.case n zero by simp
  have keep: "weight_nat (weight(p \<mapsto> sat_add wp w)) y = weight_nat weight y" if "y \<noteq> p" for y
    using that by (simp add: weight_nat_def)
  have sums: "(\<Sum>y \<in> popped. cites bs y x * weight_nat (weight(p \<mapsto> sat_add wp w)) y) = (\<Sum>y \<in> popped. cites bs y x * weight_nat weight y)" for x
    by (rule sum.cong [OF refl]) (metis UnI1 keep out)
  have new: "weight_nat (weight(p \<mapsto> sat_add wp w)) p = min max_weight (weight_nat weight p + weight_nat weight bid)"
    using wp w by (simp add: weight_nat_def sat_add_nat)
  have bid: "weight_nat (weight(p \<mapsto> sat_add wp w)) bid = weight_nat weight bid" using out keep by auto
  show ?thesis
    unfolding run weights_inv_def prod.case
  proof (intro conjI)
    show "\<forall>x\<in>ids bs. weight_nat (weight(p \<mapsto> sat_add wp w)) x =
        min max_weight (1 + (\<Sum>y\<in>popped. cites bs y x * weight_nat (weight(p \<mapsto> sat_add wp w)) y) +
          (\<Sum>y\<in>{bid}. (c(p := c p + 1)) x * weight_nat (weight(p \<mapsto> sat_add wp w)) y))"
    proof
      fix x assume x: "x \<in> ids bs"
      show "weight_nat (weight(p \<mapsto> sat_add wp w)) x =
        min max_weight (1 + (\<Sum>y\<in>popped. cites bs y x * weight_nat (weight(p \<mapsto> sat_add wp w)) y) +
          (\<Sum>y\<in>{bid}. (c(p := c p + 1)) x * weight_nat (weight(p \<mapsto> sat_add wp w)) y))"
        using val [OF x] keep [of x] new by (cases "x = p") (simp_all add: sums bid algebra_simps min_def)
    qed
    show "\<forall>x\<in>ids bs. (c(p := c p + 1)) x \<le> left bs popped x \<and>
        (x \<in> popped \<union> {bid} \<union> set (if ?n = 1 then q @ [p] else q) \<longleftrightarrow> left bs popped x = (c(p := c p + 1)) x)"
      using zeros c out True by auto
    show "\<forall>x. (od(p \<mapsto> of_nat (?n - 1))) x = (if x \<in> ids bs then Some (of_nat (left bs popped x - (c(p := c p + 1)) x)) else None)"
      using od True by simp
    show "\<forall>x. (weight(p \<mapsto> sat_add wp w)) x = None \<longleftrightarrow> x \<notin> ids bs" using known True by auto
    show "fst (weight(p \<mapsto> sat_add wp w), od(p \<mapsto> of_nat (?n - 1)), if ?n = 1 then q @ [p] else q) bid = Some w"
      using w out by auto
  qed (use q out True in auto)
qed


lemma credit_all:
  assumes "weights_inv bs popped {bid} c (weight, od, q)" "weight bid = Some w"
    "\<And>x. x \<in> ids bs \<Longrightarrow> c x + count_list ps x \<le> left bs popped x" "\<And>x. left bs popped x < 2 ^ 32"
  shows "weights_inv bs popped {bid} (\<lambda>x. c x + count_list ps x) (fold (credit_parent w) ps (weight, od, q)) \<and>
    fst (fold (credit_parent w) ps (weight, od, q)) bid = Some w"
  using assms
proof (induction ps arbitrary: c weight od q)
  case (Cons p ps)
  obtain weight' od' q' where s: "credit_parent w p (weight, od, q) = (weight', od', q')" by (cases "credit_parent w p (weight, od, q)")
  have "c p < left bs popped p" if "p \<in> ids bs" using Cons.prems(3) [OF that] by simp
  then have step: "weights_inv bs popped {bid} (c(p := c p + 1)) (weight', od', q')" "weight' bid = Some w"
    using credit_step [OF Cons.prems(1,2), of p] Cons.prems(4) unfolding s by simp_all
  have "(c(p := c p + 1)) x + count_list ps x \<le> left bs popped x" if "x \<in> ids bs" for x
    using Cons.prems(3) [OF that] by (simp split: if_splits)
  from Cons.IH [OF step this Cons.prems(4)]
  have "weights_inv bs popped {bid} (\<lambda>x. (c(p := c p + 1)) x + count_list ps x) (fold (credit_parent w) (p # ps) (weight, od, q)) \<and>
    fst (fold (credit_parent w) (p # ps) (weight, od, q)) bid = Some w" by (simp only: fold_Cons comp_apply s)
  moreover have "(\<lambda>x. (c(p := c p + 1)) x + count_list ps x) = (\<lambda>x. c x + count_list (p # ps) x)" by auto
  ultimately show ?case by simp
qed simp

lemma weights_pop:
  assumes inv: "weights_inv bs popped {} (\<lambda>_. 0) (weight, od, bid # q)" and small: "\<And>x. left bs popped x < 2 ^ 32"
  shows "weights_inv bs popped {bid} (\<lambda>_. 0) (weight, od, q)"
  using inv unfolding weights_inv_def by (auto simp: insert_commute)

lemma weights_done:
  assumes inv: "weights_inv bs popped {bid} (cites bs bid) s" and bid: "bid \<in> ids bs" "bid \<notin> popped" "finite popped"
  shows "weights_inv bs (insert bid popped) {} (\<lambda>_. 0) s"
proof -
  have l: "left bs popped x = cites bs bid x + left bs (insert bid popped) x" for x by (rule left_popped [OF bid(1,2)])
  show ?thesis using inv bid unfolding weights_inv_def l by (auto simp: ac_simps)
qed


lemma weights_loop_ends:
  assumes "weights_inv bs popped {} (\<lambda>_. 0) (weight, od, q)" "\<And>x P. left bs P x < 2 ^ 32"
    "card (ids bs - popped) \<le> fuel"
  shows "\<exists>w od' P. weights_loop bs fuel (weight, od, q) = Some w \<and> weights_inv bs P {} (\<lambda>_. 0) (w, od', [])"
  using assms(1,3)
proof (induction fuel arbitrary: popped weight od q)
  case 0
  have "set q \<subseteq> ids bs - popped" using 0(1) by (auto simp: weights_inv_def)
  moreover have "ids bs - popped = {}" using 0(2) by (simp add: ids_def)
  ultimately have "q = []" by auto
  then show ?case using 0(1) by auto
next
  case (Suc fuel)
  show ?case
  proof (cases q)
    case Nil
    then show ?thesis using Suc.prems(1) by auto
  next
    case (Cons bid q')
    have bid: "bid \<in> ids bs" "bid \<notin> popped" "weight bid \<noteq> None" "popped \<subseteq> ids bs"
      using Suc.prems(1) unfolding Cons weights_inv_def by auto
    then obtain w b where w: "weight bid = Some w" and b: "map_of bs bid = Some b"
      using weak_map_of_SomeI by (fastforce simp: ids_def)
    have fin: "finite popped" using bid(4) by (rule finite_subset) (simp add: ids_def)
    have c: "cites bs bid x = count_list (b_parents b) x" for x by (simp add: cites_def b)
    have "0 + count_list (b_parents b) x \<le> left bs popped x" for x
      using left_popped [OF bid(1,2), of x] by (simp add: c)
    from credit_all [OF weights_pop [OF Suc.prems(1) [unfolded Cons] assms(2)] w this assms(2)]
    have "weights_inv bs popped {bid} (cites bs bid) (fold (credit_parent w) (b_parents b) (weight, od, q'))"
      by (simp add: c [abs_def])
    then have inv: "weights_inv bs (insert bid popped) {} (\<lambda>_. 0) (fold (credit_parent w) (b_parents b) (weight, od, q'))"
      by (rule weights_done [OF _ bid(1,2) fin])
    obtain weight' od' q'' where s: "fold (credit_parent w) (b_parents b) (weight, od, q') = (weight', od', q'')"
      by (cases "fold (credit_parent w) (b_parents b) (weight, od, q')")
    have "card (ids bs - insert bid popped) \<le> fuel"
    proof -
      have "card (ids bs - insert bid popped) < card (ids bs - popped)"
        by (rule psubset_card_mono) (use bid in \<open>auto simp: ids_def\<close>)
      then show ?thesis using Suc.prems(2) by simp
    qed
    from Suc.IH [OF inv [unfolded s] this] show ?thesis by (simp add: Cons w b s)
  qed
qed

lemma grown_distinct: "grown bs \<Longrightarrow> distinct (map fst bs)"
  by (induction rule: grown.induct) auto

lemma references_left: "distinct (map fst bs) \<Longrightarrow> references bs x = left bs {} x"
proof (induction bs)
  case (Cons y bs)
  have "cites (y # bs) z x = cites bs z x" if "z \<in> ids bs" for z
    using Cons.prems that by (cases y) (force simp: cites_def ids_def)
  then have "left (y # bs) {} x = count_list (b_parents (snd y)) x + left bs {} x"
    using Cons.prems by (simp add: left_def ids_def) (simp add: cites_def)
  then show ?case using Cons by (simp add: references_def)
qed (simp add: references_def left_def ids_def)

lemma left_le: "left bs P x \<le> left bs {} x"
  unfolding left_def by (rule sum_mono2) (auto simp: ids_def)

lemma initial_weights_inv:
  assumes "distinct (map fst (ld_blocks d))" "\<And>x. references (ld_blocks d) x < 2 ^ 32"
  shows "weights_inv (ld_blocks d) {} {} (\<lambda>_. 0) (initial_weights d)"
proof -
  have z: "(of_nat (references (ld_blocks d) x) :: u32) = 0 \<longleftrightarrow> references (ld_blocks d) x = 0" for x
  proof -
    have "(of_nat (references (ld_blocks d) x) :: u32) = 0 \<longleftrightarrow> 2 ^ 32 dvd references (ld_blocks d) x" by (simp add: word_of_nat_eq_0_iff)
    also have "\<dots> \<longleftrightarrow> references (ld_blocks d) x = 0"
      using assms(2) [of x] by (metis dvd_0_right dvd_imp_le linorder_not_le neq0_conv)
    finally show ?thesis .
  qed
  show ?thesis using assms(1) z
    by (auto simp: initial_weights_def Let_def weights_inv_def ids_def map_of_eq_None_iff weight_nat_def max_weight_def
        references_left [OF assms(1)] dom_map_of_conv_image_fst distinct_filter split: if_splits)
qed

lemma grown_parents: "grown bs \<Longrightarrow> \<forall>y \<in> set bs. set (b_parents (snd y)) \<subseteq> ids bs"
  by (induction rule: grown.induct) (auto simp: ids_def)

lemma grown_latest:
  "grown bs \<Longrightarrow> S \<subseteq> ids bs \<Longrightarrow> S \<noteq> {} \<Longrightarrow> \<exists>x \<in> S. \<forall>y \<in> S. cites bs y x = 0"
proof (induction arbitrary: S rule: grown.induct)
  case (start g)
  then show ?case by (auto simp: ids_def cites_def)
next
  case (grow bs b)
  have par: "set (b_parents c) \<subseteq> ids bs" if "map_of bs k = Some c" for k c
    using grown_parents [OF grow(1)] map_of_SomeD [OF that] by fastforce
  show ?case
  proof (cases "b_id b \<in> S")
    case True
    have "cites (bs @ [(b_id b, b)]) y (b_id b) = 0" if "y \<in> S" for y
      using par grow(2,3) that grow.prems(1)
      by (auto simp: cites_def ids_def map_add_def count_list_0_iff split: option.splits)
    then show ?thesis using True by blast
  next
    case False
    then have S: "S \<subseteq> ids bs" using grow.prems(1) by (auto simp: ids_def)
    obtain x where x: "x \<in> S" "\<forall>y \<in> S. cites bs y x = 0" using grow.IH [OF S grow.prems(2)] by blast
    have "cites (bs @ [(b_id b, b)]) y x = cites bs y x" if "y \<in> S" for y
      using that S grow(2) by (auto simp: cites_def map_add_def ids_def split: option.splits)
    then show ?thesis using x by auto
  qed
qed

text \<open>The weights are computed, in one round per block, and satisfy the recurrence.\<close>

lemma weights_total:
  assumes g: "grown (ld_blocks d)" and small: "\<And>x. references (ld_blocks d) x < 2 ^ 32"
  shows "\<exists>w. cumulative_weights d = Some w \<and> (\<forall>x \<in> ids (ld_blocks d).
    weight_nat w x = min max_weight (1 + (\<Sum>y \<in> ids (ld_blocks d). cites (ld_blocks d) y x * weight_nat w y)))"
proof -
  let ?bs = "ld_blocks d"
  note dist = grown_distinct [OF g]
  obtain weight od q where s: "initial_weights d = (weight, od, q)" by (cases "initial_weights d")
  have "left ?bs P x < 2 ^ 32" for P x
    using small [of x] left_le [of ?bs P x] by (simp add: references_left [OF dist])
  moreover have "card (ids ?bs - {}) \<le> length ?bs" using card_length [of "map fst ?bs"] by (simp add: ids_def)
  ultimately obtain w od' P where w: "cumulative_weights d = Some w" and inv: "weights_inv ?bs P {} (\<lambda>_. 0) (w, od', [])"
    using weights_loop_ends [OF initial_weights_inv [OF dist small, unfolded s]] unfolding cumulative_weights_def s by blast
  have P: "P \<subseteq> ids ?bs" "\<And>x. x \<in> ids ?bs \<Longrightarrow> x \<in> P \<longleftrightarrow> left ?bs P x = 0" using inv unfolding weights_inv_def prod.case
    by (blast, metis Un_empty_right empty_set)
  have "ids ?bs - P = {}"
  proof (rule ccontr)
    assume "ids ?bs - P \<noteq> {}"
    then obtain x where x: "x \<in> ids ?bs - P" "\<forall>y \<in> ids ?bs - P. cites ?bs y x = 0"
      using grown_latest [OF g, of "ids ?bs - P"] by auto
    then have "left ?bs P x = 0" by (simp add: left_def)
    then show False using x(1) P(2) by blast
  qed
  then have "P = ids ?bs" using P(1) by blast
  moreover note inv [unfolded weights_inv_def prod.case, THEN conjunct2, THEN conjunct2, THEN conjunct2, THEN conjunct2,
      THEN conjunct2, THEN conjunct2, THEN conjunct2]
  ultimately show ?thesis using w by (simp only: sum.empty add_0_right) blast
qed


subsection \<open>Properties of the sequential DAG\<close>

text \<open>Claim C31. Whatever blocks are offered to it, at whatever times, the sequential DAG keeps its structure: identifiers are distinct, every block came after its parents, no transfer or settlement spends an outpoint an earlier block had marked (or one twice), the index and the counters of children are exactly those of the blocks held, and the spent outpoints are exactly those the blocks marked.\<close>

theorem sequential_dag_exact:
  assumes "b_parents g = []" "b_payload g = Some (Plain Genesis)"
  shows "grown (ld_blocks (add_all D X bs (new_with_genesis g))) \<and>
    (\<forall>x. children_of (ld_children_idx (add_all D X bs (new_with_genesis g))) x =
           child_ids (ld_blocks (add_all D X bs (new_with_genesis g))) x \<and>
         children_count (add_all D X bs (new_with_genesis g)) x =
           of_nat (length (child_ids (ld_blocks (add_all D X bs (new_with_genesis g))) x))) \<and>
    ld_spent (add_all D X bs (new_with_genesis g)) = all_marked (ld_blocks (add_all D X bs (new_with_genesis g)))"
  using add_all_ok [OF legacy_ok_genesis [OF assms]] by (simp add: legacy_ok_def)

definition plain_block :: "string \<Rightarrow> string list \<Rightarrow> payload_envelope option \<Rightarrow> block" where
  "plain_block x ps payload = \<lparr>b_id = x, b_parents = ps, b_payload = payload, b_nonce = 0, b_signer_pk = None, b_signature = None,
     b_metadata = None\<rparr>"

lemma sequential_dag_exact_witness:
  "let d = add_all ref_dec ref_ext [(0, plain_block ''a'' [''g''] None), (0, plain_block ''a'' [''g''] None)]
     (new_with_genesis (plain_block ''g'' [] (Some (Plain Genesis))))
   in grown (ld_blocks d) \<and> child_ids (ld_blocks d) ''g'' = [''a''] \<and> children_count d ''g'' = 1 \<and> ld_spent d = all_marked (ld_blocks d)"
proof -
  let ?g = "plain_block ''g'' [] (Some (Plain Genesis))" and ?a = "plain_block ''a'' [''g''] None"
  let ?d = "add_all ref_dec ref_ext [(0, ?a), (0, ?a)] (new_with_genesis ?g)"
  have "map_of (ld_blocks (new_with_genesis ?g)) ''a'' = None" by (simp add: new_with_genesis_def plain_block_def)
  from applied_fields(1) [of "new_with_genesis ?g" ?a] this
  have one: "ld_blocks (apply_block_mem ?a (new_with_genesis ?g)) = [(''g'', ?g), (''a'', ?a)]"
    by (simp add: plain_block_def new_with_genesis_def)
  have "add_block ref_dec ref_ext 0 ?a (new_with_genesis ?g) = Inr (apply_block_mem ?a (new_with_genesis ?g))"
    by (simp add: add_block_def new_with_genesis_def plain_block_def validate_block_def payload_size_limit_def no_cycle_def parent_count_def
        validate_payload_authority_def require_def)
  moreover have "add_block ref_dec ref_ext 0 ?a (apply_block_mem ?a (new_with_genesis ?g)) = Inl BlockExists"
    by (simp add: add_block_def one) (simp add: plain_block_def)
  ultimately have d: "ld_blocks ?d = [(''g'', ?g), (''a'', ?a)]" by (simp add: add_all_def one)
  have "child_ids [(''g'', ?g), (''a'', ?a)] ''g'' = [''a'']" by (simp add: child_ids_def plain_block_def)
  then show ?thesis
    using sequential_dag_exact [of ?g ref_dec ref_ext "[(0, ?a), (0, ?a)]"] unfolding Let_def
    by (simp add: d) (simp add: plain_block_def)
qed

text \<open>A milestone finalizes the whole cone of ancestors of the blocks it approves: with a final set closed under parents (in what it approves or already holds), the walk ends, and what is final afterwards is what was final, every block reached from the approved ones through parents, and the milestone itself, which becomes the last milestone.\<close>

lemma milestone_finalizes_cone:
  assumes "b_payload b = Some (Plain (Milestone approved flag))"
    and "parent_edges (ld_blocks d) `` fs_finalized (ld_finality d) \<subseteq> fs_finalized (ld_finality d) \<union> set approved"
  shows "fs_finalized (ld_finality (maybe_update_finality_with b d)) =
      insert (b_id b) (fs_finalized (ld_finality d) \<union> cone (ld_blocks d) (set approved)) \<and>
    fs_last_milestone (ld_finality (maybe_update_finality_with b d)) = Some (b_id b)"
  using assms by (simp add: maybe_update_finality_with_def mark_cone_exact)

definition diamond :: legacy_dag where
  "diamond = new_empty\<lparr>ld_blocks := [(''g'', plain_block ''g'' [] None), (''a'', plain_block ''a'' [''g''] None),
     (''b'', plain_block ''b'' [''g''] None), (''c'', plain_block ''c'' [''a'', ''b''] None)]\<rparr>"

text \<open>Claim C32. The computation of the cumulative weights ends: on a DAG whose blocks came after their parents (with less than \<open>2^32\<close> references to a block) one round per block is enough, every block is reached, and the weight of a block is one plus the weights of the blocks that cite it, each as often as it cites it, cut at the largest 64-bit number.\<close>

theorem weights_recurrence:
  assumes "grown (ld_blocks d)" and "\<And>x. references (ld_blocks d) x < 2 ^ 32"
  shows "\<exists>w. cumulative_weights d = Some w \<and> (\<forall>x \<in> ids (ld_blocks d).
    weight_nat w x = min max_weight (1 + (\<Sum>y \<in> ids (ld_blocks d). cites (ld_blocks d) y x * weight_nat w y)))"
  by (rule weights_total [OF assms])

lemma diamond_grown: "grown (ld_blocks diamond)"
proof -
  have 1: "grown [(''g'', plain_block ''g'' [] None)]"
    using grown.start [of "plain_block ''g'' [] None"] by (simp add: plain_block_def)
  have 2: "grown [(''g'', plain_block ''g'' [] None), (''a'', plain_block ''a'' [''g''] None)]"
    using grown.grow [OF 1, of "plain_block ''a'' [''g''] None"] by (simp add: plain_block_def)
  have 3: "grown [(''g'', plain_block ''g'' [] None), (''a'', plain_block ''a'' [''g''] None), (''b'', plain_block ''b'' [''g''] None)]"
    using grown.grow [OF 2, of "plain_block ''b'' [''g''] None"] by (simp add: plain_block_def)
  show ?thesis
    using grown.grow [OF 3, of "plain_block ''c'' [''a'', ''b''] None"] by (simp add: plain_block_def diamond_def)
qed

lemma diamond_references: "references (ld_blocks diamond) x < 2 ^ 32"
proof -
  have "references (ld_blocks diamond) x \<le> 4"
    by (simp add: references_def diamond_def plain_block_def)
  then show ?thesis by simp
qed

text \<open>The weight of the genesis of a diamond of four blocks is five: the tip is counted once per path.\<close>

lemma weights_recurrence_witness:
  "\<exists>w. cumulative_weights diamond = Some w \<and> weight_nat w ''g'' = 5 \<and> card (ids (ld_blocks diamond)) = 4"
proof -
  obtain w where w: "cumulative_weights diamond = Some w" and eq: "\<forall>x \<in> ids (ld_blocks diamond).
    weight_nat w x = min max_weight (1 + (\<Sum>y \<in> ids (ld_blocks diamond). cites (ld_blocks diamond) y x * weight_nat w y))"
    using weights_recurrence [OF diamond_grown diamond_references] by blast
  have ids: "ids (ld_blocks diamond) = {''g'', ''a'', ''b'', ''c''}" by (auto simp: ids_def diamond_def)
  note eq' = eq [unfolded ids] 
  have c: "weight_nat w ''c'' = 1" using eq' by (simp add: cites_def diamond_def plain_block_def max_weight_def)
  have ab: "weight_nat w ''a'' = 2" "weight_nat w ''b'' = 2" using eq' c by (simp_all add: cites_def diamond_def plain_block_def max_weight_def)
  have "weight_nat w ''g'' = 5" using eq' ab c by (simp add: cites_def diamond_def plain_block_def max_weight_def)
  then show ?thesis using w by (simp add: ids)
qed

subsection \<open>What the sequential path does not see\<close>

text \<open>The check of the funds adds up amounts of any asset: an output may be declared in another asset.\<close>

lemma funds_ignore_the_asset:
  "utxo_sufficient_funds D X now_ms d (tx\<lparr>tx_outputs := map (\<lambda>out. out\<lparr>o_asset_id := f out\<rparr>) (tx_outputs tx)\<rparr>) =
   utxo_sufficient_funds D X now_ms d tx" (is "_ = utxo_sufficient_funds D X now_ms d _")
proof -
  let ?tx = "tx\<lparr>tx_outputs := map (\<lambda>out. out\<lparr>o_asset_id := f out\<rparr>) (tx_outputs tx)\<rparr>"
  have "try_fold (\<lambda>s out. rbind (amount_parse_pos_dec D (o_amount out)) (checked_sum D s)) s0 (map (\<lambda>out. out\<lparr>o_asset_id := f out\<rparr>) outs) =
    try_fold (\<lambda>s out. rbind (amount_parse_pos_dec D (o_amount out)) (checked_sum D s)) s0 outs" for s0 outs
    by (induction outs arbitrary: s0) (simp_all cong: sum.case_cong)
  note this [of "d_zero D" "tx_outputs tx"]
  moreover have "tx_fee ?tx = tx_fee tx" "tx_inputs ?tx = tx_inputs tx" "tx_unlocks ?tx = tx_unlocks tx"
    "tx_outputs ?tx = map (\<lambda>out. out\<lparr>o_asset_id := f out\<rparr>) (tx_outputs tx)" "count_mismatch ?tx = count_mismatch tx"
    by (simp_all add: count_mismatch_def)
  ultimately show ?thesis by (simp only: utxo_sufficient_funds_def)
qed

text \<open>The inputs of a token burn are checked but not marked: they pass the double spend check again.\<close>

lemma burnt_inputs_pass_again:
  assumes "b_payload b = Some (Plain (TokenBurn btx asset amount owner))"
  shows "utxo_no_double_spend (apply_block_mem b d) tx = utxo_no_double_spend d tx"
  using assms by (simp add: utxo_no_double_spend_def apply_block_mem_def Let_def add_block_mem_def add_child_edge_mem_def marked_inputs_def)

text \<open>\<open>commit_block\<close> does not index the block under its parents: no block gains a confirmation.\<close>

lemma commit_adds_no_confirmation: "has_k_confirmations (legacy_commit_block b d) x k = has_k_confirmations d x k"
  by (simp add: has_k_confirmations_def legacy_commit_block_def add_block_mem_def)

text \<open>\<open>add_block_unchecked\<close> does not count the children it announces.\<close>

lemma unchecked_insertion_counts_no_child: "add_block_unchecked b d = Inr d' \<Longrightarrow> children_count d' x = children_count d x"
  by (auto simp: add_block_unchecked_def add_block_mem_def children_count_def split: if_splits)

text \<open>An identifier of 64 zeros meets no positive difficulty: four times 64 does not fit in a byte.\<close>

lemma zero_hash_meets_no_difficulty: "0 < diff \<Longrightarrow> \<not> ok_pow (replicate 64 CHR ''0'') diff"
proof -
  have "length (takeWhile (\<lambda>c. c = CHR ''0'') (replicate 64 CHR ''0'')) = 64" by (subst takeWhile_eq_all_conv [THEN iffD2]) simp_all
  moreover assume "0 < diff"
  ultimately show ?thesis by (auto simp: ok_pow_def word_le_nat_alt word_less_nat_alt)
qed

text \<open>The draw takes distinct members of the pool, as many as asked.\<close>

lemma swap_remove_mset:
  assumes "i < length xs"
  shows "add_mset (fst (swap_remove i xs)) (mset (snd (swap_remove i xs))) = mset xs"
proof (cases xs rule: rev_cases)
  case (snoc ys z)
  then show ?thesis using assms
    by (cases "i = length ys") (simp_all add: swap_remove_def list_update_append nth_append mset_update)
qed (use assms in simp)

lemma draws_from_the_pool:
  assumes "draw_parents pick k pool = Inr chosen" "\<And>n ws. ws \<noteq> [] \<Longrightarrow> pick n ws < length ws" "k \<le> length pool"
  shows "\<exists>rest. mset (map fst pool) = mset chosen + rest \<and> length chosen = k"
  using assms
proof (induction pick k pool arbitrary: chosen rule: draw_parents.induct)
  case (4 pick k x y pool)
  let ?p = "x # y # pool"
  define i where "i = pick k (map snd ?p)"
  have i: "i < length ?p" using 4(3) [of "map snd ?p" k] by (simp add: i_def)
  obtain rest where rest: "draw_parents pick k (snd (swap_remove i ?p)) = Inr rest" "chosen = fst (fst (swap_remove i ?p)) # rest"
    using 4(2) by (auto simp: Let_def i_def simp del: list.map split: if_splits)
  have m: "add_mset (fst (swap_remove i ?p)) (mset (snd (swap_remove i ?p))) = mset ?p" by (rule swap_remove_mset [OF i])
  have "Suc (length (snd (swap_remove i ?p))) = length ?p" using arg_cong [OF m, of size] by simp
  then have k: "k \<le> length (snd (swap_remove i ?p))" using 4(4) by simp
  obtain r where r: "mset (map fst (snd (swap_remove i ?p))) = mset rest + r" "length rest = k"
  proof -
    have "\<not> (\<not> list_all (\<lambda>w. w = hd (map snd ?p)) (map snd ?p) \<and> 2 ^ 64 \<le> sum_list (map unat (map snd ?p)))"
      using 4(2) by (auto simp: Let_def simp del: list.map split: if_splits)
    from 4(1) [OF refl this refl rest(1) [unfolded i_def] 4(3) k [unfolded i_def]] show thesis using that by (auto simp: i_def)
  qed
  have "mset (map fst ?p) = image_mset fst (mset ?p)" by simp
  also have "\<dots> = add_mset (fst (fst (swap_remove i ?p))) (mset (map fst (snd (swap_remove i ?p))))"
    unfolding m [symmetric] by simp
  finally show ?case using r rest(2) by (intro exI [of _ r]) simp
qed auto

end
