(* ===== verification/NodeRewards.thy ===== *)
theory NodeRewards
  imports ConcDag Column Gate RefDecimal TxValidation
begin

section \<open>Finality by depth, and the rewards of a milestone\<close>

text \<open>
  The stage of \<open>do_persist_block_internal\<close> after the insertion of the block: the finality of a milestone
  and of the ancestors that gained a descendant (\<open>ancestors_within_depth\<close>), and the distribution of the fee pool among the
  signers of blocks (\<open>node_rewards_storage.rs\<close>). The pool and the counters are bytes in column families, as
  the code stores them: eight bytes, the lowest first.
\<close>

subsection \<open>Ancestors of a block\<close>

definition named_parents :: "(string \<times> block) list \<Rightarrow> string set" where
  "named_parents bs = (\<Union>y \<in> set bs. set (b_parents (snd y)))"

text \<open>The loop returns each ancestor with the depth it was met at; the code keeps the first component.\<close>

function anc_loop :: "(string \<times> block) list \<Rightarrow> nat \<Rightarrow> string list \<Rightarrow> (string \<times> nat) list \<Rightarrow> (string \<times> nat) list" where
  "anc_loop bs m seen [] = []"
| "anc_loop bs m seen ((x, depth) # q) =
     (x, depth) #
     (if m \<le> depth then anc_loop bs m seen q
      else case map_of bs x of
             None \<Rightarrow> anc_loop bs m seen q
           | Some b \<Rightarrow> anc_loop bs m (fst (visit (b_parents b) (seen, [])))
                         (q @ map (\<lambda>p. (p, depth + 1)) (snd (visit (b_parents b) (seen, [])))))"
  by pat_completeness auto

termination
proof (relation "measures [\<lambda>(bs, m, seen, q). card (named_parents bs - set seen), \<lambda>(bs, m, seen, q). length q]")
  fix bs :: "(string \<times> block) list" and m seen x depth and q :: "(string \<times> nat) list" and b :: block
  assume b: "map_of bs x = Some b"
  obtain new where new: "visit (b_parents b) (seen, []) = (seen @ new, [] @ new)" "set new = set (b_parents b) - set seen"
    using visit_extends by blast
  have sub: "set new \<subseteq> named_parents bs" using new(2) map_of_SomeD [OF b] by (force simp: named_parents_def)
  show "((bs, m, fst (visit (b_parents b) (seen, [])), q @ map (\<lambda>p. (p, depth + 1)) (snd (visit (b_parents b) (seen, [])))),
         bs, m, seen, (x, depth) # q)
    \<in> measures [\<lambda>(bs, m, seen, q). card (named_parents bs - set seen), \<lambda>(bs, m, seen, q). length q]"
  proof (cases "new = []")
    case False
    then obtain c where "c \<in> set new" by (cases new) auto
    then have "named_parents bs - set (seen @ new) \<subset> named_parents bs - set seen" using sub new(2) by auto
    then have "card (named_parents bs - set (seen @ new)) < card (named_parents bs - set seen)"
      by (intro psubset_card_mono) (auto simp: named_parents_def)
    then show ?thesis using new(1) by simp
  qed (use new(1) in simp)
qed auto

definition ancestors_within_depth :: "conc_dag \<Rightarrow> string \<Rightarrow> nat \<Rightarrow> string list" where
  "ancestors_within_depth d x m =
     (if m = 0 then []
      else
        let parents = (case map_of (cd_blocks d) x of Some b \<Rightarrow> b_parents b | None \<Rightarrow> []);
            (seen, new) = visit parents ([], [])
        in map fst (anc_loop (cd_blocks d) m seen (map (\<lambda>p. (p, 1)) new)))"

subsection \<open>Finality\<close>

definition finalize_ancestor :: "conc_dag \<Rightarrow> nat \<Rightarrow> string \<Rightarrow> finality_state \<times> string list \<Rightarrow> finality_state \<times> string list" where
  "finalize_ancestor d k a fn =
     (if a \<in> fs_finalized (fst fn) then fn
      else if k \<le> count_descendants d a k then (mark_final a (fst fn), snd fn @ [a])
      else fn)"

definition finalize_depth :: "string \<Rightarrow> conc_dag \<Rightarrow> conc_dag \<times> string list" where
  "finalize_depth block_id d =
     (let k = fs_depth_k (cd_finality d) in
      if 0 < k then
        let (f, new) = fold (finalize_ancestor d k) (ancestors_within_depth d block_id k) (cd_finality d, [])
        in (d\<lparr>cd_finality := f\<rparr>, new)
      else (d, []))"

definition finalize_milestone :: "string \<Rightarrow> conc_dag \<Rightarrow> conc_dag \<times> string list" where
  "finalize_milestone block_id d =
     (d\<lparr>cd_finality := set_milestone block_id (cd_finality d)\<rparr>,
      if block_id \<in> fs_finalized (cd_finality d) then [] else [block_id])"

subsection \<open>The store of the rewards\<close>

type_synonym bytes = "8 word list"

definition to_le_bytes :: "u64 \<Rightarrow> bytes" where
  "to_le_bytes w = map (\<lambda>i. ucast (drop_bit (8 * i) w)) [0..<8]"

fun le_number :: "bytes \<Rightarrow> u64" where
  "le_number [] = 0"
| "le_number (b # bs) = ucast b + push_bit 8 (le_number bs)"

definition bytes_to_u64 :: "bytes \<Rightarrow> u64" where
  "bytes_to_u64 bs = (if 8 \<le> length bs then le_number (take 8 bs) else 0)"

record rewards_store =
  rw_pool :: "bytes option"
  rw_counts :: "bytes cf"
  rw_addresses :: "string \<Rightarrow> string option"

definition stored_number :: "bytes option \<Rightarrow> u64" where
  "stored_number v = (case v of Some bs \<Rightarrow> bytes_to_u64 bs | None \<Rightarrow> 0)"

definition get_node_block_count :: "faults \<Rightarrow> string \<Rightarrow> rewards_store \<Rightarrow> string + u64" where
  "get_node_block_count F node_pk st = io F (DbGet ''node_block_counts'' node_pk) (stored_number (cf_get (rw_counts st) node_pk))"

definition increment_node_block_count :: "faults \<Rightarrow> string \<Rightarrow> rewards_store \<Rightarrow> (string + unit) \<times> rewards_store" where
  "increment_node_block_count F node_pk st =
     (case get_node_block_count F node_pk st of
        Inl e \<Rightarrow> (Inl e, st)
      | Inr current \<Rightarrow>
          (case F (DbPut ''node_block_counts'' node_pk) of
             Some e \<Rightarrow> (Inl e, st)
           | None \<Rightarrow> (Inr (), st\<lparr>rw_counts := cf_put node_pk (to_le_bytes (current + 1)) (rw_counts st)\<rparr>)))"

definition get_fee_pool :: "faults \<Rightarrow> rewards_store \<Rightarrow> string + u64" where
  "get_fee_pool F st = io F (DbGet ''node_fee_pool'' ''pool'') (stored_number (rw_pool st))"

definition add_to_fee_pool :: "faults \<Rightarrow> u64 \<Rightarrow> rewards_store \<Rightarrow> (string + unit) \<times> rewards_store" where
  "add_to_fee_pool F amount st =
     (case get_fee_pool F st of
        Inl e \<Rightarrow> (Inl e, st)
      | Inr current \<Rightarrow>
          (case F (DbPut ''node_fee_pool'' ''pool'') of
             Some e \<Rightarrow> (Inl e, st)
           | None \<Rightarrow> (Inr (), st\<lparr>rw_pool := Some (to_le_bytes (current + amount))\<rparr>)))"

definition get_all_miners :: "faults \<Rightarrow> rewards_store \<Rightarrow> string + (string \<times> u64) list" where
  "get_all_miners F st = io F (DbScan ''node_block_counts'') (map (\<lambda>(pk, v). (pk, bytes_to_u64 v)) (rw_counts st))"

definition reset_pool_and_counts :: "faults \<Rightarrow> rewards_store \<Rightarrow> (string + unit) \<times> rewards_store" where
  "reset_pool_and_counts F st =
     (case F (DbPut ''node_fee_pool'' ''pool'') of
        Some e \<Rightarrow> (Inl e, st)
      | None \<Rightarrow>
          let st1 = st\<lparr>rw_pool := Some (to_le_bytes 0)\<rparr> in
          (case F (DbDelete ''node_block_counts'' []) of
             Some e \<Rightarrow> (Inl e, st1)
           | None \<Rightarrow> (Inr (), st1\<lparr>rw_counts := []\<rparr>)))"

definition set_node_reward_address :: "faults \<Rightarrow> string \<Rightarrow> string \<Rightarrow> rewards_store \<Rightarrow> (string + unit) \<times> rewards_store" where
  "set_node_reward_address F node_pk address st =
     (case F (DbPut ''node_reward_addresses'' node_pk) of
        Some e \<Rightarrow> (Inl e, st)
      | None \<Rightarrow> (Inr (), st\<lparr>rw_addresses := (rw_addresses st)(node_pk \<mapsto> address)\<rparr>))"

definition get_node_reward_address :: "faults \<Rightarrow> string \<Rightarrow> rewards_store \<Rightarrow> string + string" where
  "get_node_reward_address F node_pk st =
     io F (DbGet ''node_reward_addresses'' node_pk) (case rw_addresses st node_pk of Some a \<Rightarrow> a | None \<Rightarrow> node_pk)"

subsection \<open>The distribution of a milestone\<close>

text \<open>
  The sums and products of 64-bit numbers wrap, as in a release build. \<open>fmt8\<close> is the display with eight decimals of
  \<open>rust_decimal\<close> and \<open>to_u64\<close> its conversion. \<open>log_prefix\<close> is the slice of the first bytes of a text that a log line shows: it
  panics inside a character of several bytes.
\<close>

definition log_prefix :: "nat \<Rightarrow> string \<Rightarrow> unit gate" where
  "log_prefix n s =
     (if n < length s \<and> (let c = (of_char (s ! n) :: nat) in 128 \<le> c \<and> c < 192)
      then Inl (Crash ''byte index is not a char boundary'') else Inr ())"

definition miner_share :: "u64 \<Rightarrow> u64 \<Rightarrow> u64 \<Rightarrow> u64" where
  "miner_share pool block_count total_blocks = pool * block_count div total_blocks"

record node_reward =
  nr_out :: output_id
  nr_output :: tx_output
  nr_node_pk :: string
  nr_share :: u64

definition miner_reward ::
  "faults \<Rightarrow> 'd dec_lib \<Rightarrow> ('d \<Rightarrow> string) \<Rightarrow> rewards_store \<Rightarrow> string \<Rightarrow> u64 \<Rightarrow> u64 \<Rightarrow> nat \<times> string \<times> u64 \<Rightarrow> node_reward list gate" where
  "miner_reward F D fmt8 st block_id pool total_blocks m =
     (case m of (idx, node_pk, block_count) \<Rightarrow>
        let share = miner_share pool block_count total_blocks in
        if 0 < share then
          let reward_address = (case get_node_reward_address F node_pk st of Inr a \<Rightarrow> a | Inl _ \<Rightarrow> node_pk) in
          rbind (uncaught (dec_div D (d_of_nat D (unat share)) (d_of_nat D 100000000))) (\<lambda>amount.
          rbind (log_prefix 20 reward_address) (\<lambda>_.
          Inr [\<lparr>nr_out = \<lparr>op_txid = block_id, op_index = of_nat idx\<rparr>,
                nr_output = txoutput_new reward_address (fmt8 amount) None, nr_node_pk = node_pk, nr_share = share\<rparr>]))
        else Inr [])"

definition distribute_rewards ::
  "faults \<Rightarrow> 'd dec_lib \<Rightarrow> ('d \<Rightarrow> string) \<Rightarrow> string \<Rightarrow> rewards_store \<Rightarrow> (node_reward list \<times> rewards_store) gate" where
  "distribute_rewards F D fmt8 block_id st =
     (case get_fee_pool F st of
        Inl _ \<Rightarrow> Inr ([], st)
      | Inr pool \<Rightarrow>
          if 0 < pool then
            (case get_all_miners F st of
               Inl _ \<Rightarrow> Inr ([], st)
             | Inr miners \<Rightarrow>
                 let total_blocks = sum_list (map snd miners) in
                 if 0 < total_blocks then
                   rbind (try_map (miner_reward F D fmt8 st block_id pool total_blocks) (List.enumerate 0 miners)) (\<lambda>rewards.
                   Inr (concat rewards, snd (reset_pool_and_counts F st)))
                 else Inr ([], st))
          else Inr ([], st))"

definition fee_in_sats :: "'d dec_lib \<Rightarrow> ('d \<Rightarrow> u64 option) \<Rightarrow> 'd \<Rightarrow> panic + u64" where
  "fee_in_sats D to_u64 fee =
     rbind (dec_mul D fee (d_of_nat D 100000000)) (\<lambda>x. Inr (case to_u64 x of Some n \<Rightarrow> n | None \<Rightarrow> - 1))"

definition accumulate_fee ::
  "faults \<Rightarrow> 'd dec_lib \<Rightarrow> ('d \<Rightarrow> u64 option) \<Rightarrow> string + u32 \<Rightarrow> string \<Rightarrow> rewards_store \<Rightarrow> panic + rewards_store" where
  "accumulate_fee F D to_u64 treasury_fee_bps fee st =
     (case treasury_fee_bps of
        Inl _ \<Rightarrow> Inr st
      | Inr bps \<Rightarrow>
          if 0 < bps then
            (case d_from_str_exact D fee of
               None \<Rightarrow> Inr st
             | Some fee_decimal \<Rightarrow>
                 rbind (fee_in_sats D to_u64 fee_decimal) (\<lambda>fee_sats.
                 let treasury_portion = (of_nat (unat fee_sats * unat bps div 10000) :: u64) in
                 Inr (if 0 < treasury_portion then snd (add_to_fee_pool F treasury_portion st) else st)))
          else Inr st)"

subsection \<open>Bytes\<close>

text \<open>A number is read back from its bytes.\<close>

lemma low_byte: "ucast (ucast x :: 8 word) + push_bit 8 (drop_bit 8 x) = (x :: u64)"
proof -
  have "ucast (ucast x :: 8 word) = take_bit 8 x" by (rule bit_word_eqI) (auto simp: bit_simps)
  then show ?thesis using bits_ident [of 8 x] by (simp add: add.commute)
qed

lemma u64_bytes: "bytes_to_u64 (to_le_bytes w) = w"
proof -
  have step: "ucast (ucast (drop_bit (8 * i) w) :: 8 word) + push_bit 8 (drop_bit (8 * Suc i) w) = drop_bit (8 * i) w" for i
    using low_byte [of "drop_bit (8 * i) w"] by (simp add: add.commute)
  have "le_number (map (\<lambda>i. ucast (drop_bit (8 * i) w)) [8 - n..<8]) = drop_bit (8 * (8 - n)) w" if "n \<le> 8" for n
    using that
  proof (induction n)
    case 0
    have "drop_bit 64 w = 0" by (rule bit_word_eqI) (auto simp: bit_simps dest: bit_imp_le_length)
    then show ?case by simp
  next
    case (Suc n)
    then have "Suc (8 - Suc n) = 8 - n" by simp
    then have "[8 - Suc n..<8] = (8 - Suc n) # [8 - n..<8]" using upt_conv_Cons [of "8 - Suc n" 8] by simp
    moreover have "8 * (8 - n) = 8 * Suc (8 - Suc n)" using Suc.prems by simp
    ultimately show ?case using Suc step [of "8 - Suc n"] by simp
  qed
  from this [of 8] show ?thesis by (simp add: bytes_to_u64_def to_le_bytes_def)
qed

lemma pool_after_reset: "F (DbPut ''node_fee_pool'' ''pool'') = None \<Longrightarrow> stored_number (rw_pool (snd (reset_pool_and_counts F st))) = 0"
  by (auto simp: reset_pool_and_counts_def stored_number_def u64_bytes Let_def split: option.split)

subsection \<open>What a milestone distributes\<close>

lemma miner_share_le:
  assumes "0 < total_blocks"
  shows "unat (miner_share pool blocks total_blocks) \<le> unat pool * unat blocks div unat total_blocks"
proof -
  have "unat (pool * blocks) \<le> unat pool * unat blocks" by (simp add: unat_word_ariths)
  then show ?thesis by (simp add: miner_share_def unat_div div_le_mono)
qed

lemma sum_words: "sum_list (map unat ws) < 2 ^ 64 \<Longrightarrow> unat (sum_list (ws :: u64 list)) = sum_list (map unat ws)"
  by (induction ws) (simp_all add: unat_word_ariths)

lemma shares_within:
  assumes "0 < t" "sum_list (map f xs) \<le> (t :: nat)"
  shows "sum_list (map (\<lambda>x. p * f x div t) xs) \<le> p"
proof -
  have "sum_list (map (\<lambda>x. p * f x div t) xs) * t \<le> sum_list (map (\<lambda>x. p * f x) xs)"
    by (induction xs) (auto simp: add_mult_distrib intro!: add_mono div_times_less_eq_dividend)
  also have "\<dots> = p * sum_list (map f xs)" by (simp add: sum_list_const_mult)
  also have "\<dots> \<le> p * t" using assms(2) by simp
  finally show ?thesis using assms(1) by simp
qed

lemma rewards_of_miners:
  assumes "try_map (miner_reward F D fmt8 st i pool t) (List.enumerate n miners) = Inr rewards"
  shows "sum_list (map (unat \<circ> nr_share) (concat rewards)) = sum_list (map (\<lambda>m. unat (miner_share pool (snd m) t)) miners)"
    and "\<forall>r \<in> set (concat rewards). o_asset_id (nr_output r) = None \<and> op_txid (nr_out r) = i"
    and "\<exists>ks. map (op_index \<circ> nr_out) (concat rewards) = map of_nat ks \<and> distinct ks \<and> set ks \<subseteq> {n..<n + length miners}"
proof -
  have "sum_list (map (unat \<circ> nr_share) (concat rewards)) = sum_list (map (\<lambda>m. unat (miner_share pool (snd m) t)) miners) \<and>
    (\<forall>r \<in> set (concat rewards). o_asset_id (nr_output r) = None \<and> op_txid (nr_out r) = i) \<and>
    (\<exists>ks. map (op_index \<circ> nr_out) (concat rewards) = map of_nat ks \<and> distinct ks \<and> set ks \<subseteq> {n..<n + length miners})"
    using assms
  proof (induction miners arbitrary: n rewards)
    case (Cons m miners)
    obtain r rs where r: "miner_reward F D fmt8 st i pool t (n, m) = Inr r"
      "try_map (miner_reward F D fmt8 st i pool t) (List.enumerate (Suc n) miners) = Inr rs" "rewards = r # rs"
      using Cons.prems by auto
    have one: "sum_list (map (unat \<circ> nr_share) r) = unat (miner_share pool (snd m) t) \<and>
        (\<forall>x \<in> set r. o_asset_id (nr_output x) = None \<and> op_txid (nr_out x) = i) \<and>
        (map (op_index \<circ> nr_out) r = [] \<or> map (op_index \<circ> nr_out) r = [of_nat n])"
      using r(1) by (auto simp: miner_reward_def Let_def txoutput_new_def not_less split: prod.splits if_splits)
    obtain ks where ks: "map (op_index \<circ> nr_out) (concat rs) = map of_nat ks" "distinct ks" "set ks \<subseteq> {Suc n..<Suc n + length miners}"
      using Cons.IH [OF r(2)] by blast
    obtain j where "map (op_index \<circ> nr_out) r = map of_nat j" "j = [] \<or> j = [n]"
      using one by (metis list.simps(8) list.simps(9))
    then have "\<exists>ks. map (op_index \<circ> nr_out) (concat rewards) = map of_nat ks \<and> distinct ks \<and> set ks \<subseteq> {n..<n + length (m # miners)}"
      using ks r(3) by (intro exI [of _ "j @ ks"]) auto
    then show ?case using Cons.IH [OF r(2)] one r(3) by (auto simp: o_def)
  qed simp
  then show "sum_list (map (unat \<circ> nr_share) (concat rewards)) = sum_list (map (\<lambda>m. unat (miner_share pool (snd m) t)) miners)"
    and "\<forall>r \<in> set (concat rewards). o_asset_id (nr_output r) = None \<and> op_txid (nr_out r) = i"
    and "\<exists>ks. map (op_index \<circ> nr_out) (concat rewards) = map of_nat ks \<and> distinct ks \<and> set ks \<subseteq> {n..<n + length miners}"
    by blast+
qed

lemma distinct_indices:
  assumes "distinct ks" "set ks \<subseteq> {..<2 ^ 32}"
  shows "distinct (map of_nat ks :: u32 list)"
proof -
  have "inj_on (of_nat :: nat \<Rightarrow> u32) (set ks)"
    by (rule inj_onI) (use assms(2) in \<open>auto simp: word_unat_eq_iff unat_of_nat subset_iff\<close>)
  then show ?thesis using assms(1) by (simp add: distinct_map)
qed

lemma distribution_cases:
  assumes "distribute_rewards F D fmt8 i st = Inr (rewards, st')"
  shows "rewards = [] \<and> st' = st \<or>
    (\<exists>rs. F (DbGet ''node_fee_pool'' ''pool'') = None \<and> 0 < stored_number (rw_pool st) \<and>
      0 < sum_list (map (bytes_to_u64 \<circ> snd) (rw_counts st)) \<and>
      try_map (miner_reward F D fmt8 st i (stored_number (rw_pool st)) (sum_list (map (bytes_to_u64 \<circ> snd) (rw_counts st))))
        (List.enumerate 0 (map (\<lambda>(pk, v). (pk, bytes_to_u64 v)) (rw_counts st))) = Inr rs \<and>
      rewards = concat rs \<and> st' = snd (reset_pool_and_counts F st))"
proof -
  let ?ms = "map (\<lambda>(pk, v). (pk, bytes_to_u64 v)) (rw_counts st)" and ?pool = "stored_number (rw_pool st)"
  let ?t = "sum_list (map (bytes_to_u64 \<circ> snd) (rw_counts st))"
  have counts: "map (snd \<circ> (\<lambda>(pk, v). (pk, bytes_to_u64 v))) (rw_counts st) = map (bytes_to_u64 \<circ> snd) (rw_counts st)"
    for st by auto
  have body: "distribute_rewards F D fmt8 i st =
     (if F (DbGet ''node_fee_pool'' ''pool'') = None \<and> 0 < ?pool \<and> F (DbScan ''node_block_counts'') = None \<and> 0 < ?t
      then rbind (try_map (miner_reward F D fmt8 st i ?pool ?t) (List.enumerate 0 ?ms)) (\<lambda>rewards.
           Inr (concat rewards, snd (reset_pool_and_counts F st)))
      else Inr ([], st))"
    unfolding distribute_rewards_def get_fee_pool_def get_all_miners_def io_def Let_def by (simp add: counts split: option.split)
  show ?thesis
    using assms unfolding body
    by (cases "try_map (miner_reward F D fmt8 st i ?pool ?t) (List.enumerate 0 ?ms)") (auto split: if_splits)
qed


definition fresh_rewards :: rewards_store where
  "fresh_rewards = \<lparr>rw_pool = Some (to_le_bytes 10), rw_counts = [(''a'', to_le_bytes 1), (''b'', to_le_bytes 2)], rw_addresses = Map.empty\<rparr>"

lemma example_distribution:
  "\<exists>rewards st'. distribute_rewards no_faults ref_dec ref_show ''m1'' fresh_rewards = Inr (rewards, st') \<and>
     map nr_share rewards = [3, 6]"
proof -
  obtain a where a: "dec_div ref_dec (d_of_nat ref_dec 3) (d_of_nat ref_dec 100000000) = Inr a"
    by (simp add: dec_div_def ref_dec_def ref_fit_def)
  obtain b where b: "dec_div ref_dec (d_of_nat ref_dec 6) (d_of_nat ref_dec 100000000) = Inr b"
    by (simp add: dec_div_def ref_dec_def ref_fit_def)
  show ?thesis
    by (simp add: distribute_rewards_def fresh_rewards_def get_fee_pool_def get_all_miners_def io_def no_faults_def u64_bytes
      miner_reward_def miner_share_def stored_number_def get_node_reward_address_def log_prefix_def Let_def a b uncaught_def)
qed


text \<open>
  A reset that fails is only logged: the rewards are created and the pool and the counters stay, so the next milestone creates
  the same rewards again. The product of the pool and a counter wraps: the only miner of 20000 blocks gets less than a twelfth
  of a pool of ten million units, and the rest is lost with the reset.
\<close>

lemma failed_reset_pays_again:
  assumes "F (DbPut ''node_fee_pool'' ''pool'') = Some e" "distribute_rewards F D fmt8 block_id st = Inr (rewards, st')"
  shows "st' = st"
  using distribution_cases [OF assms(2)] assms(1) by (auto simp: reset_pool_and_counts_def)

lemma wrapped_product_loses_reward: "miner_share 1000000000000000 20000 20000 = 77662796314522"
  by (simp add: miner_share_def)

subsection \<open>The walk reaches every ancestor within the depth\<close>

text \<open>The edges of the index are those of the stored blocks.\<close>

definition parents_indexed :: "conc_dag \<Rightarrow> bool" where
  "parents_indexed d \<longleftrightarrow> child_edges (cd_children_idx d) =
     {(p, y). \<exists>b. map_of (cd_blocks d) y = Some b \<and> p \<in> set (b_parents b)}"

definition walked :: "(string \<times> block) list \<Rightarrow> nat \<Rightarrow> (string \<times> nat) set \<Rightarrow> (string \<times> nat) set \<Rightarrow> bool" where
  "walked bs m out reached \<longleftrightarrow> (\<forall>(x, e) \<in> out. e < m \<longrightarrow>
     (\<forall>b. map_of bs x = Some b \<longrightarrow> (\<forall>p \<in> set (b_parents b). \<exists>e' \<le> e + 1. (p, e') \<in> reached)))"

lemma walked_insert:
  "walked bs m (insert (x, e) out) reached \<longleftrightarrow> walked bs m out reached \<and> (e < m \<longrightarrow>
     (\<forall>b. map_of bs x = Some b \<longrightarrow> (\<forall>p \<in> set (b_parents b). \<exists>e' \<le> e + 1. (p, e') \<in> reached)))"
  by (auto simp: walked_def)

lemma walked_mono: "walked bs m out reached \<Longrightarrow> reached \<subseteq> reached' \<Longrightarrow> walked bs m out reached'"
  unfolding walked_def by blast

lemma anc_loop_queue: "set q \<subseteq> set (anc_loop bs m seen q)"
proof (induction bs m seen q rule: anc_loop.induct)
  case (2 bs m seen x depth q)
  then show ?case by (auto split: option.split)
qed simp

lemma anc_loop_walked:
  assumes "sorted (map snd q)" "\<And>x e. q \<noteq> [] \<Longrightarrow> (x, e) \<in> out \<union> set q \<Longrightarrow> e \<le> snd (hd q) + 1"
    "set seen = fst ` (out \<union> set q)" "walked bs m out (out \<union> set q)"
  shows "walked bs m (out \<union> set (anc_loop bs m seen q)) (out \<union> set (anc_loop bs m seen q))"
  using assms
proof (induction bs m seen q arbitrary: out rule: anc_loop.induct)
  case (2 bs m seen x depth q)
  let ?out = "insert (x, depth) out"
  have near: "e \<le> depth + 1" if "(y, e) \<in> ?out \<union> set q" for y e using 2(5) [of y e] that by auto
  have later: "depth \<le> e" if "(y, e) \<in> set q" for y e using 2(4) that by auto
  have hd: "e \<le> snd (hd q) + 1" if "q \<noteq> []" "(y, e) \<in> ?out \<union> set q" for y e
    using near [OF that(2)] later [of "fst (hd q)" "snd (hd q)"] that(1) by simp
  have known: "set seen = fst ` (?out \<union> set q)" using 2(6) by simp
  have old: "walked bs m out (?out \<union> set q)" using 2(7) by simp
  have sorted: "sorted (map snd q)" using 2(4) by simp
  consider (deep) "m \<le> depth" | (none) "depth < m" "map_of bs x = None" | (some) b where "depth < m" "map_of bs x = Some b"
    using not_le by blast
  then show ?case
  proof cases
    case deep
    have "walked bs m ?out (?out \<union> set q)" using old deep by (simp add: walked_insert)
    from 2(1) [OF deep sorted hd known this] show ?thesis using deep by simp
  next
    case none
    have "walked bs m ?out (?out \<union> set q)" using old none by (simp add: walked_insert)
    from 2(2) [OF _ none(2) sorted hd known this] show ?thesis using none by simp
  next
    case some
    obtain new where new: "visit (b_parents b) (seen, []) = (seen @ new, new)" "set new = set (b_parents b) - set seen"
      using visit_extends [of "b_parents b" seen "[]"] by auto
    let ?q = "q @ map (\<lambda>p. (p, depth + 1)) new"
    have "e \<le> depth + 1" if "(y, e) \<in> set q" for y e using near [of y e] that by simp
    then have s: "sorted (map snd ?q)" using sorted by (auto simp: sorted_append o_def map_replicate_const)
    have h: "e \<le> snd (hd ?q) + 1" if "?q \<noteq> []" "(y, e) \<in> ?out \<union> set ?q" for y e
    proof -
      have "e \<le> depth + 1" using that(2) near by auto
      moreover have "depth \<le> snd (hd ?q)" using that(1) later [of "fst (hd q)" "snd (hd q)"] by (cases q; cases new) auto
      ultimately show ?thesis by simp
    qed
    have kn: "set (seen @ new) = fst ` (?out \<union> set ?q)" using known by (auto simp: image_iff image_Un)
    have "\<exists>e' \<le> depth + 1. (p, e') \<in> ?out \<union> set ?q" if "p \<in> set (b_parents b)" for p
    proof (cases "p \<in> set new")
      case False
      then have "p \<in> fst ` (?out \<union> set q)" using that new(2) known by simp
      then obtain e where "(p, e) \<in> ?out \<union> set q" by force
      then show ?thesis using near [of p e] by (intro exI [of _ e]) auto
    qed (intro exI [of _ "depth + 1"], auto)
    then have "walked bs m ?out (?out \<union> set ?q)"
      using walked_mono [OF old, of "?out \<union> set ?q"] some by (auto simp: walked_insert)
    from 2(3) [OF _ some(2), unfolded new(1) fst_conv snd_conv, OF _ s h kn this] show ?thesis using some new(1) by simp
  qed
qed simp

lemma ancestors_reached:
  assumes idx: "parents_indexed d" and path: "(y, x) \<in> child_edges (cd_children_idx d) ^^ Suc n" and "n < m"
  shows "y \<in> set (ancestors_within_depth d x m)"
proof -
  let ?bs = "cd_blocks d" and ?E = "child_edges (cd_children_idx d)"
  have edge: "\<exists>b. map_of ?bs z = Some b \<and> p \<in> set (b_parents b)" if "(p, z) \<in> ?E" for p z
    using idx that by (auto simp: parents_indexed_def)
  define parents where "parents = (case map_of ?bs x of Some b \<Rightarrow> b_parents b | None \<Rightarrow> [])"
  obtain new where new: "visit parents ([], []) = (new, new)" "set new = set parents"
    using visit_extends [of parents "[]" "[]"] by auto
  let ?q = "map (\<lambda>p. (p, 1)) new"
  let ?R = "set (anc_loop ?bs m new ?q)"
  have "walked ?bs m ({} \<union> ?R) ({} \<union> ?R)"
    by (rule anc_loop_walked) (auto simp: walked_def o_def image_iff map_replicate_const)
  then have walk: "walked ?bs m ?R ?R" by simp
  have "\<exists>e \<le> Suc n. (y, e) \<in> ?R" if "(y, x) \<in> ?E ^^ Suc n" "n < m" for y n
    using that
  proof (induction n arbitrary: y)
    case 0
    then have "(y, x) \<in> ?E" by simp
    then obtain b where "map_of ?bs x = Some b" "y \<in> set (b_parents b)" using edge by blast
    then have "y \<in> set parents" by (simp add: parents_def)
    then have "(y, 1) \<in> set ?q" using new(2) by simp
    then have "(y, 1) \<in> ?R" using anc_loop_queue by blast
    then show ?case by (intro exI [of _ 1]) simp
  next
    case (Suc n)
    obtain z where z: "(y, z) \<in> ?E" "(z, x) \<in> ?E ^^ Suc n" using Suc.prems(1) by (rule relpow_Suc_E2)
    obtain e where e: "e \<le> Suc n" "(z, e) \<in> ?R" using Suc.IH [OF z(2)] Suc.prems(2) by auto
    obtain b where "map_of ?bs z = Some b" "y \<in> set (b_parents b)" using edge [OF z(1)] by blast
    then obtain e' where "e' \<le> e + 1" "(y, e') \<in> ?R" using walk e Suc.prems(2) by (fastforce simp: walked_def)
    then show ?case using e(1) by (intro exI [of _ e']) simp
  qed
  from this [OF path assms(3)] have "y \<in> fst ` ?R" by force
  then show ?thesis using assms(3) new(1) by (simp add: ancestors_within_depth_def parents_def Let_def)
qed

subsection \<open>A descendant is no further than the number of descendants\<close>

lemma near_descendant:
  assumes "y \<in> descendants idx x"
  shows "\<exists>n < card (descendants idx x). (x, y) \<in> child_edges idx ^^ Suc n"
proof -
  let ?E = "child_edges idx"
  define far where "far y = (LEAST n. (x, y) \<in> ?E ^^ Suc n)" for y
  have reach: "\<exists>n. (x, y) \<in> ?E ^^ Suc n" if "y \<in> descendants idx x" for y
    using that by (auto simp: descendants_def trancl_power gr0_conv_Suc)
  have far: "(x, y) \<in> ?E ^^ Suc (far y)" if "y \<in> descendants idx x" for y
    unfolding far_def using reach [OF that] by (rule LeastI_ex)
  have least: "far y \<le> n" if "(x, y) \<in> ?E ^^ Suc n" for y n unfolding far_def using that by (rule Least_le)
  have levels: "{..far y} \<subseteq> far ` descendants idx x" if "y \<in> descendants idx x" for y
    using that
  proof (induction "far y" arbitrary: y)
    case 0
    then show ?case by auto
  next
    case (Suc n)
    obtain z where z: "(x, z) \<in> ?E ^^ Suc n" "(z, y) \<in> ?E" using far [OF Suc.prems] unfolding Suc(2)[symmetric] by (rule relpow_Suc_E)
    have d: "z \<in> descendants idx x" using z(1) unfolding descendants_def trancl_power by blast
    have "(x, y) \<in> ?E ^^ Suc (Suc (far z))" using far [OF d] z(2) by (rule relpow_Suc_I)
    then have "far z = n" using least [of y "Suc (far z)"] least [OF z(1)] Suc(2) by simp
    then have "{..n} \<subseteq> far ` descendants idx x" using Suc(1) [of z] d by simp
    moreover have "Suc n \<in> far ` descendants idx x" using Suc.prems by (simp add: Suc(2))
    ultimately show ?case unfolding Suc(2)[symmetric] by (simp add: atMost_Suc)
  qed
  have "Suc (far y) = card {..far y}" by simp
  also have "\<dots> \<le> card (far ` descendants idx x)" using levels [OF assms] by (intro card_mono) auto
  also have "\<dots> \<le> card (descendants idx x)" by (rule card_image_le) simp
  finally show ?thesis using far [OF assms] by (intro exI [of _ "far y"]) simp
qed

subsection \<open>Finality by depth is exact\<close>

definition finality_complete :: "conc_dag \<Rightarrow> bool" where
  "finality_complete d \<longleftrightarrow> {x. fs_depth_k (cd_finality d) \<le> card (descendants (cd_children_idx d) x)} \<subseteq> fs_finalized (cd_finality d)"

lemma mark_final_fields [simp]:
  "fs_finalized (mark_final x f) = insert x (fs_finalized f)" "fs_depth_k (mark_final x f) = fs_depth_k f"
  by (simp_all add: mark_final_def)

lemma finalize_ancestors:
  fixes f new d k
  defines "r \<equiv> \<lambda>xs. fold (finalize_ancestor d k) xs (f, new)"
  shows "fs_finalized (fst (r xs)) = fs_finalized f \<union> {x \<in> set xs. k \<le> card (descendants (cd_children_idx d) x)}"
    and "set (snd (r xs)) = set new \<union> {x \<in> set xs. k \<le> card (descendants (cd_children_idx d) x) \<and> x \<notin> fs_finalized f}"
    and "fs_depth_k (fst (r xs)) = fs_depth_k f"
  unfolding r_def
  by (induction xs arbitrary: f new)
    (auto simp: finalize_ancestor_def count_descendants_def descend_enough)

lemma link_parents_edges:
  "(p, y) \<in> child_edges (cd_children_idx (fold (link_parent c) ps d)) \<longleftrightarrow>
   (p, y) \<in> child_edges (cd_children_idx d) \<or> p \<in> set ps \<and> y = c"
  by (induction ps arbitrary: d) (auto simp: child_edges_def link_parent_def children_of_upsert)

lemma link_parents_finality: "cd_finality (fold (link_parent c) ps d) = cd_finality d"
  by (induction ps arbitrary: d) (auto simp: link_parent_def)

definition prunes_now :: "conc_dag \<Rightarrow> bool" where
  "prunes_now d \<longleftrightarrow> 0 < cd_max_blocks d \<and> cd_insert_counter d mod prune_check_interval = 0"

lemma insert_edges:
  assumes "in_order b d" "\<not> prunes_now d"
  defines "d' \<equiv> snd (insert_block b d)"
  shows "child_edges (cd_children_idx d') = child_edges (cd_children_idx d) \<union> set (b_parents b) \<times> {b_id b}"
    and "map_of (cd_blocks d') = (map_of (cd_blocks d))(b_id b \<mapsto> b)" and "cd_finality d' = cd_finality d"
proof -
  let ?d = "fold (link_parent (b_id b)) (b_parents b) d"
  have d': "cd_children_idx d' = cd_children_idx ?d" "cd_blocks d' = AList.update (b_id b) b (cd_blocks ?d)"
    "cd_finality d' = cd_finality ?d"
    using assms by (auto simp: insert_block_def in_order_def prunes_now_def place_block_def Let_def link_parents_fields)
  show "child_edges (cd_children_idx d') = child_edges (cd_children_idx d) \<union> set (b_parents b) \<times> {b_id b}"
    unfolding d' using link_parents_edges by fastforce
  show "map_of (cd_blocks d') = (map_of (cd_blocks d))(b_id b \<mapsto> b)" "cd_finality d' = cd_finality d"
    unfolding d' by (simp_all add: link_parents_fields update_conv' link_parents_finality)
qed

lemma insert_keeps_index:
  assumes "parents_indexed d" "in_order b d" "\<not> prunes_now d"
  shows "parents_indexed (snd (insert_block b d))"
  using assms insert_edges [OF assms(2,3)]
  by (auto simp: parents_indexed_def in_order_def contains_block_def split: if_splits)

text \<open>A block without children gives each of its ancestors one descendant, itself.\<close>

lemma descendants_insert:
  assumes edges: "child_edges idx' = child_edges idx \<union> ps \<times> {c}" and leaf: "\<And>y. (c, y) \<notin> child_edges idx'"
  shows "descendants idx' x \<subseteq> insert c (descendants idx x)"
proof
  fix y assume "y \<in> descendants idx' x"
  then have "(x, y) \<in> (child_edges idx')\<^sup>+" by (simp add: descendants_def)
  then show "y \<in> insert c (descendants idx x)"
  proof (induction rule: trancl_induct)
    case (base y)
    then show ?case using edges by (auto simp: descendants_def)
  next
    case (step y z)
    show ?case
    proof (cases "z = c")
      case False
      then have "(y, z) \<in> child_edges idx" using step(2) edges by auto
      moreover have "y \<noteq> c" using step(2) leaf by blast
      ultimately show ?thesis using step(3) by (auto simp: descendants_def intro: trancl_into_trancl)
    qed simp
  qed
qed


definition one_confirmation :: conc_dag where
  "one_confirmation = (conc_dag_genesis (sample_block ''g'' []))\<lparr>cd_finality := finality_new 1\<rparr>"


end
