(* ===== verification/WireGate.thy ===== *)
theory WireGate
  imports Authority KeyRotation Governance NodeRewards HotPath "HOL-Library.List_Lexorder" "HOL-Library.Char_ord"
begin

section \<open>The gate of the wire: signature, writer, identifier, authority and parents\<close>

text \<open>
  The head of \<open>do_persist_block_internal\<close> (pms-core net_adapter/persist.rs), before any state is written: the policy of the
  moment, the header, the signature over the canonical message (\<open>verify_block_signature\<close> of crypto.rs and
  \<open>canonical_wireblock_message\<close> of pms-wallet), the single writer, the decoded payload, the identifier recomputed from the
  content (\<open>compute_block_id\<close> of pms-utils), the authority of the payload, and the parents. The serialisations of serde are
  the fields of a record \<open>W\<close>, one for each structure the code serialises or parses.
\<close>

record sign_view =
  sv_id :: string
  sv_parents :: "string list"
  sv_payload_json :: "string option"
  sv_nonce :: u64
  sv_network_id :: string
  sv_protocol_version :: u32
  sv_signer_pk_hex :: string

record envelope_header =
  eh_payload_type :: string
  eh_commitment :: string
  eh_len_hint :: u32
  eh_key_version :: u32

record wire_lib =
  wl_json_sign_view :: "sign_view \<Rightarrow> string"
  wl_json_plain :: "plain_payload \<Rightarrow> string"
  wl_json_header :: "string list \<times> u64 \<times> envelope_header \<Rightarrow> string"
  wl_parse_payload :: "string \<Rightarrow> string + payload_envelope"

record wire_meta =
  wm_network_id :: string
  wm_protocol_version :: u32

subsection \<open>The signature\<close>

definition sign_view_of :: "wire_block \<Rightarrow> sign_view" where
  "sign_view_of wb =
     \<lparr>sv_id = w_id wb, sv_parents = w_parents wb, sv_payload_json = w_payload_json wb, sv_nonce = w_nonce wb,
      sv_network_id = w_network_id wb, sv_protocol_version = ucast (w_protocol_version wb),
      sv_signer_pk_hex = w_signer_pk_hex wb\<rparr>"

definition canonical_wireblock_message :: "wire_lib \<Rightarrow> wire_block \<Rightarrow> string" where
  "canonical_wireblock_message W wb = wl_json_sign_view W (sign_view_of wb)"

definition block_signature :: "ext_lib \<Rightarrow> string \<Rightarrow> string option" where
  "block_signature X sig_bytes =
     (case x_der_sig X sig_bytes of
        Some s \<Rightarrow> Some s
      | None \<Rightarrow> if length sig_bytes \<noteq> 64 then None else x_raw_sig X sig_bytes)"

definition verify_block_signature :: "ext_lib \<Rightarrow> wire_lib \<Rightarrow> wire_block \<Rightarrow> string + unit" where
  "verify_block_signature X W wb =
     rbind (ok_or (x_hex_decode X (w_signer_pk_hex wb)) ''invalid signer_pk_hex (not valid hex)'') (\<lambda>pk_bytes.
     rbind (ok_or (x_sec1_key X pk_bytes) ''invalid secp256k1 public key (SEC1 format)'') (\<lambda>vk.
     rbind (ok_or (x_b64_decode X (w_signature_hex wb)) ''invalid base64 signature'') (\<lambda>sig_bytes.
     rbind (ok_or (block_signature X sig_bytes) ''invalid ECDSA signature format'') (\<lambda>sig.
     require (x_ecdsa_verify X vk (canonical_wireblock_message W wb) sig) ''signature verification failed''))))"

subsection \<open>The identifier\<close>

fun payload_type_name :: "plain_payload \<Rightarrow> string" where
  "payload_type_name Genesis = ''Genesis''"
| "payload_type_name (Mint _) = ''Mint''"
| "payload_type_name (TxUtxo _) = ''Transaction''"
| "payload_type_name (TokenBurn _ _ _ _) = ''TokenBurn''"
| "payload_type_name (MarketSettle _ _ _ _ _ _ _) = ''MarketSettle''"
| "payload_type_name (Milestone _ _) = ''Milestone''"
| "payload_type_name (NftPayload _) = ''Nft''"
| "payload_type_name (ConfigUpdatePayload _) = ''ConfigUpdate''"
| "payload_type_name (GovernanceProposal _ _ _ _ _ _) = ''GovernanceProposal''"
| "payload_type_name (GovernanceEnact _ _) = ''GovernanceEnact''"
| "payload_type_name (GovernanceCancel _ _) = ''GovernanceCancel''"
| "payload_type_name (Reward _ _ _ _) = ''Reward''"
| "payload_type_name (EncryptedReward _ _ _) = ''EncryptedReward''"
| "payload_type_name (TokenCreate _) = ''TokenCreate''"
| "payload_type_name (SftClassCreate _) = ''SftClassCreate''"
| "payload_type_name (RoyaltyUpdate _ _ _ _ _) = ''RoyaltyUpdate''"
| "payload_type_name (CustodialMint _ _ _ _ _) = ''CustodialMint''"
| "payload_type_name (BridgeLock _ _ _ _ _) = ''BridgeLock''"
| "payload_type_name (BridgeMint _ _ _) = ''BridgeMint''"
| "payload_type_name (Freeze _ _) = ''Freeze''"
| "payload_type_name (Unfreeze _ _ _) = ''Unfreeze''"
| "payload_type_name (Seize _ _ _ _) = ''Seize''"
| "payload_type_name (Reverse _ _ _ _) = ''Reverse''"
| "payload_type_name (ContractRegister _) = ''ContractRegister''"
| "payload_type_name (ContractUpdate _ _ _) = ''ContractUpdate''"
| "payload_type_name (LedgerOwnershipTransfer _ _) = ''LedgerOwnershipTransfer''"
| "payload_type_name (CoordinatorKeyRotate _ _ _) = ''CoordinatorKeyRotate''"
| "payload_type_name (ReserveSnapshot _ _ _ _) = ''ReserveSnapshot''"

definition envelope_header_of :: "ext_lib \<Rightarrow> wire_lib \<Rightarrow> payload_envelope option \<Rightarrow> envelope_header" where
  "envelope_header_of X W payload =
     (case payload of
        None \<Rightarrow> \<lparr>eh_payload_type = ''None'', eh_commitment = replicate 64 (CHR ''0''), eh_len_hint = 0, eh_key_version = 0\<rparr>
      | Some (Plain p) \<Rightarrow>
          let bytes = wl_json_plain W p in
          \<lparr>eh_payload_type = payload_type_name p, eh_commitment = x_hex_encode X (x_sha256 X bytes),
           eh_len_hint = of_nat (length bytes), eh_key_version = 0\<rparr>
      | Some (Encrypted e) \<Rightarrow>
          \<lparr>eh_payload_type = ''Encrypted'', eh_commitment = ep_commitment e,
           eh_len_hint = of_nat (length (ep_ciphertext_b64 e)), eh_key_version = ep_key_version e\<rparr>)"

definition compute_block_id :: "ext_lib \<Rightarrow> wire_lib \<Rightarrow> string list \<Rightarrow> payload_envelope option \<Rightarrow> u64 \<Rightarrow> string" where
  "compute_block_id X W parents payload nonce =
     x_hex_encode X (x_sha256 X (wl_json_header W (parents, nonce, envelope_header_of X W payload)))"

definition compute_block_id_sorted :: "ext_lib \<Rightarrow> wire_lib \<Rightarrow> string list \<Rightarrow> payload_envelope option \<Rightarrow> u64 \<Rightarrow> string" where
  "compute_block_id_sorted X W parents payload nonce = compute_block_id X W (sort parents) payload nonce"

definition compute_id_adapter :: "ext_lib \<Rightarrow> wire_lib \<Rightarrow> wire_block \<Rightarrow> string" where
  "compute_id_adapter X W wb =
     (let payload = (case w_payload_json wb of
                       None \<Rightarrow> None
                     | Some s \<Rightarrow> (case wl_parse_payload W s of Inr q \<Rightarrow> Some q | Inl _ \<Rightarrow> None))
      in compute_block_id X W (w_parents wb) payload (w_nonce wb))"

subsection \<open>The stages\<close>

text \<open>
  What the node holds at the call: its settings, its wire metadata and the policy of the start (\<open>node_setup\<close>); the clock and
  the answer of the store to \<open>get_block\<close> are arguments.
\<close>

record 'd node_setup =
  su_meta :: wire_meta
  su_policy :: "'d policy"
  su_settings :: net_settings

definition effective_policy ::
  "faults \<Rightarrow> 'd dec_lib \<Rightarrow> 'd policy \<Rightarrow> gov_store \<Rightarrow> key_rotation_state \<Rightarrow> panic + 'd policy" where
  "effective_policy F D p gs ks =
     rbind (case io F GetConfig (gs_config gs) of
              Inl _ \<Rightarrow> Inr p
            | Inr rc \<Rightarrow> update_from_runtime_config D p
                \<lparr>rf_coordinator_fee_bps = rc_coordinator_fee_bps rc, rf_min_pow_bits = rc_min_pow_bits rc\<rparr>) (\<lambda>p.
     Inr (case current_pk ks of Some k \<Rightarrow> p\<lparr>p_coordinator_public_key := Some k\<rparr> | None \<Rightarrow> p))"

definition header_gate :: "wire_meta \<Rightarrow> wire_block \<Rightarrow> unit gate" where
  "header_gate meta wb =
     rbind (reject_if (w_network_id wb \<noteq> wm_network_id meta \<or> w_protocol_version wb \<noteq> ucast (wm_protocol_version meta))
       ''wrong network_id or protocol_version'') (\<lambda>_.
     rbind (reject_if (trim (w_signer_pk_hex wb) = []) ''missing signer public key'') (\<lambda>_.
     reject_if (trim (w_signature_hex wb) = []) ''missing signature''))"

definition signature_gate :: "ext_lib \<Rightarrow> wire_lib \<Rightarrow> wire_block \<Rightarrow> unit gate" where
  "signature_gate X W wb =
     (case verify_block_signature X W wb of
        Inl e \<Rightarrow> Inl (Reject (''invalid signature: '' @ e))
      | Inr _ \<Rightarrow> Inr ())"

definition writer_gate :: "'d policy \<Rightarrow> network_mode \<Rightarrow> key_rotation_state \<Rightarrow> i64 \<Rightarrow> wire_block \<Rightarrow> unit gate" where
  "writer_gate p mode ks now_ms wb =
     (if p_enforce_single_writer p then
        (case single_writer_gate (accepted_signer_keys ks now_ms) (w_signer_pk_hex wb) (mode = Dev) of
           Inl reason \<Rightarrow> rbind (log_prefix 16 (w_id wb)) (\<lambda>_. Inl (Reject (''single_writer: '' @ reason)))
         | Inr _ \<Rightarrow> Inr ())
      else Inr ())"

definition decode_payload :: "wire_lib \<Rightarrow> 'd policy \<Rightarrow> wire_block \<Rightarrow> payload_envelope option gate" where
  "decode_payload W p wb =
     (case w_payload_json wb of
        None \<Rightarrow> Inr None
      | Some s \<Rightarrow>
          rbind (reject_if (p_max_payload_bytes p < length s)
            (''payload too large: '' @ show_nat (length s) @ '' > '' @ show_nat (p_max_payload_bytes p))) (\<lambda>_.
          if trim s = [] \<or> s = ''null'' then Inr None
          else (case wl_parse_payload W s of Inl e \<Rightarrow> Inl (Fail e) | Inr q \<Rightarrow> Inr (Some q))))"

definition id_gate :: "ext_lib \<Rightarrow> wire_lib \<Rightarrow> payload_envelope option \<Rightarrow> wire_block \<Rightarrow> unit gate" where
  "id_gate X W payload wb =
     (if w_id wb \<noteq> compute_block_id X W (w_parents wb) payload (w_nonce wb) then
        rbind (log_prefix 16 (w_id wb)) (\<lambda>_.
        rbind (log_prefix 16 (w_signer_pk_hex wb)) (\<lambda>_.
        Inl (Reject ''block id does not match canonical content hash'')))
      else Inr ())"

definition authority_gate ::
  "'d dec_lib \<Rightarrow> ext_lib \<Rightarrow> 'd policy \<Rightarrow> payload_envelope option \<Rightarrow> wire_block \<Rightarrow> unit gate" where
  "authority_gate D X p payload wb =
     guard ''payload authority: '' (validate_payload_authority D X (Some (w_signer_pk_hex wb)) payload p)"

definition parent_structure_gate :: "wire_block \<Rightarrow> unit gate" where
  "parent_structure_gate wb =
     rbind (reject_if (\<not> distinct (w_parents wb)) ''duplicate parent reference'') (\<lambda>_.
     reject_if (w_id wb \<in> set (w_parents wb)) ''self-parent not allowed'')"

definition min_parents_gate :: "'d policy \<Rightarrow> conc_dag \<Rightarrow> wire_block \<Rightarrow> unit gate" where
  "min_parents_gate p d wb =
     (if \<not> p_enforce_single_writer p \<and> 1 < length (cd_blocks d) \<and> length (w_parents wb) < p_min_parents_after_boot p then
        let has_genesis = ''genesis'' \<in> set (w_parents wb);
            available_tips = length (conc_find_tips d)
        in reject_if (\<not> (has_genesis \<and> available_tips < p_min_parents_after_boot p))
             (''not enough parents after bootstrap: got '' @ show_nat (length (w_parents wb)) @ '', need '' @
              show_nat (p_min_parents_after_boot p) @ ''. Tip: use '' @ [CHR 0x27] @ ''genesis'' @ [CHR 0x27] @
              '' as parent during bootstrap.'')
      else Inr ())"

definition single_parent_gate :: "validation_settings \<Rightarrow> payload_envelope option \<Rightarrow> wire_block \<Rightarrow> unit gate" where
  "single_parent_gate vs payload wb =
     (if vs_enforce_single_writer vs \<and> payload \<noteq> Some (Plain Genesis) then
        reject_if (length (w_parents wb) \<noteq> 1)
          (''single_writer: block must have exactly 1 parent, got '' @ show_nat (length (w_parents wb)))
      else Inr ())"

definition parent_existence_gate ::
  "faults \<Rightarrow> (string \<Rightarrow> bool) \<Rightarrow> 'd policy \<Rightarrow> conc_dag \<Rightarrow> wire_block \<Rightarrow> unit gate" where
  "parent_existence_gate F stored p d wb =
     (if p_enforce_parent_existence p then
        try_each (\<lambda>parent.
          if contains_block d parent then Inr ()
          else (case io F (GetBlock parent) (stored parent) of
                  Inr True \<Rightarrow> Inr ()
                | _ \<Rightarrow> Inl (Reject (''dag validation failed: parent '' @ parent @ '' not found'')))) (w_parents wb)
      else Inr ())"

definition parents_gate ::
  "faults \<Rightarrow> (string \<Rightarrow> bool) \<Rightarrow> validation_settings \<Rightarrow> 'd policy \<Rightarrow> conc_dag \<Rightarrow> payload_envelope option \<Rightarrow> wire_block
   \<Rightarrow> unit gate" where
  "parents_gate F stored vs p d payload wb =
     rbind (parent_structure_gate wb) (\<lambda>_.
     rbind (min_parents_gate p d wb) (\<lambda>_.
     rbind (single_parent_gate vs payload wb) (\<lambda>_.
     parent_existence_gate F stored p d wb)))"

text \<open>The head as the code composes it. \<open>None\<close> is the answer \<open>AlreadyExists\<close>.\<close>

definition wire_checks ::
  "faults \<Rightarrow> 'd dec_lib \<Rightarrow> ext_lib \<Rightarrow> wire_lib \<Rightarrow> 'd node_setup \<Rightarrow> 'd policy \<Rightarrow> key_rotation_state \<Rightarrow> i64 \<Rightarrow> wire_block
   \<Rightarrow> payload_envelope option gate" where
  "wire_checks F D X W su p ks now_ms wb =
     rbind (header_gate (su_meta su) wb) (\<lambda>_.
     rbind (signature_gate X W wb) (\<lambda>_.
     rbind (writer_gate p (ns_mode (su_settings su)) ks now_ms wb) (\<lambda>_.
     rbind (decode_payload W p wb) (\<lambda>payload.
     rbind (id_gate X W payload wb) (\<lambda>_.
     rbind (authority_gate D X p payload wb) (\<lambda>_. Inr payload))))))"

definition wire_gate ::
  "faults \<Rightarrow> 'd dec_lib \<Rightarrow> ext_lib \<Rightarrow> wire_lib \<Rightarrow> 'd node_setup \<Rightarrow> gov_store \<Rightarrow> key_rotation_state \<Rightarrow> conc_dag
   \<Rightarrow> (string \<Rightarrow> bool) \<Rightarrow> i64 \<Rightarrow> wire_block \<Rightarrow> (payload_envelope option \<times> 'd policy) option gate" where
  "wire_gate F D X W su gs ks d stored now_ms wb =
     rbind (uncaught (effective_policy F D (su_policy su) gs ks)) (\<lambda>p.
     rbind (wire_checks F D X W su p ks now_ms wb) (\<lambda>payload.
     if contains_block d (w_id wb) then Inr None
     else
       rbind (parents_gate F stored (ns_validation (su_settings su)) p d payload wb) (\<lambda>_.
       Inr (Some (payload, p)))))"

subsection \<open>What an accepted block satisfies\<close>

definition signed_by :: "ext_lib \<Rightarrow> wire_lib \<Rightarrow> string \<Rightarrow> wire_block \<Rightarrow> bool" where
  "signed_by X W vk wb \<longleftrightarrow> (\<exists>pk_bytes sig_bytes sig.
     x_hex_decode X (w_signer_pk_hex wb) = Some pk_bytes \<and> x_sec1_key X pk_bytes = Some vk \<and>
     x_b64_decode X (w_signature_hex wb) = Some sig_bytes \<and> block_signature X sig_bytes = Some sig \<and>
     x_ecdsa_verify X vk (canonical_wireblock_message W wb) sig)"

lemma verify_block_signature_ok: "verify_block_signature X W wb = Inr () \<longleftrightarrow> (\<exists>vk. signed_by X W vk wb)"
  by (auto simp: verify_block_signature_def signed_by_def)

lemma effective_key:
  assumes "effective_policy F D p0 gs ks = Inr p" "current_pk ks = Some k"
  shows "p_coordinator_public_key p = Some k"
  using assms by (auto simp: effective_policy_def)

lemma effective_flags:
  assumes "effective_policy F D p0 gs ks = Inr p"
  shows "p_enforce_single_writer p = p_enforce_single_writer p0" "p_enforce_parent_existence p = p_enforce_parent_existence p0"
  using assms by (auto simp: effective_policy_def update_from_runtime_config_def split: sum.splits option.splits)

lemma accepted_keys:
  "k \<in> set (accepted_signer_keys ks now) \<longleftrightarrow>
     current_pk ks = Some k \<or> (\<exists>r \<in> set (ks_rotations ks). kr_old_pk r = k \<and> old_key_in_grace r now)"
  by (auto simp: accepted_signer_keys_def split: option.splits)

lemma writer_gate_ok:
  "writer_gate p mode ks now wb = Inr () \<longleftrightarrow> \<not> p_enforce_single_writer p \<or>
     trim (w_signer_pk_hex wb) \<in> set (accepted_signer_keys ks now) \<or> accepted_signer_keys ks now = [] \<and> mode = Dev"
  by (auto simp: writer_gate_def single_writer_gate_def split: if_splits)

lemma parent_existence_ok:
  "parent_existence_gate F stored p d wb = Inr () \<longleftrightarrow>
     (p_enforce_parent_existence p \<longrightarrow> (\<forall>q \<in> set (w_parents wb). contains_block d q \<or> F (GetBlock q) = None \<and> stored q))"
  by (auto simp: parent_existence_gate_def try_each_eq_Inr io_def split: option.splits bool.splits if_splits)

lemma decode_payload_json:
  assumes "decode_payload W p wb = Inr (Some q)"
  shows "\<exists>s. w_payload_json wb = Some s \<and> wl_parse_payload W s = Inr q \<and> length s \<le> p_max_payload_bytes p"
  using assms by (auto simp: decode_payload_def reject_if_def split: option.splits sum.splits if_splits)


definition ref_wire :: wire_lib where
  "ref_wire = \<lparr>wl_json_sign_view = sv_id, wl_json_plain = payload_type_name, wl_json_header = (\<lambda>(parents, nonce, h). concat parents),
     wl_parse_payload = (\<lambda>s. if s = ''Milestone'' then Inr (Plain (Milestone [] False)) else Inl ''expected value'')\<rparr>"

definition sample_setup :: "rdec node_setup" where
  "sample_setup = \<lparr>su_meta = \<lparr>wm_network_id = ''pms-mainnet-v1'', wm_protocol_version = 1\<rparr>,
     su_policy = (policy_default ref_dec)\<lparr>p_enforce_single_writer := True, p_enforce_parent_existence := True, p_max_payload_bytes := 1000\<rparr>,
     su_settings = sample_settings\<rparr>"

definition sample_wire_id :: string where
  "sample_wire_id = ''67'' @ concat (replicate 31 ''2e'')"

definition sample_wire :: wire_block where
  "sample_wire = \<lparr>w_id = sample_wire_id, w_parents = [''g''], w_payload_json = Some ''Milestone'', w_nonce = 0,
     w_network_id = ''pms-mainnet-v1'', w_protocol_version = 1, w_signer_pk_hex = sample_key,
     w_signature_hex = sample_key_bytes @ sample_wire_id, w_metadata = None\<rparr>"

definition sample_keys :: key_rotation_state where
  "sample_keys = \<lparr>ks_bootstrap_pk = Some sample_key, ks_rotations = []\<rparr>"

lemma sample_hash: "ref_hex_encode (take 32 (''g'' @ replicate 32 (CHR ''.''))) = sample_wire_id"
  by code_simp

lemma sample_key_trim: "trim sample_key = sample_key"
  by code_simp

lemma sample_signature_text: "trim (sample_key_bytes @ sample_wire_id) \<noteq> []"
  by code_simp

lemma sample_id:
  "compute_block_id ref_ext ref_wire [''g''] payload 0 = sample_wire_id"
  using sample_hash by (simp add: compute_block_id_def ref_ext_def ref_wire_def)

lemma sample_signature: "verify_block_signature ref_ext ref_wire sample_wire = Inr ()"
proof -
  have "x_sec1_key ref_ext sample_key_bytes = Some sample_key_bytes" "x_b64_decode ref_ext = Some" "x_der_sig ref_ext = Some"
    "x_ecdsa_verify ref_ext = (\<lambda>k m s. s = k @ m)"
    by (simp_all add: ref_ext_def sample_key_length)
  then show ?thesis
    by (simp add: verify_block_signature_def sample_wire_def sample_key_decodes block_signature_def canonical_wireblock_message_def
        sign_view_of_def ref_wire_def)
qed

definition sample_gov :: gov_store where
  "sample_gov = \<lparr>gs_config = runtime_config_default, gs_history = (\<lambda>_. None), gs_proposals = (\<lambda>_. None)\<rparr>"

lemma sample_wire_accepted:
  "\<exists>p. wire_gate no_faults ref_dec ref_ext ref_wire sample_setup sample_gov sample_keys (conc_dag_genesis (sample_block ''g'' []))
       (\<lambda>_. False) 0 sample_wire = Inr (Some (Some (Plain (Milestone [] False)), p))"
proof -
  let ?d = "conc_dag_genesis (sample_block ''g'' [])" and ?q = "Some (Plain (Milestone [] False))"
  obtain p where p: "effective_policy no_faults ref_dec (su_policy sample_setup) sample_gov sample_keys = Inr p"
    "p_coordinator_public_key p = Some sample_key" "p_enforce_single_writer p" "p_max_payload_bytes p = 1000"
    by (simp add: effective_policy_def update_from_runtime_config_def sample_setup_def sample_keys_def current_pk_def io_def no_faults_def
        runtime_config_default_def dec_div_def ref_dec_def ref_fit_def sample_gov_def)
  have keys: "accepted_signer_keys sample_keys 0 = [sample_key]"
    by (simp add: accepted_signer_keys_def sample_keys_def current_pk_def)
  have key: "w_signer_pk_hex sample_wire = sample_key" "w_parents sample_wire = [''g'']" "w_id sample_wire = sample_wire_id"
    "w_payload_json sample_wire = Some ''Milestone''" "w_nonce sample_wire = 0"
    by (simp_all add: sample_wire_def)
  have "trim sample_key \<noteq> []" by (simp add: sample_key_trim) (simp add: sample_key_def)
  then have "header_gate (su_meta sample_setup) sample_wire = Inr ()"
    using sample_signature_text by (simp add: header_gate_def sample_setup_def sample_wire_def reject_if_def)
  moreover have "writer_gate p (ns_mode (su_settings sample_setup)) sample_keys 0 sample_wire = Inr ()"
    by (simp add: writer_gate_ok keys key sample_key_trim)
  moreover have "signature_gate ref_ext ref_wire sample_wire = Inr ()" by (simp add: signature_gate_def sample_signature)
  moreover have "decode_payload ref_wire p sample_wire = Inr ?q"
    by (simp add: decode_payload_def key p(4) reject_if_def ref_wire_def trim_def is_ascii_ws_def Let_def)
  moreover have "id_gate ref_ext ref_wire ?q sample_wire = Inr ()" by (simp add: id_gate_def key sample_id)
  moreover have "authority_gate ref_dec ref_ext p ?q sample_wire = Inr ()"
    by (simp add: authority_gate_def authority_decides signed_by_coordinator_def p(2) key eq_ignore_case_def)
  ultimately have checks: "wire_checks no_faults ref_dec ref_ext ref_wire sample_setup p sample_keys 0 sample_wire = Inr ?q"
    by (simp add: wire_checks_def)
  have d: "contains_block ?d x \<longleftrightarrow> x = ''g''" for x
    by (simp add: contains_block_def conc_dag_genesis_def sample_block_def)
  have fresh: "sample_wire_id \<noteq> ''g''" by (simp add: sample_wire_id_def)
  have "parents_gate no_faults (\<lambda>_. False) (ns_validation (su_settings sample_setup)) p ?d ?q sample_wire = Inr ()"
    using fresh p(3) by (simp add: parents_gate_def parent_structure_gate_def min_parents_gate_def single_parent_gate_def key reject_if_def
        parent_existence_ok d)
  then show ?thesis using checks p(1) d fresh by (simp add: wire_gate_def key)
qed


subsection \<open>What the gate does not see\<close>

text \<open>
  The first sixteen bytes of the identifier are shown in the log before the identifier is compared with the content: an
  identifier with a character of two bytes there makes the thread panic. The block only needs a valid signature of any key.
\<close>

definition accented_id :: string where
  "accented_id = replicate 15 (CHR ''a'') @ [CHR 0xC3, CHR 0xA9]"

lemma accented_id_panics:
  assumes "w_id wb = accented_id" "p_enforce_single_writer p" "trim (w_signer_pk_hex wb) \<notin> set (accepted_signer_keys ks now)"
    and "accepted_signer_keys ks now \<noteq> []"
  shows "writer_gate p mode ks now wb = Inl (Crash ''byte index is not a char boundary'')"
  using assms by (simp add: writer_gate_def single_writer_gate_def log_prefix_def accented_id_def Let_def nth_append)

text \<open>
  The identifier of an encrypted block covers the commitment its author declares, the length of the ciphertext and the key
  version: two blocks with different ciphertexts have the same identifier.
\<close>

lemma encrypted_id_ignores_ciphertext:
  assumes "ep_commitment e = ep_commitment e'" "length (ep_ciphertext_b64 e) = length (ep_ciphertext_b64 e')" "ep_key_version e = ep_key_version e'"
  shows "compute_block_id X W parents (Some (Encrypted e)) nonce = compute_block_id X W parents (Some (Encrypted e')) nonce"
  using assms by (simp add: compute_block_id_def envelope_header_of_def)

end
