(* ===== verification/MintArms.thy ===== *)
theory MintArms
  imports Mint UtxoGate WireGate
begin

section \<open>The two mints of the hot path\<close>

text \<open>
  The arms of \<open>do_persist_block_internal\<close> for \<open>Mint\<close>, a mint by the coordinator, and \<open>CustodialMint\<close>, a mint by the detached
  signature of the mint authority of a registered asset. What they read of the set of unspent outputs is a \<open>mint_view\<close>: the
  circulating supply of an asset and the outputs of an address, in the order of the answer.
\<close>

record 'd mint_view =
  mv_supply :: "string \<Rightarrow> 'd"
  mv_at_address :: "string \<Rightarrow> (output_id \<times> tx_output) list"

definition now_u64 :: "i64 \<Rightarrow> u64" where
  "now_u64 t = (if sint t < 0 then 0 else ucast t)"

subsection \<open>What the rules read of an asset\<close>

definition asset_limits ::
  "'d dec_lib \<Rightarrow> 'd mint_view \<Rightarrow> u64 \<Rightarrow> string \<Rightarrow> token_metadata option \<Rightarrow> panic + 'd option \<times> 'd option" where
  "asset_limits D mv now_ms asset_id meta =
     (case meta of
        None \<Rightarrow> Inr (None, None)
      | Some m \<Rightarrow>
          rbind (case tm_collateral_address m of
                   None \<Rightarrow> Inr None
                 | Some reserve_addr \<Rightarrow>
                     rbind (sum_locked_collateral D (mv_at_address mv reserve_addr) (tm_collateral_asset_id m) now_ms) (\<lambda>x. Inr (Some x)))
            (\<lambda>locked.
          Inr (if tm_max_supply m \<noteq> None \<or> tm_collateral_address m \<noteq> None then Some (mv_supply mv asset_id) else None, locked)))"

definition mint_lookup ::
  "faults \<Rightarrow> 'd dec_lib \<Rightarrow> asset_store \<Rightarrow> 'd mint_view \<Rightarrow> u64 \<Rightarrow> string
   \<Rightarrow> panic + (string \<times> token_metadata option \<times> 'd option \<times> 'd option)" where
  "mint_lookup F D st mv now_ms asset_id =
     (let meta = resolve_asset_metadata F st asset_id in
      rbind (asset_limits D mv now_ms asset_id meta) (\<lambda>limits. Inr (asset_id, meta, limits)))"

definition found_metadata :: "(string \<times> token_metadata option \<times> 'd option \<times> 'd option) list \<Rightarrow> registry" where
  "found_metadata l a = map_option fst (map_of l a)"

definition found_supply :: "(string \<times> token_metadata option \<times> 'd option \<times> 'd option) list \<Rightarrow> string \<Rightarrow> 'd option" where
  "found_supply l a = Option.bind (map_of l a) (\<lambda>(_, circulating, _). circulating)"

definition found_collateral :: "(string \<times> token_metadata option \<times> 'd option \<times> 'd option) list \<Rightarrow> string \<Rightarrow> 'd option" where
  "found_collateral l a = Option.bind (map_of l a) (\<lambda>(_, _, locked). locked)"

subsection \<open>The mint of the coordinator\<close>

definition mint_security_gate :: "'d policy \<Rightarrow> wire_block \<Rightarrow> unit gate" where
  "mint_security_gate p wb =
     (case validate_mint_security wb p of
        Inr _ \<Rightarrow> Inr ()
      | Inl e \<Rightarrow>
          rbind (log_prefix 16 (w_signer_pk_hex wb)) (\<lambda>_.
          Inl (Reject (''mint security: '' @ show_verror e @ ''. Key: '' @ show_debug_string (p_coordinator_public_key p)))))"

definition custom_mints_gate ::
  "faults \<Rightarrow> 'd dec_lib \<Rightarrow> asset_store \<Rightarrow> 'd mint_view \<Rightarrow> u64 \<Rightarrow> tx_output list \<Rightarrow> wire_block \<Rightarrow> unit gate" where
  "custom_mints_gate F D st mv now_ms outputs wb =
     rbind (guard ''mint amounts: '' (minted_amounts_by_custom_asset D outputs)) (\<lambda>minted.
     if minted = [] then Inr ()
     else
       rbind (uncaught (try_map (mint_lookup F D st mv now_ms) (map fst minted))) (\<lambda>found.
       guard ''token mint: '' (validate_custom_asset_mints D outputs (w_signer_pk_hex wb) minted
         (found_metadata found) (found_supply found) (found_collateral found))))"

definition mint_arm ::
  "faults \<Rightarrow> 'd dec_lib \<Rightarrow> ext_lib \<Rightarrow> string option \<Rightarrow> net_settings \<Rightarrow> 'd policy \<Rightarrow> asset_store \<Rightarrow> 'd mint_view \<Rightarrow> i64
   \<Rightarrow> tx_output list \<Rightarrow> wire_block \<Rightarrow> unit gate" where
  "mint_arm F D X test_pk settings p st mv now_ms outputs wb =
     rbind (guard ''mint policy violated: '' (validate_mint_policy D test_pk outputs wb settings)) (\<lambda>_.
     rbind (guard ''mint output condition: '' (validate_output_conditions X outputs)) (\<lambda>_.
     rbind (mint_security_gate p wb) (\<lambda>_.
     custom_mints_gate F D st mv (now_u64 now_ms) outputs wb)))"

subsection \<open>The mint of a creator\<close>

definition custodial_mint_signing_message :: "ext_lib \<Rightarrow> string \<Rightarrow> string \<Rightarrow> tx_output list \<Rightarrow> string \<Rightarrow> string" where
  "custodial_mint_signing_message X network_id asset_id outputs mint_nonce =
     x_hex_encode X (x_sha256 X (x_json_custodial X ''pms-custodial-mint-v1'' network_id asset_id
       (map (\<lambda>out. out\<lparr>o_created_at := None\<rparr>) outputs) mint_nonce))"

definition custodial_asset :: "faults \<Rightarrow> asset_store \<Rightarrow> string \<Rightarrow> token_metadata gate" where
  "custodial_asset F st asset_id =
     (case resolve_asset_metadata_strict F st asset_id of
        Inl e \<Rightarrow> Inl (Reject (''custodial mint: '' @ e))
      | Inr None \<Rightarrow> Inl (Reject (''custodial mint: unknown asset '' @ asset_id))
      | Inr (Some m) \<Rightarrow> Inr m)"

definition custodial_signature ::
  "ext_lib \<Rightarrow> string \<Rightarrow> string \<Rightarrow> tx_output list \<Rightarrow> string \<Rightarrow> string \<Rightarrow> string \<Rightarrow> token_metadata \<Rightarrow> unit gate" where
  "custodial_signature X network_id asset_id outputs auth_pubkey_hex auth_signature_b64 mint_nonce meta =
     rbind (reject_if (\<not> is_ok (verify_detached_signature X
         (custodial_mint_signing_message X network_id asset_id outputs mint_nonce) auth_pubkey_hex auth_signature_b64))
       ''custodial mint: invalid mint_authority signature'') (\<lambda>_.
     reject_if (\<not> unlock_matches_address X auth_pubkey_hex (tm_mint_authority meta))
       ''custodial mint: signer is not the asset mint_authority'')"

definition custodial_fresh :: "faults \<Rightarrow> node_view \<Rightarrow> string \<Rightarrow> string \<Rightarrow> unit gate" where
  "custodial_fresh F nv asset_id mint_nonce =
     (let key = custodial_mint_consumed_key asset_id mint_nonce in
      case io F (IsCustodialConsumed key) (nv_custodial_stored nv key) of
        Inl e \<Rightarrow> Inl (Reject (''custodial mint consumed lookup failed: '' @ e))
      | Inr durably_consumed \<Rightarrow>
          reject_if (durably_consumed \<or> key \<in> cd_custodial_mints (nv_dag nv))
            (''custodial mint nonce already consumed (replay): '' @ asset_id))"

definition recipient_not_frozen :: "faults \<Rightarrow> compliance_store \<Rightarrow> tx_output \<Rightarrow> unit gate" where
  "recipient_not_frozen F co out =
     (case is_frozen F co (o_address out) of
        Inl e \<Rightarrow> Inl (Reject (''compliance check failed (fail-closed): '' @ e))
      | Inr b \<Rightarrow> reject_if b (''compliance: recipient address is frozen: '' @ o_address out))"

definition custodial_cap ::
  "'d dec_lib \<Rightarrow> 'd mint_view \<Rightarrow> u64 \<Rightarrow> string \<Rightarrow> token_metadata \<Rightarrow> tx_output list \<Rightarrow> (string \<times> 'd) list \<Rightarrow> unit gate" where
  "custodial_cap D mv now_ms asset_id meta outputs minted =
     rbind (uncaught (asset_limits D mv now_ms asset_id (Some meta))) (\<lambda>limits.
     let found = [(asset_id, Some meta, limits)] in
     guard ''custodial mint: '' (validate_custom_asset_mint_amounts D outputs minted
       (found_metadata found) (found_supply found) (found_collateral found)))"

definition custodial_mint_arm ::
  "faults \<Rightarrow> 'd dec_lib \<Rightarrow> ext_lib \<Rightarrow> string \<Rightarrow> node_view \<Rightarrow> 'd mint_view \<Rightarrow> i64 \<Rightarrow> string \<Rightarrow> tx_output list \<Rightarrow> string \<Rightarrow> string
   \<Rightarrow> string \<Rightarrow> unit gate" where
  "custodial_mint_arm F D X network_id nv mv now_ms asset_id outputs auth_pubkey_hex auth_signature_b64 mint_nonce =
     rbind (reject_if (outputs = []) ''custodial mint: no outputs'') (\<lambda>_.
     rbind (reject_if (\<exists>out \<in> set outputs. o_asset_id out \<noteq> Some asset_id)
       ''custodial mint: every output must carry the declared asset_id (native/other asset forbidden)'') (\<lambda>_.
     rbind (guard ''custodial mint output condition: '' (validate_output_conditions X outputs)) (\<lambda>_.
     rbind (custodial_asset F (nv_assets nv) asset_id) (\<lambda>meta.
     rbind (custodial_signature X network_id asset_id outputs auth_pubkey_hex auth_signature_b64 mint_nonce meta) (\<lambda>_.
     rbind (custodial_fresh F nv asset_id mint_nonce) (\<lambda>_.
     rbind (try_each (recipient_not_frozen F (nv_compliance nv)) outputs) (\<lambda>_.
     rbind (guard ''custodial mint amounts: '' (minted_amounts_by_custom_asset D outputs)) (\<lambda>minted.
     custodial_cap D mv (now_u64 now_ms) asset_id meta outputs minted))))))))"

subsection \<open>What an accepted custodial mint satisfies\<close>

lemma custodial_cap_limits:
  assumes "custodial_cap D mv now asset_id meta outputs minted = Inr ()"
  obtains circulating locked where
    "validate_custom_asset_mint_amounts D outputs minted (found_metadata [(asset_id, Some meta, circulating, locked)])
       (found_supply [(asset_id, Some meta, circulating, locked)]) (found_collateral [(asset_id, Some meta, circulating, locked)]) = Inr ()"
    "tm_max_supply meta \<noteq> None \<Longrightarrow> circulating = Some (mv_supply mv asset_id)"
  using assms by (auto simp: custodial_cap_def asset_limits_def Let_def)

text \<open>
  Claim C35. A custodial mint is authorised: its outputs are all of one registered asset, the key of the mint authority of the
  asset signed these outputs and this nonce for this network, the nonce is unused in the store and in memory, no recipient is
  frozen, and the circulating supply with the sum of the outputs stays within the maximum supply.
\<close>

theorem custodial_mint_authorised:
  assumes L: "dec_laws D v"
    and arm: "custodial_mint_arm F D X network_id nv mv now_ms asset_id outputs pk sig mint_nonce = Inr ()"
    and tame: "\<forall>out \<in> set outputs. tame_amount D v out \<and> 0 \<le> nominal_val D v out"
      "sum_list (map (nominal_val D v) outputs) \<le> 10 ^ 12"
    and cur: "at_scale 8 (v (mv_supply mv asset_id))" "0 \<le> v (mv_supply mv asset_id)" "v (mv_supply mv asset_id) \<le> 10 ^ 12"
  shows "\<exists>meta. resolve_asset_metadata_strict F (nv_assets nv) asset_id = Inr (Some meta) \<and>
    outputs \<noteq> [] \<and> (\<forall>out \<in> set outputs. o_asset_id out = Some asset_id) \<and>
    sig_valid X (custodial_mint_signing_message X network_id asset_id outputs mint_nonce) pk sig \<and>
    unlock_matches_address X pk (tm_mint_authority meta) \<and>
    \<not> nv_custodial_stored nv (custodial_mint_consumed_key asset_id mint_nonce) \<and>
    custodial_mint_consumed_key asset_id mint_nonce \<notin> cd_custodial_mints (nv_dag nv) \<and>
    (\<forall>out \<in> set outputs. o_address out \<notin> co_frozen_set (nv_compliance nv)) \<and>
    (\<forall>t. tm_max_supply meta = Some t \<longrightarrow> (\<exists>mx. d_from_str D t = Some mx \<and>
       v (mv_supply mv asset_id) + asset_total (nominal_val D v) (Some asset_id) outputs \<le> v mx))"
proof -
  obtain meta minted where meta: "resolve_asset_metadata_strict F (nv_assets nv) asset_id = Inr (Some meta)"
    and shape: "outputs \<noteq> []" "\<forall>out \<in> set outputs. o_asset_id out = Some asset_id"
    and signed: "custodial_signature X network_id asset_id outputs pk sig mint_nonce meta = Inr ()"
    and fresh: "custodial_fresh F nv asset_id mint_nonce = Inr ()"
    and frozen: "try_each (recipient_not_frozen F (nv_compliance nv)) outputs = Inr ()"
    and minted: "minted_amounts_by_custom_asset D outputs = Inr minted"
    and limits: "custodial_cap D mv (now_u64 now_ms) asset_id meta outputs minted = Inr ()"
    using arm by (auto simp: custodial_mint_arm_def custodial_asset_def split: sum.splits option.splits)
  have sig: "sig_valid X (custodial_mint_signing_message X network_id asset_id outputs mint_nonce) pk sig"
    "unlock_matches_address X pk (tm_mint_authority meta)"
    using signed by (auto simp: custodial_signature_def verify_detached_signature_def is_ok_def verify_single_ok split: sum.splits)
  have nonce: "\<not> nv_custodial_stored nv (custodial_mint_consumed_key asset_id mint_nonce)"
    "custodial_mint_consumed_key asset_id mint_nonce \<notin> cd_custodial_mints (nv_dag nv)"
    using fresh by (auto simp: custodial_fresh_def Let_def split: sum.splits)
  have thawed: "\<forall>out \<in> set outputs. o_address out \<notin> co_frozen_set (nv_compliance nv)"
    using frozen by (auto simp: try_each_eq_Inr recipient_not_frozen_def is_frozen_def split: sum.splits)
  have cap: "\<exists>mx. d_from_str D t = Some mx \<and>
      v (mv_supply mv asset_id) + asset_total (nominal_val D v) (Some asset_id) outputs \<le> v mx" if t: "tm_max_supply meta = Some t" for t
  proof -
    obtain circulating locked where ok: "validate_custom_asset_mint_amounts D outputs minted
        (found_metadata [(asset_id, Some meta, circulating, locked)]) (found_supply [(asset_id, Some meta, circulating, locked)])
        (found_collateral [(asset_id, Some meta, circulating, locked)]) = Inr ()"
      and c: "circulating = Some (mv_supply mv asset_id)"
      using custodial_cap_limits [OF limits] t by blast
    obtain e where e: "map_of minted asset_id = Some e" "v e = asset_total (nominal_val D v) (Some asset_id) outputs"
      using minted_amounts_exact [OF L minted tame] shape
      by (cases "map_of minted asset_id") (auto simp: minted_ok_def neq_Nil_conv dest!: spec [of _ asset_id])
    have capped: "check_supply_cap D asset_id meta (mv_supply mv asset_id) e = Inr ()"
      using ok c map_of_SomeD [OF e(1)]
      by (fastforce simp: validate_custom_asset_mint_amounts_def try_each_eq_Inr found_metadata_def found_supply_def amount_at_def)
    have nn: "\<And>x. x \<in> set outputs \<Longrightarrow> 0 \<le> nominal_val D v x" using tame(1) by blast
    have "at_scale 8 (v e)" unfolding e(2) asset_total_def
      by (rule at_scale_sum_list) (use tame(1) in \<open>simp add: tame_amount_def\<close>)
    moreover have "0 \<le> v e" unfolding e(2) by (rule asset_total_nonneg [OF nn])
    moreover have "v e \<le> 10 ^ 12" unfolding e(2) by (rule order_trans [OF asset_total_le [OF nn] tame(2)])
    ultimately have "dec_repr (v (mv_supply mv asset_id) + v e)"
      using cur by (intro small_repr at_scale_add) (simp_all add: abs_of_nonneg)
    from supply_cap_sound [OF L capped t this] show ?thesis unfolding e(2) .
  qed
  show ?thesis using meta shape sig nonce thawed cap by blast
qed

definition gold :: token_metadata where
  "gold = sample_meta\<lparr>tm_mint_authority := sample_key, tm_collateral_address := None\<rparr>"

definition gold_view :: node_view where
  "gold_view = \<lparr>nv_get = (\<lambda>_. Inr None),
     nv_assets = \<lparr>as_tokens = (\<lambda>a. if a = ''GLD'' then Some gold else None), as_classes = (\<lambda>_. None), as_collections = (\<lambda>_. None)\<rparr>,
     nv_compliance = \<lparr>co_frozen = (\<lambda>_. None), co_frozen_set = {}, co_log = (\<lambda>_. None)\<rparr>, nv_dag = conc_dag_new 0 0,
     nv_bridge_stored = (\<lambda>_. False), nv_custodial_stored = (\<lambda>_. False), nv_resolver = None\<rparr>"

definition gold_outputs :: "tx_output list" where
  "gold_outputs = [txoutput_new ''bob'' ''2'' (Some ''GLD'')]"

definition gold_signature :: string where
  "gold_signature = sample_key_bytes @ custodial_mint_signing_message ref_ext ''net'' ''GLD'' gold_outputs ''n1''"

lemma gold_signed:
  "sig_valid ref_ext (custodial_mint_signing_message ref_ext ''net'' ''GLD'' gold_outputs ''n1'') sample_key gold_signature"
proof -
  have "x_sec1_key ref_ext sample_key_bytes = Some sample_key_bytes" "x_b64_decode ref_ext = Some" "x_der_sig ref_ext = Some"
    "x_ecdsa_verify ref_ext = (\<lambda>k m s. s = k @ m)"
    by (simp_all add: ref_ext_def sample_key_length)
  then show ?thesis by (simp add: sig_valid_def sample_key_decodes gold_signature_def)
qed

lemma gold_minted:
  "custodial_mint_arm no_faults ref_dec ref_ext ''net'' gold_view \<lparr>mv_supply = (\<lambda>_. (3, 0)), mv_at_address = (\<lambda>_. [])\<rparr> 5 ''GLD'' gold_outputs
     sample_key gold_signature ''n1'' = Inr ()"
proof -
  let ?mv = "\<lparr>mv_supply = (\<lambda>_. (3, 0)), mv_at_address = (\<lambda>_. [])\<rparr> :: rdec mint_view"
  have outs: "o_asset_id (txoutput_new ''bob'' ''2'' (Some ''GLD'')) = Some ''GLD''" "o_address (txoutput_new ''bob'' ''2'' (Some ''GLD'')) = ''bob''"
    by (simp_all add: txoutput_new_def)
  have shape: "gold_outputs \<noteq> []" "\<not> (\<exists>out \<in> set gold_outputs. o_asset_id out \<noteq> Some ''GLD'')"
    by (simp_all add: gold_outputs_def outs)
  have cond: "validate_output_conditions ref_ext gold_outputs = Inr ()" by code_simp
  have asset: "custodial_asset no_faults (nv_assets gold_view) ''GLD'' = Inr gold"
    by (simp add: custodial_asset_def gold_view_def resolve_asset_metadata_strict_def get_token_def io_def no_faults_def)
  have owner: "unlock_matches_address ref_ext sample_key (tm_mint_authority gold)" unfolding gold_def by code_simp
  have "verify_detached_signature ref_ext (custodial_mint_signing_message ref_ext ''net'' ''GLD'' gold_outputs ''n1'') sample_key gold_signature = Inr ()"
    unfolding verify_detached_signature_def verify_single_ok by (rule gold_signed)
  then have sig: "custodial_signature ref_ext ''net'' ''GLD'' gold_outputs sample_key gold_signature ''n1'' gold = Inr ()"
    using owner by (simp add: custodial_signature_def reject_if_def)
  have fresh: "custodial_fresh no_faults gold_view ''GLD'' ''n1'' = Inr ()"
    by (simp add: custodial_fresh_def gold_view_def io_def no_faults_def reject_if_def conc_dag_new_def)
  have frozen: "try_each (recipient_not_frozen no_faults (nv_compliance gold_view)) gold_outputs = Inr ()"
    by (simp add: try_each_eq_Inr recipient_not_frozen_def is_frozen_def gold_view_def io_def no_faults_def reject_if_def)
  have minted: "minted_amounts_by_custom_asset ref_dec gold_outputs = Inr [(''GLD'', (2, 0))]" by code_simp
  let ?found = "[(''GLD'', Some gold, Some (3, 0), None)] :: (string \<times> token_metadata option \<times> rdec option \<times> rdec option) list"
  have "validate_custom_asset_mint_amounts ref_dec gold_outputs [(''GLD'', (2, 0))]
      (found_metadata ?found) (found_supply ?found) (found_collateral ?found) = Inr ()"
    unfolding gold_def by code_simp
  moreover have "asset_limits ref_dec ?mv (now_u64 5) ''GLD'' (Some gold) = Inr (Some (3, 0), None)"
    by (simp add: asset_limits_def gold_def sample_meta_def)
  ultimately have cap: "custodial_cap ref_dec ?mv (now_u64 5) ''GLD'' gold gold_outputs [(''GLD'', (2, 0))] = Inr ()"
    by (simp add: custodial_cap_def Let_def)
  show ?thesis
    by (simp add: custodial_mint_arm_def shape reject_if_def cond asset sig fresh frozen minted cap del: not_Cons_self)
qed

theorem custodial_mint_authorised_witness:
  "sig_valid ref_ext (custodial_mint_signing_message ref_ext ''net'' ''GLD'' gold_outputs ''n1'') sample_key gold_signature \<and>
   (\<exists>mx. d_from_str ref_dec ''5'' = Some mx \<and> 5 \<le> ref_val mx)"
proof -
  let ?mv = "\<lparr>mv_supply = (\<lambda>_. (3, 0)), mv_at_address = (\<lambda>_. [])\<rparr> :: rdec mint_view"
  have three: "ref_val (mv_supply ?mv ''GLD'') = 3" by (simp add: ref_val_def)
  have tame: "\<forall>out \<in> set gold_outputs. tame_amount ref_dec ref_val out \<and> 0 \<le> nominal_val ref_dec ref_val out"
    "sum_list (map (nominal_val ref_dec ref_val) gold_outputs) \<le> 10 ^ 12"
    by (simp_all add: gold_outputs_def tame_amount_def sample_values at_scale_numeral)
  have cur: "at_scale 8 (ref_val (mv_supply ?mv ''GLD''))" "0 \<le> ref_val (mv_supply ?mv ''GLD'')" "ref_val (mv_supply ?mv ''GLD'') \<le> 10 ^ 12"
    unfolding three by (simp_all add: at_scale_numeral)
  have reg: "resolve_asset_metadata_strict no_faults (nv_assets gold_view) ''GLD'' = Inr (Some m) \<Longrightarrow> tm_max_supply m = Some ''5''" for m
    by (auto simp: gold_view_def resolve_asset_metadata_strict_def get_token_def io_def no_faults_def gold_def sample_meta_def)
  have all: "asset_total (nominal_val ref_dec ref_val) (Some ''GLD'') gold_outputs = 2"
    by (simp add: gold_outputs_def asset_total_def sample_values)
  show ?thesis
    using custodial_mint_authorised [OF ref_dec_laws gold_minted tame cur] reg unfolding three all by fastforce
qed

subsection \<open>A rotated key and the mint\<close>

text \<open>
  The arm is said to follow the current key of the rotations, so that a rotation transfers the right to mint at once. The first
  rule it applies compares the signer with the keys of the settings file: after a rotation the new key cannot mint.
\<close>

lemma rotated_key_cannot_mint:
  assumes "ns_mode settings \<noteq> Dev" "\<forall>pk \<in> set (ns_signer_pubkeys settings). \<not> eq_ignore_case pk (trim (w_signer_pk_hex wb))"
  shows "\<exists>reason. mint_arm F D X test_pk settings p st mv now_ms outputs wb = Inl (Reject reason)"
proof -
  have "\<exists>e. validate_mint_policy D test_pk outputs wb settings = Inl (UnauthorizedMint (w_id wb) e)"
    using assms by (auto simp: validate_mint_policy_def Let_def split: option.splits)
  then show ?thesis by (auto simp: mint_arm_def guard_def)
qed

end
