(* ===== verification/Persist.thy ===== *)
theory Persist
  imports MintArms Nft Assets Compliance LegacyDag HotSteps
begin

section \<open>The persistence of a block, from the wire to the queue\<close>

text \<open>
  The whole of \<open>do_persist_block_internal\<close>: the gate of the wire, the arms that write the registries, the gates over unspent
  outputs, the pool of fees, the commit, the finality, the rewards and the queue of the background writer. The node is one
  record; what does not change during a call (libraries, settings, answers of the store about earlier blocks) is a
  \<open>persist_env\<close>. The clock is read at the start of the call (\<open>ck_signers\<close>) and again by the arms (\<open>ck_arm\<close>). Metrics and
  events are left out. A panic ends the call: the state it leaves is not described.
\<close>

record ('c, 'd) persist_env =
  pe_D :: "'d dec_lib"
  pe_de :: "string \<Rightarrow> string"
  pe_X :: ext_lib
  pe_W :: wire_lib
  pe_R :: "('c, 'd) lru_lib"
  pe_setup :: "'d node_setup"
  pe_test_pk :: "string option"
  pe_stored :: "string \<Rightarrow> bool"
  pe_bridge_stored :: "string \<Rightarrow> bool"
  pe_custodial_stored :: "string \<Rightarrow> bool"
  pe_resolver :: "(bridge_resolver \<times> string) option"
  pe_in_order :: "(output_id \<times> tx_output) set \<Rightarrow> (output_id \<times> tx_output) list"
  pe_fmt8 :: "'d \<Rightarrow> string"
  pe_to_u64 :: "'d \<Rightarrow> u64 option"

record clock =
  ck_signers :: i64
  ck_arm :: u64

record persist_job =
  pj_block :: stored_block
  pj_delta :: "utxo_delta option"
  pj_newly_finalized :: "string list"
  pj_parent_counts :: "(string \<times> u64) list"

text \<open>\<open>fn_queue\<close> is the channel to the background writer, \<open>None\<close> when its task has ended.\<close>

record ('c, 'd) full_node =
  fn_core :: "('c, 'd) node"
  fn_gov :: gov_store
  fn_assets :: asset_store
  fn_compliance :: compliance_store
  fn_keys :: key_node
  fn_nfts :: nft_cfs
  fn_rewards :: rewards_store
  fn_queue :: "persist_job list option"

type_synonym ('c, 'd) outcome = "panic + (string + put_result) \<times> ('c, 'd) full_node"

definition stopped :: "stop \<Rightarrow> ('c, 'd) full_node \<Rightarrow> ('c, 'd) outcome" where
  "stopped s n = (case s of
     Reject reason \<Rightarrow> Inr (Inr (Rejected reason), n)
   | Fail e \<Rightarrow> Inr (Inl e, n)
   | Crash text \<Rightarrow> Inl (Panic text))"

definition view_of :: "('c, 'd) persist_env \<Rightarrow> ('c, 'd) full_node \<Rightarrow> node_view" where
  "view_of E n =
     \<lparr>nv_get = utxo_get (pe_D E) (pe_R E) (nd_utxos (fn_core n)), nv_assets = fn_assets n, nv_compliance = fn_compliance n,
      nv_dag = nd_dag (fn_core n), nv_bridge_stored = pe_bridge_stored E, nv_custodial_stored = pe_custodial_stored E,
      nv_resolver = pe_resolver E\<rparr>"

definition mint_view_of :: "('c, 'd) persist_env \<Rightarrow> ('c, 'd) full_node \<Rightarrow> 'd mint_view" where
  "mint_view_of E n =
     \<lparr>mv_supply = (\<lambda>a. fst (circulating_supply_by_asset (pe_D E) (nd_utxos (fn_core n)) (Some a))),
      mv_at_address = (\<lambda>a. pe_in_order E (utxos_by_address (pe_D E) (pe_R E) (nd_utxos (fn_core n)) a))\<rparr>"

definition non_empty :: "string \<Rightarrow> string option" where
  "non_empty s = (if s = [] then None else Some s)"

definition block_of_wire :: "payload_envelope option \<Rightarrow> wire_block \<Rightarrow> block" where
  "block_of_wire payload wb =
     \<lparr>b_id = w_id wb, b_parents = w_parents wb, b_payload = payload, b_nonce = w_nonce wb,
      b_signer_pk = non_empty (w_signer_pk_hex wb), b_signature = non_empty (w_signature_hex wb), b_metadata = None\<rparr>"

definition stored_of_wire :: "wire_block \<Rightarrow> stored_block" where
  "stored_of_wire wb =
     \<lparr>sb_id = w_id wb, sb_parents = w_parents wb, sb_payload_json = w_payload_json wb, sb_nonce = w_nonce wb,
      sb_network_id = w_network_id wb, sb_protocol_version = w_protocol_version wb,
      sb_signer_pk_hex = w_signer_pk_hex wb, sb_signature_hex = w_signature_hex wb, sb_metadata = w_metadata wb\<rparr>"

subsection \<open>The arms that write the registries\<close>

definition on_gov :: "unit gate \<times> gov_store \<Rightarrow> ('c, 'd) full_node \<Rightarrow> unit gate \<times> ('c, 'd) full_node" where
  "on_gov r n = (fst r, n\<lparr>fn_gov := snd r\<rparr>)"

definition on_compliance :: "unit gate \<times> compliance_store \<Rightarrow> ('c, 'd) full_node \<Rightarrow> unit gate \<times> ('c, 'd) full_node" where
  "on_compliance r n = (fst r, n\<lparr>fn_compliance := snd r\<rparr>)"

fun arm ::
  "faults \<Rightarrow> ('c, 'd) persist_env \<Rightarrow> clock \<Rightarrow> 'd policy \<Rightarrow> wire_block \<Rightarrow> plain_payload \<Rightarrow> ('c, 'd) full_node
   \<Rightarrow> unit gate \<times> ('c, 'd) full_node" where
  "arm F E ck p wb (Mint outputs) n =
     (mint_arm F (pe_D E) (pe_X E) (pe_test_pk E) (su_settings (pe_setup E)) p (fn_assets n) (mint_view_of E n) (ck_signers ck)
        outputs wb, n)"
| "arm F E ck p wb (CustodialMint asset_id outputs pk sig nonce) n =
     (custodial_mint_arm F (pe_D E) (pe_X E) (wm_network_id (su_meta (pe_setup E))) (view_of E n) (mint_view_of E n)
        (ck_signers ck) asset_id outputs pk sig nonce, n)"
| "arm F E ck p wb (NftPayload action) n =
     (let (r, s) = nft_arm (rocks_nft F) action (w_signer_pk_hex wb) (p_coordinator_public_key p) (w_id wb) (fn_nfts n)
      in (r, n\<lparr>fn_nfts := s\<rparr>))"
| "arm F E ck p wb (ConfigUpdatePayload u) n =
     on_gov (config_update_arm F (pe_D E) (pe_de E) (w_id wb) (sint (ck_arm ck)) u (fn_gov n)) n"
| "arm F E ck p wb (GovernanceProposal i u tier reason announced enact_after) n =
     on_gov (proposal_arm F (w_id wb) i u tier reason announced enact_after (fn_gov n)) n"
| "arm F E ck p wb (GovernanceEnact i _) n = on_gov (enact_arm F (pe_D E) (pe_de E) (w_id wb) (ck_arm ck) i (fn_gov n)) n"
| "arm F E ck p wb (GovernanceCancel i _) n = on_gov (cancel_arm F (w_id wb) i (fn_gov n)) n"
| "arm F E ck p wb (SftClassCreate c) n =
     (let (r, st, d) = sft_arm F (pe_D E) c (fn_assets n, nd_dag (fn_core n))
      in (r, n\<lparr>fn_assets := st, fn_core := (fn_core n)\<lparr>nd_dag := d\<rparr>\<rparr>))"
| "arm F E ck p wb (RoyaltyUpdate asset_id bps beneficiary pk sig) n =
     (let (r, st) = royalty_arm F (pe_D E) (pe_de E) (pe_X E) (wm_network_id (su_meta (pe_setup E))) asset_id bps beneficiary pk sig
            (fn_assets n)
      in (r, n\<lparr>fn_assets := st\<rparr>))"
| "arm F E ck p wb (Freeze address reason) n =
     on_compliance (freeze_arm F (uint (ck_arm ck)) (w_id wb) address reason (fn_compliance n)) n"
| "arm F E ck p wb (Unfreeze address reason _) n =
     on_compliance (unfreeze_arm F (uint (ck_arm ck)) (w_id wb) address reason (fn_compliance n)) n"
| "arm F E ck p wb (Seize from_address _ _ reason) n =
     on_compliance (seize_arm F (uint (ck_arm ck)) (w_id wb) from_address reason (fn_compliance n)) n"
| "arm F E ck p wb (Reverse original _ _ reason) n =
     on_compliance (reverse_arm F (uint (ck_arm ck)) (w_id wb) original reason (fn_compliance n)) n"
| "arm F E ck p wb (CoordinatorKeyRotate old_pk new_pk grace) n =
     (let (r, k) = rotation_arm F (ck_signers ck) (w_id wb) (w_signer_pk_hex wb) old_pk new_pk grace (fn_keys n)
      in (r, n\<lparr>fn_keys := k\<rparr>))"
| "arm F E ck p wb _ n = (Inr (), n)"

definition payload_arms ::
  "faults \<Rightarrow> ('c, 'd) persist_env \<Rightarrow> clock \<Rightarrow> 'd policy \<Rightarrow> wire_block \<Rightarrow> payload_envelope option \<Rightarrow> ('c, 'd) full_node
   \<Rightarrow> unit gate \<times> ('c, 'd) full_node" where
  "payload_arms F E ck p wb payload n =
     (case payload of
        Some (Plain pp) \<Rightarrow>
          (case arm F E ck p wb pp n of
             (Inl s, n') \<Rightarrow> (Inl s, n')
           | (Inr _, n') \<Rightarrow>
               (utxo_gate F (pe_D E) (pe_de E) (pe_X E) (view_of E n') p (now_u64 (ck_signers ck)) pp, n'))
      | _ \<Rightarrow> (Inr (), n))"

subsection \<open>The commit and what follows it\<close>

definition fee_stage ::
  "faults \<Rightarrow> ('c, 'd) persist_env \<Rightarrow> utxo_delta option \<Rightarrow> payload_envelope option \<Rightarrow> ('c, 'd) full_node
   \<Rightarrow> panic + ('c, 'd) full_node" where
  "fee_stage F E external payload n =
     (case (external, payload) of
        (None, Some (Plain (TxUtxo tx))) \<Rightarrow>
          rbind (accumulate_fee F (pe_D E) (pe_to_u64 E) (io F GetConfig (rc_treasury_fee_bps (gs_config (fn_gov n)))) (tx_fee tx) (fn_rewards n))
            (\<lambda>st. Inr (n\<lparr>fn_rewards := st\<rparr>))
      | (None, Some (Plain (MarketSettle tx _ _ _ _ _ _))) \<Rightarrow>
          rbind (accumulate_fee F (pe_D E) (pe_to_u64 E) (io F GetConfig (rc_treasury_fee_bps (gs_config (fn_gov n)))) (tx_fee tx) (fn_rewards n))
            (\<lambda>st. Inr (n\<lparr>fn_rewards := st\<rparr>))
      | _ \<Rightarrow> Inr n)"

definition crash_of :: "'a gate \<Rightarrow> panic + 'a" where
  "crash_of r = (case r of Inr x \<Rightarrow> Inr x | Inl (Crash s) \<Rightarrow> Inl (Panic s) | Inl (Reject s) \<Rightarrow> Inl (Panic s) | Inl (Fail s) \<Rightarrow> Inl (Panic s))"

definition milestone_stage ::
  "faults \<Rightarrow> ('c, 'd) persist_env \<Rightarrow> string \<Rightarrow> payload_envelope option \<Rightarrow> conc_dag \<Rightarrow> rewards_store
   \<Rightarrow> panic + (node_reward list \<times> rewards_store) \<times> conc_dag \<times> string list" where
  "milestone_stage F E block_id payload d st =
     (case payload of
        Some (Plain (Milestone _ distribute)) \<Rightarrow>
          rbind (if distribute then crash_of (distribute_rewards F (pe_D E) (pe_fmt8 E) block_id st) else Inr ([], st)) (\<lambda>r.
          Inr (r, finalize_milestone block_id d))
      | _ \<Rightarrow> Inr (([], st), d, []))"

definition after_commit ::
  "faults \<Rightarrow> ('c, 'd) persist_env \<Rightarrow> wire_block \<Rightarrow> payload_envelope option \<Rightarrow> utxo_delta option \<Rightarrow> ('c, 'd) full_node \<Rightarrow> ('c, 'd) outcome" where
  "after_commit F E wb payload delta n =
     (let b = block_of_wire payload wb;
          d0 = snd (insert_block b (nd_dag (fn_core n)));
          counts = map (\<lambda>q. (q, get_children_count d0 q)) (w_parents wb)
      in rbind (milestone_stage F E (w_id wb) payload d0 (fn_rewards n)) (\<lambda>((rewards, st), d1, new1).
         let (d2, new2) = finalize_depth (w_id wb) d1 in
         rbind (try_fold (\<lambda>s r. utxo_add (pe_D E) (pe_R E) s (nr_out r) (nr_output r)) (nd_utxos (fn_core n)) rewards) (\<lambda>utxos.
         let n' = n\<lparr>fn_core := (fn_core n)\<lparr>nd_dag := d2, nd_utxos := utxos\<rparr>, fn_rewards := st\<rparr>;
             job = \<lparr>pj_block = stored_of_wire wb, pj_delta = delta, pj_newly_finalized = new1 @ new2, pj_parent_counts = counts\<rparr>
         in case fn_queue n' of
              None \<Rightarrow> Inr (Inl ''persist pipeline down: background task is not running'', n')
            | Some q \<Rightarrow>
                let st' = (if trim (w_signer_pk_hex wb) \<noteq> [] then snd (increment_node_block_count F (w_signer_pk_hex wb) st) else st)
                in Inr (Inr Inserted, n'\<lparr>fn_queue := Some (q @ [job]), fn_rewards := st'\<rparr>))))"

definition commit_stage ::
  "faults \<Rightarrow> ('c, 'd) persist_env \<Rightarrow> clock \<Rightarrow> wire_block \<Rightarrow> utxo_delta option \<Rightarrow> payload_envelope option \<Rightarrow> ('c, 'd) full_node
   \<Rightarrow> ('c, 'd) outcome" where
  "commit_stage F E ck wb external payload n =
     (let b = block_of_wire payload wb; now = now_u64 (ck_signers ck) in
      if contains_block (nd_dag (fn_core n)) (w_id wb) then Inr (Inr AlreadyExists, n)
      else
        rbind (commit_apply (pe_D E) (pe_R E) now external b (fn_core n)) (\<lambda>(rejected, core).
        case rejected of
          Some r \<Rightarrow> Inr (Inr r, n\<lparr>fn_core := core\<rparr>)
        | None \<Rightarrow> after_commit F E wb payload (payload_delta now external b) (n\<lparr>fn_core := core\<rparr>)))"

definition persist_block ::
  "faults \<Rightarrow> ('c, 'd) persist_env \<Rightarrow> clock \<Rightarrow> wire_block \<Rightarrow> utxo_delta option \<Rightarrow> ('c, 'd) full_node \<Rightarrow> ('c, 'd) outcome" where
  "persist_block F E ck wb external n =
     (case wire_gate F (pe_D E) (pe_X E) (pe_W E) (pe_setup E) (fn_gov n) (kn_state (fn_keys n)) (nd_dag (fn_core n)) (pe_stored E)
             (ck_signers ck) wb of
        Inl s \<Rightarrow> stopped s n
      | Inr None \<Rightarrow> Inr (Inr AlreadyExists, n)
      | Inr (Some (payload, p)) \<Rightarrow>
          (case payload_arms F E ck p wb payload n of
             (Inl s, n') \<Rightarrow> stopped s n'
           | (Inr _, n') \<Rightarrow>
               rbind (fee_stage F E external payload n') (commit_stage F E ck wb external payload)))"

subsection \<open>What the registers of the node are\<close>

text \<open>
  \<open>registers\<close> is what other blocks and the clients read: the configuration and the proposals, the keys, the tokens, the
  registered assets, the frozen addresses, the unspent outputs and the blocks.
\<close>

definition registers where
  "registers n = (fn_gov n, fn_keys n, fn_nfts n, as_tokens (fn_assets n), as_classes (fn_assets n), co_frozen_set (fn_compliance n),
     nd_utxos (fn_core n), cd_blocks (nd_dag (fn_core n)))"

fun writes_registry :: "plain_payload \<Rightarrow> bool" where
  "writes_registry (NftPayload _) = True"
| "writes_registry (ConfigUpdatePayload _) = True"
| "writes_registry (GovernanceProposal _ _ _ _ _ _) = True"
| "writes_registry (GovernanceEnact _ _) = True"
| "writes_registry (GovernanceCancel _ _) = True"
| "writes_registry (SftClassCreate _) = True"
| "writes_registry (RoyaltyUpdate _ _ _ _ _) = True"
| "writes_registry (Freeze _ _) = True"
| "writes_registry (Unfreeze _ _ _) = True"
| "writes_registry (CoordinatorKeyRotate _ _ _) = True"
| "writes_registry _ = False"

lemma arm_other:
  "\<not> writes_registry pp \<Longrightarrow> registers (snd (arm F E ck p wb pp n)) = registers n"
  by (cases pp) (auto simp: registers_def on_compliance_def seize_arm_def reverse_arm_def log_compliance_action_def split: option.splits)

lemma gov_refused:
  assumes "F = no_faults"
  shows "config_update_arm F D de b t u st = (Inl s, st') \<Longrightarrow> st' = st"
    "proposal_arm F b i u tier reason a e st = (Inl s, st') \<Longrightarrow> st' = st"
    "enact_arm F D de b now i st = (Inl s, st') \<Longrightarrow> st' = st"
    "cancel_arm F b i st = (Inl s, st') \<Longrightarrow> st' = st"
  using assms
  by (auto simp: config_update_arm_def apply_config_update_def proposal_arm_def enact_arm_def cancel_arm_def pending_proposal_def
      set_governance_status_def put_proposal_def get_proposal_def io_def no_faults_def Let_def
      split: option.splits sum.splits if_splits prod.splits)

lemma sft_refused:
  assumes "sft_arm no_faults D c (st, d) = (r, st', d')"
  shows "r = Inl s \<Longrightarrow> as_tokens st' = as_tokens st \<and> as_classes st' = as_classes st"
    "cd_blocks d' = cd_blocks d" "cd_max_blocks d' = cd_max_blocks d"
  using assms
  by (auto simp: sft_arm_def claim_collection_def get_collection_owner_def put_collection_owner_def get_sft_class_def put_sft_class_def
      try_claim_collection_def io_def no_faults_def Let_def split: option.splits sum.splits if_splits prod.splits)

lemma royalty_refused:
  assumes "royalty_arm no_faults D de X net a bps w pk sig st = (Inl s, st')"
  shows "as_tokens st' = as_tokens st \<and> as_classes st' = as_classes st"
  using assms
  by (auto simp: royalty_arm_def write_royalty_def put_token_def put_sft_class_def get_token_def get_sft_class_def io_def no_faults_def
      split: option.splits sum.splits if_splits prod.splits)

lemma freeze_refused:
  "freeze_arm no_faults t b a reason co = (Inl s, co') \<Longrightarrow> co' = co"
  "unfreeze_arm no_faults t b a reason co = (Inl s, co') \<Longrightarrow> co' = co"
  by (auto simp: freeze_arm_def unfreeze_arm_def freeze_address_def unfreeze_address_def log_compliance_action_def no_faults_def
      split: if_splits prod.splits sum.splits)

lemma rotation_arm_refused: "rotation_arm no_faults t b signer old_pk new_pk g nd = (Inl s, nd') \<Longrightarrow> nd' = nd"
  by (auto simp: rotation_arm_def record_key_rotation_def no_faults_def Let_def split: sum.splits if_splits)

lemma arm_refused:
  assumes "arm no_faults E ck p wb pp n = (Inl s, n')" and "nft_index_ok (fn_nfts n)"
  shows "registers n' = registers n"
proof (cases "writes_registry pp")
  case False
  then show ?thesis using arm_other [of pp no_faults E ck p wb n] assms(1) by simp
next
  case True
  then show ?thesis
  proof (cases pp)
    case (NftPayload action)
    obtain r s' where r: "nft_arm (rocks_nft no_faults) action (w_signer_pk_hex wb) (p_coordinator_public_key p) (w_id wb) (fn_nfts n) = (r, s')"
      by fastforce
    then have "r \<noteq> Inr () \<Longrightarrow> s' = fn_nfts n"
      using rocks_store.arm_implements_ledger [OF assms(2), of action "w_signer_pk_hex wb" "p_coordinator_public_key p" "w_id wb"]
      by (auto split: if_splits)
    then show ?thesis using assms(1) r NftPayload by (auto simp: registers_def)
  next
    case (SftClassCreate c)
    obtain r st d where r: "sft_arm no_faults (pe_D E) c (fn_assets n, nd_dag (fn_core n)) = (r, st, d)" by (rule prod_cases3)
    show ?thesis using assms(1) r sft_refused [OF r] SftClassCreate by (auto simp: registers_def)
  next
    case (RoyaltyUpdate a bps w pk sig)
    obtain r st where r: "royalty_arm no_faults (pe_D E) (pe_de E) (pe_X E) (wm_network_id (su_meta (pe_setup E))) a bps w pk sig (fn_assets n) = (r, st)"
      by fastforce
    show ?thesis using assms(1) r royalty_refused [of "pe_D E" "pe_de E" "pe_X E" "wm_network_id (su_meta (pe_setup E))" a bps w pk sig "fn_assets n" s st]
        RoyaltyUpdate by (auto simp: registers_def)
  next
    case (CoordinatorKeyRotate old_pk new_pk g)
    obtain r k where r: "rotation_arm no_faults (ck_signers ck) (w_id wb) (w_signer_pk_hex wb) old_pk new_pk g (fn_keys n) = (r, k)"
      by fastforce
    show ?thesis using assms(1) r rotation_arm_refused [of "ck_signers ck" "w_id wb" "w_signer_pk_hex wb" old_pk new_pk g "fn_keys n" s k]
        CoordinatorKeyRotate by (auto simp: registers_def)
  next
    case (Freeze a reason)
    then show ?thesis using assms(1)
      by (cases "freeze_arm no_faults (uint (ck_arm ck)) (w_id wb) a reason (fn_compliance n)")
        (auto simp: registers_def on_compliance_def dest: freeze_refused)
  next
    case (Unfreeze a reason u)
    then show ?thesis using assms(1)
      by (cases "unfreeze_arm no_faults (uint (ck_arm ck)) (w_id wb) a reason (fn_compliance n)")
        (auto simp: registers_def on_compliance_def dest: freeze_refused)
  next
    case (ConfigUpdatePayload u)
    then show ?thesis using assms(1)
      by (cases "config_update_arm no_faults (pe_D E) (pe_de E) (w_id wb) (sint (ck_arm ck)) u (fn_gov n)")
        (auto simp: registers_def on_gov_def dest: gov_refused [OF refl])
  next
    case (GovernanceProposal i u tier reason a e)
    then show ?thesis using assms(1)
      by (cases "proposal_arm no_faults (w_id wb) i u tier reason a e (fn_gov n)")
        (auto simp: registers_def on_gov_def dest: gov_refused [OF refl])
  next
    case (GovernanceEnact i r)
    then show ?thesis using assms(1)
      by (cases "enact_arm no_faults (pe_D E) (pe_de E) (w_id wb) (ck_arm ck) i (fn_gov n)")
        (auto simp: registers_def on_gov_def dest: gov_refused [OF refl])
  next
    case (GovernanceCancel i r)
    then show ?thesis using assms(1)
      by (cases "cancel_arm no_faults (w_id wb) i (fn_gov n)")
        (auto simp: registers_def on_gov_def dest: gov_refused [OF refl])
  qed simp_all
qed

text \<open>A payload that writes a registry passes the rest of the pipeline: nothing after its arm can refuse it.\<close>

lemma registry_payload_continues:
  assumes "writes_registry pp"
  shows "utxo_gate F D de X nv p now pp = Inr ()" "plain_delta now block_id pp = None"
  using assms by (cases pp; simp)+

definition block_map :: "conc_dag \<Rightarrow> (string \<times> block) list \<times> nat" where
  "block_map d = (cd_blocks d, cd_max_blocks d)"

lemma arm_blocks: "block_map (nd_dag (fn_core (snd (arm no_faults E ck p wb pp n)))) = block_map (nd_dag (fn_core n))"
proof (cases pp)
  case (SftClassCreate c)
  obtain r st d where r: "sft_arm no_faults (pe_D E) c (fn_assets n, nd_dag (fn_core n)) = (r, st, d)" by (rule prod_cases3)
  show ?thesis using r sft_refused(2,3) [OF r] SftClassCreate by (simp add: block_map_def)
qed (auto simp: on_gov_def on_compliance_def split: prod.splits)

lemma registry_commit:
  assumes "b_payload b = Some (Plain pp)" "writes_registry pp"
  shows "commit_apply D R now None b c = Inr (None, c)"
proof -
  have "claim_replay b (nd_dag c) = (None, nd_dag c)" using assms by (cases pp) (simp_all add: claim_replay_def)
  moreover have "payload_delta now None b = None" using assms registry_payload_continues(2) by (simp add: payload_delta_def)
  ultimately show ?thesis by (simp add: commit_apply_def)
qed

lemma claim_replay_blocks: "block_map (snd (claim_replay b d)) = block_map d"
  by (auto simp: claim_replay_def try_consume_bridge_lock_def try_consume_custodial_mint_def Let_def block_map_def
      split: option.splits payload_envelope.splits plain_payload.splits)

lemma unmark_blocks: "block_map (fold unmark_spent ops d) = block_map d"
  by (induction ops arbitrary: d) (simp_all add: unmark_spent_def block_map_def)

lemma claim_spends_blocks: "block_map (snd (claim_spends sps claimed d)) = block_map d"
proof (induction sps arbitrary: claimed d)
  case (Cons sp sps)
  have "block_map (snd (try_mark_spent sp d)) = block_map d"
    by (auto simp: try_mark_spent_def Let_def block_map_def split: prod.split)
  then show ?case using Cons.IH by (simp add: claim_spends_split unmark_blocks)
qed simp

lemma commit_apply_keeps:
  assumes "commit_apply D R now external b c = Inr (rejected, c')"
  shows "block_map (nd_dag c') = block_map (nd_dag c)" "rejected \<noteq> None \<Longrightarrow> nd_utxos c' = nd_utxos c"
  using assms claim_replay_blocks [of b "nd_dag c"] claim_spends_blocks
  by (auto simp: commit_apply_def Let_def split: prod.splits if_splits option.splits sum.splits)
    (metis snd_conv)+

lemma after_commit_cases:
  assumes "after_commit F E wb payload delta n = Inr (res, n')"
  obtains rewards st d1 new1 d2 new2 utxos q where
    "milestone_stage F E (w_id wb) payload (snd (insert_block (block_of_wire payload wb) (nd_dag (fn_core n)))) (fn_rewards n) =
       Inr ((rewards, st), d1, new1)"
    "finalize_depth (w_id wb) d1 = (d2, new2)"
    "try_fold (\<lambda>s r. utxo_add (pe_D E) (pe_R E) s (nr_out r) (nr_output r)) (nd_utxos (fn_core n)) rewards = Inr utxos"
    "nd_dag (fn_core n') = d2" "nd_utxos (fn_core n') = utxos"
    "fn_queue n = None \<and> res = Inl ''persist pipeline down: background task is not running'' \<and> fn_queue n' = None \<or>
     fn_queue n = Some q \<and> res = Inr Inserted \<and>
       (\<exists>job. fn_queue n' = Some (q @ [job]) \<and> pj_block job = stored_of_wire wb \<and> pj_delta job = delta)"
proof -
  let ?d0 = "snd (insert_block (block_of_wire payload wb) (nd_dag (fn_core n)))"
  let ?add = "\<lambda>s r. utxo_add (pe_D E) (pe_R E) s (nr_out r) (nr_output r)"
  obtain rewards st d1 new1 where ms: "milestone_stage F E (w_id wb) payload ?d0 (fn_rewards n) = Inr ((rewards, st), d1, new1)"
    using assms by (cases "milestone_stage F E (w_id wb) payload ?d0 (fn_rewards n)") (auto simp: after_commit_def Let_def)
  obtain d2 new2 where fin: "finalize_depth (w_id wb) d1 = (d2, new2)" by fastforce
  obtain utxos where add: "try_fold ?add (nd_utxos (fn_core n)) rewards = Inr utxos"
    using assms ms fin by (cases "try_fold ?add (nd_utxos (fn_core n)) rewards") (auto simp: after_commit_def Let_def)
  show thesis
  proof (cases "fn_queue n")
    case None
    then show thesis using that [OF ms fin add] assms ms fin add by (auto simp: after_commit_def Let_def)
  next
    case (Some q)
    then show thesis using that [OF ms fin add, of q] assms ms fin add by (auto simp: after_commit_def Let_def)
  qed
qed

lemma finality_blocks:
  "block_map (fst (finalize_depth x d)) = block_map d" "block_map (fst (finalize_milestone x d)) = block_map d"
  by (simp_all add: finalize_depth_def finalize_milestone_def block_map_def Let_def case_prod_beta)

lemma milestone_blocks:
  "milestone_stage F E x payload d st = Inr (r, d1, new) \<Longrightarrow> block_map d1 = block_map d"
  using finality_blocks(2) [of x d]
  by (auto simp: milestone_stage_def split: option.splits payload_envelope.splits plain_payload.splits)

lemma inserted_block_found:
  assumes "cd_max_blocks d = 0" "\<not> contains_block d (b_id b)"
  shows "contains_block (snd (insert_block b d)) (b_id b)"
proof -
  have "cd_max_blocks (place_block b d) = 0" using assms(1) by (simp add: place_block_fields)
  then show ?thesis using assms(2) by (simp add: insert_block_def Let_def contains_block_iff place_block_ids)
qed

lemma after_commit_contains:
  assumes "after_commit F E wb payload delta n = Inr (res, n')" "cd_max_blocks (nd_dag (fn_core n)) = 0"
    "\<not> contains_block (nd_dag (fn_core n)) (w_id wb)"
  shows "contains_block (nd_dag (fn_core n')) (w_id wb)"
proof -
  let ?d0 = "snd (insert_block (block_of_wire payload wb) (nd_dag (fn_core n)))"
  have "contains_block ?d0 (w_id wb)"
    using inserted_block_found [of "nd_dag (fn_core n)" "block_of_wire payload wb"] assms(2,3) by (simp add: block_of_wire_def)
  moreover have "block_map (nd_dag (fn_core n')) = block_map ?d0"
    by (rule after_commit_cases [OF assms(1)]) (metis finality_blocks(1) fst_conv milestone_blocks)
  ultimately show ?thesis by (simp add: contains_block_def block_map_def)
qed

lemma commit_stage_cases:
  assumes "commit_stage F E ck wb external payload n = Inr (res, n')"
  obtains (present) "res = Inr AlreadyExists" "n' = n" "contains_block (nd_dag (fn_core n)) (w_id wb)"
  | (refused) r core where "commit_apply (pe_D E) (pe_R E) (now_u64 (ck_signers ck)) external (block_of_wire payload wb) (fn_core n) = Inr (Some r, core)"
      "res = Inr r" "n' = n\<lparr>fn_core := core\<rparr>"
  | (applied) core where "commit_apply (pe_D E) (pe_R E) (now_u64 (ck_signers ck)) external (block_of_wire payload wb) (fn_core n) = Inr (None, core)"
      "after_commit F E wb payload (payload_delta (now_u64 (ck_signers ck)) external (block_of_wire payload wb)) (n\<lparr>fn_core := core\<rparr>) = Inr (res, n')"
      "\<not> contains_block (nd_dag (fn_core n)) (w_id wb)"
proof (cases "contains_block (nd_dag (fn_core n)) (w_id wb)")
  case True
  then show thesis using assms by (intro present) (simp_all add: commit_stage_def)
next
  case False
  let ?a = "commit_apply (pe_D E) (pe_R E) (now_u64 (ck_signers ck)) external (block_of_wire payload wb) (fn_core n)"
  show thesis
  proof (cases ?a)
    case (Inl e)
    then show thesis using assms False by (simp add: commit_stage_def)
  next
    case (Inr x)
    obtain rejected core where x: "x = (rejected, core)" by fastforce
    show thesis
    proof (cases rejected)
      case None
      then show thesis using assms False Inr x by (intro applied) (simp_all add: commit_stage_def)
    next
      case (Some r)
      have "Inr r = res \<and> n\<lparr>fn_core := core\<rparr> = n'" using assms False Inr x Some by (simp add: commit_stage_def)
      then show thesis using Inr x Some by (intro refused [of r core]) auto
    qed
  qed
qed

lemma fee_stage_registers:
  assumes "fee_stage F E external payload n = Inr n'"
  shows "registers n' = registers n" "fn_core n' = fn_core n"
  using assms by (auto simp: fee_stage_def registers_def split: option.splits payload_envelope.splits plain_payload.splits)

definition pipeline_down :: string where
  "pipeline_down = ''persist pipeline down: background task is not running''"

definition opaque :: "('c, 'd) persist_env \<Rightarrow> wire_block \<Rightarrow> bool" where
  "opaque E wb \<longleftrightarrow> (\<forall>s pp. w_payload_json wb = Some s \<longrightarrow> wl_parse_payload (pe_W E) s \<noteq> Inr (Plain pp))"

text \<open>The arms of the payload: a refusal leaves the registers, an acceptance that changes them came from a registry payload.\<close>

lemma payload_arms_keep:
  assumes "payload_arms no_faults E ck p wb payload n = (r, n1)" and "nft_index_ok (fn_nfts n)"
  shows "r = Inl s \<Longrightarrow> registers n1 = registers n"
    "r = Inr () \<Longrightarrow> block_map (nd_dag (fn_core n1)) = block_map (nd_dag (fn_core n)) \<and>
       (registers n1 = registers n \<or> (\<exists>pp. payload = Some (Plain pp) \<and> writes_registry pp))"
proof -
  show "registers n1 = registers n" if refused: "r = Inl s"
  proof (cases "\<exists>pp. payload = Some (Plain pp)")
    case False
    then show ?thesis using assms(1) refused by (auto simp: payload_arms_def split: option.splits payload_envelope.splits)
  next
    case True
    then obtain pp where pp: "payload = Some (Plain pp)" by blast
    obtain ra na where a: "arm no_faults E ck p wb pp n = (ra, na)" by fastforce
    show ?thesis
    proof (cases ra)
      case (Inl s')
      then show ?thesis using arm_refused [of E ck p wb pp n s' na] a assms by (simp add: payload_arms_def pp)
    next
      case (Inr u)
      then have "n1 = na" "\<not> writes_registry pp"
        using assms(1) refused a by (auto simp: payload_arms_def pp registry_payload_continues)
      then show ?thesis using arm_other [of pp no_faults E ck p wb n] a by simp
    qed
  qed
  show "block_map (nd_dag (fn_core n1)) = block_map (nd_dag (fn_core n)) \<and>
      (registers n1 = registers n \<or> (\<exists>pp. payload = Some (Plain pp) \<and> writes_registry pp))" if r: "r = Inr ()"
  proof (cases "\<exists>pp. payload = Some (Plain pp)")
    case False
    then show ?thesis using assms(1) by (auto simp: payload_arms_def split: option.splits payload_envelope.splits)
  next
    case True
    then obtain pp where pp: "payload = Some (Plain pp)" by blast
    then have "n1 = snd (arm no_faults E ck p wb pp n)"
      using assms(1) r by (auto simp: payload_arms_def split: prod.splits sum.splits)
    then show ?thesis using arm_blocks [of E ck p wb pp n] arm_other [of pp no_faults E ck p wb n] pp by auto
  qed
qed


lemma milestone_has_no_delta: "payload_delta now None (block_of_wire (Some (Plain (Milestone tips distribute))) wb) = None"
  by (simp add: payload_delta_def block_of_wire_def)

definition sample_env :: "((output_id \<times> rdec compact_output) list, rdec) persist_env" where
  "sample_env = \<lparr>pe_D = ref_dec, pe_de = (\<lambda>_. []), pe_X = ref_ext, pe_W = ref_wire, pe_R = ref_lru, pe_setup = sample_setup,
     pe_test_pk = None, pe_stored = (\<lambda>_. False), pe_bridge_stored = (\<lambda>_. False), pe_custodial_stored = (\<lambda>_. False),
     pe_resolver = None, pe_in_order = (\<lambda>_. []), pe_fmt8 = ref_show, pe_to_u64 = (\<lambda>_. None)\<rparr>"

definition sample_node :: "((output_id \<times> rdec compact_output) list, rdec) full_node" where
  "sample_node = \<lparr>fn_core = \<lparr>nd_dag = conc_dag_genesis (sample_block ''g'' []), nd_utxos = utxo_new ref_lru 10 None\<rparr>,
     fn_gov = sample_gov, fn_assets = nv_assets gold_view, fn_compliance = nv_compliance gold_view,
     fn_keys = \<lparr>kn_db = [], kn_state = sample_keys\<rparr>,
     fn_nfts = \<lparr>nc_ownership = Map.empty, nc_by_owner = Map.empty, nc_block_ids = Map.empty\<rparr>, fn_rewards = fresh_rewards,
     fn_queue = Some []\<rparr>"

lemma sample_call:
  obtains res n' where "persist_block no_faults sample_env \<lparr>ck_signers = 0, ck_arm = 0\<rparr> sample_wire None sample_node = Inr (res, n')"
    "registers n' \<noteq> registers sample_node"
proof -
  let ?q = "Some (Plain (Milestone [] False))" and ?ck = "\<lparr>ck_signers = 0, ck_arm = 0\<rparr>"
  let ?b = "block_of_wire ?q sample_wire" and ?d = "conc_dag_genesis (sample_block ''g'' [])"
  have node: "nd_dag (fn_core sample_node) = ?d" "fn_queue sample_node = Some []" by (simp_all add: sample_node_def)
  obtain p where gate: "wire_gate no_faults ref_dec ref_ext ref_wire sample_setup sample_gov sample_keys ?d (\<lambda>_. False) 0 sample_wire =
      Inr (Some (?q, p))"
    using sample_wire_accepted by (elim exE)
  have absent: "\<not> contains_block ?d (w_id sample_wire)"
    by (simp add: contains_block_def conc_dag_genesis_def sample_block_def sample_wire_def sample_wire_id_def)
  have none: "commit_apply D R now None ?b c = Inr (None, c)" for D R now and c :: "((output_id \<times> rdec compact_output) list, rdec) node"
    by (simp add: commit_apply_def claim_replay_def payload_delta_def block_of_wire_def)
  have delta: "payload_delta now None ?b = None" for now by (rule milestone_has_no_delta)
  have same: "sample_node\<lparr>fn_core := fn_core sample_node\<rparr> = sample_node" by (simp add: sample_node_def)
  obtain res n' where after: "after_commit no_faults sample_env sample_wire ?q None sample_node = Inr (res, n')"
    by (simp add: after_commit_def milestone_stage_def Let_def node case_prod_beta)
  have "commit_stage no_faults sample_env ?ck sample_wire None ?q sample_node = Inr (res, n')"
    using after absent delta same by (simp add: commit_stage_def none node Let_def)
  then have "persist_block no_faults sample_env ?ck sample_wire None sample_node = Inr (res, n')"
    using gate by (simp add: persist_block_def sample_env_def sample_node_def payload_arms_def fee_stage_def)
  moreover have "contains_block (nd_dag (fn_core n')) (w_id sample_wire)"
    by (rule after_commit_contains [OF after]) (use absent in \<open>simp_all add: node\<close>, simp add: conc_dag_genesis_def conc_dag_new_def)
  then have "cd_blocks (nd_dag (fn_core n')) \<noteq> cd_blocks ?d" using absent by (auto simp: contains_block_def)
  then have "registers n' \<noteq> registers sample_node" by (simp add: registers_def node)
  ultimately show thesis by (rule that)
qed


subsection \<open>What the pipeline leaves behind\<close>

text \<open>
  When the background writer has ended, the call answers an error so that the caller can retry, after the block entered the
  structures in memory: a retry finds it there and queues nothing, whatever the clock.
\<close>

lemma unqueued_block_is_present:
  assumes "commit_stage F E ck wb external payload n = Inr (Inl pipeline_down, n')" "cd_max_blocks (nd_dag (fn_core n)) = 0"
  shows "contains_block (nd_dag (fn_core n')) (w_id wb)"
  using assms(1)
proof (cases rule: commit_stage_cases)
  case (applied core)
  show ?thesis
    by (rule after_commit_contains [OF applied(2)])
      (use commit_apply_keeps(1) [OF applied(1)] applied(3) assms(2) in \<open>simp_all add: block_map_def contains_block_def\<close>)
qed simp_all

lemma retry_is_not_queued:
  assumes "contains_block (nd_dag (fn_core n)) (w_id wb)" "persist_block F E ck wb external n = Inr (res, n')"
  shows "n' = n \<and> res \<noteq> Inr Inserted"
proof -
  let ?gate = "wire_gate F (pe_D E) (pe_X E) (pe_W E) (pe_setup E) (fn_gov n) (kn_state (fn_keys n)) (nd_dag (fn_core n))
       (pe_stored E) (ck_signers ck) wb"
  have "?gate \<noteq> Inr (Some x)" for x using assms(1) by (auto simp: wire_gate_def)
  then show ?thesis using assms(2)
    by (auto simp: persist_block_def stopped_def split: sum.splits option.splits stop.splits)
qed

text \<open>
  The job of a block carries its delta. A milestone has none: the outputs it pays are written to the set in memory only.
\<close>

lemma queued_job:
  assumes "after_commit F E wb payload delta n = Inr (Inr Inserted, n')" "fn_queue n = Some q"
  shows "\<exists>job. fn_queue n' = Some (q @ [job]) \<and> pj_block job = stored_of_wire wb \<and> pj_delta job = delta"
  by (rule after_commit_cases [OF assms(1)]) (use assms(2) in auto)

text \<open>
  The pool of fees grows before the inputs are claimed: a transfer that another block overtakes is refused, and its fee stays
  in the pool. The action of a seizure is in the log of the compliance even when its block is refused.
\<close>

lemma overtaken_transfer_feeds_the_pool:
  assumes "fee_stage F E None payload n = Inr n1"
    and "commit_apply (pe_D E) (pe_R E) (now_u64 (ck_signers ck)) None (block_of_wire payload wb) core = Inr (Some r, core')"
    and "\<not> contains_block (nd_dag core) (w_id wb)"
  shows "commit_stage F E ck wb None payload (n1\<lparr>fn_core := core\<rparr>) = Inr (Inr r, n1\<lparr>fn_core := core'\<rparr>)"
  using assms by (simp add: commit_stage_def)

lemma refused_seizure_is_logged:
  assumes "payload = Some (Plain (Seize a inputs outputs reason))"
  shows "co_log (fn_compliance (snd (payload_arms no_faults E ck p wb payload n))) (w_id wb) \<noteq> None"
  using assms by (simp add: payload_arms_def on_compliance_def seize_arm_def log_compliance_action_def no_faults_def)

end
