(* ===== verification/DiskKeys.thy ===== *)
theory DiskKeys
  imports Column RefDecimal TxTypes
begin

section \<open>Keys of the column families and the filter of recent blocks\<close>

text \<open>
  The byte strings the store uses as keys and values (\<open>helpers/time_index.rs\<close>, \<open>helpers/encoding.rs\<close>,
  \<open>helpers/activity_keys.rs\<close>, \<open>make_utxo_key\<close> and \<open>parse_utxo_key\<close>), and the Bloom filter in front of the lookup
  of duplicates (\<open>recent_blocks_bloom.rs\<close>). A string is its list of bytes; the check that the bytes of a key are UTF-8 is
  left out, since every key is written from strings.
\<close>

subsection \<open>Numbers as bytes\<close>

fun be_value :: "string \<Rightarrow> nat" where
  "be_value [] = 0"
| "be_value (c # bs) = of_char c * 256 ^ length bs + be_value bs"

lemma be_value_append: "be_value (a @ b) = be_value a * 256 ^ length b + be_value b"
  by (induction a) (simp_all add: power_add algebra_simps)

lemma be_value_bytes: "be_value (be_bytes k n) = n mod 256 ^ k"
proof (induction k arbitrary: n)
  case (Suc k)
  have "n mod 256 ^ Suc k = (n div 256 mod 256 ^ k) * 256 + n mod 256"
    by (simp add: mod_mult2_eq mult.commute)
  then show ?case by (simp add: be_value_append Suc.IH)
qed simp

definition ts_to_be :: "64 word \<Rightarrow> string" where
  "ts_to_be ts = be_bytes 8 (unat ts)"

definition be_to_ts :: "string \<Rightarrow> 64 word" where
  "be_to_ts b = (if length b < 8 then 0 else of_nat (be_value (take 8 b)))"

definition be_to_i64 :: "string \<Rightarrow> string + 64 word" where
  "be_to_i64 buf = (if length buf \<noteq> 8 then Inl ''invalid ts len'' else Inr (of_nat (be_value buf)))"

definition u64_to_le :: "u64 \<Rightarrow> string" where
  "u64_to_le v = rev (be_bytes 8 (unat v))"

definition le_to_u64 :: "string \<Rightarrow> u64" where
  "le_to_u64 b = (if length b < 8 then 0 else of_nat (be_value (rev (take 8 b))))"

lemma be_bytes_8: "be_bytes 8 n = map (\<lambda>k. char_of (n div 256 ^ k mod 256)) [7, 6, 5, 4, 3, 2, 1, 0]"
proof -
  have "8 = Suc (Suc (Suc (Suc (Suc (Suc (Suc (Suc 0)))))))" by simp
  then show ?thesis by (simp only: be_bytes.simps) (simp add: div_mult2_eq [symmetric])
qed

lemma unat_32_less: "unat (w :: u32) < 2 ^ 32"
  by (rule less_le_trans [OF unsigned_less]) simp

lemma unat_64_less: "unat (w :: 64 word) < 256 ^ 8"
  by (rule less_le_trans [OF unsigned_less]) simp

lemma word_of_bytes: "word_of_nat (be_value (be_bytes 8 (unat w))) = (w :: 64 word)"
proof -
  have "unat w < 2 ^ LENGTH(64)" by (rule unsigned_less)
  then have "unat w mod 256 ^ 8 = unat w" by simp
  then show ?thesis by (simp only: be_value_bytes) simp
qed

lemma length_ts_to_be [simp]: "length (ts_to_be ts) = 8" "length (u64_to_le v) = 8"
  by (simp_all add: ts_to_be_def u64_to_le_def)

lemma be_to_ts_to_be [simp]: "be_to_ts (ts_to_be ts) = ts"
  by (simp add: be_to_ts_def ts_to_be_def word_of_bytes)

lemma be_to_i64_to_be [simp]: "be_to_i64 (ts_to_be ts) = Inr ts"
  by (simp add: be_to_i64_def) (simp add: ts_to_be_def word_of_bytes)

lemma le_to_u64_to_le [simp]: "le_to_u64 (u64_to_le v) = v"
  by (simp add: le_to_u64_def u64_to_le_def word_of_bytes)

lemma ts_to_be_inj: "ts_to_be a = ts_to_be b \<longleftrightarrow> a = b"
  by (metis be_to_ts_to_be)

lemma ts_to_be_less: "a < b \<Longrightarrow> ts_to_be a < ts_to_be b"
  unfolding ts_to_be_def by (rule be_bytes_less) (use unat_64_less [of b] in \<open>auto simp: word_less_nat_alt\<close>)

subsection \<open>The index of blocks by time\<close>

definition key_time_index :: "64 word \<Rightarrow> string \<Rightarrow> string" where
  "key_time_index ts_ms i = ts_to_be ts_ms @ [CHR 0x00] @ i"

definition parse_time_index_key :: "string \<Rightarrow> (64 word \<times> string) option" where
  "parse_time_index_key key = (if length key < 10 then None else Some (of_nat (be_value (take 8 key)), drop 9 key))"

lemma parse_time_key [simp]: "i \<noteq> [] \<Longrightarrow> parse_time_index_key (key_time_index ts i) = Some (ts, i)"
  by (simp add: parse_time_index_key_def key_time_index_def) (cases i; simp add: ts_to_be_def word_of_bytes)

lemma key_time_index_inj: "key_time_index ts i = key_time_index ts' i' \<longleftrightarrow> ts = ts' \<and> i = i'"
  by (simp add: key_time_index_def ts_to_be_inj)

subsection \<open>The keys of outputs\<close>

definition make_utxo_key :: "string \<Rightarrow> u32 \<Rightarrow> string" where
  "make_utxo_key txid index = txid @ [CHR ''#''] @ show_nat (unat index)"

text \<open>\<open>rfind\<close> of the standard library, as the split of the string at the last occurrence.\<close>

definition rsplit :: "char \<Rightarrow> string \<Rightarrow> (string \<times> string) option" where
  "rsplit c s =
     (if c \<in> set s then Some (rev (tl (dropWhile (\<lambda>x. x \<noteq> c) (rev s))), rev (takeWhile (\<lambda>x. x \<noteq> c) (rev s))) else None)"

text \<open>\<open>u32::from_str\<close>: an optional plus sign, then digits, within the width.\<close>

definition parse_u32 :: "string \<Rightarrow> u32 option" where
  "parse_u32 s =
     (let ds = (case s of [] \<Rightarrow> [] | c # r \<Rightarrow> if c = CHR ''+'' then r else s) in
      if ds = [] then None else (case digits_val 0 ds of None \<Rightarrow> None | Some n \<Rightarrow> if n < 2 ^ 32 then Some (of_nat n) else None))"

definition parse_utxo_key :: "string \<Rightarrow> string + (string \<times> u32)" where
  "parse_utxo_key key =
     (case (case rsplit (CHR ''#'') key of None \<Rightarrow> rsplit (CHR '':'') key | Some p \<Rightarrow> Some p) of
        None \<Rightarrow> Inl (''invalid utxo key format (no ':' or '#'): '' @ key)
      | Some (txid, idx) \<Rightarrow> (case parse_u32 idx of None \<Rightarrow> Inl ''invalid utxo key index'' | Some n \<Rightarrow> Inr (txid, n)))"

lemma rsplit_append:
  assumes "c \<notin> set b"
  shows "rsplit c (a @ [c] @ b) = Some (a, b)"
proof -
  have "takeWhile (\<lambda>x. x \<noteq> c) (rev b @ c # rev a) = rev b" "dropWhile (\<lambda>x. x \<noteq> c) (rev b @ c # rev a) = c # rev a"
    using assms by (simp_all add: takeWhile_append dropWhile_append takeWhile_eq_all_conv dropWhile_eq_Nil_conv)
  then show ?thesis by (simp add: rsplit_def)
qed

lemma show_nat_no_sign: "c \<in> set (show_nat n) \<Longrightarrow> c \<noteq> CHR ''#'' \<and> c \<noteq> CHR ''+''"
proof (induction n rule: show_nat.induct)
  case (1 n)
  have d: "char_of (48 + k) \<noteq> CHR ''#'' \<and> char_of (48 + k) \<noteq> CHR ''+''" if "k < 10" for k :: nat
  proof -
    have "of_char (char_of (48 + k) :: char) = (48 + k :: nat)" using that by simp
    then have "of_char (char_of (48 + k) :: char) \<noteq> (of_char (CHR ''#'') :: nat)"
      "of_char (char_of (48 + k) :: char) \<noteq> (of_char (CHR ''+'') :: nat)" by simp_all
    then show ?thesis by metis
  qed
  show ?case
  proof (cases "n < 10")
    case True
    then show ?thesis using 1(2) d [of n] by (simp add: show_nat.simps [of n])
  next
    case False
    then show ?thesis using 1 d [of "n mod 10"] by (auto simp: show_nat.simps [of n])
  qed
qed

lemma show_nat_not_empty: "show_nat n \<noteq> []"
  by (simp add: show_nat.simps [of n])

lemma parse_show_u32: "parse_u32 (show_nat (unat (index :: u32))) = Some index"
proof -
  obtain c r where s: "show_nat (unat index) = c # r" using show_nat_not_empty by (meson list.exhaust)
  then have "c \<noteq> CHR ''+''" using show_nat_no_sign [of c "unat index"] by simp
  then have "parse_u32 (show_nat (unat index)) = (case digits_val 0 (show_nat (unat index)) of None \<Rightarrow> None
      | Some n \<Rightarrow> if n < 2 ^ 32 then Some (of_nat n) else None)"
    by (simp add: parse_u32_def s)
  then show ?thesis using digits_val_show [of 0 "unat index"] unat_32_less [of index] by simp
qed

lemma parse_make_utxo_key: "parse_utxo_key (make_utxo_key txid index) = Inr (txid, index)"
proof -
  have "CHR ''#'' \<notin> set (show_nat (unat index))" using show_nat_no_sign by blast
  then show ?thesis
    using rsplit_append [of "CHR ''#''" "show_nat (unat index)" txid] by (simp add: parse_utxo_key_def make_utxo_key_def parse_show_u32)
qed

lemma make_utxo_key_inj: "make_utxo_key a i = make_utxo_key b j \<longleftrightarrow> a = b \<and> i = j"
  by (metis parse_make_utxo_key Inr_inject prod.inject)

definition utxo_key :: "output_id \<Rightarrow> string" where
  "utxo_key i = make_utxo_key (op_txid i) (op_index i)"


subsection \<open>The filter of recent blocks\<close>

text \<open>
  Two segments of bits: a full front becomes the back and a fresh front takes over, so the identifiers of the former back
  are forgotten. The arithmetic of the positions wraps at 64 bits, as the code writes it.
\<close>

definition hex_byte :: "char \<Rightarrow> u8" where
  "hex_byte c =
     (let n = (of_char c :: nat) in
      if 48 \<le> n \<and> n \<le> 57 then of_nat (n - 48)
      else if 97 \<le> n \<and> n \<le> 102 then of_nat (n - 97 + 10)
      else if 65 \<le> n \<and> n \<le> 70 then of_nat (n - 65 + 10) else 0)"

definition hash_half :: "nat \<Rightarrow> string \<Rightarrow> u64" where
  "hash_half start i =
     foldr (\<lambda>k acc. ucast (or (push_bit 4 (hex_byte (i ! (start + 2 * k)))) (hex_byte (i ! (start + 2 * k + 1)))) + 256 * acc) [0..<8] 0"

definition fnv_step :: "char \<Rightarrow> u64 \<times> u64 \<Rightarrow> u64 \<times> u64" where
  "fnv_step byte = (\<lambda>(a, b).
     (xor a (of_nat (of_char byte)) * 0x100000001b3, xor (word_rotl 7 b) (of_nat (of_char byte)) * 0x9e3779b97f4a7c15))"

definition hash_pair :: "string \<Rightarrow> u64 \<times> u64" where
  "hash_pair i =
     (if 32 \<le> length i then (hash_half 0 i, hash_half 16 i)
      else (let (a, b) = fold fnv_step i (0xcbf29ce484222325, 0x9e3779b97f4a7c15) in (max a 1, max b 1)))"

record bloom_segment =
  sg_bits :: "u64 list"
  sg_bits_count :: nat
  sg_inserted :: nat

definition new_segment :: "nat \<Rightarrow> bloom_segment" where
  "new_segment capacity =
     (let words = (max (min (capacity * 10) (2 ^ 64 - 1)) 64 + 63) div 64 in
      \<lparr>sg_bits = replicate words 0, sg_bits_count = words * 64, sg_inserted = 0\<rparr>)"

definition seg_position :: "bloom_segment \<Rightarrow> u64 \<Rightarrow> u64 \<Rightarrow> u64 \<Rightarrow> nat" where
  "seg_position sg base step i = unat (base + i * step) mod sg_bits_count sg"

definition seg_positions :: "bloom_segment \<Rightarrow> string \<Rightarrow> nat list" where
  "seg_positions sg i = (let (h1, h2) = hash_pair i in map (\<lambda>k. seg_position sg h1 h2 (of_nat k)) [0..<7])"

definition has_bit :: "u64 list \<Rightarrow> nat \<Rightarrow> bool" where
  "has_bit bits pos \<longleftrightarrow> and (bits ! (pos div 64)) (push_bit (pos mod 64) 1) \<noteq> 0"

definition put_bit :: "nat \<Rightarrow> u64 list \<Rightarrow> u64 list" where
  "put_bit pos bits = bits[pos div 64 := or (bits ! (pos div 64)) (push_bit (pos mod 64) 1)]"

definition seg_contains :: "bloom_segment \<Rightarrow> string \<Rightarrow> bool" where
  "seg_contains sg i \<longleftrightarrow> list_all (has_bit (sg_bits sg)) (seg_positions sg i)"

definition seg_insert :: "string \<Rightarrow> bloom_segment \<Rightarrow> bloom_segment" where
  "seg_insert i sg = sg\<lparr>sg_bits := fold put_bit (seg_positions sg i) (sg_bits sg), sg_inserted := sg_inserted sg + 1\<rparr>"

record blocks_bloom =
  bl_front :: bloom_segment
  bl_back :: bloom_segment
  bl_capacity :: nat
  bl_warmed :: bool

definition bloom_new :: "nat \<Rightarrow> blocks_bloom" where
  "bloom_new capacity =
     \<lparr>bl_front = new_segment capacity, bl_back = new_segment capacity, bl_capacity = capacity, bl_warmed = False\<rparr>"

definition maybe_contains :: "blocks_bloom \<Rightarrow> string \<Rightarrow> bool" where
  "maybe_contains bl i \<longleftrightarrow> seg_contains (bl_front bl) i \<or> seg_contains (bl_back bl) i"

definition bloom_insert :: "string \<Rightarrow> blocks_bloom \<Rightarrow> blocks_bloom" where
  "bloom_insert i bl =
     (let bl = (if bl_capacity bl \<le> sg_inserted (bl_front bl)
                then bl\<lparr>bl_back := bl_front bl, bl_front := new_segment (bl_capacity bl)\<rparr> else bl) in
      bl\<lparr>bl_front := seg_insert i (bl_front bl)\<rparr>)"

definition mark_warmed :: "blocks_bloom \<Rightarrow> blocks_bloom" where
  "mark_warmed bl = bl\<lparr>bl_warmed := True\<rparr>"

definition seg_ok :: "bloom_segment \<Rightarrow> bool" where
  "seg_ok sg \<longleftrightarrow> 0 < sg_bits_count sg \<and> sg_bits_count sg = length (sg_bits sg) * 64"

lemma seg_ok_new: "seg_ok (new_segment capacity)"
  by (simp add: seg_ok_def new_segment_def Let_def div_greater_zero_iff)

lemma has_bit_iff: "has_bit bits pos \<longleftrightarrow> bit (bits ! (pos div 64)) (pos mod 64)"
  by (simp add: has_bit_def bit_iff_and_push_bit_not_eq_0)

lemma length_put_bit [simp]: "length (put_bit pos bits) = length bits"
  by (simp add: put_bit_def)

lemma has_put_bit: "pos div 64 < length bits \<Longrightarrow> has_bit (put_bit pos bits) pos"
  by (simp add: has_bit_iff put_bit_def bit_or_iff bit_exp_iff)

lemma put_bit_keeps: "has_bit bits p \<Longrightarrow> has_bit (put_bit q bits) p"
  unfolding has_bit_iff put_bit_def
  by (cases "p div 64 = q div 64"; cases "q div 64 < length bits") (auto simp: bit_or_iff list_update_beyond)

lemma fold_put_bit: "has_bit bits p \<Longrightarrow> has_bit (fold put_bit ps bits) p"
  by (induction ps arbitrary: bits) (auto simp: put_bit_keeps)

lemma length_fold_put_bit [simp]: "length (fold put_bit ps bits) = length bits"
  by (induction ps arbitrary: bits) simp_all

lemma fold_put_bit_all:
  "(\<And>p. p \<in> set ps \<Longrightarrow> p div 64 < length bits) \<Longrightarrow> list_all (has_bit (fold put_bit ps bits)) ps"
  by (induction ps arbitrary: bits) (auto intro!: fold_put_bit has_put_bit)

lemma seg_insert_ok [simp]: "seg_ok sg \<Longrightarrow> seg_ok (seg_insert i sg)"
  by (auto simp: seg_ok_def seg_insert_def)

lemma seg_positions_less: "seg_ok sg \<Longrightarrow> p \<in> set (seg_positions sg i) \<Longrightarrow> p div 64 < length (sg_bits sg)"
  by (auto simp: seg_ok_def seg_positions_def seg_position_def div_less_iff_less_mult mult.commute split: prod.splits)

lemma seg_positions_insert: "seg_positions (seg_insert j sg) = seg_positions sg"
  by (simp add: seg_positions_def seg_position_def seg_insert_def fun_eq_iff)

lemma seg_insert_contains: "seg_ok sg \<Longrightarrow> seg_contains (seg_insert i sg) i"
  using fold_put_bit_all [of "seg_positions sg i" "sg_bits sg"] seg_positions_less [of sg]
  by (simp add: seg_contains_def seg_positions_insert) (simp add: seg_insert_def)

lemma seg_insert_keeps: "seg_contains sg i \<Longrightarrow> seg_contains (seg_insert j sg) i"
  by (auto simp: seg_contains_def seg_positions_insert list_all_iff) (simp add: seg_insert_def fold_put_bit)


subsection \<open>What the filter remembers\<close>

text \<open>\<open>bloom_holds\<close>: the front holds exactly the last insertions, the back those before them, up to a whole segment.\<close>

definition bloom_holds :: "blocks_bloom \<Rightarrow> string list \<Rightarrow> bool" where
  "bloom_holds bl xs \<longleftrightarrow>
     seg_ok (bl_front bl) \<and> seg_ok (bl_back bl) \<and>
     (\<exists>older prev front. xs = older @ prev @ front \<and> sg_inserted (bl_front bl) = length front \<and>
        (\<forall>i\<in>set front. seg_contains (bl_front bl) i) \<and> (\<forall>i\<in>set prev. seg_contains (bl_back bl) i) \<and>
        (older = [] \<or> bl_capacity bl \<le> length prev))"

lemma bloom_holds_new: "bloom_holds (bloom_new capacity) []"
  by (simp add: bloom_holds_def bloom_new_def seg_ok_new) (simp add: new_segment_def Let_def)

lemma bloom_insert_fields [simp]:
  "bl_capacity (bloom_insert i bl) = bl_capacity bl" "bl_warmed (bloom_insert i bl) = bl_warmed bl"
  by (simp_all add: bloom_insert_def Let_def)

lemma bloom_holds_insert:
  assumes "bloom_holds bl xs"
  shows "bloom_holds (bloom_insert i bl) (xs @ [i])"
proof -
  obtain older prev front where h: "seg_ok (bl_front bl)" "seg_ok (bl_back bl)" "xs = older @ prev @ front"
    "sg_inserted (bl_front bl) = length front" "\<forall>i\<in>set front. seg_contains (bl_front bl) i"
    "\<forall>i\<in>set prev. seg_contains (bl_back bl) i" "older = [] \<or> bl_capacity bl \<le> length prev"
    using assms by (auto simp: bloom_holds_def)
  show ?thesis
  proof (cases "bl_capacity bl \<le> sg_inserted (bl_front bl)")
    case True
    let ?n = "new_segment (bl_capacity bl)"
    have "sg_inserted (seg_insert i ?n) = length [i]" by (simp add: seg_insert_def new_segment_def Let_def)
    moreover have "xs @ [i] = (older @ prev) @ front @ [i]" using h(3) by simp
    ultimately have "\<exists>older' prev' front'. xs @ [i] = older' @ prev' @ front' \<and> sg_inserted (seg_insert i ?n) = length front' \<and>
        (\<forall>j\<in>set front'. seg_contains (seg_insert i ?n) j) \<and> (\<forall>j\<in>set prev'. seg_contains (bl_front bl) j) \<and>
        (older' = [] \<or> bl_capacity bl \<le> length prev')"
      using h(4,5) True seg_insert_contains [OF seg_ok_new] by (metis empty_iff insert_iff list.simps(15) set_empty2)
    then show ?thesis using True h(1) by (simp add: bloom_holds_def bloom_insert_def Let_def seg_ok_new)
  next
    case False
    have "sg_inserted (seg_insert i (bl_front bl)) = length (front @ [i])" using h(4) by (simp add: seg_insert_def)
    moreover have "\<forall>j\<in>set (front @ [i]). seg_contains (seg_insert i (bl_front bl)) j"
      using h(1,5) seg_insert_contains seg_insert_keeps by auto
    moreover have "xs @ [i] = older @ prev @ (front @ [i])" using h(3) by simp
    ultimately have "\<exists>older' prev' front'. xs @ [i] = older' @ prev' @ front' \<and>
        sg_inserted (seg_insert i (bl_front bl)) = length front' \<and>
        (\<forall>j\<in>set front'. seg_contains (seg_insert i (bl_front bl)) j) \<and> (\<forall>j\<in>set prev'. seg_contains (bl_back bl) j) \<and>
        (older' = [] \<or> bl_capacity bl \<le> length prev')"
      using h(6,7) by metis
    then show ?thesis using False h(1,2) by (simp add: bloom_holds_def bloom_insert_def Let_def)
  qed
qed

lemma bloom_holds_inserts: "bloom_holds bl xs \<Longrightarrow> bloom_holds (fold bloom_insert ys bl) (xs @ ys)"
  by (induction ys arbitrary: bl xs) (simp, metis append.assoc append_Cons append_Nil bloom_holds_insert fold_simps(2))

lemma bloom_remembers:
  assumes "bloom_holds bl xs" "i \<in> set (drop (length xs - bl_capacity bl) xs)"
  shows "maybe_contains bl i"
proof -
  obtain older prev front where h: "xs = older @ prev @ front" "\<forall>i\<in>set front. seg_contains (bl_front bl) i"
    "\<forall>i\<in>set prev. seg_contains (bl_back bl) i" "older = [] \<or> bl_capacity bl \<le> length prev"
    using assms(1) by (auto simp: bloom_holds_def)
  have "length older \<le> length xs - bl_capacity bl" using h(1,4) by auto
  then have "set (drop (length xs - bl_capacity bl) xs) \<subseteq> set (drop (length older) xs)" by (rule set_drop_subset_set_drop)
  then show ?thesis using assms(2) h(1-3) by (auto simp: maybe_contains_def)
qed

end
