(* ===== verification/Disk.thy ===== *)
theory Disk
  imports DiskKeys HotPath LegacyDag WireGate
begin

section \<open>The database: column families and atomic batches\<close>

text \<open>
  The column families of one ledger and the \<open>WriteBatch\<close> of RocksDB, whose operations take effect together and in order.
  A column is the association list of \<open>Column\<close>, its values are bytes. What \<open>serde_json\<close> writes and reads back for the
  stored records is the parameter \<open>disk_lib\<close>.
\<close>

datatype column =
    Blocks | IdxBlocks | ByTime | Id2ts | Tips | ChildrenCount | ChildrenSet | UtxoCf | UtxoSpent
  | BridgeConsumed | CustodialConsumed | Final | LastMs | AddrActivity | AddrTypeActivity | ActivityItems

type_synonym database = "column \<Rightarrow> string cf"

datatype batch_op = Put column string string | Delete column string

fun run_op :: "batch_op \<Rightarrow> database \<Rightarrow> database" where
  "run_op (Put c k v) db = db(c := cf_put k v (db c))"
| "run_op (Delete c k) db = db(c := cf_delete k (db c))"

definition db_write :: "batch_op list \<Rightarrow> database \<Rightarrow> database" where
  "db_write ops db = fold run_op ops db"

definition col_get :: "database \<Rightarrow> column \<Rightarrow> string \<Rightarrow> string option" where
  "col_get db c k = cf_get (db c) k"

definition db_ok :: "database \<Rightarrow> bool" where
  "db_ok db \<longleftrightarrow> (\<forall>c. cf_ok (db c))"

text \<open>What a batch does to a key is what its last operation on it does.\<close>

fun effect :: "batch_op list \<Rightarrow> column \<Rightarrow> string \<Rightarrow> string option option" where
  "effect [] c k = None"
| "effect (op # ops) c k =
     (case effect ops c k of
        Some e \<Rightarrow> Some e
      | None \<Rightarrow> (case op of
            Put c' k' v \<Rightarrow> if c' = c \<and> k' = k then Some (Some v) else None
          | Delete c' k' \<Rightarrow> if c' = c \<and> k' = k then Some None else None))"

lemma run_op_ok: "db_ok db \<Longrightarrow> db_ok (run_op op db)"
  by (cases op) (simp_all add: db_ok_def cf.ok_put cf.ok_delete)

lemma db_write_ok: "db_ok db \<Longrightarrow> db_ok (db_write ops db)"
  unfolding db_write_def by (induction ops arbitrary: db) (simp_all add: run_op_ok)

lemma db_write_Nil [simp]: "db_write [] db = db"
  by (simp add: db_write_def)

lemma db_write_append: "db_write (xs @ ys) db = db_write ys (db_write xs db)"
  by (simp add: db_write_def)

lemma col_get_run_op:
  assumes "db_ok db"
  shows "col_get (run_op op db) c k = (case effect [op] c k of None \<Rightarrow> col_get db c k | Some e \<Rightarrow> e)"
  using assms by (cases op) (auto simp: col_get_def db_ok_def cf.get_put cf.get_delete)

lemma col_get_write: "db_ok db \<Longrightarrow> col_get (db_write ops db) c k = (case effect ops c k of None \<Rightarrow> col_get db c k | Some e \<Rightarrow> e)"
proof (induction ops arbitrary: db)
  case (Cons op ops)
  have "col_get (db_write (op # ops) db) c k = col_get (db_write ops (run_op op db)) c k" by (simp add: db_write_def)
  also have "\<dots> = (case effect ops c k of None \<Rightarrow> col_get (run_op op db) c k | Some e \<Rightarrow> e)"
    by (rule Cons.IH) (rule run_op_ok, fact)
  also have "\<dots> = (case effect (op # ops) c k of None \<Rightarrow> col_get db c k | Some e \<Rightarrow> e)"
    by (simp add: col_get_run_op [OF Cons.prems] split: option.split)
  finally show ?case .
qed simp

lemma effect_append: "effect (xs @ ys) c k = (case effect ys c k of None \<Rightarrow> effect xs c k | Some e \<Rightarrow> Some e)"
  by (induction xs) (auto split: option.split)

definition touches :: "batch_op \<Rightarrow> column \<times> string" where
  "touches op = (case op of Put c k v \<Rightarrow> (c, k) | Delete c k \<Rightarrow> (c, k))"

lemma effect_None: "effect ops c k = None \<longleftrightarrow> (c, k) \<notin> touches ` set ops"
  by (induction ops) (auto simp: touches_def split: option.split batch_op.split)

record disk_lib =
  dl_block :: "stored_block \<Rightarrow> string"
  dl_read_block :: "string \<Rightarrow> stored_block option"
  dl_output :: "tx_output \<Rightarrow> string"
  dl_read_output :: "string \<Rightarrow> tx_output option"

definition disk_laws :: "disk_lib \<Rightarrow> bool" where
  "disk_laws L \<longleftrightarrow> (\<forall>b. dl_read_block L (dl_block L b) = Some b) \<and> (\<forall>out. dl_read_output L (dl_output L out) = Some out)"

text \<open>A read that fails answers with the text of the error.\<close>

definition db_get :: "faults \<Rightarrow> database \<Rightarrow> column \<Rightarrow> string \<Rightarrow> string \<Rightarrow> string + string option" where
  "db_get F db c label k = io F (DbGet label k) (col_get db c k)"

end
