(* ===== verification/Activity.thy ===== *)
theory Activity
  imports Disk "HOL-Library.Multiset"
begin

section \<open>The activity of an address\<close>

text \<open>
  The index the history of an address is read from (\<open>helpers/classify.rs\<close>, \<open>helpers/activity_keys.rs\<close>,
  \<open>activity_index.rs\<close>, \<open>apply_addr_activity_indices\<close> of \<open>atomic.rs\<close>): which addresses a payload concerns, in which
  category and with which item, the keys under which they are written, and the pages in which they are read back, the most
  recent first. The sums of amounts are the operators of \<open>rust_decimal\<close>, which panic on an overflow.
\<close>

subsection \<open>What a payload says about an address\<close>

text \<open>\<open>Vec::dedup\<close> drops an element equal to the one before it.\<close>

fun dedup :: "'a list \<Rightarrow> 'a list" where
  "dedup (x # y # xs) = (if x = y then dedup (x # xs) else x # dedup (y # xs))"
| "dedup xs = xs"

fun nft_addresses :: "nft_action \<Rightarrow> string list" where
  "nft_addresses (NftMint _ creator _) = [creator]"
| "nft_addresses (NftTransfer _ from_addr to_addr _ _) = [from_addr, to_addr]"
| "nft_addresses (NftUse _ user _ _) = [user]"
| "nft_addresses (NftBurn _ burner) = [burner]"
| "nft_addresses (NftBatchBurn _ burner) = [burner]"

fun involved_addresses :: "plain_payload \<Rightarrow> string list" where
  "involved_addresses (Mint outputs) = map o_address outputs"
| "involved_addresses (CustodialMint _ outputs _ _ _) = map o_address outputs"
| "involved_addresses (TxUtxo tx) = map o_address (tx_outputs tx)"
| "involved_addresses (MarketSettle tx _ _ _ _ seller buyer) = seller # buyer # map o_address (tx_outputs tx)"
| "involved_addresses (TokenBurn _ _ _ owner) = [owner]"
| "involved_addresses (Reward fee_outputs reward_outputs _ _) = map o_address fee_outputs @ map o_address reward_outputs"
| "involved_addresses (NftPayload action) = nft_addresses action"
| "involved_addresses (TokenCreate m) = [tm_creator m]"
| "involved_addresses (RoyaltyUpdate _ _ beneficiary _ _) = (case beneficiary of None \<Rightarrow> [] | Some b \<Rightarrow> [b])"
| "involved_addresses (BridgeLock _ _ _ _ dest_address) = [dest_address]"
| "involved_addresses (BridgeMint outputs _ _) = map o_address outputs"
| "involved_addresses (Freeze address _) = [address]"
| "involved_addresses (Unfreeze address _ _) = [address]"
| "involved_addresses (Seize from_address _ outputs _) = from_address # map o_address outputs"
| "involved_addresses (Reverse _ _ outputs _) = map o_address outputs"
| "involved_addresses _ = []"

definition extract_involved_addresses :: "plain_payload \<Rightarrow> string list" where
  "extract_involved_addresses plain = dedup (involved_addresses plain)"

datatype activity_category =
    CatMint | CatTransfer | CatFee | CatReward | CatNft | CatTokenCreate | CatBridge | CatCompliance | CatReverse | CatBurn

fun as_byte :: "activity_category \<Rightarrow> u8" where
  "as_byte CatMint = 1"
| "as_byte CatTransfer = 2"
| "as_byte CatFee = 3"
| "as_byte CatReward = 4"
| "as_byte CatNft = 5"
| "as_byte CatTokenCreate = 6"
| "as_byte CatBridge = 7"
| "as_byte CatCompliance = 8"
| "as_byte CatReverse = 9"
| "as_byte CatBurn = 10"

definition from_filter_type :: "string \<Rightarrow> activity_category option" where
  "from_filter_type s =
     (if s = ''mint'' then Some CatMint
      else if s \<in> {''transfer_in'', ''transfer_out'', ''transfer_self''} then Some CatTransfer
      else if s = ''fee_received'' then Some CatFee
      else if s = ''reward'' then Some CatReward
      else if s \<in> {''nft_mint'', ''nft_transfer_in'', ''nft_transfer_out'', ''nft_burn'', ''nft_use''} then Some CatNft
      else if s = ''token_create'' then Some CatTokenCreate
      else if s = ''token_burn'' then Some CatBurn
      else if s \<in> {''bridge_lock_in'', ''bridge_mint''} then Some CatBridge
      else if s \<in> {''freeze'', ''unfreeze'', ''seized'', ''seize_received''} then Some CatCompliance
      else if s = ''reverse_received'' then Some CatReverse
      else None)"

text \<open>The amounts that parse, added up with the operator.\<close>

definition sum_amounts :: "'d dec_lib \<Rightarrow> tx_output list \<Rightarrow> panic + 'd" where
  "sum_amounts D outs = try_fold (dec_add D) (d_zero D) (List.map_filter (\<lambda>out. d_from_str D (o_amount out)) outs)"

definition addressed :: "string \<Rightarrow> tx_output list \<Rightarrow> tx_output list" where
  "addressed addr outs = filter (\<lambda>out. o_address out = addr) outs"

definition is_fee_output_only :: "'d dec_lib \<Rightarrow> transaction \<Rightarrow> string \<Rightarrow> panic + bool" where
  "is_fee_output_only D tx addr =
     (case d_from_str D (tx_fee tx) of
        None \<Rightarrow> Inr False
      | Some fee \<Rightarrow>
          if d_lt D (d_zero D) fee
          then rbind (sum_amounts D (addressed addr (tx_outputs tx))) (\<lambda>addr_total. Inr (d_eq D addr_total fee))
          else Inr False)"

fun involved_with_category :: "'d dec_lib \<Rightarrow> plain_payload \<Rightarrow> panic + (string \<times> activity_category) list" where
  "involved_with_category D (TxUtxo tx) =
     try_map (\<lambda>out. rbind (is_fee_output_only D tx (o_address out)) (\<lambda>fee.
       Inr (o_address out, if fee then CatFee else CatTransfer))) (tx_outputs tx)"
| "involved_with_category D (Mint outputs) = Inr (map (\<lambda>out. (o_address out, CatMint)) outputs)"
| "involved_with_category D (CustodialMint _ outputs _ _ _) = Inr (map (\<lambda>out. (o_address out, CatMint)) outputs)"
| "involved_with_category D (Reward fee_outputs reward_outputs _ _) =
     Inr (map (\<lambda>out. (o_address out, CatFee)) fee_outputs @ map (\<lambda>out. (o_address out, CatReward)) reward_outputs)"
| "involved_with_category D (NftPayload action) = Inr (map (\<lambda>a. (a, CatNft)) (nft_addresses action))"
| "involved_with_category D (TokenCreate m) = Inr [(tm_creator m, CatTokenCreate)]"
| "involved_with_category D (RoyaltyUpdate _ _ beneficiary _ _) =
     Inr (case beneficiary of None \<Rightarrow> [] | Some b \<Rightarrow> [(b, CatTokenCreate)])"
| "involved_with_category D (TokenBurn _ _ _ owner) = Inr [(owner, CatBurn)]"
| "involved_with_category D (MarketSettle tx _ _ _ _ seller buyer) =
     Inr ((seller, CatTransfer) # (buyer, CatTransfer) # map (\<lambda>out. (o_address out, CatTransfer)) (tx_outputs tx))"
| "involved_with_category D (BridgeLock _ _ _ _ dest_address) = Inr [(dest_address, CatBridge)]"
| "involved_with_category D (BridgeMint outputs _ _) = Inr (map (\<lambda>out. (o_address out, CatBridge)) outputs)"
| "involved_with_category D (Freeze address _) = Inr [(address, CatCompliance)]"
| "involved_with_category D (Unfreeze address _ _) = Inr [(address, CatCompliance)]"
| "involved_with_category D (Seize from_address _ outputs _) =
     Inr ((from_address, CatCompliance) # map (\<lambda>out. (o_address out, CatCompliance)) outputs)"
| "involved_with_category D (Reverse _ _ outputs _) = Inr (map (\<lambda>out. (o_address out, CatReverse)) outputs)"
| "involved_with_category D _ = Inr []"

text \<open>The value an item carries as JSON is what it is written from.\<close>

datatype item_json =
    PayloadJson plain_payload | TxJson transaction | NftJson nft_action | TokenJson token_metadata | ReasonJson string

record activity_item =
  ai_type :: string
  ai_direction :: string
  ai_amount :: "string option"
  ai_asset_id :: "string option"
  ai_counterparty :: "string option"
  ai_payload :: item_json

text \<open>What \<open>serde_json\<close> writes and reads back for the items of an address.\<close>

record item_lib =
  il_items :: "activity_item list \<Rightarrow> string"
  il_read_items :: "string \<Rightarrow> activity_item list option"

definition activity_of :: "string \<Rightarrow> string \<Rightarrow> string option \<Rightarrow> string option \<Rightarrow> string option \<Rightarrow> item_json \<Rightarrow> activity_item" where
  "activity_of t dir amount asset cp p =
     \<lparr>ai_type = t, ai_direction = dir, ai_amount = amount, ai_asset_id = asset, ai_counterparty = cp, ai_payload = p\<rparr>"

definition received_items :: "string \<Rightarrow> string option \<Rightarrow> item_json \<Rightarrow> string \<Rightarrow> tx_output list \<Rightarrow> activity_item list" where
  "received_items t cp p addr outs =
     map (\<lambda>out. activity_of t ''in'' (Some (o_amount out)) (o_asset_id out) cp p) (addressed addr outs)"

definition nameless_items :: "string \<Rightarrow> string option \<Rightarrow> item_json \<Rightarrow> string \<Rightarrow> tx_output list \<Rightarrow> activity_item list" where
  "nameless_items t cp p addr outs =
     map (\<lambda>out. activity_of t ''in'' (Some (o_amount out)) None cp p) (addressed addr outs)"

definition first_asset :: "tx_output list \<Rightarrow> string option" where
  "first_asset outs = (case outs of [] \<Rightarrow> None | out # _ \<Rightarrow> o_asset_id out)"

definition classify_transfer :: "'d dec_lib \<Rightarrow> transaction \<Rightarrow> string \<Rightarrow> string option \<Rightarrow> panic + activity_item list" where
  "classify_transfer D tx addr sender_addr =
     (let outs = tx_outputs tx;
          others = filter (\<lambda>out. o_address out \<noteq> addr) outs;
          is_sender = (sender_addr = Some addr);
          is_receiver = (addressed addr outs \<noteq> []) in
      if is_sender \<and> is_receiver \<and> others = [] then
        rbind (sum_amounts D (addressed addr outs)) (\<lambda>net.
          Inr [activity_of ''transfer_self'' ''info'' (Some (d_show D net)) (first_asset outs) None (TxJson tx)])
      else if is_sender then
        rbind (sum_amounts D others) (\<lambda>sent.
          Inr [activity_of ''transfer_out'' ''out'' (Some (d_show D sent)) (first_asset outs)
                 (case others of [] \<Rightarrow> None | out # _ \<Rightarrow> Some (o_address out)) (TxJson tx)])
      else if is_receiver then
        rbind (sum_amounts D (addressed addr outs)) (\<lambda>received.
          rbind (is_fee_output_only D tx addr) (\<lambda>fee.
            Inr [activity_of (if fee then ''fee_received'' else ''transfer_in'') ''in'' (Some (d_show D received))
                   (first_asset (addressed addr outs)) sender_addr (TxJson tx)]))
      else Inr [])"

definition classify_settlement ::
  "'d dec_lib \<Rightarrow> plain_payload \<Rightarrow> transaction \<Rightarrow> string option \<Rightarrow> string \<Rightarrow> string \<Rightarrow> string \<Rightarrow> string \<Rightarrow> panic + activity_item list" where
  "classify_settlement D plain tx price_asset price seller buyer addr =
     rbind (sum_amounts D (filter (\<lambda>out. o_asset_id out = price_asset) (addressed addr (tx_outputs tx)))) (\<lambda>recv_pay.
       Inr (if addr = buyer then
              [activity_of ''market_buy'' ''out'' (Some price) price_asset (Some seller) (PayloadJson plain)]
            else if addr = seller then
              [activity_of ''market_sell'' ''in'' (Some (d_show D recv_pay)) price_asset (Some buyer) (PayloadJson plain)]
            else if d_lt D (d_zero D) recv_pay then
              [activity_of ''royalty_received'' ''in'' (Some (d_show D recv_pay)) price_asset (Some seller) (PayloadJson plain)]
            else []))"

fun classify_nft :: "nft_action \<Rightarrow> string \<Rightarrow> activity_item list" where
  "classify_nft (NftMint t creator m) addr =
     (if creator = addr then [activity_of ''nft_mint'' ''in'' None None None (NftJson (NftMint t creator m))] else [])"
| "classify_nft (NftTransfer t from_addr to_addr k m) addr =
     (let v = NftJson (NftTransfer t from_addr to_addr k m) in
      if to_addr = addr then [activity_of ''nft_transfer_in'' ''in'' None None (Some from_addr) v]
      else if from_addr = addr then [activity_of ''nft_transfer_out'' ''out'' None None (Some to_addr) v]
      else [])"
| "classify_nft (NftBurn t burner) addr =
     (if burner = addr then [activity_of ''nft_burn'' ''out'' None None None (NftJson (NftBurn t burner))] else [])"
| "classify_nft (NftBatchBurn ts burner) addr =
     (if burner = addr then [activity_of ''nft_burn'' ''out'' None None None (NftJson (NftBatchBurn ts burner))] else [])"
| "classify_nft (NftUse t user a d) addr =
     (if user = addr then [activity_of ''nft_use'' ''info'' None None None (NftJson (NftUse t user a d))] else [])"

fun classify_for_storage :: "'d dec_lib \<Rightarrow> plain_payload \<Rightarrow> string \<Rightarrow> string option \<Rightarrow> panic + activity_item list" where
  "classify_for_storage D (Mint outputs) addr s = Inr (received_items ''mint'' None (PayloadJson (Mint outputs)) addr outputs)"
| "classify_for_storage D (CustodialMint a outputs pk sig nonce) addr s =
     Inr (received_items ''mint'' None (PayloadJson (CustodialMint a outputs pk sig nonce)) addr outputs)"
| "classify_for_storage D (TxUtxo tx) addr s = classify_transfer D tx addr s"
| "classify_for_storage D (Reward fee_outputs reward_outputs e b) addr s =
     (let v = PayloadJson (Reward fee_outputs reward_outputs e b) in
      Inr (nameless_items ''fee_received'' None v addr fee_outputs @ nameless_items ''reward'' None v addr reward_outputs))"
| "classify_for_storage D (NftPayload action) addr s = Inr (classify_nft action addr)"
| "classify_for_storage D (TokenCreate m) addr s =
     Inr (if tm_creator m = addr then [activity_of ''token_create'' ''info'' None (Some (tm_asset_id m)) None (TokenJson m)] else [])"
| "classify_for_storage D (RoyaltyUpdate a bps beneficiary pk sig) addr s =
     Inr (if beneficiary = Some addr
          then [activity_of ''royalty_updated'' ''info'' None (Some a) None (PayloadJson (RoyaltyUpdate a bps beneficiary pk sig))]
          else [])"
| "classify_for_storage D (MarketSettle tx a q price_asset price seller buyer) addr s =
     classify_settlement D (MarketSettle tx a q price_asset price seller buyer) tx price_asset price seller buyer addr"
| "classify_for_storage D (TokenBurn tx asset_id amount owner) addr s =
     Inr (if owner = addr
          then [activity_of ''token_burn'' ''out'' (Some amount) asset_id None (PayloadJson (TokenBurn tx asset_id amount owner))]
          else [])"
| "classify_for_storage D (BridgeLock inputs amount asset_id l dest_address) addr s =
     Inr (if dest_address = addr
          then [activity_of ''bridge_lock_in'' ''in'' (Some amount) asset_id None
                  (PayloadJson (BridgeLock inputs amount asset_id l dest_address))]
          else [])"
| "classify_for_storage D (BridgeMint outputs b l) addr s =
     Inr (received_items ''bridge_mint'' None (PayloadJson (BridgeMint outputs b l)) addr outputs)"
| "classify_for_storage D (Freeze address reason) addr s =
     Inr (if address = addr then [activity_of ''freeze'' ''info'' None None None (ReasonJson reason)] else [])"
| "classify_for_storage D (Unfreeze address reason b) addr s =
     Inr (if address = addr then [activity_of ''unfreeze'' ''info'' None None None (ReasonJson reason)] else [])"
| "classify_for_storage D (Seize from_address inputs outputs reason) addr s =
     rbind (if from_address = addr
            then rbind (sum_amounts D outputs) (\<lambda>t.
                   Inr [activity_of ''seized'' ''out'' (Some (d_show D t)) None None (ReasonJson reason)])
            else Inr []) (\<lambda>seized.
       Inr (seized @ nameless_items ''seize_received'' (Some from_address) (ReasonJson reason) addr outputs))"
| "classify_for_storage D (Reverse b inputs outputs reason) addr s =
     Inr (received_items ''reverse_received'' None (ReasonJson reason) addr outputs)"
| "classify_for_storage D _ addr s = Inr []"

text \<open>The map from address to items, as an association list in the order of the addresses.\<close>

definition precompute_all_items ::
  "'d dec_lib \<Rightarrow> plain_payload \<Rightarrow> string list \<Rightarrow> string option \<Rightarrow> panic + (string \<times> activity_item list) list" where
  "precompute_all_items D plain addrs sender_addr =
     try_fold (\<lambda>m addr. rbind (classify_for_storage D plain addr sender_addr) (\<lambda>items.
       Inr (if items = [] then m else AList.update addr items m))) [] addrs"


subsection \<open>The index\<close>

definition key_addr_activity :: "string \<Rightarrow> 64 word \<Rightarrow> string \<Rightarrow> string" where
  "key_addr_activity addr ts_ms block_id = addr @ [CHR 0x00] @ ts_to_be ts_ms @ block_id"

definition prefix_addr_activity :: "string \<Rightarrow> string" where
  "prefix_addr_activity addr = addr @ [CHR 0x00]"

definition parse_addr_activity_key :: "string \<Rightarrow> nat \<Rightarrow> (64 word \<times> string) option" where
  "parse_addr_activity_key key addr_len =
     (if length key < addr_len + 1 + 8 \<or> key ! addr_len \<noteq> CHR 0x00 then None
      else Some (of_nat (be_value (take 8 (drop (addr_len + 1) key))), drop (addr_len + 9) key))"

definition byte_char :: "u8 \<Rightarrow> char" where
  "byte_char b = char_of (unat b)"

definition key_addr_type_activity :: "string \<Rightarrow> u8 \<Rightarrow> 64 word \<Rightarrow> string \<Rightarrow> string" where
  "key_addr_type_activity addr cat ts_ms block_id = addr @ [CHR 0x00] @ [byte_char cat] @ ts_to_be ts_ms @ block_id"

definition prefix_addr_type_activity :: "string \<Rightarrow> u8 \<Rightarrow> string" where
  "prefix_addr_type_activity addr cat = addr @ [CHR 0x00] @ [byte_char cat]"

definition parse_addr_type_activity_key :: "string \<Rightarrow> nat \<Rightarrow> (u8 \<times> 64 word \<times> string) option" where
  "parse_addr_type_activity_key key addr_len =
     (if length key < addr_len + 1 + 1 + 8 \<or> key ! addr_len \<noteq> CHR 0x00 then None
      else Some (of_nat (of_char (key ! (addr_len + 1))), of_nat (be_value (take 8 (drop (addr_len + 2) key))), drop (addr_len + 10) key))"

lemma parse_addr_key: "parse_addr_activity_key (key_addr_activity addr ts i) (length addr) = Some (ts, i)"
  by (simp add: parse_addr_activity_key_def key_addr_activity_def nth_append) (simp add: ts_to_be_def word_of_bytes)

lemma of_byte_char: "word_of_nat (of_char (byte_char b)) = (b :: u8)"
proof -
  have "unat b < 256" by (rule less_le_trans [OF unsigned_less]) simp
  then show ?thesis by (simp add: byte_char_def)
qed

lemma parse_addr_type_key:
  "parse_addr_type_activity_key (key_addr_type_activity addr cat ts i) (length addr) = Some (cat, ts, i)"
  by (simp add: parse_addr_type_activity_key_def key_addr_type_activity_def nth_append of_byte_char)
    (simp add: ts_to_be_def word_of_bytes)

definition parsed_plain :: "wire_lib \<Rightarrow> stored_block \<Rightarrow> plain_payload option" where
  "parsed_plain W b =
     (case sb_payload_json b of
        None \<Rightarrow> None
      | Some pjson \<Rightarrow> (case wl_parse_payload W pjson of Inr (Plain plain) \<Rightarrow> Some plain | _ \<Rightarrow> None))"

definition item_ops :: "item_lib \<Rightarrow> (string \<times> activity_item list) list \<Rightarrow> 64 word \<Rightarrow> string \<Rightarrow> batch_op list" where
  "item_ops L items_map ts block_id =
     map (\<lambda>(addr, items). Put ActivityItems (key_addr_activity addr ts block_id) (il_items L items))
       (filter (\<lambda>(_, items). items \<noteq> []) items_map)"

definition apply_addr_activity_indices ::
  "'d dec_lib \<Rightarrow> item_lib \<Rightarrow> wire_lib \<Rightarrow> stored_block \<Rightarrow> 64 word \<Rightarrow> (string \<times> activity_item list) list option
   \<Rightarrow> panic + batch_op list" where
  "apply_addr_activity_indices D L W b ts precomputed =
     (case parsed_plain W b of
        None \<Rightarrow> Inr []
      | Some plain \<Rightarrow>
          (let addrs = extract_involved_addresses plain in
           rbind (involved_with_category D plain) (\<lambda>typed.
             rbind (case precomputed of
                      Some items_map \<Rightarrow> Inr items_map
                    | None \<Rightarrow> precompute_all_items D plain addrs None) (\<lambda>items_map.
               Inr (map (\<lambda>addr. Put AddrActivity (key_addr_activity addr ts (sb_id b)) []) addrs @
                    map (\<lambda>(addr, cat). Put AddrTypeActivity (key_addr_type_activity addr (as_byte cat) ts (sb_id b)) []) typed @
                    item_ops L items_map ts (sb_id b))))))"

text \<open>\<open>write\<close> is the error of the write of the batch, if any.\<close>

definition append_activity_batch ::
  "'d dec_lib \<Rightarrow> item_lib \<Rightarrow> wire_lib \<Rightarrow> string option \<Rightarrow> (stored_block \<times> 64 word) list \<Rightarrow> database
   \<Rightarrow> panic + (string + nat) \<times> database" where
  "append_activity_batch D L W write blocks db =
     rbind (try_map (\<lambda>(b, ts). apply_addr_activity_indices D L W b ts None) blocks) (\<lambda>opss.
       Inr (if blocks = [] then (Inr 0, db)
            else (case write of Some e \<Rightarrow> (Inl e, db) | None \<Rightarrow> (Inr (length blocks), db_write (concat opss) db))))"

definition write_activity_entries ::
  "item_lib \<Rightarrow> string option \<Rightarrow> string \<Rightarrow> string list \<Rightarrow> (string \<times> activity_category) list
   \<Rightarrow> (string \<times> activity_item list) list option \<Rightarrow> 64 word \<Rightarrow> database \<Rightarrow> (string + unit) \<times> database" where
  "write_activity_entries L write block_id addresses typed precomputed_items ts db =
     (if addresses = [] \<and> typed = [] then (Inr (), db)
      else (case write of
          Some e \<Rightarrow> (Inl e, db)
        | None \<Rightarrow> (Inr (), db_write
            (map (\<lambda>addr. Put AddrActivity (key_addr_activity addr ts block_id) []) addresses @
             map (\<lambda>(addr, cat). Put AddrTypeActivity (key_addr_type_activity addr (as_byte cat) ts block_id) []) typed @
             (case precomputed_items of None \<Rightarrow> [] | Some items_map \<Rightarrow> item_ops L items_map ts block_id)) db)))"

subsection \<open>Pages\<close>

text \<open>
  A reverse iterator gives the entries from a key downwards, or from the end. The cursor of a page is the time and
  identifier of its last block, with whether there is more. Errors of the iterator are left out.
\<close>

type_synonym page = "string list \<times> (64 word \<times> string \<times> bool) option"

definition reverse_from :: "string \<Rightarrow> 'v cf \<Rightarrow> string list" where
  "reverse_from seek m = rev (filter (\<lambda>k. k \<le> seek) (map fst m))"

definition id2ts_cursor :: "faults \<Rightarrow> database \<Rightarrow> string list \<Rightarrow> bool \<Rightarrow> (64 word \<times> string \<times> bool) option" where
  "id2ts_cursor F db shown has_more =
     (if shown = [] then None
      else (case db_get F db Id2ts ''id2ts'' (last shown) of
          Inr (Some v) \<Rightarrow> if length v = 8 then Some (of_nat (be_value v), last shown, has_more) else None
        | _ \<Rightarrow> None))"

definition recent_ids_by_time :: "faults \<Rightarrow> database \<Rightarrow> (64 word) option \<Rightarrow> string option \<Rightarrow> nat \<Rightarrow> page" where
  "recent_ids_by_time F db after_ts after_id limit =
     (let keys = (case (after_ts, after_id) of
                    (Some ts, Some i) \<Rightarrow> reverse_from (key_time_index ts i) (db ByTime)
                  | _ \<Rightarrow> rev (map fst (db ByTime)));
          after_cursor = (after_ts \<noteq> None \<and> after_id \<noteq> None);
          first = (if after_cursor then (case keys of
                       [] \<Rightarrow> []
                     | k # _ \<Rightarrow> (case parse_time_index_key k of
                           None \<Rightarrow> []
                         | Some (_, kid) \<Rightarrow> if Some kid \<noteq> after_id then [kid] else [])) else []);
          rest = (if after_cursor then tl keys else keys);
          found = take (limit + 1) (first @ map snd (List.map_filter parse_time_index_key rest));
          has_more = limit < length found;
          shown = (if has_more then butlast found else found) in
      (shown, id2ts_cursor F db shown has_more))"

definition address_keys :: "database \<Rightarrow> column \<Rightarrow> string \<Rightarrow> string \<Rightarrow> string list" where
  "address_keys db c prefix seek = takeWhile (starts_with prefix) (reverse_from seek (db c))"

text \<open>The exact entry of the cursor is skipped when it comes first.\<close>

definition skip_cursor :: "(64 word) option \<Rightarrow> string option \<Rightarrow> (64 word \<times> string) list \<Rightarrow> (64 word \<times> string) list" where
  "skip_cursor after_ts after_id es =
     (if after_ts = None \<or> after_id = None then es
      else (case es of
          (ts, i) # r \<Rightarrow> if Some ts = after_ts \<and> Some i = after_id then r else es
        | [] \<Rightarrow> []))"

definition address_entries :: "database \<Rightarrow> string \<Rightarrow> (64 word) option \<Rightarrow> string option \<Rightarrow> (64 word \<times> string) list" where
  "address_entries db addr after_ts after_id =
     (let seek = (case (after_ts, after_id) of
                    (Some ts, Some i) \<Rightarrow> key_addr_activity addr ts i
                  | _ \<Rightarrow> addr @ [CHR 0x01]) in
      skip_cursor after_ts after_id
        (List.map_filter (\<lambda>k. parse_addr_activity_key k (length addr))
          (address_keys db AddrActivity (prefix_addr_activity addr) seek)))"

definition recent_ids_by_address :: "faults \<Rightarrow> database \<Rightarrow> string \<Rightarrow> (64 word) option \<Rightarrow> string option \<Rightarrow> nat \<Rightarrow> page" where
  "recent_ids_by_address F db addr after_ts after_id limit =
     (let found = take (limit + 1) (map snd (address_entries db addr after_ts after_id));
          has_more = limit < length found;
          shown = (if has_more then butlast found else found) in
      (shown, if has_more then id2ts_cursor F db shown True else None))"

definition recent_activity_items_by_address ::
  "faults \<Rightarrow> item_lib \<Rightarrow> database \<Rightarrow> string \<Rightarrow> (64 word) option \<Rightarrow> string option \<Rightarrow> nat
   \<Rightarrow> (string \<times> 64 word \<times> activity_item list option) list \<times> (64 word \<times> string \<times> bool) option" where
  "recent_activity_items_by_address F L db addr after_ts after_id limit =
     (let found = take (limit + 1) (address_entries db addr after_ts after_id);
          has_more = limit < length found;
          shown = (if has_more then butlast found else found);
          stored = (\<lambda>ts i. case db_get F db ActivityItems ''activity_items'' (key_addr_activity addr ts i) of
              Inr (Some v) \<Rightarrow> il_read_items L v
            | _ \<Rightarrow> None) in
      (map (\<lambda>(ts, i). (i, ts, stored ts i)) shown,
       if has_more \<and> shown \<noteq> [] then Some (fst (last shown), snd (last shown), True) else None))"


subsection \<open>Pages by category\<close>

definition typed_seek :: "string \<Rightarrow> u8 \<Rightarrow> (64 word) option \<Rightarrow> string option \<Rightarrow> string" where
  "typed_seek addr cat after_ts after_id =
     (case (after_ts, after_id) of
        (Some ts, Some i) \<Rightarrow> key_addr_type_activity addr cat ts i
      | _ \<Rightarrow> addr @ [CHR 0x00] @ [byte_char (cat + 1)])"

definition typed_entries :: "database \<Rightarrow> string \<Rightarrow> u8 \<Rightarrow> (64 word) option \<Rightarrow> string option \<Rightarrow> (64 word \<times> string) list" where
  "typed_entries db addr cat after_ts after_id =
     map snd (List.map_filter (\<lambda>k. parse_addr_type_activity_key k (length addr))
       (address_keys db AddrTypeActivity (prefix_addr_type_activity addr cat) (typed_seek addr cat after_ts after_id)))"

text \<open>
  The merge of several categories. Each iterator is the list of its remaining entries, its head the current one; the
  first advance passes over the entries equal to the cursor.
\<close>

fun advance_past :: "(64 word) option \<Rightarrow> string option \<Rightarrow> (64 word \<times> string) list \<Rightarrow> (64 word \<times> string) list" where
  "advance_past skip_ts skip_id [] = []"
| "advance_past skip_ts skip_id ((ts, i) # es) =
     (if Some ts = skip_ts \<and> Some i = skip_id then advance_past skip_ts skip_id es else (ts, i) # es)"

definition entry_le :: "64 word \<times> string \<Rightarrow> 64 word \<times> string \<Rightarrow> bool" where
  "entry_le a b \<longleftrightarrow> sint (fst a) < sint (fst b) \<or> sint (fst a) = sint (fst b) \<and> snd a \<le> snd b"

text \<open>\<open>max_by\<close> answers the last of the greatest elements.\<close>

fun best_iter :: "nat \<Rightarrow> (64 word \<times> string) list list \<Rightarrow> (nat \<times> (64 word \<times> string)) option" where
  "best_iter n [] = None"
| "best_iter n (it # its) =
     (case best_iter (n + 1) its of
        None \<Rightarrow> (case it of [] \<Rightarrow> None | e # _ \<Rightarrow> Some (n, e))
      | Some (m, b) \<Rightarrow> (case it of [] \<Rightarrow> Some (m, b) | e # _ \<Rightarrow> if entry_le e b then Some (m, b) else Some (n, e)))"

definition swap_remove :: "nat \<Rightarrow> 'a list \<Rightarrow> 'a list" where
  "swap_remove i xs = butlast (xs[i := last xs])"

fun merge_iters :: "nat \<Rightarrow> (64 word \<times> string) list list \<Rightarrow> (64 word \<times> string) list" where
  "merge_iters 0 its = []"
| "merge_iters (Suc n) its =
     (case best_iter 0 its of
        None \<Rightarrow> []
      | Some (i, e) \<Rightarrow>
          e # merge_iters n (if tl (its ! i) = [] then swap_remove i its else its[i := tl (its ! i)]))"

definition finalize_ids_cursor ::
  "(64 word \<times> string) list \<Rightarrow> nat \<Rightarrow> (64 word \<times> string) list \<times> (64 word \<times> string \<times> bool) option" where
  "finalize_ids_cursor found limit =
     (let has_more = limit < length found;
          shown = (if has_more then butlast found else found) in
      (shown, if has_more \<and> shown \<noteq> [] then Some (fst (last shown), snd (last shown), True) else None))"

definition recent_ids_with_ts_by_address_and_categories ::
  "database \<Rightarrow> string \<Rightarrow> u8 list \<Rightarrow> (64 word) option \<Rightarrow> string option \<Rightarrow> nat
   \<Rightarrow> (64 word \<times> string) list \<times> (64 word \<times> string \<times> bool) option" where
  "recent_ids_with_ts_by_address_and_categories db addr categories after_ts after_id limit =
     (case categories of
        [] \<Rightarrow> ([], None)
      | [cat] \<Rightarrow>
          finalize_ids_cursor
            (take (limit + 1) (skip_cursor after_ts after_id (typed_entries db addr cat after_ts after_id))) limit
      | _ \<Rightarrow>
          finalize_ids_cursor
            (merge_iters (limit + 1)
              (filter (\<lambda>it. it \<noteq> [])
                (map (\<lambda>cat. (if after_ts = None \<or> after_id = None then (\<lambda>es. es) else advance_past after_ts after_id)
                    (typed_entries db addr cat after_ts after_id)) categories))) limit)"

definition recent_ids_by_address_and_categories ::
  "database \<Rightarrow> string \<Rightarrow> u8 list \<Rightarrow> (64 word) option \<Rightarrow> string option \<Rightarrow> nat \<Rightarrow> page" where
  "recent_ids_by_address_and_categories db addr categories after_ts after_id limit =
     (let (found, next_cursor) = recent_ids_with_ts_by_address_and_categories db addr categories after_ts after_id limit in
      (map snd found, next_cursor))"


subsection \<open>The merge of the categories\<close>

lemma entry_le_trans: "entry_le a b \<Longrightarrow> entry_le b c \<Longrightarrow> entry_le a c"
  by (auto simp: entry_le_def)

lemma entry_le_refl [simp]: "entry_le a a"
  by (simp add: entry_le_def)

lemma entry_le_total: "entry_le a b \<or> entry_le b a"
  by (auto simp: entry_le_def)

abbreviation newest_first :: "(64 word \<times> string) list \<Rightarrow> bool" where
  "newest_first \<equiv> sorted_wrt (\<lambda>a b. entry_le b a)"

lemma best_iter_None: "best_iter n its = None \<longleftrightarrow> (\<forall>it\<in>set its. it = [])"
proof (induction its arbitrary: n)
  case (Cons it its)
  then show ?case using Cons.IH [of "n + 1"] by (cases "best_iter (n + 1) its"; cases it) auto
qed simp

lemma best_iter_Some:
  "best_iter n its = Some (i, e) \<Longrightarrow>
    n \<le> i \<and> i < n + length its \<and> (\<exists>r. its ! (i - n) = e # r) \<and> (\<forall>it\<in>set its. it \<noteq> [] \<longrightarrow> entry_le (hd it) e)"
proof (induction its arbitrary: n i e)
  case (Cons it its)
  show ?case
  proof (cases "best_iter (n + 1) its")
    case None
    then have "\<forall>it\<in>set its. it = []" by (simp add: best_iter_None)
    moreover have "entry_le e e" using entry_le_total by blast
    ultimately show ?thesis using Cons.prems None by (cases it) auto
  next
    case (Some p)
    obtain m b where p: "p = (m, b)" by (rule prod.exhaust)
    note ih = Cons.IH [of "n + 1" m b, unfolded p [symmetric], OF Some]
    show ?thesis
    proof (cases "i = n \<and> it \<noteq> [] \<and> e = hd it \<and> \<not> entry_le e b")
      case True
      then have "entry_le b e" "entry_le e e" using entry_le_total by blast+
      then show ?thesis using True ih by (cases it) (auto intro: entry_le_trans)
    next
      case False
      then have "i = m" "e = b" "it \<noteq> [] \<longrightarrow> entry_le (hd it) e"
        using Cons.prems Some p by (cases it; auto split: if_splits)+
      moreover have "n + 1 \<le> m" using ih by blast
      then have "i - n = Suc (i - (n + 1))" using \<open>i = m\<close> by simp
      ultimately show ?thesis using ih by auto
    qed
  qed
qed simp

definition all_entries :: "(64 word \<times> string) list list \<Rightarrow> (64 word \<times> string) multiset" where
  "all_entries its = (\<Sum>it\<in>#mset its. mset it)"

lemma mset_swap_remove:
  assumes "i < length xs"
  shows "add_mset (xs ! i) (mset (swap_remove i xs)) = mset xs"
proof -
  let ?ys = "xs[i := last xs]"
  have ne: "?ys \<noteq> []" "xs \<noteq> []" using assms by auto
  have "last ?ys = last xs" using ne(2) assms by (simp add: last_conv_nth nth_list_update)
  moreover have "mset ?ys = add_mset (last ?ys) (mset (butlast ?ys))"
    using ne(1) by (metis append_butlast_last_id mset.simps(2) mset_append union_mset_add_mset_right add.right_neutral mset.simps(1))
  ultimately have "add_mset (last xs) (mset (swap_remove i xs)) = add_mset (last xs) (mset xs - {#xs ! i#})"
    using assms by (simp add: swap_remove_def mset_update)
  then show ?thesis using assms by simp
qed

lemma all_entries_step:
  assumes "i < length its" "its ! i = e # r"
  shows "all_entries its =
    add_mset e (all_entries (if r = [] then swap_remove i its else its[i := r]))"
proof (cases "r = []")
  case True
  then have "mset its = add_mset [e] (mset (swap_remove i its))" using mset_swap_remove [OF assms(1)] assms(2) by simp
  then show ?thesis using True by (simp add: all_entries_def)
next
  case False
  have "mset its = add_mset (e # r) (mset its - {#its ! i#})" using assms by (metis insert_DiffM nth_mem set_mset_mset)
  moreover have "mset (its[i := r]) = add_mset r (mset its - {#its ! i#})" using assms(1) by (simp add: mset_update)
  ultimately have "all_entries its = mset (e # r) + (\<Sum>it\<in>#mset its - {#its ! i#}. mset it)"
    "all_entries (its[i := r]) = mset r + (\<Sum>it\<in>#mset its - {#its ! i#}. mset it)"
    by (metis all_entries_def image_mset_add_mset sum_mset.add_mset)+
  then show ?thesis using False by simp
qed

lemma set_swap_remove: "i < length xs \<Longrightarrow> set (swap_remove i xs) \<subseteq> set xs"
  by (metis mset_swap_remove set_mset_mset set_mset_add_mset_insert subset_insertI)

lemma in_all_entries: "x \<in># all_entries its \<longleftrightarrow> (\<exists>it\<in>set its. x \<in> set it)"
  by (simp add: all_entries_def)

lemma merge_iters_newest:
  assumes "\<forall>it\<in>set its. it \<noteq> [] \<and> newest_first it"
  shows "\<exists>rest. mset (merge_iters n its) + rest = all_entries its \<and> newest_first (merge_iters n its) \<and>
    (\<forall>x\<in>set (merge_iters n its). \<forall>y\<in>#rest. entry_le y x) \<and> (length (merge_iters n its) = n \<or> rest = {#})"
  using assms
proof (induction n arbitrary: its)
  case (Suc n)
  show ?case
  proof (cases "best_iter 0 its")
    case None
    then have "all_entries its = {#}" by (auto simp: best_iter_None all_entries_def)
    then show ?thesis using None by simp
  next
    case (Some p)
    obtain i e where p: "p = (i, e)" by (rule prod.exhaust)
    obtain r where i: "i < length its" "its ! i = e # r" and top: "\<forall>it\<in>set its. it \<noteq> [] \<longrightarrow> entry_le (hd it) e"
      using best_iter_Some [of 0 its i e] Some p by auto
    let ?next = "if r = [] then swap_remove i its else its[i := r]"
    have it: "e # r \<in> set its" using i by (metis nth_mem)
    have "newest_first r" using Suc.prems it by auto
    then have ok: "\<forall>it\<in>set ?next. it \<noteq> [] \<and> newest_first it"
      using Suc.prems set_swap_remove [OF i(1)] set_update_subset_insert [of its i r] by auto
    obtain rest where rest: "mset (merge_iters n ?next) + rest = all_entries ?next" "newest_first (merge_iters n ?next)"
      "\<forall>x\<in>set (merge_iters n ?next). \<forall>y\<in>#rest. entry_le y x" "length (merge_iters n ?next) = n \<or> rest = {#}"
      using Suc.IH [OF ok] by blast
    have le: "entry_le y e" if "y \<in># all_entries its" for y
    proof -
      obtain it where it: "it \<in> set its" "y \<in> set it" using \<open>y \<in># all_entries its\<close> by (auto simp: in_all_entries)
      then obtain h t where "it = h # t" by (metis empty_iff list.exhaust list.set(1))
      moreover have "entry_le y h" using it Suc.prems calculation entry_le_total by auto
      ultimately show ?thesis using top it(1) by (metis entry_le_trans list.sel(1) list.distinct(1))
    qed
    have m: "merge_iters (Suc n) its = e # merge_iters n ?next" using Some p i by simp
    have all: "all_entries its = add_mset e (all_entries ?next)" by (rule all_entries_step [OF i])
    have below: "entry_le y e" if "y \<in># mset (merge_iters n ?next) + rest" for y
      using le that all rest(1) by simp
    show ?thesis
    proof (intro exI conjI)
      show "mset (merge_iters (Suc n) its) + rest = all_entries its" using m all rest(1) by simp
      show "newest_first (merge_iters (Suc n) its)" using m rest(2) below by simp
      show "\<forall>x\<in>set (merge_iters (Suc n) its). \<forall>y\<in>#rest. entry_le y x" using m rest(3) below by simp
      show "length (merge_iters (Suc n) its) = Suc n \<or> rest = {#}" using m rest(4) by simp
    qed
  qed
qed simp

lemma merge_iters_length: "length (merge_iters n its) \<le> n"
  by (induction n its rule: merge_iters.induct) (auto split: option.split)

text \<open>The keys of one prefix are in the order of their entries, as long as the times are not negative.\<close>

lemma digit_bound:
  assumes "c < d" "b < x"
  shows "c * x + b < d * (x :: nat)"
proof -
  have "(c + 1) * x \<le> d * x" using assms(1) by (intro mult_le_mono1) simp
  then show ?thesis using assms(2) by simp
qed

lemma be_value_bound: "be_value s < 256 ^ length s"
proof (induction s)
  case (Cons c s)
  have "of_char c < (256::nat)" by simp
  then show ?case using digit_bound [OF _ Cons] by simp
qed simp

lemma be_value_less: "length a = length b \<Longrightarrow> a < b \<Longrightarrow> be_value a < be_value b"
proof (induction a b rule: list_induct2)
  case (Cons x xs y ys)
  show ?case
  proof (cases "x = y")
    case False
    then have "of_char x < (of_char y :: nat)" using Cons.prems by (auto simp: less_char_def)
    then show ?thesis using digit_bound [OF _ be_value_bound [of xs]] Cons.hyps by (fastforce intro: trans_less_add1)
  qed (use Cons in simp)
qed simp

lemma typed_key_order:
  assumes "starts_with (prefix_addr_type_activity addr cat) k" "starts_with (prefix_addr_type_activity addr cat) k'" "k' < k"
    and "parse_addr_type_activity_key k (length addr) = Some (c, e)" "parse_addr_type_activity_key k' (length addr) = Some (c', e')"
    and "0 \<le> sint (fst e)" "0 \<le> sint (fst e')"
  shows "entry_le e' e"
proof -
  let ?p = "prefix_addr_type_activity addr cat"
  have len: "length ?p = length addr + 2" by (simp add: prefix_addr_type_activity_def)
  obtain d d' where k: "k = ?p @ d" "k' = ?p @ d'"
    using assms(1,2) unfolding starts_with_def by (metis append_take_drop_id)
  have d: "8 \<le> length d" "8 \<le> length d'" using assms(4,5) k len by (auto simp: parse_addr_type_activity_key_def split: if_splits)
  have e: "e = (of_nat (be_value (take 8 d)), drop 8 d)" "e' = (of_nat (be_value (take 8 d')), drop 8 d')"
    using assms(4,5) k len by (auto simp: parse_addr_type_activity_key_def prefix_addr_type_activity_def split: if_splits)
  have less: "take 8 d' @ drop 8 d' < take 8 d @ drop 8 d" using assms(3) k by (simp add: prefix_same)
  show ?thesis
  proof (cases "take 8 d' = take 8 d")
    case True
    then have "drop 8 d' < drop 8 d" using less by (metis prefix_same)
    then show ?thesis using True e by (simp add: entry_le_def)
  next
    case False
    have l: "length (take 8 d') = length (take 8 d)" using d by simp
    have "take 8 d' < take 8 d" using False less prefix_less [OF l [symmetric]] by (meson less_asym linorder_cases)
    then have "be_value (take 8 d') < be_value (take 8 d)" by (rule be_value_less [OF l])
    moreover have "be_value (take 8 d) < 2 ^ 64" using be_value_bound [of "take 8 d"] d by (simp add: min_absorb2)
    ultimately have "fst e' < fst e" using e by (simp add: word_less_nat_alt unat_of_nat)
    then have "uint (fst e') < uint (fst e)" by (simp add: word_less_def)
    moreover have "sint w = uint w" if "0 \<le> sint w" for w :: "64 word"
      using that sint_less [of w] by (simp add: uint_sint take_bit_int_eq_self)
    ultimately show ?thesis using assms(6,7) by (simp add: entry_le_def)
  qed
qed

definition below_cursor :: "database \<Rightarrow> string \<Rightarrow> (64 word) option \<Rightarrow> string option \<Rightarrow> u8 \<Rightarrow> (64 word \<times> string) list" where
  "below_cursor db addr after_ts after_id cat =
     (if after_ts = None \<or> after_id = None then typed_entries db addr cat after_ts after_id
      else advance_past after_ts after_id (typed_entries db addr cat after_ts after_id))"

lemma advance_past_suffix: "\<exists>p. es = p @ advance_past ts i es"
proof (induction ts i es rule: advance_past.induct)
  case (2 ts' i' ts i es)
  then show ?case by (cases "Some ts = ts' \<and> Some i = i'") (auto intro: exI [of _ "(ts, i) # _"])
qed simp

lemma sorted_map_filter:
  assumes "sorted_wrt P ks" "\<And>k k' e e'. k \<in> set ks \<Longrightarrow> k' \<in> set ks \<Longrightarrow> P k k' \<Longrightarrow> f k = Some e \<Longrightarrow> f k' = Some e' \<Longrightarrow> Q e e'"
  shows "sorted_wrt Q (List.map_filter f ks)"
  using assms
proof (induction ks)
  case (Cons k ks)
  have "sorted_wrt Q (List.map_filter f ks)" by (rule Cons.IH) (use Cons.prems in auto)
  moreover have "Q e e'" if first: "f k = Some e" and later: "e' \<in> set (List.map_filter f ks)" for e e'
  proof -
    obtain k' where k': "k' \<in> set ks" "f k' = Some e'" using later by (auto simp: List.map_filter_def)
    then show ?thesis using Cons.prems(1) first by (intro Cons.prems(2) [of k k']) auto
  qed
  ultimately show ?case by (auto simp: map_filter_simps split: option.split)
qed (simp add: map_filter_simps)

lemma typed_entries_newest_first:
  assumes "cf_ok (db AddrTypeActivity)" "\<forall>e\<in>set (typed_entries db addr cat after_ts after_id). 0 \<le> sint (fst e)"
  shows "newest_first (typed_entries db addr cat after_ts after_id)"
proof -
  let ?ks = "address_keys db AddrTypeActivity (prefix_addr_type_activity addr cat) (typed_seek addr cat after_ts after_id)"
  let ?parse = "\<lambda>k. parse_addr_type_activity_key k (length addr)"
  have "sorted_wrt (>) (rev (filter (\<lambda>k. k \<le> typed_seek addr cat after_ts after_id) (map fst (db AddrTypeActivity))))"
    using assms(1) by (simp add: cf_ok_def sorted_wrt_rev sorted_wrt_filter)
  then have desc: "sorted_wrt (>) ?ks"
    unfolding address_keys_def reverse_from_def by (metis sorted_wrt_append takeWhile_dropWhile_id)
  have pre: "starts_with (prefix_addr_type_activity addr cat) k" if "k \<in> set ?ks" for k
    using that by (auto simp: address_keys_def dest: set_takeWhileD)
  have nonneg: "0 \<le> sint (fst e)" if "k \<in> set ?ks" "?parse k = Some (c, e)" for k c e
    using that assms(2) by (force simp: typed_entries_def List.map_filter_def)
  have "sorted_wrt (\<lambda>p p'. entry_le (snd p') (snd p)) (List.map_filter ?parse ?ks)"
  proof (rule sorted_map_filter [OF desc])
    fix k k' p p'
    assume k: "k \<in> set ?ks" "k' \<in> set ?ks" "k' < k" and parse: "?parse k = Some p" "?parse k' = Some p'"
    obtain c e c' e' where p: "p = (c, e)" "p' = (c', e')" by (metis prod.exhaust)
    have "entry_le e' e"
      by (rule typed_key_order [OF pre [OF k(1)] pre [OF k(2)] k(3)]) (use parse p nonneg k in auto)
    then show "entry_le (snd p') (snd p)" by (simp add: p)
  qed
  then show ?thesis by (simp add: typed_entries_def sorted_wrt_map)
qed


lemma ts_bytes_small:
  "ts_to_be 5 = map char_of [0, 0, 0, 0, 0, 0, 0, 5 :: nat]" "ts_to_be 10 = map char_of [0, 0, 0, 0, 0, 0, 0, 10 :: nat]"
  by (simp_all add: ts_to_be_def be_bytes_8)

definition sample_typed :: database where
  "sample_typed c =
     (case c of
        AddrTypeActivity \<Rightarrow> map (\<lambda>(cat, ts, i). (key_addr_type_activity ''m'' cat ts i, [])) [(1, 5, ''x''), (2, 10, ''y'')]
      | _ \<Rightarrow> [])"

lemma sample_typed_entries:
  "typed_entries sample_typed ''m'' 1 None None = [(5, ''x'')]" "typed_entries sample_typed ''m'' 2 None None = [(10, ''y'')]"
  by (simp_all add: typed_entries_def address_keys_def reverse_from_def sample_typed_def key_addr_type_activity_def typed_seek_def
      prefix_addr_type_activity_def byte_char_def ts_bytes_small starts_with_def less_char_def less_eq_char_def
      parse_addr_type_activity_key_def map_filter_simps)


subsection \<open>Following the cursor\<close>

text \<open>The index by time of a store whose blocks have one entry each, at the time the other index gives them.\<close>

definition time_indexed :: "database \<Rightarrow> bool" where
  "time_indexed db \<longleftrightarrow> db_ok db \<and>
     (\<forall>k\<in>fst ` set (db ByTime). \<exists>ts i. k = key_time_index ts i \<and> i \<noteq> [] \<and> col_get db Id2ts i = Some (ts_to_be ts))"

definition index_entries :: "database \<Rightarrow> (64 word \<times> string) list" where
  "index_entries db = List.map_filter parse_time_index_key (map fst (db ByTime))"

text \<open>A reader that asks for the next page as long as it is told that there is more.\<close>

fun time_pages :: "nat \<Rightarrow> database \<Rightarrow> nat \<Rightarrow> (64 word \<times> string) option \<Rightarrow> string list list" where
  "time_pages n db limit cursor =
     (let (ids, next_cursor) = recent_ids_by_time no_faults db (map_option fst cursor) (map_option snd cursor) limit in
      ids # (case (n, next_cursor) of (Suc m, Some (ts, i, True)) \<Rightarrow> time_pages m db limit (Some (ts, i)) | _ \<Rightarrow> []))"

declare time_pages.simps [simp del]

lemma key_time_less: "ts < ts' \<or> ts = ts' \<and> i < i' \<Longrightarrow> key_time_index ts i < key_time_index ts' i'"
  unfolding key_time_index_def
proof (elim disjE conjE)
  assume "ts < ts'"
  then show "ts_to_be ts @ [CHR 0x00] @ i < ts_to_be ts' @ [CHR 0x00] @ i'" by (intro prefix_less ts_to_be_less) simp_all
next
  assume "ts = ts'" "i < i'"
  then show "ts_to_be ts @ [CHR 0x00] @ i < ts_to_be ts' @ [CHR 0x00] @ i'" by (simp only: prefix_same)
qed

definition time_keys :: "(64 word \<times> string) list \<Rightarrow> string list" where
  "time_keys es = map (\<lambda>(ts, i). key_time_index ts i) es"

lemma parse_time_keys: "\<forall>(ts, i)\<in>set es. i \<noteq> [] \<Longrightarrow> List.map_filter parse_time_index_key (time_keys es) = es"
  by (induction es) (auto simp: time_keys_def map_filter_simps)

lemma reverse_from_entry:
  assumes "sorted_wrt (>) (ks @ k # rest)" "rev (map fst m) = ks @ k # rest"
  shows "reverse_from k m = k # rest"
proof -
  have "reverse_from k m = filter (\<lambda>x. x \<le> k) (ks @ k # rest)"
    using assms(2) by (simp add: reverse_from_def rev_filter)
  moreover have "filter (\<lambda>x. x \<le> k) ks = []" using assms(1) by (auto simp: sorted_wrt_append filter_empty_conv)
  moreover have "filter (\<lambda>x. x \<le> k) rest = rest" using assms(1) by (auto simp: sorted_wrt_append filter_id_conv)
  ultimately show ?thesis by simp
qed

lemma time_indexed_entries:
  assumes "time_indexed db"
  obtains "rev (map fst (db ByTime)) = time_keys (rev (index_entries db))" "sorted_wrt (>) (rev (map fst (db ByTime)))"
    "\<forall>(ts, i)\<in>set (rev (index_entries db)). i \<noteq> [] \<and> col_get db Id2ts i = Some (ts_to_be ts)"
proof -
  have keys: "\<exists>ts i. k = key_time_index ts i \<and> i \<noteq> [] \<and> col_get db Id2ts i = Some (ts_to_be ts)" if "k \<in> set (map fst (db ByTime))" for k
    using that assms by (auto simp: time_indexed_def)
  define ks where "ks = map fst (db ByTime)"
  have "\<forall>k\<in>set ks. \<exists>ts i. k = key_time_index ts i \<and> i \<noteq> [] \<and> col_get db Id2ts i = Some (ts_to_be ts)"
    using keys by (simp add: ks_def)
  then have "ks = time_keys (List.map_filter parse_time_index_key ks) \<and>
      (\<forall>(ts, i)\<in>set (List.map_filter parse_time_index_key ks). i \<noteq> [] \<and> col_get db Id2ts i = Some (ts_to_be ts))"
    by (induction ks) (auto simp: time_keys_def map_filter_simps)
  moreover have "sorted_wrt (>) (rev ks)"
    using assms by (simp add: time_indexed_def db_ok_def cf_ok_def ks_def sorted_wrt_rev)
  ultimately show thesis by (intro that) (auto simp: index_entries_def ks_def time_keys_def rev_map [symmetric])
qed

lemma time_page:
  assumes "time_indexed db" "rev (index_entries db) = seen @ es" "0 < limit"
    and "cursor = (if seen = [] then None else Some (last seen))"
  shows "recent_ids_by_time no_faults db (map_option fst cursor) (map_option snd cursor) limit =
    (map snd (take limit es),
     if es = [] then None else Some (fst (last (take limit es)), snd (last (take limit es)), limit < length es))"
proof -
  have keys: "rev (map fst (db ByTime)) = time_keys (seen @ es)" "sorted_wrt (>) (rev (map fst (db ByTime)))"
    and ids: "\<forall>(ts, i)\<in>set (seen @ es). i \<noteq> [] \<and> col_get db Id2ts i = Some (ts_to_be ts)"
    by (rule time_indexed_entries [OF assms(1)]; simp only: assms(2))+
  have parse: "List.map_filter parse_time_index_key (time_keys es) = es" by (rule parse_time_keys) (use ids in auto)
  let ?found = "take (limit + 1) (map snd es)"
  have shown: "(if limit < length ?found then butlast ?found else ?found) = map snd (take limit es)"
    by (auto simp: map_butlast [symmetric] butlast_take take_map)
  have cursor: "id2ts_cursor no_faults db (map snd (take limit es)) more =
      (if es = [] then None else Some (fst (last (take limit es)), snd (last (take limit es)), more))" for more
  proof (cases "es = []")
    case False
    then have ne: "take limit es \<noteq> []" using assms(3) by simp
    then have "last (take limit es) \<in> set es" by (intro in_set_takeD [OF last_in_set])
    then have "last (take limit es) \<in> set (seen @ es)" by simp
    then have "col_get db Id2ts (snd (last (take limit es))) = Some (ts_to_be (fst (last (take limit es))))"
      using ids by (cases "last (take limit es)") auto
    then show ?thesis using False ne
      by (simp add: id2ts_cursor_def db_get_def last_map) (simp add: ts_to_be_def word_of_bytes)
  qed (simp add: id2ts_cursor_def)
  have "recent_ids_by_time no_faults db (map_option fst cursor) (map_option snd cursor) limit =
      (let has_more = limit < length ?found; shown = (if has_more then butlast ?found else ?found) in
       (shown, id2ts_cursor no_faults db shown has_more))"
  proof (cases "seen = []")
    case True
    then show ?thesis using assms(4) keys(1) parse by (simp add: recent_ids_by_time_def Let_def)
  next
    case False
    obtain ts i where l: "last seen = (ts, i)" by fastforce
    have split: "time_keys (seen @ es) = time_keys (butlast seen) @ key_time_index ts i # time_keys es"
      using False l by (metis (no_types, lifting) append_butlast_last_id append.assoc append_Cons append_Nil case_prod_conv list.simps(9) map_append time_keys_def)
    have "(ts, i) \<in> set (seen @ es)" using False l by (metis Un_iff last_in_set set_append)
    then have "i \<noteq> []" using ids by auto
    have "reverse_from (key_time_index ts i) (db ByTime) = key_time_index ts i # time_keys es"
      by (rule reverse_from_entry) (use keys split in simp_all)
    then show ?thesis using assms(4) False l \<open>i \<noteq> []\<close> parse by (simp add: recent_ids_by_time_def Let_def)
  qed
  then show ?thesis using shown cursor by (simp add: Let_def)
qed

lemma time_pages_suffix:
  assumes "time_indexed db" "0 < limit"
  shows "rev (index_entries db) = seen @ es \<Longrightarrow> length es \<le> n \<Longrightarrow>
    concat (time_pages n db limit (if seen = [] then None else Some (last seen))) = map snd es"
proof (induction n arbitrary: seen es)
  case 0
  then show ?case using time_page [OF assms(1) 0(1) assms(2) refl] by (simp add: time_pages.simps)
next
  case (Suc n)
  note page = time_page [OF assms(1) Suc.prems(1) assms(2) refl]
  show ?case
  proof (cases "limit < length es")
    case True
    then have ne: "es \<noteq> []" "take limit es \<noteq> []" using assms(2) by auto
    have "concat (time_pages n db limit (Some (last (take limit es)))) = map snd (drop limit es)"
      using Suc.IH [of "seen @ take limit es" "drop limit es"] Suc.prems assms(2) ne by simp
    then have "map snd (take limit es) @ concat (time_pages n db limit (Some (last (take limit es)))) = map snd es"
      by (metis append_take_drop_id map_append)
    then show ?thesis using page True ne by (simp add: time_pages.simps [of "Suc n"])
  next
    case False
    then have "(limit < length es) = False" by simp
    then show ?thesis using page by (cases "es = []") (simp_all add: time_pages.simps [of "Suc n"])
  qed
qed

text \<open>
  Claim C38. Following the cursors of the history reads every block of the index by time once, the most recent first,
  whatever the size of the pages: provided each block has one entry, at the time the index by identifier gives it.
\<close>

theorem time_pages_cover_index:
  assumes "time_indexed db" "0 < limit" "length (db ByTime) \<le> n"
  shows "concat (time_pages n db limit None) = rev (map snd (index_entries db))"
proof -
  have "length (rev (index_entries db)) \<le> n"
    by (rule time_indexed_entries [OF assms(1)]) (use assms(3) in \<open>metis length_map length_rev time_keys_def\<close>)
  then show ?thesis using time_pages_suffix [OF assms(1,2), of "[]" "rev (index_entries db)" n] by (simp add: rev_map)
qed


definition sample_index :: database where
  "sample_index c =
     (case c of
        ByTime \<Rightarrow> map (\<lambda>(ts, i). (key_time_index ts i, [])) [(1, ''c''), (2, ''a''), (2, ''b'')]
      | Id2ts \<Rightarrow> [(''a'', ts_to_be 2), (''b'', ts_to_be 2), (''c'', ts_to_be 1)]
      | _ \<Rightarrow> [])"

theorem time_pages_cover_index_witness:
  "concat (time_pages 3 sample_index 2 None) = rev (map snd (index_entries sample_index))"
proof (rule time_pages_cover_index)
  have less: "(''a'' :: string) < ''b''" "(''b'' :: string) < ''c''" "(''a'' :: string) < ''c''" by (simp_all add: less_char_def)
  have "cf_ok (sample_index c)" for c
    by (cases c) (use less in \<open>simp_all add: cf_ok_def sample_index_def key_time_less\<close>)
  then show "time_indexed sample_index"
    by (simp add: time_indexed_def db_ok_def) (simp add: sample_index_def key_time_index_inj col_get_def cf_get_def)
qed (simp_all add: sample_index_def)

text \<open>
  The pages of an address look up the time of their last block in the other index, while the entries carry the time at
  which the background task saw the batch. When that is later, the next page starts below the rest of the batch.
\<close>

definition sample_history :: database where
  "sample_history c =
     (case c of
        AddrActivity \<Rightarrow> map (\<lambda>i. (key_addr_activity ''m'' 10 i, [])) [''x'', ''y'']
      | Id2ts \<Rightarrow> [(''x'', ts_to_be 5), (''y'', ts_to_be 5)]
      | _ \<Rightarrow> [])"

lemma address_page_skips_entries:
  "recent_ids_by_address no_faults sample_history ''m'' None None 1 = ([''y''], Some (5, ''y'', True))"
  "recent_ids_by_address no_faults sample_history ''m'' (Some 5) (Some ''y'') 1 = ([], None)"
  "map snd (address_entries sample_history ''m'' None None) = [''y'', ''x'']"
  by (simp_all add: recent_ids_by_address_def address_entries_def address_keys_def reverse_from_def sample_history_def
      key_addr_activity_def prefix_addr_activity_def ts_bytes_small starts_with_def less_char_def less_eq_char_def
      skip_cursor_def parse_addr_activity_key_def map_filter_simps id2ts_cursor_def db_get_def col_get_def cf_get_def)

text \<open>
  The amounts an address receives are added up whatever their assets: two tokens at the top of the range of the decimals
  make the sum overflow, and the operator panics in the task that writes the index.
\<close>

definition two_tokens :: transaction where
  "two_tokens = \<lparr>tx_inputs = [], tx_outputs = map (\<lambda>a. txoutput_new ''m'' ''50000000000000000000000000000'' (Some a)) [''x'', ''y''],
     tx_fee = ''0'', tx_unlocks = []\<rparr>"

lemma mixed_assets_panic:
  "classify_for_storage ref_dec (TxUtxo two_tokens) ''m'' None = Inl (Panic ''Addition overflowed'')"
proof -
  have "d_from_str ref_dec ''50000000000000000000000000000'' = Some (50000000000000000000000000000, 0)"
    by (simp add: ref_dec_def ref_from_str_def Let_def)
  moreover have "dec_add ref_dec (d_zero ref_dec) (50000000000000000000000000000, 0) = Inr (50000000000000000000000000000, 0)"
    "dec_add ref_dec (50000000000000000000000000000, 0) (50000000000000000000000000000, 0) = Inl (Panic ''Addition overflowed'')"
    by (simp_all add: dec_add_def ref_dec_def ref_fit_def Let_def)
  ultimately show ?thesis
    by (simp add: two_tokens_def classify_transfer_def sum_amounts_def addressed_def txoutput_new_def map_filter_simps Let_def)
qed

end
