(* ===== verification/RefCodec.thy ===== *)
theory RefCodec
  imports Disk
begin

section \<open>A reference encoding of the stored records\<close>

text \<open>
  An instance of \<open>disk_lib\<close> that satisfies \<open>disk_laws\<close>, for the instances of the theorems only: each value is written so
  that a reader knows where it ends.
\<close>

definition codec_ok :: "('a \<Rightarrow> string) \<Rightarrow> (string \<Rightarrow> ('a \<times> string) option) \<Rightarrow> bool" where
  "codec_ok enc dec \<longleftrightarrow> (\<forall>x r. dec (enc x @ r) = Some (x, r))"

lemma codec_okD: "codec_ok enc dec \<Longrightarrow> dec (enc x @ r) = Some (x, r)"
  by (simp add: codec_ok_def)

fun enc_nat :: "nat \<Rightarrow> string" where
  "enc_nat 0 = ''.''"
| "enc_nat (Suc n) = CHR ''1'' # enc_nat n"

fun dec_nat :: "string \<Rightarrow> (nat \<times> string) option" where
  "dec_nat [] = None"
| "dec_nat (c # s) =
     (if c = CHR ''.'' then Some (0, s) else (case dec_nat s of None \<Rightarrow> None | Some (n, r) \<Rightarrow> Some (Suc n, r)))"

lemma nat_codec: "codec_ok enc_nat dec_nat"
proof -
  have "dec_nat (enc_nat n @ r) = Some (n, r)" for n r
    by (induction n) simp_all
  then show ?thesis by (simp add: codec_ok_def)
qed

definition enc_word :: "('w::len) word \<Rightarrow> string" where
  "enc_word w = enc_nat (unat w)"

definition dec_word :: "string \<Rightarrow> (('w::len) word \<times> string) option" where
  "dec_word s = map_option (\<lambda>(n, r). (of_nat n, r)) (dec_nat s)"

lemma word_codec: "codec_ok enc_word dec_word"
  by (simp add: codec_ok_def enc_word_def dec_word_def codec_okD [OF nat_codec])

definition enc_string :: "string \<Rightarrow> string" where
  "enc_string s = enc_nat (length s) @ s"

definition dec_string :: "string \<Rightarrow> (string \<times> string) option" where
  "dec_string s = map_option (\<lambda>(n, r). (take n r, drop n r)) (dec_nat s)"

lemma string_codec: "codec_ok enc_string dec_string"
  by (simp add: codec_ok_def enc_string_def dec_string_def codec_okD [OF nat_codec])

definition enc_opt :: "('a \<Rightarrow> string) \<Rightarrow> 'a option \<Rightarrow> string" where
  "enc_opt enc x = (case x of None \<Rightarrow> ''0'' | Some y \<Rightarrow> CHR ''1'' # enc y)"

definition dec_opt :: "(string \<Rightarrow> ('a \<times> string) option) \<Rightarrow> string \<Rightarrow> ('a option \<times> string) option" where
  "dec_opt dec s =
     (case s of
        [] \<Rightarrow> None
      | c # r \<Rightarrow> if c = CHR ''0'' then Some (None, r) else map_option (\<lambda>(x, r). (Some x, r)) (dec r))"

lemma opt_codec: "codec_ok enc dec \<Longrightarrow> codec_ok (enc_opt enc) (dec_opt dec)"
  by (simp add: codec_ok_def enc_opt_def dec_opt_def split: option.split)

definition enc_pair :: "('a \<Rightarrow> string) \<Rightarrow> ('b \<Rightarrow> string) \<Rightarrow> 'a \<times> 'b \<Rightarrow> string" where
  "enc_pair e f p = e (fst p) @ f (snd p)"

definition dec_pair ::
  "(string \<Rightarrow> ('a \<times> string) option) \<Rightarrow> (string \<Rightarrow> ('b \<times> string) option) \<Rightarrow> string \<Rightarrow> (('a \<times> 'b) \<times> string) option" where
  "dec_pair d g s = Option.bind (d s) (\<lambda>(x, r). map_option (\<lambda>(y, r'). ((x, y), r')) (g r))"

lemma pair_codec: "codec_ok e d \<Longrightarrow> codec_ok f g \<Longrightarrow> codec_ok (enc_pair e f) (dec_pair d g)"
  by (simp add: codec_ok_def enc_pair_def dec_pair_def)

fun dec_many :: "(string \<Rightarrow> ('a \<times> string) option) \<Rightarrow> nat \<Rightarrow> string \<Rightarrow> ('a list \<times> string) option" where
  "dec_many dec 0 s = Some ([], s)"
| "dec_many dec (Suc n) s = Option.bind (dec s) (\<lambda>(x, r). map_option (\<lambda>(xs, r'). (x # xs, r')) (dec_many dec n r))"

definition enc_list :: "('a \<Rightarrow> string) \<Rightarrow> 'a list \<Rightarrow> string" where
  "enc_list enc xs = enc_nat (length xs) @ concat (map enc xs)"

definition dec_list :: "(string \<Rightarrow> ('a \<times> string) option) \<Rightarrow> string \<Rightarrow> ('a list \<times> string) option" where
  "dec_list dec s = Option.bind (dec_nat s) (\<lambda>(n, r). dec_many dec n r)"

lemma list_codec:
  assumes "codec_ok enc dec"
  shows "codec_ok (enc_list enc) (dec_list dec)"
proof -
  have "dec_many dec (length xs) (concat (map enc xs) @ r) = Some (xs, r)" for xs r
    by (induction xs) (simp_all add: codec_okD [OF assms])
  then show ?thesis by (simp add: codec_ok_def enc_list_def dec_list_def codec_okD [OF nat_codec])
qed

text \<open>A record is written as the tuple of its fields.\<close>

definition via :: "('a \<Rightarrow> 'b) \<Rightarrow> ('b \<Rightarrow> string) \<Rightarrow> 'a \<Rightarrow> string" where
  "via f enc x = enc (f x)"

definition back_via :: "('b \<Rightarrow> 'a) \<Rightarrow> (string \<Rightarrow> ('b \<times> string) option) \<Rightarrow> string \<Rightarrow> ('a \<times> string) option" where
  "back_via g dec s = map_option (\<lambda>(y, r). (g y, r)) (dec s)"

lemma via_codec: "codec_ok enc dec \<Longrightarrow> (\<And>x. g (f x) = x) \<Longrightarrow> codec_ok (via f enc) (back_via g dec)"
  by (simp add: codec_ok_def via_def back_via_def)

lemmas codecs = string_codec word_codec opt_codec pair_codec list_codec


definition condition_fields :: "spend_condition \<Rightarrow> (u8 \<times> string list) option \<times> string option" where
  "condition_fields c = (case c of PubKey \<Rightarrow> (None, None) | MultiSig m ks \<Rightarrow> (Some (m, ks), None) | HashLock h \<Rightarrow> (None, Some h))"

definition condition_of :: "(u8 \<times> string list) option \<times> string option \<Rightarrow> spend_condition" where
  "condition_of p = (case p of (Some (m, ks), _) \<Rightarrow> MultiSig m ks | (None, Some h) \<Rightarrow> HashLock h | (None, None) \<Rightarrow> PubKey)"

lemma condition_of_fields: "condition_of (condition_fields c) = c"
  by (cases c) (simp_all add: condition_of_def condition_fields_def)

definition output_fields ::
  "tx_output \<Rightarrow> string \<times> string \<times> string option \<times> u64 option \<times> spend_condition option \<times> u64 option" where
  "output_fields out =
     (o_address out, o_amount out, o_asset_id out, o_locked_until out, o_spend_condition out, o_created_at out)"

definition output_of ::
  "string \<times> string \<times> string option \<times> u64 option \<times> spend_condition option \<times> u64 option \<Rightarrow> tx_output" where
  "output_of = (\<lambda>(a, m, asset, l, c, t).
     \<lparr>o_address = a, o_amount = m, o_asset_id = asset, o_locked_until = l, o_spend_condition = c, o_created_at = t\<rparr>)"

lemma output_of_fields: "output_of (output_fields out) = out"
  by (simp add: output_of_def output_fields_def)

definition metadata_fields :: "block_metadata \<Rightarrow> string option \<times> string list \<times> string option \<times> string option" where
  "metadata_fields m = (bm_description m, bm_tags m, bm_extra m, bm_signer_x25519_hex m)"

definition metadata_of :: "string option \<times> string list \<times> string option \<times> string option \<Rightarrow> block_metadata" where
  "metadata_of = (\<lambda>(d, t, e, x). \<lparr>bm_description = d, bm_tags = t, bm_extra = e, bm_signer_x25519_hex = x\<rparr>)"

lemma metadata_of_fields: "metadata_of (metadata_fields m) = m"
  by (simp add: metadata_of_def metadata_fields_def)

definition block_fields ::
  "stored_block \<Rightarrow> string \<times> string list \<times> string option \<times> u64 \<times> string \<times> 16 word \<times> string \<times> string \<times> block_metadata option" where
  "block_fields b =
     (sb_id b, sb_parents b, sb_payload_json b, sb_nonce b, sb_network_id b, sb_protocol_version b, sb_signer_pk_hex b,
      sb_signature_hex b, sb_metadata b)"

definition stored_block_of ::
  "string \<times> string list \<times> string option \<times> u64 \<times> string \<times> 16 word \<times> string \<times> string \<times> block_metadata option \<Rightarrow> stored_block" where
  "stored_block_of = (\<lambda>(i, p, j, n, net, v, k, s, m).
     \<lparr>sb_id = i, sb_parents = p, sb_payload_json = j, sb_nonce = n, sb_network_id = net, sb_protocol_version = v,
      sb_signer_pk_hex = k, sb_signature_hex = s, sb_metadata = m\<rparr>)"

lemma stored_block_of_fields: "stored_block_of (block_fields b) = b"
  by (simp add: stored_block_of_def block_fields_def)

definition enc_condition :: "spend_condition \<Rightarrow> string" where
  "enc_condition = via condition_fields (enc_pair (enc_opt (enc_pair enc_word (enc_list enc_string))) (enc_opt enc_string))"

definition dec_condition :: "string \<Rightarrow> (spend_condition \<times> string) option" where
  "dec_condition = back_via condition_of (dec_pair (dec_opt (dec_pair dec_word (dec_list dec_string))) (dec_opt dec_string))"

lemma condition_codec: "codec_ok enc_condition dec_condition"
  unfolding enc_condition_def dec_condition_def by (intro via_codec codecs) (rule condition_of_fields)

definition enc_output :: "tx_output \<Rightarrow> string" where
  "enc_output = via output_fields
     (enc_pair enc_string (enc_pair enc_string (enc_pair (enc_opt enc_string) (enc_pair (enc_opt enc_word)
       (enc_pair (enc_opt enc_condition) (enc_opt enc_word))))))"

definition dec_output :: "string \<Rightarrow> (tx_output \<times> string) option" where
  "dec_output = back_via output_of
     (dec_pair dec_string (dec_pair dec_string (dec_pair (dec_opt dec_string) (dec_pair (dec_opt dec_word)
       (dec_pair (dec_opt dec_condition) (dec_opt dec_word))))))"

lemma output_codec: "codec_ok enc_output dec_output"
  unfolding enc_output_def dec_output_def by (intro via_codec codecs condition_codec) (rule output_of_fields)

definition enc_metadata :: "block_metadata \<Rightarrow> string" where
  "enc_metadata = via metadata_fields
     (enc_pair (enc_opt enc_string) (enc_pair (enc_list enc_string) (enc_pair (enc_opt enc_string) (enc_opt enc_string))))"

definition dec_metadata :: "string \<Rightarrow> (block_metadata \<times> string) option" where
  "dec_metadata = back_via metadata_of
     (dec_pair (dec_opt dec_string) (dec_pair (dec_list dec_string) (dec_pair (dec_opt dec_string) (dec_opt dec_string))))"

lemma metadata_codec: "codec_ok enc_metadata dec_metadata"
  unfolding enc_metadata_def dec_metadata_def by (intro via_codec codecs) (rule metadata_of_fields)

definition enc_block :: "stored_block \<Rightarrow> string" where
  "enc_block = via block_fields
     (enc_pair enc_string (enc_pair (enc_list enc_string) (enc_pair (enc_opt enc_string) (enc_pair enc_word
       (enc_pair enc_string (enc_pair enc_word (enc_pair enc_string (enc_pair enc_string (enc_opt enc_metadata)))))))))"

definition dec_block :: "string \<Rightarrow> (stored_block \<times> string) option" where
  "dec_block = back_via stored_block_of
     (dec_pair dec_string (dec_pair (dec_list dec_string) (dec_pair (dec_opt dec_string) (dec_pair dec_word
       (dec_pair dec_string (dec_pair dec_word (dec_pair dec_string (dec_pair dec_string (dec_opt dec_metadata)))))))))"

lemma block_codec: "codec_ok enc_block dec_block"
  unfolding enc_block_def dec_block_def by (intro via_codec codecs metadata_codec) (rule stored_block_of_fields)

definition ref_disk :: disk_lib where
  "ref_disk = \<lparr>dl_block = enc_block, dl_read_block = (\<lambda>s. map_option fst (dec_block s)),
     dl_output = enc_output, dl_read_output = (\<lambda>s. map_option fst (dec_output s))\<rparr>"

lemma ref_disk_laws: "disk_laws ref_disk"
  using codec_okD [OF block_codec, of _ "[]"] codec_okD [OF output_codec, of _ "[]"]
  by (simp add: disk_laws_def ref_disk_def)

end
