(* ===== verification/DiskStore.thy ===== *)
theory DiskStore
  imports Activity Persist RefCodec "HOL-Library.Product_Lexorder" "HOL-Library.Sublist"
begin

section \<open>The durable store and its background writer\<close>

text \<open>
  \<open>RocksStore\<close> as the storage of the DAG (\<open>dag_storage_impl.rs\<close>, \<open>atomic.rs\<close>, \<open>maintenance.rs\<close>, \<open>store.rs\<close>) and the
  task that drains the queue of the node into it (\<open>background_persist.rs\<close>). A call takes the failures of its accesses
  (\<open>faults\<close>) and the clock it reads; a multi-read answers each key apart. The estimates, counters and caches kept in
  memory beside the database are fields of the state. Metrics are left out, and so are the slices of identifiers in logs.
\<close>

record rocks =
  rk_db :: database
  rk_tip_limit :: nat
  rk_tip_estimate :: u64
  rk_persist_counter :: u64
  rk_bloom :: blocks_bloom
  rk_tips_cache :: "(nat \<times> string list) option"

definition on_db :: "(database \<Rightarrow> database) \<Rightarrow> rocks \<Rightarrow> rocks" where
  "on_db f rk = rk\<lparr>rk_db := f (rk_db rk)\<rparr>"

definition put_cf :: "faults \<Rightarrow> string \<Rightarrow> column \<Rightarrow> string \<Rightarrow> string \<Rightarrow> rocks \<Rightarrow> (string + unit) \<times> rocks" where
  "put_cf F label c k v rk =
     (case F (DbPut label k) of Some e \<Rightarrow> (Inl e, rk) | None \<Rightarrow> (Inr (), on_db (run_op (Put c k v)) rk))"

definition delete_cf :: "faults \<Rightarrow> string \<Rightarrow> column \<Rightarrow> string \<Rightarrow> rocks \<Rightarrow> (string + unit) \<times> rocks" where
  "delete_cf F label c k rk =
     (case F (DbDelete label k) of Some e \<Rightarrow> (Inl e, rk) | None \<Rightarrow> (Inr (), on_db (run_op (Delete c k)) rk))"

definition write_batch :: "faults \<Rightarrow> string \<Rightarrow> batch_op list \<Rightarrow> rocks \<Rightarrow> (string + unit) \<times> rocks" where
  "write_batch F label ops rk =
     (case F (DbWrite label) of Some e \<Rightarrow> (Inl e, rk) | None \<Rightarrow> (Inr (), on_db (db_write ops) rk))"

text \<open>Sequencing of fallible calls that change the store.\<close>

definition then_do :: "(string + 'a) \<times> rocks \<Rightarrow> ('a \<Rightarrow> rocks \<Rightarrow> (string + 'b) \<times> rocks) \<Rightarrow> (string + 'b) \<times> rocks" where
  "then_do r f = (case r of (Inl e, rk) \<Rightarrow> (Inl e, rk) | (Inr x, rk) \<Rightarrow> f x rk)"

definition scan_keys :: "faults \<Rightarrow> string \<Rightarrow> column \<Rightarrow> database \<Rightarrow> string + string list" where
  "scan_keys F label c db = io F (DbScan label) (map fst (db c))"

subsection \<open>Reads\<close>

definition get_stored_block :: "faults \<Rightarrow> disk_lib \<Rightarrow> database \<Rightarrow> string \<Rightarrow> string + stored_block option" where
  "get_stored_block F L db i =
     rbind (db_get F db Blocks ''blocks'' i) (\<lambda>raw. case raw of
         None \<Rightarrow> Inr None
       | Some v \<Rightarrow> (case dl_read_block L v of None \<Rightarrow> Inl ''invalid stored block'' | Some sb \<Rightarrow> Inr (Some sb)))"

definition count_value :: "string option \<Rightarrow> u64" where
  "count_value v = (case v of None \<Rightarrow> 0 | Some b \<Rightarrow> if length b = 8 then le_to_u64 b else 0)"

definition children_count :: "faults \<Rightarrow> database \<Rightarrow> string \<Rightarrow> string + u64" where
  "children_count F db i = rbind (db_get F db ChildrenCount ''children_count'' i) (\<lambda>v. Inr (count_value v))"

definition all_block_ids :: "faults \<Rightarrow> database \<Rightarrow> string + string list" where
  "all_block_ids F db = scan_keys F ''idx_blocks'' IdxBlocks db"

definition newest_block_ids :: "faults \<Rightarrow> database \<Rightarrow> nat \<Rightarrow> string + string list" where
  "newest_block_ids F db n =
     (if n = 0 then all_block_ids F db
      else rbind (scan_keys F ''idx_blocks'' IdxBlocks db) (\<lambda>ks. Inr (rev (take n (rev ks)))))"

definition is_empty_store :: "database \<Rightarrow> bool" where
  "is_empty_store db \<longleftrightarrow> db IdxBlocks = []"

definition newest_block_ids_by_time :: "faults \<Rightarrow> database \<Rightarrow> nat \<Rightarrow> string + string list" where
  "newest_block_ids_by_time F db n =
     (if n = 0 then all_block_ids F db
      else rbind (scan_keys F ''by_time'' ByTime db) (\<lambda>ks.
        Inr (rev (take n (map snd (List.map_filter parse_time_index_key (rev ks)))))))"

definition recent_ids :: "faults \<Rightarrow> database \<Rightarrow> nat \<Rightarrow> string + string list" where
  "recent_ids F db limit =
     rbind (scan_keys F ''by_time'' ByTime db) (\<lambda>ks.
       Inr (take (max limit 1) (map snd (List.map_filter parse_time_index_key (rev ks)))))"

definition get_blocks_by_ids :: "faults \<Rightarrow> disk_lib \<Rightarrow> database \<Rightarrow> string list \<Rightarrow> stored_block list" where
  "get_blocks_by_ids F L db is =
     List.map_filter (\<lambda>i. case db_get F db Blocks ''blocks'' i of Inr (Some v) \<Rightarrow> dl_read_block L v | _ \<Rightarrow> None) is"

definition load_final :: "faults \<Rightarrow> database \<Rightarrow> string + string list" where
  "load_final F db = scan_keys F ''final'' Final db"

definition load_last_milestone :: "faults \<Rightarrow> database \<Rightarrow> string + string option" where
  "load_last_milestone F db = db_get F db LastMs ''last_ms'' ''last''"

definition is_outpoint_spent :: "faults \<Rightarrow> database \<Rightarrow> string \<Rightarrow> u32 \<Rightarrow> string + bool" where
  "is_outpoint_spent F db txid index =
     rbind (db_get F db UtxoSpent ''utxo_spent'' (make_utxo_key txid index)) (\<lambda>v. Inr (v \<noteq> None))"

definition is_bridge_lock_consumed :: "faults \<Rightarrow> database \<Rightarrow> string \<Rightarrow> string + bool" where
  "is_bridge_lock_consumed F db lock_block_id =
     rbind (db_get F db BridgeConsumed ''bridge_consumed'' lock_block_id) (\<lambda>v. Inr (v \<noteq> None))"

definition is_custodial_mint_consumed :: "faults \<Rightarrow> database \<Rightarrow> string \<Rightarrow> string + bool" where
  "is_custodial_mint_consumed F db consumed_key =
     rbind (db_get F db CustodialConsumed ''custodial_mint_consumed'' consumed_key) (\<lambda>v. Inr (v \<noteq> None))"

definition block_ts_ms :: "faults \<Rightarrow> database \<Rightarrow> string \<Rightarrow> string + (64 word) option" where
  "block_ts_ms F db i =
     rbind (db_get F db Id2ts ''id2ts'' i) (\<lambda>raw. Inr (case raw of
         Some v \<Rightarrow> if length v = 8 then Some (of_nat (be_value v)) else None
       | None \<Rightarrow> None))"

definition get_utxo :: "faults \<Rightarrow> disk_lib \<Rightarrow> database \<Rightarrow> string \<Rightarrow> u32 \<Rightarrow> string + tx_output option" where
  "get_utxo F L db txid index =
     rbind (db_get F db UtxoCf ''utxo'' (make_utxo_key txid index)) (\<lambda>raw. case raw of
         None \<Rightarrow> Inr None
       | Some v \<Rightarrow> (case dl_read_output L v of None \<Rightarrow> Inl ''invalid utxo'' | Some out \<Rightarrow> Inr (Some out)))"

definition iter_all_utxos :: "faults \<Rightarrow> disk_lib \<Rightarrow> database \<Rightarrow> string + (string \<times> u32 \<times> tx_output) list" where
  "iter_all_utxos F L db =
     rbind (io F (DbScan ''utxo'') (db UtxoCf)) (try_map (\<lambda>(key, v).
       rbind (parse_utxo_key key) (\<lambda>(txid, idx).
         case dl_read_output L v of None \<Rightarrow> Inl ''invalid utxo'' | Some out \<Rightarrow> Inr (txid, idx, out))))"

text \<open>The tips, the most recent first; a list read less than five seconds ago is served again.\<close>

definition tip_time :: "string \<Rightarrow> 64 word" where
  "tip_time v = (if length v = 8 then be_to_ts v else 0)"

definition sorted_tips :: "database \<Rightarrow> string list" where
  "sorted_tips db = map fst (rev (sort_key (\<lambda>(i, v). (sint (tip_time v), i)) (db Tips)))"

definition top_tips :: "faults \<Rightarrow> nat \<Rightarrow> nat \<Rightarrow> rocks \<Rightarrow> (string + string list) \<times> rocks" where
  "top_tips F now limit rk =
     (let refresh =
        (case F (DbScan ''tips'') of
           Some e \<Rightarrow> (Inl e, rk)
         | None \<Rightarrow>
             (let all = take (max limit 64) (sorted_tips (rk_db rk)) in
              (Inr (take limit all), rk\<lparr>rk_tips_cache := Some (now, all)\<rparr>))) in
      case rk_tips_cache rk of
        None \<Rightarrow> refresh
      | Some (ts, tips) \<Rightarrow>
          if limit \<le> length tips \<and> now - ts < 5000 then (Inr (take limit tips), rk) else refresh)"

subsection \<open>Tips\<close>

definition real_tip :: "database \<Rightarrow> string \<Rightarrow> bool" where
  "real_tip db i \<longleftrightarrow> count_value (col_get db ChildrenCount i) = 0"

definition read_tip :: "faults \<Rightarrow> database \<Rightarrow> string \<times> string \<Rightarrow> string + (string \<times> 64 word \<times> u64)" where
  "read_tip F db t =
     rbind (be_to_i64 (snd t)) (\<lambda>ts. rbind (children_count F db (fst t)) (\<lambda>cc. Inr (fst t, ts, cc)))"

text \<open>The tips with a child go, and the oldest of the others beyond the limit.\<close>

definition real_tips :: "(string \<times> 64 word \<times> u64) list \<Rightarrow> (string \<times> 64 word) list" where
  "real_tips tips = map (\<lambda>(i, ts, cc). (i, ts)) (filter (\<lambda>(i, ts, cc). cc = 0) tips)"

definition zombie_tips :: "(string \<times> 64 word \<times> u64) list \<Rightarrow> string list" where
  "zombie_tips tips = map fst (filter (\<lambda>(i, ts, cc). cc \<noteq> 0) tips)"

definition surplus_tips :: "nat \<Rightarrow> (string \<times> 64 word \<times> u64) list \<Rightarrow> string list" where
  "surplus_tips limit tips =
     zombie_tips tips @ map fst (drop (max limit 1) (sort_key (\<lambda>(i, ts). - sint ts) (real_tips tips)))"

definition drop_tips :: "faults \<Rightarrow> (string \<times> 64 word \<times> u64) list \<Rightarrow> rocks \<Rightarrow> (string + unit) \<times> rocks" where
  "drop_tips F tips rk =
     (let gone = surplus_tips (rk_tip_limit rk) tips in
      if gone = [] then (Inr (), rk)
      else then_do (write_batch F ''trim_tips'' (map (Delete Tips) gone) rk) (\<lambda>_ rk.
        (Inr (), rk\<lparr>rk_tip_estimate := of_nat (min (length (real_tips tips)) (max (rk_tip_limit rk) 1))\<rparr>)))"

definition trim_tips :: "faults \<Rightarrow> rocks \<Rightarrow> (string + unit) \<times> rocks" where
  "trim_tips F rk =
     (if rk_tip_limit rk = 0 \<or> unat (rk_tip_estimate rk) \<le> rk_tip_limit rk then (Inr (), rk)
      else
       (case rbind (io F (DbScan ''tips'') (rk_db rk Tips)) (try_map (read_tip F (rk_db rk))) of
          Inl e \<Rightarrow> (Inl e, rk)
        | Inr tips \<Rightarrow> drop_tips F tips (rk\<lparr>rk_tip_estimate := of_nat (length tips)\<rparr>)))"

definition maybe_trim_tips :: "faults \<Rightarrow> rocks \<Rightarrow> (string + unit) \<times> rocks" where
  "maybe_trim_tips F rk =
     (let rk' = rk\<lparr>rk_persist_counter := rk_persist_counter rk + 1\<rparr> in
      if rk_persist_counter rk mod 64 = 0 then trim_tips F rk' else (Inr (), rk'))"

definition add_tip :: "faults \<Rightarrow> 64 word \<Rightarrow> string \<Rightarrow> rocks \<Rightarrow> (string + unit) \<times> rocks" where
  "add_tip F now i rk =
     then_do (put_cf F ''tips'' Tips i (ts_to_be now) rk) (\<lambda>_ rk.
       trim_tips F (rk\<lparr>rk_tip_estimate := rk_tip_estimate rk + 1\<rparr>))"

definition remove_tip :: "faults \<Rightarrow> string \<Rightarrow> rocks \<Rightarrow> (string + unit) \<times> rocks" where
  "remove_tip F i rk =
     (let last_one = (length (take 2 (rk_db rk Tips)) \<le> 1);
          remove = then_do (delete_cf F ''tips'' Tips i rk) (\<lambda>_ rk. (Inr (), rk\<lparr>rk_tip_estimate := rk_tip_estimate rk - 1\<rparr>)) in
      if last_one
      then (case db_get F (rk_db rk) Tips ''tips'' i of
              Inl e \<Rightarrow> (Inl e, rk)
            | Inr (Some raw) \<Rightarrow> if raw \<noteq> [] then (Inr (), rk) else remove
            | Inr None \<Rightarrow> remove)
      else remove)"

text \<open>The repair of the tips: every recent block without a child is a tip.\<close>

definition missing_tip :: "faults \<Rightarrow> database \<Rightarrow> 64 word \<times> string \<Rightarrow> string + batch_op list" where
  "missing_tip F db e =
     rbind (children_count F db (snd e)) (\<lambda>cc.
       if cc \<noteq> 0 then Inr []
       else rbind (db_get F db Tips ''tips'' (snd e)) (\<lambda>t.
         if t \<noteq> None then Inr []
         else rbind (db_get F db Id2ts ''id2ts'' (snd e)) (\<lambda>_. Inr [Put Tips (snd e) (ts_to_be (fst e))])))"

definition rebuild_tips_from_children_count :: "faults \<Rightarrow> nat \<Rightarrow> rocks \<Rightarrow> (string + nat \<times> nat) \<times> rocks" where
  "rebuild_tips_from_children_count F scan_limit rk =
     (let entries = rev (index_entries (rk_db rk));
          scanned = (if scan_limit = 0 then entries else take scan_limit entries) in
      case rbind (io F (DbScan ''by_time'') scanned) (try_map (missing_tip F (rk_db rk))) of
        Inl e \<Rightarrow> (Inl e, rk)
      | Inr opss \<Rightarrow>
          (let ops = concat opss; added = length ops in
           if ops = [] then (Inr (length scanned, 0), rk)
           else then_do (write_batch F ''rebuild_tips'' ops rk) (\<lambda>_ rk.
             (Inr (length scanned, added), rk\<lparr>rk_tip_estimate := rk_tip_estimate rk + of_nat added\<rparr>))))"

subsection \<open>Writes of one block\<close>

definition put_block :: "faults \<Rightarrow> disk_lib \<Rightarrow> stored_block \<Rightarrow> rocks \<Rightarrow> (string + put_result) \<times> rocks" where
  "put_block F L b rk =
     (case db_get F (rk_db rk) Blocks ''blocks'' (sb_id b) of
        Inl e \<Rightarrow> (Inl e, rk)
      | Inr (Some _) \<Rightarrow> then_do (put_cf F ''idx_blocks'' IdxBlocks (sb_id b) [] rk) (\<lambda>_ rk. (Inr AlreadyExists, rk))
      | Inr None \<Rightarrow>
          then_do (put_cf F ''blocks'' Blocks (sb_id b) (dl_block L b) rk) (\<lambda>_ rk.
            then_do (put_cf F ''idx_blocks'' IdxBlocks (sb_id b) [] rk) (\<lambda>_ rk.
              (Inr Inserted, rk\<lparr>rk_bloom := bloom_insert (sb_id b) (rk_bloom rk)\<rparr>))))"

definition edge_key :: "string \<Rightarrow> string \<Rightarrow> string" where
  "edge_key parent child = parent @ [CHR 0x00] @ child"

definition add_child_edge :: "faults \<Rightarrow> string \<Rightarrow> string \<Rightarrow> rocks \<Rightarrow> (string + unit) \<times> rocks" where
  "add_child_edge F parent child rk =
     (case db_get F (rk_db rk) ChildrenCount ''children_count'' parent of
        Inl e \<Rightarrow> (Inl e, rk)
      | Inr cur \<Rightarrow>
          then_do (put_cf F ''children_count'' ChildrenCount parent (u64_to_le (count_value cur + 1)) rk) (\<lambda>_ rk.
            put_cf F ''children_set'' ChildrenSet (edge_key parent child) [] rk))"

definition block_anti_replay_markers :: "wire_lib \<Rightarrow> stored_block \<Rightarrow> string option \<times> string option" where
  "block_anti_replay_markers W b =
     (case sb_payload_json b of
        None \<Rightarrow> (None, None)
      | Some pjson \<Rightarrow>
          if \<not> sublist ''BridgeMint'' pjson \<and> \<not> sublist ''CustodialMint'' pjson then (None, None)
          else (case wl_parse_payload W pjson of
              Inr (Plain (BridgeMint _ lock_block_id _)) \<Rightarrow> (Some lock_block_id, None)
            | Inr (Plain (CustodialMint asset_id _ _ _ mint_nonce)) \<Rightarrow> (None, Some (custodial_mint_consumed_key asset_id mint_nonce))
            | _ \<Rightarrow> (None, None)))"

definition marker_ops :: "wire_lib \<Rightarrow> stored_block \<Rightarrow> batch_op list" where
  "marker_ops W b =
     (let (bridge_lock, custodial_key) = block_anti_replay_markers W b in
      (case bridge_lock of None \<Rightarrow> [] | Some l \<Rightarrow> [Put BridgeConsumed l (sb_id b)]) @
      (case custodial_key of None \<Rightarrow> [] | Some k \<Rightarrow> [Put CustodialConsumed k (sb_id b)]))"

definition delta_ops :: "disk_lib \<Rightarrow> string \<Rightarrow> utxo_delta option \<Rightarrow> batch_op list" where
  "delta_ops L block_id delta =
     (case delta of
        None \<Rightarrow> []
      | Some d \<Rightarrow>
          concat (map (\<lambda>i. [Delete UtxoCf (utxo_key i), Put UtxoSpent (utxo_key i) block_id]) (ud_spend d)) @
          map (\<lambda>(i, out). Put UtxoCf (utxo_key i) (dl_output L out)) (ud_create d))"

definition index_ops :: "disk_lib \<Rightarrow> 64 word \<Rightarrow> stored_block \<Rightarrow> batch_op list" where
  "index_ops L now b =
     [Put Blocks (sb_id b) (dl_block L b), Put IdxBlocks (sb_id b) [], Put ByTime (key_time_index now (sb_id b)) [],
      Put Id2ts (sb_id b) (ts_to_be now), Put Tips (sb_id b) (ts_to_be now)]"

text \<open>A failed read of a count is taken for an absent one.\<close>

definition next_count :: "faults \<Rightarrow> database \<Rightarrow> string \<Rightarrow> u64" where
  "next_count F db p =
     (case db_get F db ChildrenCount ''children_count'' p of
        Inr (Some v) \<Rightarrow> if length v = 8 then le_to_u64 v + 1 else 1
      | _ \<Rightarrow> 1)"

definition dag_index_ops :: "faults \<Rightarrow> disk_lib \<Rightarrow> 64 word \<Rightarrow> database \<Rightarrow> stored_block \<Rightarrow> batch_op list" where
  "dag_index_ops F L now db b =
     index_ops L now b @ map (Delete Tips) (sb_parents b) @
     concat (map (\<lambda>p. [Put ChildrenCount p (u64_to_le (next_count F db p)), Put ChildrenSet (edge_key p (sb_id b)) []]) (sb_parents b))"

definition count_tip :: "stored_block \<Rightarrow> rocks \<Rightarrow> rocks" where
  "count_tip b rk = rk\<lparr>rk_tip_estimate := rk_tip_estimate rk + 1 - of_nat (length (sb_parents b))\<rparr>"

text \<open>The end of both paths for one block: the write, the trim and the filter.\<close>

definition append_single ::
  "'d dec_lib \<Rightarrow> item_lib \<Rightarrow> wire_lib \<Rightarrow> faults \<Rightarrow> string \<Rightarrow> 64 word \<Rightarrow> batch_op list \<Rightarrow> stored_block \<Rightarrow> rocks
   \<Rightarrow> panic + (string + bool) \<times> rocks" where
  "append_single D J W F label act_now ops b rk =
     rbind (apply_addr_activity_indices D J W b act_now None) (\<lambda>activity.
       Inr (then_do (write_batch F label (ops @ activity) (count_tip b rk)) (\<lambda>_ rk.
         then_do (maybe_trim_tips F rk) (\<lambda>_ rk. (Inr True, rk\<lparr>rk_bloom := bloom_insert (sb_id b) (rk_bloom rk)\<rparr>)))))"

definition append_block_atomic ::
  "'d dec_lib \<Rightarrow> disk_lib \<Rightarrow> item_lib \<Rightarrow> wire_lib \<Rightarrow> faults \<Rightarrow> 64 word \<Rightarrow> stored_block \<Rightarrow> rocks
   \<Rightarrow> panic + (string + bool) \<times> rocks" where
  "append_block_atomic D L J W F now b rk =
     (case db_get F (rk_db rk) Blocks ''blocks'' (sb_id b) of
        Inl e \<Rightarrow> Inr (Inl e, rk)
      | Inr (Some _) \<Rightarrow> Inr (Inr False, rk)
      | Inr None \<Rightarrow> append_single D J W F ''append_block_atomic'' now (dag_index_ops F L now (rk_db rk) b) b rk)"

definition append_block_atomic_with_utxo ::
  "'d dec_lib \<Rightarrow> disk_lib \<Rightarrow> item_lib \<Rightarrow> wire_lib \<Rightarrow> faults \<Rightarrow> 64 word \<Rightarrow> 64 word \<Rightarrow> stored_block \<Rightarrow> utxo_delta option \<Rightarrow> rocks
   \<Rightarrow> panic + (string + bool) \<times> rocks" where
  "append_block_atomic_with_utxo D L J W F now act_now b delta rk =
     (case db_get F (rk_db rk) Blocks ''blocks'' (sb_id b) of
        Inl e \<Rightarrow> Inr (Inl e, rk)
      | Inr (Some _) \<Rightarrow> Inr (Inr False, rk)
      | Inr None \<Rightarrow>
          append_single D J W F ''append_block_atomic_with_utxo'' act_now
            (delta_ops L (sb_id b) delta @ marker_ops W b @ dag_index_ops F L now (rk_db rk) b) b rk)"

definition persist_genesis ::
  "'d dec_lib \<Rightarrow> disk_lib \<Rightarrow> item_lib \<Rightarrow> wire_lib \<Rightarrow> faults \<Rightarrow> 64 word \<Rightarrow> (payload_envelope option \<Rightarrow> string option)
   \<Rightarrow> block \<Rightarrow> wire_meta \<Rightarrow> rocks \<Rightarrow> panic + (string + unit) \<times> rocks" where
  "persist_genesis D L J W F now to_json g meta rk =
     rbind (append_block_atomic D L J W F now
       \<lparr>sb_id = b_id g, sb_parents = [], sb_payload_json = to_json (b_payload g), sb_nonce = b_nonce g,
        sb_network_id = wm_network_id meta, sb_protocol_version = ucast (wm_protocol_version meta),
        sb_signer_pk_hex = ''GENESIS'', sb_signature_hex = [], sb_metadata = b_metadata g\<rparr> rk) (\<lambda>r.
       Inr (then_do r (\<lambda>_ rk. (Inr (), rk))))"

subsection \<open>Writes of a batch\<close>

type_synonym batch_item = "stored_block \<times> utxo_delta option \<times> (string \<times> u64) list"

text \<open>A block may be stored already when the filter does not exclude it; a failed read counts as not stored.\<close>

definition found_before :: "faults \<Rightarrow> rocks \<Rightarrow> batch_item \<Rightarrow> bool" where
  "found_before F rk item \<longleftrightarrow>
     (bl_warmed (rk_bloom rk) \<longrightarrow> maybe_contains (rk_bloom rk) (sb_id (fst item))) \<and>
     (case db_get F (rk_db rk) Blocks ''blocks'' (sb_id (fst item)) of Inr (Some _) \<Rightarrow> True | _ \<Rightarrow> False)"

definition raise_count :: "string \<times> u64 \<Rightarrow> (string \<Rightarrow> u64 option) \<Rightarrow> string \<Rightarrow> u64 option" where
  "raise_count pc m = m(fst pc \<mapsto> max (snd pc) (case m (fst pc) of None \<Rightarrow> 0 | Some n \<Rightarrow> n))"

definition parent_counts :: "batch_item list \<Rightarrow> string \<Rightarrow> u64 option" where
  "parent_counts items = fold raise_count (concat (map (\<lambda>(_, _, pc). pc) items)) Map.empty"

definition item_batch_ops :: "disk_lib \<Rightarrow> wire_lib \<Rightarrow> 64 word \<Rightarrow> (string \<Rightarrow> u64 option) \<Rightarrow> batch_item \<Rightarrow> batch_op list" where
  "item_batch_ops L W now counts item =
     (let (b, delta, _) = item in
      delta_ops L (sb_id b) delta @ marker_ops W b @ index_ops L now b @
      concat (map (\<lambda>p. [Delete Tips p] @ (case counts p of None \<Rightarrow> [] | Some n \<Rightarrow> [Put ChildrenCount p (u64_to_le n)]) @
                       [Put ChildrenSet (edge_key p (sb_id b)) []]) (sb_parents b)))"

definition append_blocks_batch ::
  "disk_lib \<Rightarrow> wire_lib \<Rightarrow> faults \<Rightarrow> 64 word \<Rightarrow> batch_item list \<Rightarrow> rocks \<Rightarrow> (string + nat) \<times> rocks" where
  "append_blocks_batch L W F now items rk =
     (let fresh = filter (\<lambda>item. \<not> found_before F rk item) items;
          ops = concat (map (item_batch_ops L W now (parent_counts fresh)) fresh);
          rk = fold (\<lambda>item. count_tip (fst item)) fresh rk in
      if fresh = [] then (Inr 0, rk)
      else then_do (write_batch F ''append_blocks_batch'' ops rk) (\<lambda>_ rk.
        then_do (maybe_trim_tips F rk) (\<lambda>_ rk.
          (Inr (length fresh), rk\<lparr>rk_bloom := fold (\<lambda>item. bloom_insert (sb_id (fst item))) fresh (rk_bloom rk)\<rparr>))))"

definition persist_final :: "faults \<Rightarrow> string list \<Rightarrow> rocks \<Rightarrow> (string + unit) \<times> rocks" where
  "persist_final F is rk =
     (if is = [] then (Inr (), rk) else write_batch F ''persist_final'' (map (\<lambda>i. Put Final i []) is) rk)"

definition persist_last_milestone :: "faults \<Rightarrow> string \<Rightarrow> rocks \<Rightarrow> (string + unit) \<times> rocks" where
  "persist_last_milestone F i rk = put_cf F ''last_ms'' LastMs ''last'' i rk"

definition warm_recent_blocks_bloom :: "faults \<Rightarrow> nat \<Rightarrow> rocks \<Rightarrow> (string + nat) \<times> rocks" where
  "warm_recent_blocks_bloom F limit rk =
     (case io F (DbScan ''by_time'') (take limit (rev (index_entries (rk_db rk)))) of
        Inl e \<Rightarrow> (Inl e, rk)
      | Inr es \<Rightarrow> (Inr (length es), rk\<lparr>rk_bloom := mark_warmed (fold bloom_insert (map snd es) (rk_bloom rk))\<rparr>))"


subsection \<open>Import of a dump\<close>

fun each_do :: "('a \<Rightarrow> rocks \<Rightarrow> (string + unit) \<times> rocks) \<Rightarrow> 'a list \<Rightarrow> rocks \<Rightarrow> (string + unit) \<times> rocks" where
  "each_do f [] rk = (Inr (), rk)"
| "each_do f (x # xs) rk = then_do (f x rk) (\<lambda>_ rk. each_do f xs rk)"

definition wipe :: "faults \<Rightarrow> string \<Rightarrow> column \<Rightarrow> rocks \<Rightarrow> (string + unit) \<times> rocks" where
  "wipe F label c rk =
     (case scan_keys F label c (rk_db rk) of
        Inl e \<Rightarrow> (Inl e, rk)
      | Inr ks \<Rightarrow> each_do (delete_cf F label c) ks rk)"

definition import_json ::
  "faults \<Rightarrow> disk_lib \<Rightarrow> (string \<Rightarrow> string + stored_block list) \<Rightarrow> (string \<Rightarrow> 64 word) \<Rightarrow> string \<Rightarrow> rocks \<Rightarrow> (string + unit) \<times> rocks" where
  "import_json F L parse now dump rk =
     (case parse dump of
        Inl e \<Rightarrow> (Inl e, rk)
      | Inr blocks \<Rightarrow>
          then_do (each_do (\<lambda>b rk. then_do (put_block F L b rk) (\<lambda>_ rk. (Inr (), rk))) blocks rk) (\<lambda>_ rk.
          then_do (wipe F ''children_count'' ChildrenCount rk) (\<lambda>_ rk.
          then_do (wipe F ''children_set'' ChildrenSet rk) (\<lambda>_ rk.
          then_do (each_do (\<lambda>b. each_do (\<lambda>p. add_child_edge F p (sb_id b)) (sb_parents b)) blocks rk) (\<lambda>_ rk.
          then_do (wipe F ''tips'' Tips rk) (\<lambda>_ rk.
          then_do (each_do (\<lambda>b. add_tip F (now (sb_id b)) (sb_id b)) blocks rk) (\<lambda>_ rk.
            each_do (\<lambda>b. each_do (remove_tip F) (sb_parents b)) blocks rk)))))))"

definition export_blocks :: "faults \<Rightarrow> disk_lib \<Rightarrow> database \<Rightarrow> string + stored_block list" where
  "export_blocks F L db =
     rbind (all_block_ids F db) (\<lambda>is.
       rbind (try_map (get_stored_block F L db) is) (\<lambda>found. Inr (List.map_filter (\<lambda>b. b) found)))"

subsection \<open>The background writer\<close>

text \<open>
  A round of the task: how many jobs are waiting, the failures and the clock of each attempt to write the batch (the first
  one and one per delay), those of the write of the finality, and what the channel of the activity takes.
\<close>

record round =
  ro_ready :: nat
  ro_attempts :: "(faults \<times> 64 word) list"
  ro_final :: faults
  ro_now :: "64 word"
  ro_accepts :: "stored_block \<Rightarrow> bool"

definition job_item :: "persist_job \<Rightarrow> batch_item" where
  "job_item job = (pj_block job, pj_delta job, pj_parent_counts job)"

definition max_batch_size :: nat where
  "max_batch_size = 256"

definition round_size :: "round \<Rightarrow> nat" where
  "round_size ro = max 1 (min (ro_ready ro) max_batch_size)"

fun try_append :: "disk_lib \<Rightarrow> wire_lib \<Rightarrow> (faults \<times> 64 word) list \<Rightarrow> batch_item list \<Rightarrow> rocks \<Rightarrow> nat option \<times> rocks" where
  "try_append L W [] items rk = (None, rk)"
| "try_append L W ((F, now) # later) items rk =
     (case append_blocks_batch L W F now items rk of
        (Inr n, rk') \<Rightarrow> (Some n, rk')
      | (Inl e, rk') \<Rightarrow> try_append L W later items rk')"

definition forwarded :: "round \<Rightarrow> persist_job list \<Rightarrow> (stored_block \<times> 64 word) list" where
  "forwarded ro batch = map (\<lambda>b. (b, ro_now ro)) (filter (ro_accepts ro) (map pj_block batch))"

text \<open>
  The task ends when no attempt succeeds: what is still queued then, the failed batch included, is lost. A failure to write
  the finality is only logged.
\<close>

fun run_consumer ::
  "disk_lib \<Rightarrow> wire_lib \<Rightarrow> round list \<Rightarrow> persist_job list \<Rightarrow> (stored_block \<times> 64 word) list \<Rightarrow> rocks
   \<Rightarrow> bool \<times> persist_job list \<times> (stored_block \<times> 64 word) list \<times> rocks" where
  "run_consumer L W [] q activity rk = (True, q, activity, rk)"
| "run_consumer L W (ro # rounds) q activity rk =
     (if q = [] then run_consumer L W rounds q activity rk
      else
       (let batch = take (round_size ro) q in
        case try_append L W (ro_attempts ro) (map job_item batch) rk of
          (None, rk') \<Rightarrow> (False, q, activity, rk')
        | (Some n, rk') \<Rightarrow>
            run_consumer L W rounds (drop (round_size ro) q) (activity @ forwarded ro batch)
              (snd (persist_final (ro_final ro) (concat (map pj_newly_finalized batch)) rk'))))"

text \<open>The task that writes the activity: a batch that fails is dropped; a panic ends the task.\<close>

fun run_activity_writer ::
  "'d dec_lib \<Rightarrow> item_lib \<Rightarrow> wire_lib \<Rightarrow> (nat \<times> string option) list \<Rightarrow> (stored_block \<times> 64 word) list \<Rightarrow> database
   \<Rightarrow> panic + database" where
  "run_activity_writer D J W [] q db = Inr db"
| "run_activity_writer D J W ((ready, write) # rounds) q db =
     (let n = max 1 (min ready 256) in
      if q = [] then run_activity_writer D J W rounds q db
      else rbind (append_activity_batch D J W write (take n q) db) (\<lambda>(r, db').
        run_activity_writer D J W rounds (drop n q) db'))"


subsection \<open>What the database says\<close>

text \<open>
  The abstract content: the blocks, the unspent outputs, which block spent an output, and which block used a lock or a
  nonce. A job of the queue adds its block, its delta and its marker at once.
\<close>

record durable =
  du_blocks :: "string \<Rightarrow> stored_block option"
  du_utxos :: "output_id \<Rightarrow> tx_output option"
  du_spent :: "output_id \<Rightarrow> string option"
  du_locks :: "string \<Rightarrow> string option"
  du_nonces :: "string \<Rightarrow> string option"

definition durable_of :: "disk_lib \<Rightarrow> database \<Rightarrow> durable" where
  "durable_of L db =
     \<lparr>du_blocks = (\<lambda>i. Option.bind (col_get db Blocks i) (dl_read_block L)),
      du_utxos = (\<lambda>i. Option.bind (col_get db UtxoCf (utxo_key i)) (dl_read_output L)),
      du_spent = (\<lambda>i. col_get db UtxoSpent (utxo_key i)),
      du_locks = col_get db BridgeConsumed, du_nonces = col_get db CustodialConsumed\<rparr>"

definition spend_one :: "string \<Rightarrow> output_id \<Rightarrow> durable \<Rightarrow> durable" where
  "spend_one block_id i s = s\<lparr>du_utxos := (du_utxos s)(i := None), du_spent := (du_spent s)(i \<mapsto> block_id)\<rparr>"

definition create_one :: "output_id \<times> tx_output \<Rightarrow> durable \<Rightarrow> durable" where
  "create_one c s = s\<lparr>du_utxos := (du_utxos s)(fst c \<mapsto> snd c)\<rparr>"

definition record_delta :: "string \<Rightarrow> utxo_delta option \<Rightarrow> durable \<Rightarrow> durable" where
  "record_delta block_id delta s =
     (case delta of None \<Rightarrow> s | Some d \<Rightarrow> fold create_one (ud_create d) (fold (spend_one block_id) (ud_spend d) s))"

definition record_markers :: "wire_lib \<Rightarrow> stored_block \<Rightarrow> durable \<Rightarrow> durable" where
  "record_markers W b s =
     s\<lparr>du_locks := (case fst (block_anti_replay_markers W b) of None \<Rightarrow> du_locks s | Some l \<Rightarrow> (du_locks s)(l \<mapsto> sb_id b)),
       du_nonces := (case snd (block_anti_replay_markers W b) of None \<Rightarrow> du_nonces s | Some k \<Rightarrow> (du_nonces s)(k \<mapsto> sb_id b))\<rparr>"

definition record_item :: "wire_lib \<Rightarrow> batch_item \<Rightarrow> durable \<Rightarrow> durable" where
  "record_item W item s =
     (let (b, delta, _) = item; s' = record_markers W b (record_delta (sb_id b) delta s) in
      s'\<lparr>du_blocks := (du_blocks s')(sb_id b \<mapsto> b)\<rparr>)"

lemma utxo_key_inj [simp]: "utxo_key i = utxo_key j \<longleftrightarrow> i = j"
  by (cases i; cases j) (auto simp: utxo_key_def make_utxo_key_inj)

lemma disk_laws_read: "disk_laws L \<Longrightarrow> dl_read_block L (dl_block L b) = Some b" "disk_laws L \<Longrightarrow> dl_read_output L (dl_output L out) = Some out"
  by (simp_all add: disk_laws_def)

lemma col_get_run:
  assumes "db_ok db"
  shows "col_get (run_op (Put c k v) db) c' = (if c' = c then (col_get db c)(k \<mapsto> v) else col_get db c')"
    "col_get (run_op (Delete c k) db) c' = (if c' = c then (col_get db c)(k := None) else col_get db c')"
  using assms by (auto simp: col_get_def db_ok_def cf.get_put cf.get_delete fun_eq_iff)

lemma durable_run_op:
  assumes "disk_laws L" "db_ok db"
  shows "durable_of L (run_op (Put Blocks (sb_id b) (dl_block L b)) db) =
      (durable_of L db)\<lparr>du_blocks := (du_blocks (durable_of L db))(sb_id b \<mapsto> b)\<rparr>"
    "durable_of L (run_op (Put UtxoSpent (utxo_key i) x) (run_op (Delete UtxoCf (utxo_key i)) db)) = spend_one x i (durable_of L db)"
    "durable_of L (run_op (Put UtxoCf (utxo_key i) (dl_output L out)) db) = create_one (i, out) (durable_of L db)"
    "durable_of L (run_op (Put BridgeConsumed k x) db) = (durable_of L db)\<lparr>du_locks := (du_locks (durable_of L db))(k \<mapsto> x)\<rparr>"
    "durable_of L (run_op (Put CustodialConsumed k x) db) = (durable_of L db)\<lparr>du_nonces := (du_nonces (durable_of L db))(k \<mapsto> x)\<rparr>"
  using assms disk_laws_read [OF assms(1)] run_op_ok [OF assms(2), of "Delete UtxoCf (utxo_key i)"]
  by (auto simp: durable_of_def col_get_run spend_one_def create_one_def fun_eq_iff simp del: run_op.simps)

definition other_column :: "batch_op \<Rightarrow> bool" where
  "other_column op \<longleftrightarrow> fst (touches op) \<notin> {Blocks, UtxoCf, UtxoSpent, BridgeConsumed, CustodialConsumed}"

lemma durable_other:
  assumes "list_all other_column ops"
  shows "durable_of L (db_write ops db) = durable_of L db"
proof -
  have "db_write ops db c = db c" if "c \<in> {Blocks, UtxoCf, UtxoSpent, BridgeConsumed, CustodialConsumed}" for c
    unfolding db_write_def using assms
  proof (induction ops arbitrary: db)
    case (Cons op ops)
    then have "run_op op db c = db c" using that by (cases op) (auto simp: other_column_def touches_def)
    then show ?case using Cons by simp
  qed simp
  then show ?thesis by (simp add: durable_of_def col_get_def [abs_def])
qed

lemma durable_spends:
  "disk_laws L \<Longrightarrow> db_ok db \<Longrightarrow>
    durable_of L (db_write (concat (map (\<lambda>i. [Delete UtxoCf (utxo_key i), Put UtxoSpent (utxo_key i) x]) is)) db) =
    fold (spend_one x) is (durable_of L db)"
proof (induction "is" arbitrary: db)
  case (Cons i "is")
  then show ?case using durable_run_op(2) [OF Cons.prems] by (simp add: db_write_def run_op_ok del: run_op.simps)
qed simp

lemma durable_creates:
  "disk_laws L \<Longrightarrow> db_ok db \<Longrightarrow>
    durable_of L (db_write (map (\<lambda>(i, out). Put UtxoCf (utxo_key i) (dl_output L out)) cs) db) = fold create_one cs (durable_of L db)"
proof (induction cs arbitrary: db)
  case (Cons c cs)
  obtain i out where c: "c = (i, out)" by (cases c)
  then show ?case using durable_run_op(3) [OF Cons.prems, of i out] Cons by (simp add: db_write_def run_op_ok del: run_op.simps)
qed simp

lemma durable_item:
  assumes "disk_laws L" "db_ok db"
  shows "durable_of L (db_write (item_batch_ops L W now counts item) db) = record_item W item (durable_of L db)"
proof -
  obtain b delta pc where item: "item = (b, delta, pc)" by (cases item)
  let ?rest = "tl (index_ops L now b) @ concat (map (\<lambda>p. [Delete Tips p] @
      (case counts p of None \<Rightarrow> [] | Some n \<Rightarrow> [Put ChildrenCount p (u64_to_le n)]) @ [Put ChildrenSet (edge_key p (sb_id b)) []]) (sb_parents b))"
  have ops: "item_batch_ops L W now counts item =
      delta_ops L (sb_id b) delta @ marker_ops W b @ [Put Blocks (sb_id b) (dl_block L b)] @ ?rest"
    by (simp add: item item_batch_ops_def index_ops_def)
  have other: "list_all other_column ?rest"
    by (auto simp: list_all_iff index_ops_def other_column_def touches_def split: option.splits)
  let ?db1 = "db_write (delta_ops L (sb_id b) delta) db"
  have d1: "durable_of L ?db1 = record_delta (sb_id b) delta (durable_of L db)"
    using durable_spends [OF assms] durable_creates [OF assms(1) db_write_ok [OF assms(2)]]
    by (cases delta) (simp_all add: delta_ops_def record_delta_def db_write_append)
  have ok1: "db_ok ?db1" using assms(2) by (rule db_write_ok)
  let ?db2 = "db_write (marker_ops W b) ?db1"
  have d2: "durable_of L ?db2 = record_markers W b (durable_of L ?db1)"
    using durable_run_op(4,5) [OF assms(1)] ok1 run_op_ok [OF ok1]
    by (cases "block_anti_replay_markers W b"; cases "fst (block_anti_replay_markers W b)"; cases "snd (block_anti_replay_markers W b)")
      (simp_all add: marker_ops_def record_markers_def db_write_def del: run_op.simps)
  have ok2: "db_ok ?db2" using ok1 by (rule db_write_ok)
  have "durable_of L (db_write (item_batch_ops L W now counts item) db) =
      durable_of L (db_write ?rest (run_op (Put Blocks (sb_id b) (dl_block L b)) ?db2))"
    by (simp add: ops db_write_append) (simp add: db_write_def)
  also have "\<dots> = (durable_of L ?db2)\<lparr>du_blocks := (du_blocks (durable_of L ?db2))(sb_id b \<mapsto> b)\<rparr>"
    using durable_other [OF other] durable_run_op(1) [OF assms(1) ok2] by simp
  finally show ?thesis by (simp add: d2 d1 record_item_def item Let_def)
qed

lemma durable_items:
  "disk_laws L \<Longrightarrow> db_ok db \<Longrightarrow>
    durable_of L (db_write (concat (map (item_batch_ops L W now counts) items)) db) = fold (record_item W) items (durable_of L db)"
  by (induction items arbitrary: db) (simp_all add: db_write_append durable_item db_write_ok)


subsection \<open>The queue on disk\<close>

definition tips_ok :: "database \<Rightarrow> bool" where
  "tips_ok db \<longleftrightarrow> (\<forall>p\<in>set (db Tips). length (snd p) = 8)"

definition rocks_ok :: "rocks \<Rightarrow> bool" where
  "rocks_ok rk \<longleftrightarrow> db_ok (rk_db rk) \<and> tips_ok (rk_db rk)"

definition trim_answers :: "faults \<Rightarrow> bool" where
  "trim_answers F \<longleftrightarrow> F (DbWrite ''trim_tips'') = None \<and> F (DbScan ''tips'') = None \<and> (\<forall>i. F (DbGet ''children_count'' i) = None)"

definition tip_put_ok :: "batch_op \<Rightarrow> bool" where
  "tip_put_ok op = (case op of Put c k v \<Rightarrow> c = Tips \<longrightarrow> length v = 8 | Delete c k \<Rightarrow> True)"

lemma cf_put_set: "set (cf_put k v m) \<subseteq> insert (k, v) (set m)"
  by (induction m) (auto split: if_splits)

lemma tips_ok_write:
  assumes "tips_ok db" "list_all tip_put_ok ops"
  shows "tips_ok (db_write ops db)"
  unfolding db_write_def using assms
proof (induction ops arbitrary: db)
  case (Cons op ops)
  have "tips_ok (run_op op db)"
    using Cons.prems cf_put_set by (cases op) (fastforce simp: tips_ok_def tip_put_ok_def cf_delete_def)+
  then show ?case using Cons by simp
qed simp

lemma rocks_ok_write: "rocks_ok rk \<Longrightarrow> list_all tip_put_ok ops \<Longrightarrow> rocks_ok (on_db (db_write ops) rk)"
  by (simp add: rocks_ok_def on_db_def db_write_ok tips_ok_write)

lemma read_tips_answer:
  assumes "trim_answers F" "\<forall>p\<in>set tips. length (snd p) = 8"
  shows "\<exists>read. try_map (read_tip F db) tips = Inr read"
  using assms(2)
proof (induction tips)
  case (Cons t tips)
  obtain ts where "be_to_i64 (snd t) = Inr ts" using Cons.prems by (simp add: be_to_i64_def)
  then show ?case using Cons assms(1) by (auto simp: read_tip_def children_count_def db_get_def trim_answers_def)
qed simp

lemma trim_tips_outcome:
  assumes "trim_answers F" "tips_ok (rk_db rk)"
  obtains gone rk' where "trim_tips F rk = (Inr (), rk')" "rk_db rk' = db_write (map (Delete Tips) gone) (rk_db rk)" "rk_bloom rk' = rk_bloom rk"
proof (cases "rk_tip_limit rk = 0 \<or> unat (rk_tip_estimate rk) \<le> rk_tip_limit rk")
  case True
  then show thesis by (intro that [of rk "[]"]) (simp_all add: trim_tips_def)
next
  case False
  obtain tips where tips: "try_map (read_tip F (rk_db rk)) (rk_db rk Tips) = Inr tips"
    using read_tips_answer assms by (metis tips_ok_def)
  let ?rk = "rk\<lparr>rk_tip_estimate := of_nat (length tips)\<rparr>"
  have trim: "trim_tips F rk = drop_tips F tips ?rk" using False tips assms(1) by (simp add: trim_tips_def trim_answers_def io_def)
  have accepted: "write_batch F ''trim_tips'' ops r = (Inr (), on_db (db_write ops) r)" for ops r
    using assms(1) by (simp add: write_batch_def trim_answers_def)
  show thesis
  proof (cases "surplus_tips (rk_tip_limit rk) tips = []")
    case True
    then show thesis by (intro that [of ?rk "[]"]) (simp_all add: trim drop_tips_def)
  next
    case False
    let ?gone = "surplus_tips (rk_tip_limit rk) tips"
    let ?rk' = "(on_db (db_write (map (Delete Tips) ?gone)) ?rk)
      \<lparr>rk_tip_estimate := of_nat (min (length (real_tips tips)) (max (rk_tip_limit rk) 1))\<rparr>"
    have "trim_tips F rk = (Inr (), ?rk')" using False by (simp add: trim drop_tips_def accepted then_do_def Let_def on_db_def)
    then show thesis by (rule that) (simp_all add: on_db_def)
  qed
qed

lemma deletes_other: "list_all other_column (map (Delete Tips) is)" "list_all tip_put_ok (map (Delete Tips) is)"
  by (simp_all add: list_all_iff other_column_def touches_def tip_put_ok_def)

lemma maybe_trim_outcome:
  assumes "trim_answers F" "rocks_ok rk"
  obtains rk' where "maybe_trim_tips F rk = (Inr (), rk')" "rocks_ok rk'" "durable_of L (rk_db rk') = durable_of L (rk_db rk)"
    "rk_bloom rk' = rk_bloom rk" "rk_db rk' Blocks = rk_db rk Blocks"
proof (cases "rk_persist_counter rk mod 64 = 0")
  case False
  then show thesis using assms
    by (intro that [of "rk\<lparr>rk_persist_counter := rk_persist_counter rk + 1\<rparr>"]) (simp_all add: maybe_trim_tips_def rocks_ok_def)
next
  case True
  let ?rk = "rk\<lparr>rk_persist_counter := rk_persist_counter rk + 1\<rparr>"
  have tips: "tips_ok (rk_db ?rk)" using assms(2) by (simp add: rocks_ok_def)
  obtain gone rk' where trim: "trim_tips F ?rk = (Inr (), rk')" "rk_db rk' = db_write (map (Delete Tips) gone) (rk_db ?rk)"
    "rk_bloom rk' = rk_bloom ?rk"
    by (rule trim_tips_outcome [OF assms(1) tips])
  have "db_write (map (Delete Tips) gone) db Blocks = db Blocks" for db
    unfolding db_write_def by (induction gone arbitrary: db) simp_all
  then show thesis using trim True assms(2) durable_other [OF deletes_other(1), of L gone] deletes_other(2)
    by (intro that [of rk']) (simp_all add: maybe_trim_tips_def rocks_ok_def db_write_ok tips_ok_write)
qed

lemma count_tips_fields [simp]:
  "rk_db (fold (\<lambda>item. count_tip (fst item)) items rk) = rk_db rk"
  "rk_bloom (fold (\<lambda>item. count_tip (fst item)) items rk) = rk_bloom rk"
  by (induction items arbitrary: rk) (simp_all add: count_tip_def)

lemma item_ops_tips: "list_all tip_put_ok (item_batch_ops L W now counts item)"
  by (auto simp: item_batch_ops_def delta_ops_def marker_ops_def index_ops_def tip_put_ok_def list_all_iff Let_def
      split: prod.split option.split)

lemma item_ops_block: "(Blocks, i) \<in> touches ` set (item_batch_ops L W now counts item) \<Longrightarrow> i = sb_id (fst item)"
  by (auto simp: item_batch_ops_def delta_ops_def marker_ops_def index_ops_def touches_def Let_def split: prod.splits option.splits)

text \<open>The outcome of a batch whose blocks are all taken for new ones.\<close>

lemma append_batch_outcome:
  assumes laws: "disk_laws L" and ok: "rocks_ok rk" and trim: "trim_answers F"
    and fresh: "\<forall>item\<in>set items. \<not> found_before F rk item"
    and append: "append_blocks_batch L W F now items rk = (r, rk')"
  shows "rocks_ok rk'"
    and "r = Inl e \<Longrightarrow> rk_db rk' = rk_db rk"
    and "r = Inr n \<Longrightarrow> durable_of L (rk_db rk') = fold (record_item W) items (durable_of L (rk_db rk))"
    and "\<forall>i. i \<notin> (sb_id \<circ> fst) ` set items \<longrightarrow> col_get (rk_db rk) Blocks i = None \<longrightarrow> col_get (rk_db rk') Blocks i = None"
    and "is_ok r \<longleftrightarrow> items = [] \<or> F (DbWrite ''append_blocks_batch'') = None"
proof -
  have all: "filter (\<lambda>item. \<not> found_before F rk item) items = items" using fresh by simp
  define ops where "ops = concat (map (item_batch_ops L W now (parent_counts items)) items)"
  define rk1 where "rk1 = fold (\<lambda>item. count_tip (fst item)) items rk"
  have rk1: "rk_db rk1 = rk_db rk" "rocks_ok rk1" using ok by (simp_all add: rk1_def rocks_ok_def)
  have "rocks_ok rk' \<and> (r = Inl e \<longrightarrow> rk_db rk' = rk_db rk) \<and>
    (r = Inr n \<longrightarrow> durable_of L (rk_db rk') = fold (record_item W) items (durable_of L (rk_db rk))) \<and>
    (\<forall>i. i \<notin> (sb_id \<circ> fst) ` set items \<longrightarrow> col_get (rk_db rk) Blocks i = None \<longrightarrow> col_get (rk_db rk') Blocks i = None) \<and>
    (is_ok r \<longleftrightarrow> items = [] \<or> F (DbWrite ''append_blocks_batch'') = None)"
  proof (cases "items = [] \<or> F (DbWrite ''append_blocks_batch'') \<noteq> None")
    case True
    then consider "items = []" "r = Inr 0" "rk' = rk"
      | f where "items \<noteq> []" "r = Inl f" "rk' = rk1" "F (DbWrite ''append_blocks_batch'') \<noteq> None"
      using append all by (cases "items = []") (auto simp: append_blocks_batch_def Let_def rk1_def write_batch_def then_do_def)
    then show ?thesis using rk1 ok by cases (simp_all add: is_ok_def)
  next
    case False
    let ?rk2 = "on_db (db_write ops) rk1"
    have tip_ops: "list_all tip_put_ok ops"
      unfolding ops_def using item_ops_tips by (auto simp: list_all_iff)
    have ok2: "rocks_ok ?rk2" by (rule rocks_ok_write [OF rk1(2) tip_ops])
    obtain rk3 where m: "maybe_trim_tips F ?rk2 = (Inr (), rk3)" "rocks_ok rk3" "durable_of L (rk_db rk3) = durable_of L (rk_db ?rk2)"
      "rk_bloom rk3 = rk_bloom ?rk2" "rk_db rk3 Blocks = rk_db ?rk2 Blocks"
      by (rule maybe_trim_outcome [OF trim ok2])
    have res: "r = Inr (length items)" "rk_db rk' = rk_db rk3" "rocks_ok rk'"
      using append all False m(1,2) by (auto simp: append_blocks_batch_def Let_def write_batch_def then_do_def ops_def rk1_def rocks_ok_def)
    have ok: "db_ok (rk_db rk)" using ok by (simp add: rocks_ok_def)
    have "durable_of L (rk_db rk') = fold (record_item W) items (durable_of L (rk_db rk))"
      using durable_items [OF laws ok] m(3) by (simp add: res(2) on_db_def rk1(1) ops_def)
    moreover have "col_get (rk_db rk') Blocks i = None"
      if "i \<notin> (sb_id \<circ> fst) ` set items" "col_get (rk_db rk) Blocks i = None" for i
    proof -
      have "(Blocks, i) \<notin> touches ` set ops"
      proof
        assume "(Blocks, i) \<in> touches ` set ops"
        then obtain item where "item \<in> set items" "(Blocks, i) \<in> touches ` set (item_batch_ops L W now (parent_counts items) item)"
          by (auto simp: ops_def)
        then show False using that(1) item_ops_block by fastforce
      qed
      then have "effect ops Blocks i = None" by (simp add: effect_None)
      then show ?thesis using col_get_write [OF ok, of ops Blocks i] that(2) m(5) by (simp add: res(2) col_get_def on_db_def rk1(1))
    qed
    moreover have "is_ok r \<longleftrightarrow> items = [] \<or> F (DbWrite ''append_blocks_batch'') = None"
      using False res(1) by (simp add: is_ok_def)
    ultimately show ?thesis using res by blast
  qed
  note facts = this
  show "rocks_ok rk'" "r = Inl e \<Longrightarrow> rk_db rk' = rk_db rk"
    "r = Inr n \<Longrightarrow> durable_of L (rk_db rk') = fold (record_item W) items (durable_of L (rk_db rk))"
    "\<forall>i. i \<notin> (sb_id \<circ> fst) ` set items \<longrightarrow> col_get (rk_db rk) Blocks i = None \<longrightarrow> col_get (rk_db rk') Blocks i = None"
    using facts by blast+
  show "is_ok r \<longleftrightarrow> items = [] \<or> F (DbWrite ''append_blocks_batch'') = None" using facts by (elim conjE)
qed

lemma absent_not_found: "col_get (rk_db rk) Blocks (sb_id (fst item)) = None \<Longrightarrow> \<not> found_before F rk item"
  by (auto simp: found_before_def db_get_def io_def split: sum.splits option.splits)

lemma try_append_outcome:
  assumes laws: "disk_laws L" and trim: "\<forall>p\<in>set attempts. trim_answers (fst p)" and ok: "rocks_ok rk"
    and absent: "\<forall>item\<in>set items. col_get (rk_db rk) Blocks (sb_id (fst item)) = None"
    and run: "try_append L W attempts items rk = (r, rk')"
  shows "rocks_ok rk' \<and>
    durable_of L (rk_db rk') = (if r = None then durable_of L (rk_db rk) else fold (record_item W) items (durable_of L (rk_db rk))) \<and>
    (\<forall>i. i \<notin> (sb_id \<circ> fst) ` set items \<longrightarrow> col_get (rk_db rk) Blocks i = None \<longrightarrow> col_get (rk_db rk') Blocks i = None) \<and>
    (items \<noteq> [] \<longrightarrow> (r = None \<longleftrightarrow> (\<forall>p\<in>set attempts. fst p (DbWrite ''append_blocks_batch'') \<noteq> None)))"
  using trim ok absent run
proof (induction attempts arbitrary: rk)
  case (Cons a attempts)
  obtain F now where a: "a = (F, now)" by (cases a)
  obtain x rk1 where append: "append_blocks_batch L W F now items rk = (x, rk1)" by fastforce
  have fresh: "\<forall>item\<in>set items. \<not> found_before F rk item" using Cons.prems(3) absent_not_found by blast
  have trim: "trim_answers F" using Cons.prems(1) a by simp
  note out = append_batch_outcome [OF laws Cons.prems(2) trim fresh append]
  show ?case
  proof (cases x)
    case (Inl e)
    then have "rk_db rk1 = rk_db rk" using out(2) by simp
    moreover have "items \<noteq> []" "F (DbWrite ''append_blocks_batch'') \<noteq> None" using out(5) Inl by (simp_all add: is_ok_def)
    ultimately show ?thesis using Cons.IH [of rk1] Cons.prems a append Inl out(1) by auto
  next
    case (Inr n)
    then show ?thesis using Cons.prems(4) a append out(1,3,4,5) by (auto simp: is_ok_def)
  qed
qed simp

lemma persist_final_outcome:
  assumes "rocks_ok rk"
  shows "rocks_ok (snd (persist_final F is rk))" "durable_of L (rk_db (snd (persist_final F is rk))) = durable_of L (rk_db rk)"
    "rk_db (snd (persist_final F is rk)) Blocks = rk_db rk Blocks"
proof -
  have ops: "list_all tip_put_ok (map (\<lambda>i. Put Final i []) is)" "list_all other_column (map (\<lambda>i. Put Final i []) is)"
    by (simp_all add: list_all_iff tip_put_ok_def other_column_def touches_def)
  have "db_write (map (\<lambda>i. Put Final i []) is) db Blocks = db Blocks" for db
    unfolding db_write_def by (induction "is" arbitrary: db) simp_all
  then show "rocks_ok (snd (persist_final F is rk))" "durable_of L (rk_db (snd (persist_final F is rk))) = durable_of L (rk_db rk)"
    "rk_db (snd (persist_final F is rk)) Blocks = rk_db rk Blocks"
    using assms rocks_ok_write [OF assms ops(1)] durable_other [OF ops(2), of L "rk_db rk"]
    by (simp_all add: persist_final_def write_batch_def on_db_def split: option.splits)
qed

definition record_jobs :: "wire_lib \<Rightarrow> persist_job list \<Rightarrow> durable \<Rightarrow> durable" where
  "record_jobs W jobs = fold (record_item W) (map job_item jobs)"

lemma queue_replayed:
  assumes "disk_laws L" "rocks_ok rk" "\<forall>ro\<in>set rounds. \<forall>p\<in>set (ro_attempts ro). trim_answers (fst p)"
    and "distinct (map (sb_id \<circ> pj_block) q)" "\<forall>job\<in>set q. col_get (rk_db rk) Blocks (sb_id (pj_block job)) = None"
    and "run_consumer L W rounds q activity rk = (alive, lost, activity', rk')"
  shows "\<exists>written. q = written @ lost \<and> durable_of L (rk_db rk') = record_jobs W written (durable_of L (rk_db rk))"
  using assms(2-)
proof (induction rounds arbitrary: q activity rk)
  case Nil
  then show ?case by (simp add: record_jobs_def)
next
  case (Cons ro rounds)
  show ?case
  proof (cases "q = []")
    case True
    then have "run_consumer L W rounds q activity rk = (alive, lost, activity', rk')" using Cons.prems(5) by simp
    then show ?thesis using Cons.prems by (intro Cons.IH) simp_all
  next
    case False
    let ?batch = "take (round_size ro) q" and ?rest = "drop (round_size ro) q"
    obtain r rk1 where try_it: "try_append L W (ro_attempts ro) (map job_item ?batch) rk = (r, rk1)" by fastforce
    have "\<forall>item\<in>set (map job_item ?batch). col_get (rk_db rk) Blocks (sb_id (fst item)) = None"
      using Cons.prems(4) by (auto simp: job_item_def dest: in_set_takeD)
    moreover have "\<forall>p\<in>set (ro_attempts ro). trim_answers (fst p)" using Cons.prems(2) by simp
    ultimately have out: "rocks_ok rk1" "durable_of L (rk_db rk1) =
        (if r = None then durable_of L (rk_db rk) else record_jobs W ?batch (durable_of L (rk_db rk)))"
      "\<forall>i. i \<notin> (sb_id \<circ> pj_block) ` set ?batch \<longrightarrow> col_get (rk_db rk) Blocks i = None \<longrightarrow> col_get (rk_db rk1) Blocks i = None"
      using try_append_outcome [OF assms(1) _ Cons.prems(1) _ try_it] by (auto simp: record_jobs_def job_item_def image_image)
    show ?thesis
    proof (cases r)
      case None
      then show ?thesis using Cons.prems(5) False try_it out(2) by (intro exI [of _ "[]"]) (auto simp: record_jobs_def Let_def)
    next
      case (Some n)
      let ?rk2 = "snd (persist_final (ro_final ro) (concat (map pj_newly_finalized ?batch)) rk1)"
      note final = persist_final_outcome(1) [OF out(1)] persist_final_outcome(2) [OF out(1), of L] persist_final_outcome(3) [OF out(1)]
      have split: "q = ?batch @ ?rest" by simp
      have distinct: "distinct (map (sb_id \<circ> pj_block) ?rest)"
        "\<forall>job\<in>set ?rest. sb_id (pj_block job) \<notin> (sb_id \<circ> pj_block) ` set ?batch"
        using Cons.prems(3) by (subst (asm) split, auto simp del: append_take_drop_id)+
      have absent: "\<forall>job\<in>set ?rest. col_get (rk_db ?rk2) Blocks (sb_id (pj_block job)) = None"
      proof
        fix job assume job: "job \<in> set ?rest"
        then have "col_get (rk_db rk) Blocks (sb_id (pj_block job)) = None" using Cons.prems(4) in_set_dropD by fast
        then have "col_get (rk_db rk1) Blocks (sb_id (pj_block job)) = None" using out(3) distinct(2) job by blast
        then show "col_get (rk_db ?rk2) Blocks (sb_id (pj_block job)) = None" by (simp add: col_get_def final(3))
      qed
      have run: "run_consumer L W rounds ?rest (activity @ forwarded ro ?batch) ?rk2 = (alive, lost, activity', rk')"
        using Cons.prems(5) False try_it Some by (simp add: Let_def)
      have "\<forall>ro\<in>set rounds. \<forall>p\<in>set (ro_attempts ro). trim_answers (fst p)" using Cons.prems(2) by simp
      then obtain written where "?rest = written @ lost"
        "durable_of L (rk_db rk') = record_jobs W written (durable_of L (rk_db ?rk2))"
        using Cons.IH [OF final(1) _ distinct(1) absent run] by blast
      then show ?thesis using split final(2) out(2) Some
        by (intro exI [of _ "?batch @ written"]) (simp add: record_jobs_def)
    qed
  qed
qed


definition empty_rocks :: rocks where
  "empty_rocks = \<lparr>rk_db = (\<lambda>_. []), rk_tip_limit = 64, rk_tip_estimate = 0, rk_persist_counter = 0, rk_bloom = bloom_new 1,
     rk_tips_cache = None\<rparr>"

definition sample_out :: "nat \<Rightarrow> output_id" where
  "sample_out n = \<lparr>op_txid = ''t'', op_index = of_nat n\<rparr>"

definition sample_stored :: "string \<Rightarrow> string list \<Rightarrow> stored_block" where
  "sample_stored i parents =
     \<lparr>sb_id = i, sb_parents = parents, sb_payload_json = None, sb_nonce = 0, sb_network_id = ''net'', sb_protocol_version = 1,
      sb_signer_pk_hex = ''pk'', sb_signature_hex = ''sig'', sb_metadata = None\<rparr>"

definition sample_jobs :: "persist_job list" where
  "sample_jobs =
     [\<lparr>pj_block = sample_stored ''a'' [''g''],
       pj_delta = Some \<lparr>ud_spend = [sample_out 0], ud_create = [(sample_out 1, txoutput_new ''m'' ''5'' None)]\<rparr>,
       pj_newly_finalized = [''g''], pj_parent_counts = [(''g'', 1)]\<rparr>,
      \<lparr>pj_block = sample_stored ''b'' [''a''],
       pj_delta = Some \<lparr>ud_spend = [sample_out 1], ud_create = [(sample_out 2, txoutput_new ''n'' ''5'' None)]\<rparr>,
       pj_newly_finalized = [], pj_parent_counts = [(''a'', 1)]\<rparr>]"

definition write_fails :: faults where
  "write_fails = (\<lambda>c. if c = DbWrite ''append_blocks_batch'' then Some ''disk full'' else None)"

text \<open>The first attempt fails, the second writes the first block; the batch of the second block never succeeds.\<close>

definition sample_rounds :: "round list" where
  "sample_rounds =
     [\<lparr>ro_ready = 1, ro_attempts = [(write_fails, 1), (no_faults, 2)], ro_final = no_faults, ro_now = 3, ro_accepts = (\<lambda>_. True)\<rparr>,
      \<lparr>ro_ready = 1, ro_attempts = [(write_fails, 4)], ro_final = no_faults, ro_now = 5, ro_accepts = (\<lambda>_. True)\<rparr>]"

lemma empty_rocks_ok: "rocks_ok empty_rocks"
  by (simp add: rocks_ok_def empty_rocks_def db_ok_def tips_ok_def cf_ok_def)

lemma sample_run:
  obtains activity rk where "run_consumer ref_disk ref_wire sample_rounds sample_jobs [] empty_rocks = (False, tl sample_jobs, activity, rk)"
proof -
  let ?ro1 = "hd sample_rounds" and ?ro2 = "hd (tl sample_rounds)" and ?a = "hd sample_jobs" and ?b = "hd (tl sample_jobs)"
  have rounds: "sample_rounds = [?ro1, ?ro2]" "round_size ?ro1 = 1" "round_size ?ro2 = 1" and jobs: "sample_jobs = [?a, ?b]"
    by (simp_all add: sample_rounds_def sample_jobs_def round_size_def max_batch_size_def)
  have trim: "\<forall>p\<in>set (ro_attempts ?ro1). trim_answers (fst p)" "\<forall>p\<in>set (ro_attempts ?ro2). trim_answers (fst p)"
    by (simp_all add: sample_rounds_def trim_answers_def write_fails_def no_faults_def)
  obtain r1 rk1 where try1: "try_append ref_disk ref_wire (ro_attempts ?ro1) [job_item ?a] empty_rocks = (r1, rk1)" by fastforce
  have absent1: "\<forall>item\<in>set [job_item ?a]. col_get (rk_db empty_rocks) Blocks (sb_id (fst item)) = None"
    by (simp add: empty_rocks_def col_get_def cf_get_def)
  note out1 = try_append_outcome [OF ref_disk_laws trim(1) empty_rocks_ok absent1 try1]
  have "r1 \<noteq> None" using out1 by (simp add: sample_rounds_def no_faults_def)
  then obtain n where r1: "r1 = Some n" by blast
  let ?rk2 = "snd (persist_final (ro_final ?ro1) (concat (map pj_newly_finalized [?a])) rk1)"
  have rk1: "rocks_ok rk1" using out1 by blast
  obtain r2 rk3 where try2: "try_append ref_disk ref_wire (ro_attempts ?ro2) [job_item ?b] ?rk2 = (r2, rk3)" by fastforce
  have "col_get (rk_db rk1) Blocks ''b'' = None"
    using out1 by (simp add: sample_jobs_def job_item_def sample_stored_def empty_rocks_def col_get_def cf_get_def)
  then have absent2: "\<forall>item\<in>set [job_item ?b]. col_get (rk_db ?rk2) Blocks (sb_id (fst item)) = None"
    using persist_final_outcome(3) [OF rk1] by (simp add: sample_jobs_def job_item_def sample_stored_def col_get_def)
  have "r2 = None"
    using try_append_outcome [OF ref_disk_laws trim(2) persist_final_outcome(1) [OF rk1] absent2 try2]
    by (simp add: sample_rounds_def write_fails_def)
  then have "run_consumer ref_disk ref_wire [?ro1, ?ro2] [?a, ?b] [] empty_rocks = (False, [?b], forwarded ?ro1 [?a], rk3)"
    using try1 try2 r1 rounds(2,3) by simp
  then show thesis using that rounds(1) jobs by (metis list.sel(3))
qed


end
