(* ===== verification/DiskFacts.thy ===== *)
theory DiskFacts
  imports DiskStore
begin

section \<open>What the durable store guarantees, and where it does not\<close>

text \<open>
  Consequences for the readers of the store after a restart, the filter in front of the lookup of duplicates, the trim and
  the repair of the tips.
\<close>

subsection \<open>After a restart\<close>

lemma fold_spend_keeps: "du_spent s j \<noteq> None \<Longrightarrow> du_spent (fold (spend_one x) sps s) j \<noteq> None"
  by (induction sps arbitrary: s) (simp_all add: spend_one_def)

lemma fold_spend_marks: "j \<in> set sps \<Longrightarrow> du_spent (fold (spend_one x) sps s) j \<noteq> None"
proof (induction sps arbitrary: s)
  case (Cons i sps)
  show ?case
  proof (cases "i = j")
    case True
    then have "du_spent (spend_one x i s) j \<noteq> None" by (simp add: spend_one_def)
    then show ?thesis using fold_spend_keeps by simp
  qed (use Cons in simp)
qed simp

lemma fold_create_fields [simp]:
  "du_spent (fold create_one cs s) = du_spent s" "du_locks (fold create_one cs s) = du_locks s"
  "du_nonces (fold create_one cs s) = du_nonces s" "du_blocks (fold create_one cs s) = du_blocks s"
  by (induction cs arbitrary: s) (simp_all add: create_one_def)

lemma fold_spend_fields [simp]:
  "du_locks (fold (spend_one x) sps s) = du_locks s" "du_nonces (fold (spend_one x) sps s) = du_nonces s"
  "du_blocks (fold (spend_one x) sps s) = du_blocks s"
  by (induction sps arbitrary: s) (simp_all add: spend_one_def)

text \<open>\<open>remembers W item s\<close>: the block, the spent inputs and the marker of the item are in \<open>s\<close>.\<close>

definition remembers :: "wire_lib \<Rightarrow> batch_item \<Rightarrow> durable \<Rightarrow> bool" where
  "remembers W item s \<longleftrightarrow>
     du_blocks s (sb_id (fst item)) = Some (fst item) \<and>
     (\<forall>d. fst (snd item) = Some d \<longrightarrow> (\<forall>i\<in>set (ud_spend d). du_spent s i \<noteq> None)) \<and>
     (\<forall>l. fst (block_anti_replay_markers W (fst item)) = Some l \<longrightarrow> du_locks s l \<noteq> None) \<and>
     (\<forall>k. snd (block_anti_replay_markers W (fst item)) = Some k \<longrightarrow> du_nonces s k \<noteq> None)"

lemma record_item_remembers: "remembers W item (record_item W item s)"
  by (auto simp: remembers_def record_item_def record_markers_def record_delta_def fold_spend_marks case_prod_beta Let_def
      split: option.split)

lemma record_item_keeps:
  "du_spent s i \<noteq> None \<Longrightarrow> du_spent (record_item W item s) i \<noteq> None"
  "du_locks s l \<noteq> None \<Longrightarrow> du_locks (record_item W item s) l \<noteq> None"
  "du_nonces s k \<noteq> None \<Longrightarrow> du_nonces (record_item W item s) k \<noteq> None"
  "sb_id (fst item) \<noteq> b \<Longrightarrow> du_blocks (record_item W item s) b = du_blocks s b"
  by (cases "fst (snd item)"; simp add: record_item_def record_markers_def record_delta_def case_prod_beta Let_def fold_spend_keeps
      split: option.split del: not_None_eq)+

lemma remembers_kept:
  assumes "remembers W item s" "sb_id (fst item') \<noteq> sb_id (fst item)"
  shows "remembers W item (record_item W item' s)"
proof -
  have "du_blocks (record_item W item' s) (sb_id (fst item)) = du_blocks s (sb_id (fst item))"
    using assms(2) by (rule record_item_keeps(4))
  then show ?thesis using assms(1) record_item_keeps(1-3) unfolding remembers_def by metis
qed

lemma record_items_remember:
  "distinct (map (sb_id \<circ> fst) items) \<Longrightarrow> item \<in> set items \<Longrightarrow> remembers W item (fold (record_item W) items s)"
proof (induction items arbitrary: s)
  case (Cons x items)
  have kept: "remembers W item (fold (record_item W) ys s')"
    if "remembers W item s'" "sb_id (fst item) \<notin> (sb_id \<circ> fst) ` set ys" for ys s'
    using that
  proof (induction ys arbitrary: s')
    case (Cons y ys)
    then have "remembers W item (record_item W y s')" by (intro remembers_kept) auto
    then show ?case using Cons by simp
  qed simp
  show ?case
  proof (cases "x = item")
    case True
    then show ?thesis using Cons.prems(1) kept [OF record_item_remembers] by simp
  next
    case False
    then show ?thesis using Cons by simp
  qed
qed simp

lemma remembered_reads:
  assumes "remembers W item (durable_of L db)"
  shows "get_stored_block no_faults L db (sb_id (fst item)) = Inr (Some (fst item))"
    and "fst (snd item) = Some d \<Longrightarrow> i \<in> set (ud_spend d) \<Longrightarrow> is_outpoint_spent no_faults db (op_txid i) (op_index i) = Inr True"
    and "fst (block_anti_replay_markers W (fst item)) = Some l \<Longrightarrow> is_bridge_lock_consumed no_faults db l = Inr True"
    and "snd (block_anti_replay_markers W (fst item)) = Some k \<Longrightarrow> is_custodial_mint_consumed no_faults db k = Inr True"
  using assms
  by (auto simp: remembers_def durable_of_def get_stored_block_def is_outpoint_spent_def is_bridge_lock_consumed_def
      is_custodial_mint_consumed_def db_get_def utxo_key_def bind_eq_Some_conv)

text \<open>
  Claim C37. After a restart nothing written is forgotten: for every job of the queue that is not lost with the background
  task, the store gives back its block, reports each of its inputs as spent, and reports its bridge lock or its custodial
  nonce as consumed.
\<close>

theorem restart_refuses_replays:
  assumes "disk_laws L" "rocks_ok rk" "\<forall>ro\<in>set rounds. \<forall>p\<in>set (ro_attempts ro). trim_answers (fst p)"
    and "distinct (map (sb_id \<circ> pj_block) q)" "\<forall>job\<in>set q. col_get (rk_db rk) Blocks (sb_id (pj_block job)) = None"
    and "run_consumer L W rounds q activity rk = (alive, lost, activity', rk')" and job: "job \<in> set q" "job \<notin> set lost"
  shows "get_stored_block no_faults L (rk_db rk') (sb_id (pj_block job)) = Inr (Some (pj_block job)) \<and>
    (\<forall>d. pj_delta job = Some d \<longrightarrow>
       (\<forall>i\<in>set (ud_spend d). is_outpoint_spent no_faults (rk_db rk') (op_txid i) (op_index i) = Inr True)) \<and>
    (\<forall>l. fst (block_anti_replay_markers W (pj_block job)) = Some l \<longrightarrow> is_bridge_lock_consumed no_faults (rk_db rk') l = Inr True) \<and>
    (\<forall>k. snd (block_anti_replay_markers W (pj_block job)) = Some k \<longrightarrow>
       is_custodial_mint_consumed no_faults (rk_db rk') k = Inr True)"
proof -
  obtain written where w: "q = written @ lost" "durable_of L (rk_db rk') = record_jobs W written (durable_of L (rk_db rk))"
    using queue_replayed [OF assms(1-6)] by blast
  have "remembers W (job_item job) (durable_of L (rk_db rk'))"
    unfolding w(2) record_jobs_def
  proof (rule record_items_remember)
    show "distinct (map (sb_id \<circ> fst) (map job_item written))" using assms(4) w(1) by (simp add: job_item_def comp_def)
    show "job_item job \<in> set (map job_item written)" using job w(1) by auto
  qed
  from remembered_reads [OF this] show ?thesis by (simp add: job_item_def)
qed

theorem restart_refuses_replays_witness:
  "\<exists>alive lost activity' rk'. run_consumer ref_disk ref_wire sample_rounds sample_jobs [] empty_rocks = (alive, lost, activity', rk') \<and>
     is_outpoint_spent no_faults (rk_db rk') ''t'' 0 = Inr True"
proof -
  obtain act rk where run: "run_consumer ref_disk ref_wire sample_rounds sample_jobs [] empty_rocks = (False, tl sample_jobs, act, rk)"
    by (rule sample_run)
  have trim: "\<forall>ro\<in>set sample_rounds. \<forall>p\<in>set (ro_attempts ro). trim_answers (fst p)"
    by (simp add: sample_rounds_def trim_answers_def write_fails_def no_faults_def)
  have new: "distinct (map (sb_id \<circ> pj_block) sample_jobs)"
    "\<forall>job\<in>set sample_jobs. col_get (rk_db empty_rocks) Blocks (sb_id (pj_block job)) = None"
    by (simp_all add: sample_jobs_def sample_stored_def empty_rocks_def col_get_def cf_get_def)
  have "hd sample_jobs \<in> set sample_jobs" "hd sample_jobs \<notin> set (tl sample_jobs)"
    by (simp_all add: sample_jobs_def sample_stored_def)
  from restart_refuses_replays [OF ref_disk_laws empty_rocks_ok trim new run this]
  have "is_outpoint_spent no_faults (rk_db rk) ''t'' 0 = Inr True"
    by (simp add: sample_jobs_def sample_out_def)
  then show ?thesis using run by blast
qed


subsection \<open>Duplicates\<close>

text \<open>
  A block among the last insertions of the filter, as many as one of its segments holds, is never written again:
  if the block is stored and its lookup answers, an append of it writes nothing and counts nothing.
\<close>

lemma recent_block_written_once:
  assumes "bloom_holds (rk_bloom rk) xs" "sb_id b \<in> set (drop (length xs - bl_capacity (rk_bloom rk)) xs)"
    and "col_get (rk_db rk) Blocks (sb_id b) \<noteq> None" "F (DbGet ''blocks'' (sb_id b)) = None"
  shows "append_blocks_batch L W F now [(b, delta, counts)] rk = (Inr 0, rk)"
proof -
  have "found_before F rk (b, delta, counts)"
    using bloom_remembers [OF assms(1,2)] assms(3,4) by (auto simp: found_before_def db_get_def io_def)
  then show ?thesis by (simp add: append_blocks_batch_def)
qed

definition filter_of :: "nat \<Rightarrow> string list \<Rightarrow> blocks_bloom" where
  "filter_of capacity xs = fold bloom_insert xs (mark_warmed (bloom_new capacity))"

lemma filter_of_holds: "bloom_holds (filter_of capacity xs) xs" "bl_capacity (filter_of capacity xs) = capacity"
  "bl_warmed (filter_of capacity xs)"
proof -
  have "bloom_holds (mark_warmed (bloom_new capacity)) []"
    using bloom_holds_new [of capacity] by (simp add: bloom_holds_def mark_warmed_def)
  then show "bloom_holds (filter_of capacity xs) xs" using bloom_holds_inserts [of _ "[]" xs] by (simp add: filter_of_def)
  have "bl_capacity (fold bloom_insert xs bl) = bl_capacity bl \<and> bl_warmed (fold bloom_insert xs bl) = bl_warmed bl" for bl
    by (induction xs arbitrary: bl) simp_all
  then show "bl_capacity (filter_of capacity xs) = capacity" "bl_warmed (filter_of capacity xs)"
    by (simp_all add: filter_of_def mark_warmed_def bloom_new_def)
qed

definition stored_rocks :: rocks where
  "stored_rocks = empty_rocks
     \<lparr>rk_db := db_write (item_batch_ops ref_disk ref_wire 1 Map.empty (sample_stored ''a'' [], None, [])) (\<lambda>_. []),
      rk_bloom := filter_of 2 [''z'', ''a'']\<rparr>"

lemma recent_block_written_once_witness:
  "append_blocks_batch ref_disk ref_wire no_faults 7 [(sample_stored ''a'' [], None, [])] stored_rocks = (Inr 0, stored_rocks)"
proof (rule recent_block_written_once)
  show "bloom_holds (rk_bloom stored_rocks) [''z'', ''a'']" by (simp add: stored_rocks_def filter_of_holds)
  show "sb_id (sample_stored ''a'' []) \<in> set (drop (length [''z'', ''a''] - bl_capacity (rk_bloom stored_rocks)) [''z'', ''a''])"
    by (simp add: stored_rocks_def filter_of_holds sample_stored_def)
  show "col_get (rk_db stored_rocks) Blocks (sb_id (sample_stored ''a'' [])) \<noteq> None"
    by (simp add: stored_rocks_def item_batch_ops_def delta_ops_def marker_ops_def block_anti_replay_markers_def index_ops_def
        db_write_def sample_stored_def col_get_def cf_get_def)
qed (simp add: no_faults_def)

text \<open>
  The filter forgets: a segment that has been rotated out twice no longer answers for its identifiers. The answer ``not in
  the filter'' is taken for ``not in the store'', so a stored block is written again.
\<close>

lemma put_bits_only: "0 \<notin> set ps \<Longrightarrow> \<not> has_bit bits 0 \<Longrightarrow> list_all (\<lambda>p. p < 64) ps \<Longrightarrow> \<not> has_bit (fold put_bit ps bits) 0"
proof (induction ps arbitrary: bits)
  case (Cons p ps)
  have "\<not> has_bit (put_bit p bits) 0"
    using Cons.prems by (cases bits) (auto simp: has_bit_iff put_bit_def bit_or_iff bit_exp_iff)
  then show ?case using Cons by simp
qed simp

definition zeros :: string where "zeros = replicate 64 CHR ''0''"
definition ones :: string where "ones = replicate 64 CHR ''1''"
definition threes :: string where "threes = replicate 64 CHR ''3''"

lemma hash_samples:
  "hash_pair zeros = (0, 0)" "hash_pair ones = (0x1111111111111111, 0x1111111111111111)"
  "hash_pair threes = (0x3333333333333333, 0x3333333333333333)"
  by (simp_all add: hash_pair_def hash_half_def zeros_def ones_def threes_def hex_byte_def upt_rec)

lemma segment_of_one: "new_segment 1 = \<lparr>sg_bits = [0], sg_bits_count = 64, sg_inserted = 0\<rparr>"
  by (simp add: new_segment_def)

lemma filter_forgets: "\<not> maybe_contains (filter_of 1 [zeros, ones, threes]) zeros"
proof -
  let ?seg = "\<lambda>i. seg_insert i (new_segment 1)"
  have f: "bl_front (filter_of 1 [zeros, ones, threes]) = ?seg threes" "bl_back (filter_of 1 [zeros, ones, threes]) = ?seg ones"
    by (simp_all add: filter_of_def bloom_insert_def mark_warmed_def bloom_new_def seg_insert_def segment_of_one Let_def)
  have "\<not> seg_contains (?seg i) zeros" if "i = ones \<or> i = threes" for i
  proof -
    have p: "seg_positions (new_segment 1) zeros = replicate 7 0"
      by (simp add: seg_positions_def hash_samples seg_position_def upt_rec numeral_eq_Suc)
    have "0 \<notin> set (seg_positions (new_segment 1) i)" "list_all (\<lambda>p. p < 64) (seg_positions (new_segment 1) i)"
      using that by (elim disjE; simp add: seg_positions_def hash_samples seg_position_def segment_of_one upt_rec del: One_nat_def)+
    then have "\<not> has_bit (sg_bits (?seg i)) 0"
      using put_bits_only [of "seg_positions (new_segment 1) i" "[0]"] by (simp add: seg_insert_def segment_of_one has_bit_iff del: One_nat_def)
    then show ?thesis using p by (simp add: seg_contains_def seg_positions_insert numeral_eq_Suc)
  qed
  then show ?thesis by (simp add: maybe_contains_def f del: One_nat_def)
qed

lemma unfiltered_block_written_again:
  assumes "disk_laws L" "rocks_ok rk" "trim_answers F" "F (DbWrite ''append_blocks_batch'') = None"
    and "bl_warmed (rk_bloom rk)" "\<not> maybe_contains (rk_bloom rk) (sb_id b)"
    and "append_blocks_batch L W F now [(b, delta, counts)] rk = (r, rk')"
  shows "is_ok r" "durable_of L (rk_db rk') = record_item W (b, delta, counts) (durable_of L (rk_db rk))"
proof -
  have "\<forall>item\<in>set [(b, delta, counts)]. \<not> found_before F rk item" using assms(5,6) by (simp add: found_before_def)
  note out = append_batch_outcome [OF assms(1-3) this assms(7)]
  show ok: "is_ok r" using out(5) assms(4) by simp
  then obtain n where "r = Inr n" by (cases r) (simp_all add: is_ok_def)
  from out(3) [OF this] show "durable_of L (rk_db rk') = record_item W (b, delta, counts) (durable_of L (rk_db rk))" by simp
qed

lemma unfiltered_block_revives_output:
  assumes "disk_laws L" "rocks_ok rk" "trim_answers F" "F (DbWrite ''append_blocks_batch'') = None"
    and "bl_warmed (rk_bloom rk)" "\<not> maybe_contains (rk_bloom rk) (sb_id b)"
    and "append_blocks_batch L W F now [(b, Some \<lparr>ud_spend = [], ud_create = [(i, out)]\<rparr>, counts)] rk = (r, rk')"
    and spent: "du_utxos (durable_of L (rk_db rk)) i = None" "du_spent (durable_of L (rk_db rk)) i = Some x"
  shows "du_utxos (durable_of L (rk_db rk')) i = Some out" "du_spent (durable_of L (rk_db rk')) i = Some x"
  unfolding unfiltered_block_written_again(2) [OF assms(1-7)]
  using spent by (simp_all add: record_item_def record_markers_def record_delta_def create_one_def)

text \<open>A lookup that fails counts as a block that is not stored, with the same effect.\<close>

lemma unread_block_written_again:
  assumes "disk_laws L" "rocks_ok rk" "trim_answers F" "F (DbWrite ''append_blocks_batch'') = None"
    and "F (DbGet ''blocks'' (sb_id b)) = Some e" and "append_blocks_batch L W F now [(b, delta, counts)] rk = (r, rk')"
  shows "durable_of L (rk_db rk') = record_item W (b, delta, counts) (durable_of L (rk_db rk))"
proof -
  have "\<forall>item\<in>set [(b, delta, counts)]. \<not> found_before F rk item" using assms(5) by (simp add: found_before_def db_get_def io_def)
  note out = append_batch_outcome [OF assms(1-3) this assms(6)]
  have "is_ok r" using out(5) assms(4) by simp
  then obtain n where "r = Inr n" by (cases r) (simp_all add: is_ok_def)
  from out(3) [OF this] show ?thesis by simp
qed

text \<open>The two copies of a block in one batch are both counted, and indexed twice.\<close>

lemma twins_counted_twice:
  assumes "col_get (rk_db rk) Blocks (sb_id b) = None" "rk_tip_limit rk = 0"
  shows "fst (append_blocks_batch L W no_faults now [(b, None, []), (b, None, [])] rk) = Inr 2"
proof -
  have "\<not> found_before no_faults rk (b, None, [])" by (rule absent_not_found) (simp add: assms)
  then show ?thesis
    using assms(2) by (simp add: append_blocks_batch_def write_batch_def then_do_def no_faults_def maybe_trim_tips_def trim_tips_def
        count_tip_def on_db_def Let_def)
qed


subsection \<open>Tips\<close>

definition tip_ids :: "database \<Rightarrow> string set" where
  "tip_ids db = fst ` set (db Tips)"

definition real_tip_ids :: "database \<Rightarrow> string set" where
  "real_tip_ids db = {i \<in> tip_ids db. real_tip db i}"

definition time_of_tip :: "database \<Rightarrow> string \<Rightarrow> int" where
  "time_of_tip db i = sint (tip_time (the (col_get db Tips i)))"

lemma read_tips:
  assumes "trim_answers F" "\<forall>p\<in>set tips. length (snd p) = 8"
  shows "try_map (read_tip F db) tips = Inr (map (\<lambda>(i, v). (i, tip_time v, count_value (col_get db ChildrenCount i))) tips)"
  using assms(2)
proof (induction tips)
  case (Cons t tips)
  obtain i v where t: "t = (i, v)" by (cases t)
  have "read_tip F db t = Inr (i, tip_time v, count_value (col_get db ChildrenCount i))"
    using Cons.prems assms(1)
    by (simp add: t read_tip_def be_to_i64_def tip_time_def be_to_ts_def children_count_def db_get_def trim_answers_def)
  then show ?case using Cons by (simp add: t)
qed simp

lemma tips_after_deletes: "tip_ids (db_write (map (Delete Tips) gone) db) = tip_ids db - set gone"
  unfolding db_write_def by (induction gone arbitrary: db) (auto simp: tip_ids_def cf_delete_def)

lemma cf_tips_distinct: "db_ok db \<Longrightarrow> distinct (map fst (db Tips))"
  by (simp add: db_ok_def cf_ok_def strict_sorted_iff)

lemma tip_ids_get: "db_ok db \<Longrightarrow> (i, v) \<in> set (db Tips) \<Longrightarrow> col_get db Tips i = Some v"
  using cf_tips_distinct [of db] by (simp add: col_get_def cf_get_def)


text \<open>Three tips for a limit of one: one has a child, the older of the others goes.\<close>

definition tips_rocks :: "(string \<times> 64 word) list \<Rightarrow> (string \<times> u64) list \<Rightarrow> rocks" where
  "tips_rocks tips counts = empty_rocks
     \<lparr>rk_db := db_write (map (\<lambda>(i, ts). Put Tips i (ts_to_be ts)) tips @ map (\<lambda>(i, n). Put ChildrenCount i (u64_to_le n)) counts) (\<lambda>_. []),
      rk_tip_limit := 1, rk_tip_estimate := 3\<rparr>"

lemma tips_rocks_ok: "rocks_ok (tips_rocks tips counts)"
proof -
  have empty: "db_ok (\<lambda>_. [])" "tips_ok (\<lambda>_. [])" by (simp_all add: db_ok_def cf_ok_def tips_ok_def)
  have "list_all tip_put_ok (map (\<lambda>(i, ts). Put Tips i (ts_to_be ts)) tips @ map (\<lambda>(i, n). Put ChildrenCount i (u64_to_le n)) counts)"
    by (auto simp: list_all_iff tip_put_ok_def)
  then show ?thesis using db_write_ok [OF empty(1)] tips_ok_write [OF empty(2)] by (simp add: rocks_ok_def tips_rocks_def)
qed


text \<open>
  Nothing keeps a tip that has a child: when all of them have one, the trim leaves none, whatever the limit. The comment
  promises that one always stays, since an empty list stops the distribution of the fees.
\<close>

lemma trim_can_empty_tips:
  "tip_ids (rk_db (snd (trim_tips no_faults (tips_rocks [(''a'', 1), (''b'', 2)] [(''a'', 1), (''b'', 1)])))) = {}"
  by (simp add: tip_ids_def trim_tips_def drop_tips_def surplus_tips_def zombie_tips_def real_tips_def tips_rocks_def empty_rocks_def
      db_write_def read_tip_def children_count_def db_get_def col_get_def cf_get_def count_value_def write_batch_def then_do_def
      on_db_def cf_delete_def no_faults_def io_def less_char_def Let_def)


text \<open>
  The estimate of the number of tips goes down by the number of parents, tips or not: from the zero of a start it wraps, and
  the status of the DAG reports the greatest number of the machine.
\<close>

lemma estimate_wraps: "rk_tip_estimate (count_tip (sample_stored ''c'' [''a'', ''b'']) empty_rocks) = 2 ^ 64 - 1"
  by (simp add: count_tip_def empty_rocks_def sample_stored_def)

text \<open>The order by time has no fallback: after an import, which writes no time, it answers no block at all.\<close>

lemma time_order_has_no_fallback:
  "0 < n \<Longrightarrow> db ByTime = [] \<Longrightarrow> newest_block_ids_by_time no_faults db n = Inr []"
  "0 < n \<Longrightarrow> newest_block_ids no_faults db n = Inr (rev (take n (rev (map fst (db IdxBlocks)))))"
  by (simp_all add: newest_block_ids_by_time_def newest_block_ids_def scan_keys_def map_filter_simps)

end
