(* ===== verification/Spec2Isabelle.thy ===== *)
theory Spec2Isabelle
  imports Amount FeePolicy Economics Ledger HotSteps Mint Authority Market Governance KeyRotation Nft Assets UtxoGate ContractAdmin Emission LegacyDag NodeRewards WireGate MintArms Persist DiskFacts
begin

text \<open>
  The planetary monetary system is a ledger node in Rust (src/crates): a DAG of blocks whose payloads
  move, mint and burn assets held as unspent transaction outputs. This development models its core.
\<close>

end
